(* ===== verification/Prelude.thy ===== *)
theory Prelude
  imports Complex_Main "HOL-Library.AList"
begin

text \<open>
  Shared vocabulary of the development: the numbers and instants the components compute
  with, the string and dictionary primitives of the language the code is written in, the
  decimal rounding rules of its money columns, and the generic lemmas the component
  theories use. A dictionary keeps the insertion order of its keys, so it is an
  association list updated in place; the locale \<open>dict_ops\<close> states the laws every client
  relies on and is interpreted on the association-list operations.
\<close>

named_theorems py_simps \<open>unfolding rules of the language primitives\<close>
named_theorems frame_simps \<open>what an operation leaves unchanged\<close>

text \<open>
  \<open>Decimal\<close> and \<open>float\<close> values are exact rationals. An instant is a whole number of
  microseconds since the epoch (a timezone-aware \<open>datetime\<close>).
\<close>

type_synonym dec = rat
type_synonym flt = rat
type_synonym instant = int

definition seconds :: "int \<Rightarrow> int" where
  "seconds s = s * 1000000"

section \<open>Strings\<close>

definition char_upper :: "char \<Rightarrow> char" where
  "char_upper c =
     (let n = (of_char c :: nat) in if 97 \<le> n \<and> n \<le> 122 then char_of (n - 32) else c)"

definition char_lower :: "char \<Rightarrow> char" where
  "char_lower c =
     (let n = (of_char c :: nat) in if 65 \<le> n \<and> n \<le> 90 then char_of (n + 32) else c)"

definition str_upper :: "string \<Rightarrow> string" where
  "str_upper s = map char_upper s"

definition str_lower :: "string \<Rightarrow> string" where
  "str_lower s = map char_lower s"

definition is_space :: "char \<Rightarrow> bool" where
  "is_space c = (let n = (of_char c :: nat) in n = 32 \<or> (9 \<le> n \<and> n \<le> 13) \<or> (28 \<le> n \<and> n \<le> 31))"

definition str_strip :: "string \<Rightarrow> string" where
  "str_strip s = rev (dropWhile is_space (rev (dropWhile is_space s)))"

lemma strip_strip: "str_strip (str_strip s) = str_strip s"
proof -
  define u where "u = dropWhile is_space s"
  define v where "v = rev (dropWhile is_space (rev u))"
  have uv: "u = v @ rev (takeWhile is_space (rev u))" by (metis rev_append rev_rev_ident takeWhile_dropWhile_id v_def)
  have "v \<noteq> [] \<Longrightarrow> \<not> is_space (hd v)"
    using uv hd_dropWhile [of is_space s] by (metis append_is_Nil_conv hd_append2 u_def)
  then have "dropWhile is_space v = v" by (metis dropWhile_eq_self_iff)
  then show ?thesis by (simp add: str_strip_def flip: u_def) (simp add: v_def dropWhile_idem)
qed

lemma char_upper_upper: "char_upper (char_upper c) = char_upper c"
  by (auto simp: char_upper_def Let_def of_char_of take_bit_eq_mod)

lemma is_space_upper: "is_space (char_upper c) = is_space c"
  by (auto simp: char_upper_def is_space_def Let_def of_char_of take_bit_eq_mod)

lemma strip_upper: "str_strip (str_upper s) = str_upper (str_strip s)"
  by (simp add: str_strip_def str_upper_def rev_map dropWhile_map comp_def is_space_upper flip: map_map)

lemma upper_upper: "str_upper (str_upper s) = str_upper s"
  by (simp add: str_upper_def char_upper_upper)

fun starts_with :: "string \<Rightarrow> string \<Rightarrow> bool" where
  "starts_with s [] = True"
| "starts_with [] (p # ps) = False"
| "starts_with (c # cs) (p # ps) = (c = p \<and> starts_with cs ps)"

definition digit_char :: "nat \<Rightarrow> char" where
  "digit_char d = char_of (48 + d)"

fun nat_str :: "nat \<Rightarrow> string" where
  "nat_str n = (if n < 10 then [digit_char n] else nat_str (n div 10) @ [digit_char (n mod 10)])"

declare nat_str.simps [simp del]

definition int_str :: "int \<Rightarrow> string" where
  "int_str i = (if i < 0 then ''-'' @ nat_str (nat (- i)) else nat_str (nat i))"

fun frac_str :: "nat \<Rightarrow> rat \<Rightarrow> string" where
  "frac_str 0 r = []"
| "frac_str (Suc n) r =
     (if r = 0 then []
      else let d = \<lfloor>r * 10\<rfloor> in digit_char (nat d) # frac_str n (r * 10 - of_int d))"

text \<open>
  The positional form \<open>repr\<close> prints for a float between \<open>10 ^ -4\<close> and \<open>10 ^ 16\<close>: at least
  one fractional digit, at most the seventeen a double carries.
\<close>

definition flt_str :: "flt \<Rightarrow> string" where
  "flt_str r =
     (let a = \<bar>r\<bar>; f = frac_str 17 (a - of_int \<lfloor>a\<rfloor>)
      in (if r < 0 then ''-'' else []) @ nat_str (nat \<lfloor>a\<rfloor>) @ ''.'' @ (if f = [] then ''0'' else f))"

definition opt_str :: "string option \<Rightarrow> string" where
  "opt_str x = (case x of None \<Rightarrow> ''None'' | Some s \<Rightarrow> s)"

text \<open>\<open>a or b\<close> on optional strings: the empty string is as good as absent.\<close>

definition str_truthy :: "string option \<Rightarrow> bool" where
  "str_truthy x = (case x of None \<Rightarrow> False | Some s \<Rightarrow> s \<noteq> [])"

definition str_or :: "string option \<Rightarrow> string \<Rightarrow> string" where
  "str_or x d = (case x of None \<Rightarrow> d | Some s \<Rightarrow> if s = [] then d else s)"

lemma str_or_Some_ne [simp]: "s \<noteq> [] \<Longrightarrow> str_or (Some s) d = s"
  by (simp add: str_or_def)

lemma str_or_None [simp]: "str_or None d = d"
  by (simp add: str_or_def)

section \<open>Dictionaries\<close>

type_synonym ('k, 'v) dict = "('k \<times> 'v) list"

abbreviation dict_get :: "('k, 'v) dict \<Rightarrow> 'k \<Rightarrow> 'v option" where
  "dict_get d k \<equiv> map_of d k"

abbreviation dict_set :: "'k \<Rightarrow> 'v \<Rightarrow> ('k, 'v) dict \<Rightarrow> ('k, 'v) dict" where
  "dict_set k v d \<equiv> AList.update k v d"

abbreviation dict_pop :: "'k \<Rightarrow> ('k, 'v) dict \<Rightarrow> ('k, 'v) dict" where
  "dict_pop k d \<equiv> AList.delete k d"

definition dict_has :: "('k, 'v) dict \<Rightarrow> 'k \<Rightarrow> bool" where
  "dict_has d k = (map_of d k \<noteq> None)"

fun dict_update :: "('k, 'v) dict \<Rightarrow> ('k, 'v) dict \<Rightarrow> ('k, 'v) dict" where
  "dict_update d [] = d"
| "dict_update d ((k, v) # kvs) = dict_update (dict_set k v d) kvs"

lemma dict_get_set [simp]: "dict_get (dict_set k v d) k' = (if k' = k then Some v else dict_get d k')"
  by (simp add: update_conv')

lemma dict_get_pop [simp]: "dict_get (dict_pop k d) k' = (if k' = k then None else dict_get d k')"
  by (simp add: delete_conv')

lemma dict_get_update:
  "distinct (map fst e) \<Longrightarrow>
   dict_get (dict_update d e) k = (case dict_get e k of None \<Rightarrow> dict_get d k | Some v \<Rightarrow> Some v)"
proof (induction e arbitrary: d)
  case Nil
  then show ?case by simp
next
  case (Cons kv e)
  obtain k1 v1 where "kv = (k1, v1)" by force
  with Cons show ?case
    by (auto split: option.splits simp: map_of_eq_None_iff image_iff)
qed

lemma keys_dict_set: "fst ` set (dict_set k v d) = insert k (fst ` set d)"
  by (simp add: dom_update)

text \<open>
  The contract of a keyed store: a read after a write, and a write elsewhere. The lemmas
  inside are the frame facts the evaluators and the repositories use.
\<close>

locale dict_ops =
  fixes lookup :: "'d \<Rightarrow> 'k \<Rightarrow> 'v option"
    and put :: "'k \<Rightarrow> 'v \<Rightarrow> 'd \<Rightarrow> 'd"
    and drop_key :: "'k \<Rightarrow> 'd \<Rightarrow> 'd"
  assumes lookup_put: "lookup (put k v d) k' = (if k' = k then Some v else lookup d k')"
    and lookup_drop: "lookup (drop_key k d) k' = (if k' = k then None else lookup d k')"
begin

lemma lookup_put_same: "lookup (put k v d) k = Some v"
  by (simp add: lookup_put)

lemma lookup_put_other: "k' \<noteq> k \<Longrightarrow> lookup (put k v d) k' = lookup d k'"
  by (simp add: lookup_put)

lemma put_put_lookup: "lookup (put k v (put k w d)) = lookup (put k v d)"
  by (rule ext) (simp add: lookup_put)

lemma put_commute_lookup:
  "k \<noteq> k' \<Longrightarrow> lookup (put k v (put k' w d)) = lookup (put k' w (put k v d))"
  by (rule ext) (simp add: lookup_put)

lemma drop_put_lookup: "lookup (drop_key k (put k v d)) = lookup (drop_key k d)"
  by (rule ext) (simp add: lookup_put lookup_drop)

lemma fold_put_frame:
  "k \<notin> fst ` set kvs \<Longrightarrow> lookup (fold (\<lambda>(k, v). put k v) kvs d) k = lookup d k"
  by (induction kvs arbitrary: d) (auto simp: lookup_put)

end

interpretation alist_dict: dict_ops map_of AList.update AList.delete
  by unfold_locales (simp_all add: update_conv' delete_conv')

section \<open>Lists\<close>

lemma sum_list_map_nonneg:
  fixes f :: "'a \<Rightarrow> 'b::ordered_comm_monoid_add"
  shows "(\<And>x. x \<in> set xs \<Longrightarrow> 0 \<le> f x) \<Longrightarrow> 0 \<le> sum_list (map f xs)"
  by (induction xs) (auto intro: add_nonneg_nonneg)

lemma sum_list_map_filter_split:
  fixes f :: "'a \<Rightarrow> 'b::comm_monoid_add"
  shows "sum_list (map f xs) = sum_list (map f (filter P xs)) + sum_list (map f (filter (Not \<circ> P) xs))"
  by (induction xs) (auto simp: ac_simps)

text \<open>\<open>list(dict.fromkeys(xs))\<close>: the first occurrence of every element, in order.\<close>

fun dedup :: "'a list \<Rightarrow> 'a list" where
  "dedup [] = []"
| "dedup (x # xs) = x # filter (\<lambda>y. y \<noteq> x) (dedup xs)"

lemma set_dedup [simp]: "set (dedup xs) = set xs"
  by (induction xs) auto

lemma distinct_dedup [simp]: "distinct (dedup xs)"
  by (induction xs) auto

lemma dedup_eq_Nil [simp]: "dedup xs = [] \<longleftrightarrow> xs = []"
  by (cases xs) auto

lemma dedup_distinct_id: "distinct xs \<Longrightarrow> dedup xs = xs"
  by (induction xs) (auto intro!: filter_True)

section \<open>Decimal rounding\<close>

text \<open>
  Rounding to \<open>n\<close> decimal places with ties away from zero: \<open>ROUND_HALF_UP\<close> of the decimal
  module and the rule of the database's \<open>NUMERIC\<close> columns.
\<close>

definition round_half_up :: "nat \<Rightarrow> rat \<Rightarrow> rat" where
  "round_half_up n x =
     (let m = 10 ^ n; k = \<lfloor>\<bar>x\<bar> * m + 1 / 2\<rfloor>
      in (if x < 0 then - (of_int k / m) else of_int k / m))"

definition on_grid :: "nat \<Rightarrow> rat \<Rightarrow> bool" where
  "on_grid n x \<longleftrightarrow> x * 10 ^ n \<in> \<int>"

lemma on_gridI: "x * 10 ^ n = of_int k \<Longrightarrow> on_grid n x"
  by (simp add: on_grid_def)

lemma on_gridE:
  assumes "on_grid n x"
  obtains k where "x = of_int k / 10 ^ n"
proof -
  from assms obtain k where "x * 10 ^ n = of_int k"
    unfolding on_grid_def by (auto elim: Ints_cases)
  then have "x = of_int k / 10 ^ n" by (simp add: eq_divide_eq)
  then show thesis by (rule that)
qed

lemma on_grid_0 [simp]: "on_grid n 0"
  by (simp add: on_grid_def)

lemma on_grid_add: "on_grid n x \<Longrightarrow> on_grid n y \<Longrightarrow> on_grid n (x + y)"
  by (simp add: on_grid_def ring_distribs)

lemma on_grid_diff: "on_grid n x \<Longrightarrow> on_grid n y \<Longrightarrow> on_grid n (x - y)"
  by (simp add: on_grid_def ring_distribs)

lemma on_grid_uminus: "on_grid n x \<Longrightarrow> on_grid n (- x)"
  by (simp add: on_grid_def)

lemma on_grid_of_int_mult: "on_grid n x \<Longrightarrow> on_grid n (x * of_int q)"
proof -
  assume g: "on_grid n x"
  have "x * 10 ^ n * of_int q \<in> \<int>"
    by (rule Ints_mult) (use g in \<open>simp_all add: on_grid_def\<close>)
  then show ?thesis by (simp add: on_grid_def ac_simps)
qed

lemma on_grid_of_int: "on_grid n (of_int k)"
  by (simp add: on_grid_def)

lemma on_grid_scale: "on_grid n x \<Longrightarrow> y * 10 ^ m \<in> \<int> \<Longrightarrow> on_grid (n + m) (x * y)"
proof -
  assume "on_grid n x" "y * 10 ^ m \<in> \<int>"
  then have "(x * 10 ^ n) * (y * 10 ^ m) \<in> \<int>" unfolding on_grid_def by (rule Ints_mult)
  then show ?thesis by (simp add: on_grid_def power_add ac_simps)
qed

lemma on_grid_mono: "on_grid n x \<Longrightarrow> n \<le> m \<Longrightarrow> on_grid m x"
proof -
  assume g: "on_grid n x" and "n \<le> m"
  then obtain d where m: "m = n + d" by (auto simp: le_iff_add)
  have "on_grid (n + d) (x * 1)" by (rule on_grid_scale [OF g]) simp
  then show ?thesis by (simp add: m)
qed

lemmas on_grid_intros =
  on_grid_0 on_grid_add on_grid_diff on_grid_uminus on_grid_of_int_mult on_grid_of_int

lemma round_half_up_on_grid: "on_grid n (round_half_up n x)"
  by (simp add: round_half_up_def on_grid_def Let_def)

lemma floor_abs_half: "\<lfloor>of_int \<bar>k\<bar> + 1 / 2 :: rat\<rfloor> = \<bar>k\<bar>"
  by (rule floor_unique) simp_all

lemma round_half_up_exact: "on_grid n x \<Longrightarrow> round_half_up n x = x"
proof -
  assume "on_grid n x"
  then obtain k where k: "x = of_int k / 10 ^ n" by (rule on_gridE)
  have ab: "\<bar>x\<bar> * 10 ^ n = of_int \<bar>k\<bar>" by (simp add: k abs_divide)
  have neg: "x < 0 \<longleftrightarrow> k < 0" by (simp add: k divide_less_0_iff)
  show ?thesis
    unfolding round_half_up_def Let_def ab floor_abs_half neg by (simp add: k abs_if)
qed

lemma round_half_up_nonneg: "0 \<le> x \<Longrightarrow> 0 \<le> round_half_up n x"
  by (simp add: round_half_up_def Let_def)

lemma round_half_up_error: "\<bar>round_half_up n x - x\<bar> * (2 * 10 ^ n) \<le> 1"
proof -
  define m :: rat where "m = 10 ^ n"
  define a where "a = \<bar>x\<bar>"
  define k where "k = \<lfloor>a * m + 1 / 2\<rfloor>"
  have m: "0 < m" by (simp add: m_def)
  have lo: "of_int k \<le> a * m + 1 / 2" and hi: "a * m + 1 / 2 < of_int k + 1"
    unfolding k_def by linarith+
  have "\<bar>of_int k / m - a\<bar> * (2 * m) = \<bar>of_int k - a * m\<bar> * 2"
  proof -
    have "of_int k / m - a = (of_int k - a * m) / m" using m by (simp add: field_simps)
    then show ?thesis using m by (simp add: abs_divide)
  qed
  also have "\<dots> \<le> 1" using lo hi by (simp add: abs_if)
  finally have b: "\<bar>of_int k / m - a\<bar> * (2 * m) \<le> 1" .
  have "\<bar>round_half_up n x - x\<bar> = \<bar>of_int k / m - a\<bar>"
    by (auto simp: round_half_up_def Let_def k_def a_def m_def abs_if)
  with b show ?thesis by (simp add: m_def)
qed

end
