(* ===== verification/Json.thy ===== *)
theory Json
  imports Prelude "HOL-Library.List_Lexorder" "HOL-Library.Char_ord"
begin

text \<open>
  JSON values as the documents, contexts and stored snapshots carry them, the type tests
  the code applies to them (a boolean is never a number), and the canonical compact
  rendering used to build identities. An ISO-8601 timestamp string is represented by the
  instant it denotes (\<open>JTime\<close>).
\<close>

datatype jval =
    JNull
  | JBool bool
  | JInt int
  | JNum rat
  | JStr string
  | JTime instant
  | JList "jval list"
  | JObj "(string \<times> jval) list"

type_synonym jobj = "(string, jval) dict"

text \<open>\<open>isinstance(v, (int, float)) and not isinstance(v, bool)\<close>, then \<open>float(v)\<close>.\<close>

fun jnum :: "jval \<Rightarrow> rat option" where
  "jnum (JInt i) = Some (of_int i)"
| "jnum (JNum r) = Some r"
| "jnum _ = None"

fun jint :: "jval \<Rightarrow> int option" where
  "jint (JInt i) = Some i"
| "jint _ = None"

fun jstr :: "jval \<Rightarrow> string option" where
  "jstr (JStr s) = Some s"
| "jstr _ = None"

fun jbool :: "jval \<Rightarrow> bool option" where
  "jbool (JBool b) = Some b"
| "jbool _ = None"

fun jdict :: "jval \<Rightarrow> jobj option" where
  "jdict (JObj d) = Some d"
| "jdict _ = None"

lemma jdict_Some: "jdict v = Some d \<longleftrightarrow> v = JObj d"
  by (cases v) auto

lemma jbool_Some: "jbool v = Some b \<longleftrightarrow> v = JBool b"
  by (cases v) auto

text \<open>\<open>d.get(k)\<close>: a missing key and a null value are the same thing.\<close>

definition obj_get :: "jobj \<Rightarrow> string \<Rightarrow> jval" where
  "obj_get d k = (case dict_get d k of None \<Rightarrow> JNull | Some v \<Rightarrow> v)"

definition obj_num :: "jobj \<Rightarrow> string \<Rightarrow> rat option" where
  "obj_num d k = jnum (obj_get d k)"

text \<open>\<open>bool(v)\<close>.\<close>

fun jtruth :: "jval \<Rightarrow> bool" where
  "jtruth JNull = False"
| "jtruth (JBool b) = b"
| "jtruth (JInt i) = (i \<noteq> 0)"
| "jtruth (JNum r) = (r \<noteq> 0)"
| "jtruth (JStr s) = (s \<noteq> [])"
| "jtruth (JTime t) = True"
| "jtruth (JList xs) = (xs \<noteq> [])"
| "jtruth (JObj d) = (d \<noteq> [])"

section \<open>Size\<close>

text \<open>The number of nodes: the measure of the functions that descend into operand trees.\<close>

fun jsize :: "jval \<Rightarrow> nat" where
  "jsize (JList xs) = Suc (sum_list (map jsize xs))"
| "jsize (JObj kvs) = Suc (sum_list (map (\<lambda>(k, v). jsize v) kvs))"
| "jsize _ = 1"

definition dsize :: "jobj \<Rightarrow> nat" where
  "dsize d = sum_list (map (\<lambda>(k, v). jsize v) d)"

lemma dsize_simps [simp]:
  "dsize [] = 0" "dsize ((k, v) # d) = jsize v + dsize d"
  by (simp_all add: dsize_def)

lemma jsize_JObj: "jsize (JObj d) = Suc (dsize d)"
  by (simp add: dsize_def)

declare jsize.simps(2) [simp del]
declare jsize_JObj [simp]

lemma jsize_pos [simp]: "0 < jsize v"
  by (cases v) auto

lemma dsize_get: "dict_get d k = Some v \<Longrightarrow> jsize v \<le> dsize d"
  by (induction d) (auto split: if_splits)

lemma dsize_set: "dsize (dict_set k v d) \<le> dsize d + jsize v"
  by (induction d) auto

lemma dsize_update: "dsize (dict_update d e) \<le> dsize d + dsize e"
proof (induction e arbitrary: d)
  case Nil
  then show ?case by simp
next
  case (Cons kv e)
  obtain k v where kv: "kv = (k, v)" by force
  have "dsize (dict_update (dict_set k v d) e) \<le> dsize (dict_set k v d) + dsize e"
    by (rule Cons.IH)
  also have "\<dots> \<le> dsize d + jsize v + dsize e" by (simp add: dsize_set)
  finally show ?case by (simp add: kv)
qed

lemma dsize_filter: "dsize (filter P d) \<le> dsize d"
  by (induction d) auto

lemma dsize_pop: "dsize (dict_pop k d) \<le> dsize d"
  by (simp add: AList.delete_eq dsize_filter)

lemma jsize_member_less: "x \<in> set xs \<Longrightarrow> jsize x < jsize (JList xs)"
  by (simp add: less_Suc_eq_le member_le_sum_list)

section \<open>Canonical rendering\<close>

definition hex_digit :: "nat \<Rightarrow> char" where
  "hex_digit n = (if n < 10 then char_of (48 + n) else char_of (87 + n))"

definition json_escape_char :: "char \<Rightarrow> string" where
  "json_escape_char c =
     (let n = (of_char c :: nat) in
      if n = 34 then [char_of (92::nat), char_of (34::nat)]
      else if n = 92 then [char_of (92::nat), char_of (92::nat)]
      else if n = 10 then [char_of (92::nat), CHR ''n'']
      else if n = 13 then [char_of (92::nat), CHR ''r'']
      else if n = 9 then [char_of (92::nat), CHR ''t'']
      else if n = 8 then [char_of (92::nat), CHR ''b'']
      else if n = 12 then [char_of (92::nat), CHR ''f'']
      else if n < 32 \<or> 126 < n
        then [char_of (92::nat), CHR ''u'', CHR ''0'', CHR ''0'', hex_digit (n div 16), hex_digit (n mod 16)]
      else [c])"

definition json_string :: "string \<Rightarrow> string" where
  "json_string s = [char_of (34::nat)] @ concat (map json_escape_char s) @ [char_of (34::nat)]"

fun join :: "string \<Rightarrow> string list \<Rightarrow> string" where
  "join sep [] = []"
| "join sep [x] = x"
| "join sep (x # y # zs) = x @ sep @ join sep (y # zs)"

text \<open>
  \<open>json.dumps(v, sort_keys=True, separators=(",", ":"))\<close>. The instant of a \<open>JTime\<close> is
  rendered as its microsecond count between quotes.
\<close>

fun json_dumps :: "jval \<Rightarrow> string" where
  "json_dumps JNull = ''null''"
| "json_dumps (JBool b) = (if b then ''true'' else ''false'')"
| "json_dumps (JInt i) = int_str i"
| "json_dumps (JNum r) = flt_str r"
| "json_dumps (JStr s) = json_string s"
| "json_dumps (JTime t) = json_string (int_str t)"
| "json_dumps (JList xs) = ''['' @ join '','' (map json_dumps xs) @ '']''"
| "json_dumps (JObj kvs) =
     ''{'' @ join '',''
       (map snd (sort_key fst (map (\<lambda>(k, v). (k, json_string k @ '':'' @ json_dumps v)) kvs))) @ ''}''"

section \<open>Conversions\<close>

text \<open>
  \<open>str(v)\<close> of a scalar document value; a nested container is rendered by its canonical JSON.
\<close>

fun py_str :: "jval \<Rightarrow> string" where
  "py_str JNull = ''None''"
| "py_str (JBool b) = (if b then ''True'' else ''False'')"
| "py_str (JInt i) = int_str i"
| "py_str (JNum r) = flt_str r"
| "py_str (JStr s) = s"
| "py_str v = json_dumps v"

definition digit_value :: "char \<Rightarrow> nat option" where
  "digit_value c = (let n = (of_char c :: nat) in if 48 \<le> n \<and> n \<le> 57 then Some (n - 48) else None)"

fun digits_value :: "nat \<Rightarrow> string \<Rightarrow> nat option" where
  "digits_value acc [] = Some acc"
| "digits_value acc (c # cs) =
     (case digit_value c of None \<Rightarrow> None | Some d \<Rightarrow> digits_value (acc * 10 + d) cs)"

definition parse_int :: "string \<Rightarrow> int option" where
  "parse_int s =
     (case str_strip s of
        [] \<Rightarrow> None
      | c # cs \<Rightarrow>
          if c = CHR ''-'' \<and> cs \<noteq> [] then map_option (\<lambda>n. - int n) (digits_value 0 cs)
          else if c = CHR ''+'' \<and> cs \<noteq> [] then map_option int (digits_value 0 cs)
          else map_option int (digits_value 0 (c # cs)))"

text \<open>\<open>int(v)\<close>: \<open>None\<close> when it raises. Digit separators inside a numeral are not accepted.\<close>

fun py_int :: "jval \<Rightarrow> int option" where
  "py_int (JInt i) = Some i"
| "py_int (JNum r) = Some (if r < 0 then - \<lfloor>- r\<rfloor> else \<lfloor>r\<rfloor>)"
| "py_int (JBool b) = Some (if b then 1 else 0)"
| "py_int (JStr s) = parse_int s"
| "py_int _ = None"

end
