(* ===== verification/Reconciliation.thy ===== *)
theory Reconciliation
  imports Json
begin

text \<open>
  Operator reconciliation of hosted strategy attempts: \<open>strategies/reconciliation.py\<close> (the
  pure classifier \<open>assess\<close> and the digest of the gating axes),
  \<open>strategies/reconciliation_service.py\<close> (the evidence collector) and the capability
  snapshot parser of \<open>strategies/service.py\<close>. The evidence axes are strings, as in the
  code: a value outside the documented vocabulary is a value like any other.

  The theorems say that the classifier fails closed: an allowed assessment has every axis
  clean, and over collected evidence a launched trading-capable attempt is never allowed.
\<close>

section \<open>Evidence and classification\<close>

record reconciliation_evidence =
  ev_job_id :: string
  ev_strategy_id :: string
  ev_attempt :: int
  ev_run_id :: "string option"
  ev_launched :: bool
  ev_trade_capable :: bool
  ev_execution_mode :: string
  ev_job_status :: string
  ev_desired_state :: string
  ev_replacement_blocked :: bool
  ev_process_cleanup_state :: "string option"
  ev_process_cleanup_at :: "instant option"
  ev_process_cleanup_actor :: "string option"
  ev_authority_state :: string
  ev_run_status :: "string option"
  ev_work_state :: string
  ev_exposure_state :: string
  ev_protection_state :: string
  ev_recovery_action_required :: bool
  ev_evidence_complete :: bool
  ev_unavailable :: "string list"
  ev_notes :: "string list"
  ev_settlement_watermark :: "string option"
  ev_quiescence_state :: string

record reconciliation_assessment =
  as_allowed :: bool
  as_case :: string
  as_reason_code :: string
  as_blocking_reasons :: "string list"
  as_notes :: "string list"

definition assessment ::
  "bool \<Rightarrow> string \<Rightarrow> string \<Rightarrow> string list \<Rightarrow> string list \<Rightarrow> reconciliation_assessment" where
  "assessment allowed case_name reason blocking notes =
     \<lparr>as_allowed = allowed, as_case = case_name, as_reason_code = reason,
      as_blocking_reasons = blocking, as_notes = notes\<rparr>"

lemma assessment_sel [simp]:
  "as_allowed (assessment a c r b n) = a" "as_case (assessment a c r b n) = c"
  "as_reason_code (assessment a c r b n) = r" "as_blocking_reasons (assessment a c r b n) = b"
  "as_notes (assessment a c r b n) = n"
  by (simp_all add: assessment_def)

definition process_blockers :: "reconciliation_evidence \<Rightarrow> string list" where
  "process_blockers e =
     (if ev_process_cleanup_state e = Some ''unresolved'' then [''PROCESS_CLEANUP_UNRESOLVED'']
      else if ev_process_cleanup_state e \<noteq> Some ''confirmed'' then [''PROCESS_CLEANUP_UNKNOWN'']
      else [])"

definition authority_blockers :: "reconciliation_evidence \<Rightarrow> string list" where
  "authority_blockers e =
     (if ev_authority_state e = ''active'' then [''AUTHORITY_ACTIVE'']
      else if ev_authority_state e \<noteq> ''revoked'' then [''AUTHORITY_UNCERTAIN'']
      else [])"

definition work_blockers :: "reconciliation_evidence \<Rightarrow> string list" where
  "work_blockers e =
     (if ev_work_state e = ''outstanding'' then [''OUTSTANDING_WORK'']
      else if ev_work_state e = ''unknown'' then [''WORK_UNKNOWN'']
      else [])"

definition exposure_blockers :: "reconciliation_evidence \<Rightarrow> string list" where
  "exposure_blockers e =
     (if ev_exposure_state e = ''open'' then [''OPEN_EXPOSURE'']
      else if ev_exposure_state e = ''unknown'' then [''EXPOSURE_UNKNOWN'']
      else [])"

definition active_statuses :: "string list" where
  "active_statuses = [''queued'', ''starting'', ''running'']"

definition assess :: "reconciliation_evidence \<Rightarrow> reconciliation_assessment" where
  "assess e =
     (let notes = ev_notes e in
      if ev_job_status e \<in> set active_statuses
        then assessment False ''blocked'' ''HOSTED_JOB_ACTIVE'' [''HOSTED_JOB_ACTIVE''] notes
      else if \<not> ev_replacement_blocked e
        then assessment False ''not_blocked'' ''HOSTED_JOB_NOT_BLOCKED'' [] notes
      else if \<not> ev_evidence_complete e \<or> ev_unavailable e \<noteq> []
        then assessment False ''blocked'' ''EVIDENCE_UNAVAILABLE'' [''EVIDENCE_UNAVAILABLE'']
               (notes @ map (\<lambda>item. ''unavailable:'' @ item) (ev_unavailable e))
      else
        let blockers = work_blockers e @ exposure_blockers e
              @ (if ev_recovery_action_required e then [''RECOVERY_ACTION_PENDING''] else [])
        in
        if \<not> ev_launched e then
          (if blockers \<noteq> [] then assessment False ''blocked'' (hd blockers) blockers notes
           else assessment True ''unlaunched'' ''UNLAUNCHED'' []
                  (notes @ [''no child credential was handed off'']))
        else if \<not> ev_trade_capable e then
          (let blockers = blockers
                 @ (if ev_exposure_state e \<notin> {''not_applicable'', ''flat''}
                    then exposure_blockers e else [])
                 @ process_blockers e @ authority_blockers e
           in if blockers \<noteq> [] then assessment False ''blocked'' (hd blockers) blockers notes
              else assessment True ''data_only_completed'' ''DATA_ONLY_COMPLETED'' []
                     (notes @ [''data-only attempt; no trading authority or work'']))
        else
          (let blockers = dedup (blockers @ process_blockers e @ authority_blockers e
                 @ (if ev_exposure_state e \<noteq> ''flat'' then exposure_blockers e else [])
                 @ (if ev_protection_state e = ''unknown'' then [''PROTECTION_UNKNOWN'']
                    else if ev_protection_state e = ''active'' then [''RECOVERY_ACTION_PENDING'']
                    else [])
                 @ (if ev_quiescence_state e \<noteq> ''verified''
                    then [''EXECUTION_QUIESCENCE_UNVERIFIED''] else []))
           in if blockers \<noteq> [] then assessment False ''blocked'' (hd blockers) blockers notes
              else assessment True ''trading_settled_flat'' ''TRADING_SETTLED_FLAT'' []
                     (notes @ [''process cleanup confirmed; work settled; no exposure; authority revoked''])))"

text \<open>
  The digest hashes the gating axes. The hash (SHA-256 over the canonical JSON) is a
  parameter; what the code chooses is the list of axes.
\<close>

record gating_axes =
  ga_job_id :: string
  ga_attempt :: int
  ga_job_status :: string
  ga_launched :: bool
  ga_trade_capable :: bool
  ga_process_cleanup_state :: "string option"
  ga_authority_state :: string
  ga_run_status :: "string option"
  ga_work_state :: string
  ga_exposure_state :: string
  ga_protection_state :: string
  ga_recovery_action_required :: bool
  ga_evidence_complete :: bool
  ga_unavailable :: "string list"
  ga_settlement_watermark :: "string option"
  ga_quiescence_state :: string

definition canonical_axes :: "reconciliation_evidence \<Rightarrow> gating_axes" where
  "canonical_axes e =
     \<lparr>ga_job_id = ev_job_id e, ga_attempt = ev_attempt e, ga_job_status = ev_job_status e,
      ga_launched = ev_launched e, ga_trade_capable = ev_trade_capable e,
      ga_process_cleanup_state = ev_process_cleanup_state e,
      ga_authority_state = ev_authority_state e, ga_run_status = ev_run_status e,
      ga_work_state = ev_work_state e, ga_exposure_state = ev_exposure_state e,
      ga_protection_state = ev_protection_state e,
      ga_recovery_action_required = ev_recovery_action_required e,
      ga_evidence_complete = ev_evidence_complete e,
      ga_unavailable = sort (ev_unavailable e),
      ga_settlement_watermark = ev_settlement_watermark e,
      ga_quiescence_state = ev_quiescence_state e\<rparr>"

definition evidence_digest :: "(gating_axes \<Rightarrow> 'h) \<Rightarrow> reconciliation_evidence \<Rightarrow> 'h" where
  "evidence_digest digest e = digest (canonical_axes e)"

section \<open>Capability snapshots\<close>

definition capability_keys :: "string list" where
  "capability_keys = [''data'', ''trade'', ''notify'']"

datatype snapshot_error =
    SnapshotMissing
  | UnsupportedSchema
  | NoCapabilityMap
  | UnknownCapabilities "string list"
  | NotBoolean string

fun parse_capability_keys :: "jobj \<Rightarrow> string list \<Rightarrow> snapshot_error + (string, bool) dict" where
  "parse_capability_keys caps [] = Inr []"
| "parse_capability_keys caps (k # ks) =
     (case jbool (obj_get caps k) of
        None \<Rightarrow> Inl (NotBoolean k)
      | Some b \<Rightarrow> (case parse_capability_keys caps ks of
          Inl err \<Rightarrow> Inl err
        | Inr rest \<Rightarrow> Inr ((k, b) # rest)))"

definition parse_capability_snapshot :: "jval \<Rightarrow> snapshot_error + (string, bool) dict" where
  "parse_capability_snapshot snapshot =
     (case jdict snapshot of
        None \<Rightarrow> Inl SnapshotMissing
      | Some d \<Rightarrow>
          if jnum (obj_get d ''schema_version'') \<noteq> Some 2 then Inl UnsupportedSchema
          else (case jdict (obj_get d ''capabilities'') of
              None \<Rightarrow> Inl NoCapabilityMap
            | Some caps \<Rightarrow>
                let unknown = sort (filter (\<lambda>k. k \<notin> set capability_keys) (dedup (map fst caps)))
                in if unknown \<noteq> [] then Inl (UnknownCapabilities unknown)
                   else parse_capability_keys caps capability_keys))"

section \<open>Collecting the evidence\<close>

text \<open>
  What the collector reads. A quantity that does not convert to an integer is \<open>None\<close>; a
  source that raises or returns something else than its documented shape is a constructor
  of its own.
\<close>

datatype run_position = MalformedPosition | PositionQty "int option"

record paper_run_view =
  rv_strategy_run_id :: "string option"
  rv_strategy_id :: "string option"
  rv_is_stale :: bool
  rv_positions :: "run_position list option"
  rv_last_event_at :: "string option"
  rv_last_updated_at :: "string option"

datatype run_state_view = NoRunState | MalformedRunState | RunState paper_run_view

record settlement_payload =
  sp_account_scope :: "string option"
  sp_strategy_run_id :: "string option"
  sp_order_count :: "int option"
  sp_pending_order_count :: "int option"
  sp_coverage_complete :: "bool option"
  sp_run_state :: run_state_view

datatype paper_reader = NoPaperReader | PaperReadFails | PaperNotADict | PaperPayload settlement_payload

datatype option_reader = NoOptionReader | OptionReadFails | OptionStatus "string option"

record settlement_result =
  sr_work_state :: string
  sr_exposure_state :: string
  sr_unavailable :: "string list"
  sr_watermark :: "string option"

record hosted_job =
  job_id :: string
  job_strategy_id :: string
  job_attempt :: int
  job_run_id :: "string option"
  job_token_id :: "string option"
  job_account_scope :: string
  job_execution_mode :: string
  job_status :: string
  job_desired_state :: string
  job_handoff_at :: "instant option"
  job_reconciled_at :: "instant option"
  job_capabilities_snapshot :: jval
  job_process_cleanup_state :: "string option"
  job_process_cleanup_at :: "instant option"
  job_process_cleanup_actor :: "string option"

definition settlement :: "string \<Rightarrow> string \<Rightarrow> string list \<Rightarrow> string option \<Rightarrow> settlement_result" where
  "settlement w x u m =
     \<lparr>sr_work_state = w, sr_exposure_state = x, sr_unavailable = u, sr_watermark = m\<rparr>"

definition settlement_unknown :: "string \<Rightarrow> settlement_result" where
  "settlement_unknown source = settlement ''unknown'' ''unknown'' [source] None"

text \<open>The position scan: \<open>None\<close> when a row is malformed, otherwise whether one is open.\<close>

fun scan_positions :: "run_position list \<Rightarrow> string option" where
  "scan_positions [] = Some ''flat''"
| "scan_positions (MalformedPosition # ps) = None"
| "scan_positions (PositionQty None # ps) = None"
| "scan_positions (PositionQty (Some q) # ps) = (if q \<noteq> 0 then Some ''open'' else scan_positions ps)"

definition option_run_status_blocks_trading :: "string option \<Rightarrow> bool" where
  "option_run_status_blocks_trading status =
     (case status of
        None \<Rightarrow> False
      | Some s \<Rightarrow> s \<notin> {''created'', ''entry_previewed'', ''entering'', ''entered'', ''partial_entry''})"

definition settle_options :: "option_reader \<Rightarrow> string \<Rightarrow> string \<Rightarrow> string \<Rightarrow> settlement_result" where
  "settle_options reader work_state exposure_state watermark =
     (case reader of
        NoOptionReader \<Rightarrow> settlement work_state exposure_state [] (Some watermark)
      | OptionReadFails \<Rightarrow> settlement_unknown ''option_run_state''
      | OptionStatus st \<Rightarrow>
          if str_truthy st then
            settlement (if option_run_status_blocks_trading st then ''outstanding'' else work_state)
              exposure_state [] (Some (watermark @ '':opt='' @ opt_str st))
          else settlement work_state exposure_state [] (Some watermark))"

definition settle_run_view ::
  "hosted_job \<Rightarrow> option_reader \<Rightarrow> int \<Rightarrow> int \<Rightarrow> paper_run_view \<Rightarrow> settlement_result" where
  "settle_run_view job options order_count pending_count rv =
     (if str_or (rv_strategy_run_id rv) (str_or (rv_strategy_id rv) []) \<noteq> opt_str (job_run_id job)
        then settlement_unknown ''paper_run_state_attribution''
      else if rv_is_stale rv then settlement_unknown ''paper_run_stale''
      else (case rv_positions rv of
          None \<Rightarrow> settlement_unknown ''paper_positions''
        | Some ps \<Rightarrow>
            (case scan_positions ps of
               None \<Rightarrow> settlement_unknown ''paper_positions''
             | Some exposure_state \<Rightarrow>
                 settle_options options
                   (if 0 < pending_count then ''outstanding''
                    else if 0 < order_count then ''settled'' else ''none'')
                   exposure_state
                   (join '':'' [str_or (rv_last_event_at rv) (str_or (rv_last_updated_at rv) []),
                      int_str order_count, int_str pending_count]))))"

definition settle_payload ::
  "hosted_job \<Rightarrow> option_reader \<Rightarrow> settlement_payload \<Rightarrow> settlement_result" where
  "settle_payload job options p =
     (if str_or (sp_account_scope p) [] \<noteq> job_account_scope job
         \<or> str_or (sp_strategy_run_id p) [] \<noteq> opt_str (job_run_id job)
        then settlement_unknown ''paper_settlement_attribution''
      else (case (sp_order_count p, sp_pending_order_count p) of
          (Some order_count, Some pending_count) \<Rightarrow>
            if order_count < 0 \<or> pending_count < 0 then settlement_unknown ''paper_settlement_counts''
            else if sp_coverage_complete p = Some False
              then settlement_unknown ''paper_settlement_incomplete''
            else (case sp_run_state p of
                NoRunState \<Rightarrow>
                  if order_count = 0 then settlement ''none'' ''flat'' [] (Some ''empty'')
                  else settlement_unknown ''paper_run_state''
              | MalformedRunState \<Rightarrow> settlement_unknown ''paper_run_state''
              | RunState rv \<Rightarrow> settle_run_view job options order_count pending_count rv)
        | _ \<Rightarrow> settlement_unknown ''paper_settlement_counts''))"

definition collect_settlement ::
  "hosted_job \<Rightarrow> paper_reader \<Rightarrow> option_reader \<Rightarrow> bool \<Rightarrow> settlement_result" where
  "collect_settlement job paper options trade_capable =
     (if \<not> trade_capable then settlement ''none'' ''not_applicable'' [] None
      else if job_execution_mode job = ''dry_run''
        then settlement ''none'' ''flat'' [] (Some ''dry_run'')
      else if job_execution_mode job \<noteq> ''paper'' then settlement_unknown ''execution_mode''
      else (case paper of
          PaperPayload p \<Rightarrow> settle_payload job options p
        | _ \<Rightarrow> settlement_unknown ''paper_settlement''))"

text \<open>
  The worker repository as the collector sees it: the run (its status and the two recovery
  flags) or a failed read, and the status of the child token or a failed read.
\<close>

record worker_run_view =
  wr_status :: string
  wr_exit_submitted :: bool
  wr_action_required :: bool

datatype run_reader = RunReadFails | RunRead "worker_run_view option"
datatype token_reader = TokenReadFails | TokenRead "string option"

definition collect_capabilities :: "hosted_job \<Rightarrow> bool \<times> string list" where
  "collect_capabilities job =
     (case parse_capability_snapshot (job_capabilities_snapshot job) of
        Inl err \<Rightarrow> (True, [''capabilities_ambiguous_treated_as_trading''])
      | Inr caps \<Rightarrow> (dict_get caps ''trade'' = Some True, []))"

definition collect_authority :: "hosted_job \<Rightarrow> token_reader \<Rightarrow> string" where
  "collect_authority job tokens =
     (let terminal = job_status job \<in> {''recovery_required'', ''stopped'', ''failed''};
          read = (if str_truthy (job_token_id job) then tokens else TokenRead None)
      in case read of
           TokenReadFails \<Rightarrow> ''uncertain''
         | TokenRead st \<Rightarrow>
             if st = Some ''active'' then ''active''
             else if st = Some ''revoked'' then (if terminal then ''revoked'' else ''uncertain'')
             else if st = None \<and> job_token_id job = None then ''revoked''
             else ''uncertain'')"

definition collect ::
  "hosted_job \<Rightarrow> run_reader \<Rightarrow> token_reader \<Rightarrow> paper_reader \<Rightarrow> option_reader
   \<Rightarrow> reconciliation_evidence" where
  "collect job runs tokens paper options =
     (let launched = job_handoff_at job \<noteq> None;
          (trade_capable, cap_notes) = collect_capabilities job;
          notes = cap_notes @ (if trade_capable
            then [''no_execution_settlement_barrier_quiescence_unverified''] else []);
          run_read = (if str_truthy (job_run_id job) then runs else RunRead None);
          run = (case run_read of RunReadFails \<Rightarrow> None | RunRead r \<Rightarrow> r);
          unavailable = (case run_read of RunReadFails \<Rightarrow> [''worker_run''] | _ \<Rightarrow> [])
            @ (if str_truthy (job_token_id job) \<and> tokens = TokenReadFails
               then [''worker_token''] else []);
          s = collect_settlement job paper options trade_capable;
          all_unavailable = unavailable @ sr_unavailable s
      in \<lparr>ev_job_id = job_id job, ev_strategy_id = job_strategy_id job,
          ev_attempt = job_attempt job, ev_run_id = job_run_id job, ev_launched = launched,
          ev_trade_capable = trade_capable, ev_execution_mode = job_execution_mode job,
          ev_job_status = job_status job, ev_desired_state = job_desired_state job,
          ev_replacement_blocked =
            (job_status job \<in> {''queued'', ''starting'', ''running''}
             \<or> (job_status job = ''recovery_required'' \<and> job_reconciled_at job = None)),
          ev_process_cleanup_state = job_process_cleanup_state job,
          ev_process_cleanup_at = job_process_cleanup_at job,
          ev_process_cleanup_actor = job_process_cleanup_actor job,
          ev_authority_state = collect_authority job tokens,
          ev_run_status = map_option wr_status run,
          ev_work_state = sr_work_state s,
          ev_exposure_state = sr_exposure_state s,
          ev_protection_state =
            (case run of Some r \<Rightarrow> (if wr_exit_submitted r then ''active'' else ''settled'')
             | None \<Rightarrow> (if \<not> launched then ''settled'' else ''unknown'')),
          ev_recovery_action_required = (case run of Some r \<Rightarrow> wr_action_required r | None \<Rightarrow> False),
          ev_evidence_complete = (all_unavailable = []),
          ev_unavailable = sort (dedup all_unavailable),
          ev_notes = notes,
          ev_settlement_watermark = sr_watermark s,
          ev_quiescence_state = ''unverified''\<rparr>)"

section \<open>Lemmas\<close>

lemma blockers_eq_Nil [simp]:
  "process_blockers e = [] \<longleftrightarrow> ev_process_cleanup_state e = Some ''confirmed''"
  "authority_blockers e = [] \<longleftrightarrow> ev_authority_state e = ''revoked''"
  "work_blockers e = [] \<longleftrightarrow> ev_work_state e \<notin> {''outstanding'', ''unknown''}"
  "exposure_blockers e = [] \<longleftrightarrow> ev_exposure_state e \<notin> {''open'', ''unknown''}"
  by (auto simp: process_blockers_def authority_blockers_def work_blockers_def exposure_blockers_def)

text \<open>A settlement that names no unavailable source carries a known exposure.\<close>

definition settlement_conclusive :: "settlement_result \<Rightarrow> bool" where
  "settlement_conclusive s \<longleftrightarrow> sr_unavailable s = []"

lemma settlement_sel [simp]:
  "sr_work_state (settlement w x u m) = w" "sr_exposure_state (settlement w x u m) = x"
  "sr_unavailable (settlement w x u m) = u" "sr_watermark (settlement w x u m) = m"
  "sr_unavailable (settlement_unknown src) = [src]"
  "sr_work_state (settlement_unknown src) = ''unknown''"
  "sr_exposure_state (settlement_unknown src) = ''unknown''"
  by (simp_all add: settlement_def settlement_unknown_def)

lemma scan_positions_flat:
  "scan_positions ps = Some ''flat'' \<longleftrightarrow> (\<forall>p \<in> set ps. p = PositionQty (Some 0))"
  by (induction ps rule: scan_positions.induct) auto

lemma scan_positions_values: "scan_positions ps = Some x \<Longrightarrow> x = ''flat'' \<or> x = ''open''"
  by (induction ps rule: scan_positions.induct) (auto split: if_splits)

lemma settle_options_exposure:
  "sr_unavailable (settle_options r w x m) = [] \<Longrightarrow> sr_exposure_state (settle_options r w x m) = x"
  by (auto simp: settle_options_def split: option_reader.splits)

text \<open>
  What a flat paper settlement rests on: either no attributed order at all, or a fresh run
  view of the same run whose positions all have quantity zero.
\<close>

definition flat_evidence :: "hosted_job \<Rightarrow> settlement_payload \<Rightarrow> bool" where
  "flat_evidence job p \<longleftrightarrow>
     str_or (sp_account_scope p) [] = job_account_scope job
     \<and> str_or (sp_strategy_run_id p) [] = opt_str (job_run_id job)
     \<and> (case sp_run_state p of
          NoRunState \<Rightarrow> sp_order_count p = Some 0
        | MalformedRunState \<Rightarrow> False
        | RunState rv \<Rightarrow> \<not> rv_is_stale rv
            \<and> str_or (rv_strategy_run_id rv) (str_or (rv_strategy_id rv) []) = opt_str (job_run_id job)
            \<and> (\<exists>ps. rv_positions rv = Some ps \<and> (\<forall>q \<in> set ps. q = PositionQty (Some 0))))"

lemma settle_run_view_flat:
  assumes "sr_exposure_state (settle_run_view job opts oc pc rv) = ''flat''"
  shows "\<not> rv_is_stale rv"
    and "str_or (rv_strategy_run_id rv) (str_or (rv_strategy_id rv) []) = opt_str (job_run_id job)"
    and "\<exists>ps. rv_positions rv = Some ps \<and> (\<forall>q \<in> set ps. q = PositionQty (Some 0))"
  using assms scan_positions_values
  by (auto simp: settle_run_view_def settle_options_def scan_positions_flat Let_def
        split: if_splits option.splits option_reader.splits)

lemma settle_payload_flat:
  "sr_exposure_state (settle_payload job opts p) = ''flat'' \<Longrightarrow> flat_evidence job p"
  using settle_run_view_flat
  by (auto simp: settle_payload_def flat_evidence_def
        split: if_splits option.splits run_state_view.splits)

lemma collect_sel:
  "ev_trade_capable (collect job r t p opts) = fst (collect_capabilities job)"
  "ev_launched (collect job r t p opts) = (job_handoff_at job \<noteq> None)"
  "ev_quiescence_state (collect job r t p opts) = ''unverified''"
  "ev_exposure_state (collect job r t p opts) =
     sr_exposure_state (collect_settlement job p opts (fst (collect_capabilities job)))"
  "ev_work_state (collect job r t p opts) =
     sr_work_state (collect_settlement job p opts (fst (collect_capabilities job)))"
  "ev_authority_state (collect job r t p opts) = collect_authority job t"
  by (simp_all add: collect_def Let_def case_prod_beta)

lemma parse_capability_keys_Inr:
  "parse_capability_keys caps ks = Inr parsed \<Longrightarrow>
   map fst parsed = ks \<and> (\<forall>k \<in> set ks. \<exists>b. obj_get caps k = JBool b \<and> (k, b) \<in> set parsed)
   \<and> (\<forall>(k, b) \<in> set parsed. obj_get caps k = JBool b)"
proof (induction ks arbitrary: parsed)
  case (Cons k ks)
  have "jbool v = Some b \<Longrightarrow> v = JBool b" for v b by (cases v) auto
  with Cons show ?case by (fastforce split: option.splits sum.splits)
qed simp

lemma sort_eq_Nil [simp]: "sort xs = [] \<longleftrightarrow> xs = []"
  by (metis length_0_conv length_sort)

lemma assess_allowed_core:
  "as_allowed (assess e) \<Longrightarrow>
     ev_evidence_complete e \<and> ev_unavailable e = []
     \<and> (ev_launched e \<and> ev_trade_capable e \<longrightarrow> ev_quiescence_state e = ''verified'')"
  unfolding assess_def Let_def by (auto split: if_splits)

section \<open>Properties\<close>

text \<open>
  C3. What the classifier looks at, exactly. It allows an attempt if and only if the attempt is
  blocked and not active, its evidence is complete, its work is not reported outstanding or
  unknown, its exposure not open or unknown, and no recovery action is pending; a launched one also
  needs confirmed process cleanup and revoked authority, and a launched trading-capable one a
  protection state that is not unknown or active and verified quiescence. Any other value of the
  work, exposure and protection axes passes: a trading-capable attempt is not required to have
  settled work and flat exposure, nor an unlaunched one to have no work, as the module's
  description of the cases has it.
\<close>

theorem assess_allowed_iff:
  "as_allowed (assess e) \<longleftrightarrow>
     ev_job_status e \<notin> set active_statuses \<and> ev_replacement_blocked e
     \<and> ev_evidence_complete e \<and> ev_unavailable e = []
     \<and> ev_work_state e \<notin> {''outstanding'', ''unknown''}
     \<and> ev_exposure_state e \<notin> {''open'', ''unknown''}
     \<and> \<not> ev_recovery_action_required e
     \<and> (ev_launched e \<longrightarrow>
          ev_process_cleanup_state e = Some ''confirmed'' \<and> ev_authority_state e = ''revoked'')
     \<and> (ev_launched e \<and> ev_trade_capable e \<longrightarrow>
          ev_protection_state e \<notin> {''unknown'', ''active''} \<and> ev_quiescence_state e = ''verified'')"
  unfolding assess_def Let_def
  by (cases "ev_launched e"; cases "ev_trade_capable e") auto

text \<open>A launched data-only attempt that needs recovery, with its cleanup confirmed.\<close>

definition sample_evidence :: reconciliation_evidence where
  "sample_evidence =
     \<lparr>ev_job_id = ''j1'', ev_strategy_id = ''s1'', ev_attempt = 2, ev_run_id = Some ''r1'',
      ev_launched = True, ev_trade_capable = False, ev_execution_mode = ''paper'',
      ev_job_status = ''recovery_required'', ev_desired_state = ''stopped'',
      ev_replacement_blocked = True, ev_process_cleanup_state = Some ''confirmed'',
      ev_process_cleanup_at = Some 5, ev_process_cleanup_actor = Some ''op'',
      ev_authority_state = ''revoked'', ev_run_status = Some ''closed'', ev_work_state = ''none'',
      ev_exposure_state = ''not_applicable'', ev_protection_state = ''settled'',
      ev_recovery_action_required = False, ev_evidence_complete = True, ev_unavailable = [],
      ev_notes = [], ev_settlement_watermark = None, ev_quiescence_state = ''unverified''\<rparr>"

theorem assess_allowed_iff_witness:
  "as_allowed (assess sample_evidence)
   \<and> \<not> as_allowed (assess (sample_evidence\<lparr>ev_trade_capable := True\<rparr>))"
  by (simp add: assess_allowed_iff sample_evidence_def active_statuses_def)

text \<open>
  The values beside the documented ones: a trading-capable attempt without settled work and flat
  exposure is classified as settled and flat, an unlaunched one with settled work as unlaunched.
\<close>

lemma undocumented_axes_are_allowed:
  "as_case (assess (sample_evidence\<lparr>ev_trade_capable := True, ev_quiescence_state := ''verified''\<rparr>)) = ''trading_settled_flat''"
  "as_case (assess (sample_evidence\<lparr>ev_launched := False, ev_work_state := ''settled''\<rparr>)) = ''unlaunched''"
  by code_simp+

text \<open>A paper attempt with a full capability snapshot.\<close>

definition sample_snapshot :: "bool \<Rightarrow> jval" where
  "sample_snapshot trade =
     JObj [(''schema_version'', JInt 2),
           (''capabilities'', JObj [(''data'', JBool True), (''trade'', JBool trade), (''notify'', JBool False)])]"

definition sample_job :: "bool \<Rightarrow> hosted_job" where
  "sample_job trade =
     \<lparr>job_id = ''j1'', job_strategy_id = ''s1'', job_attempt = 1, job_run_id = Some ''r1'',
      job_token_id = Some ''t1'', job_account_scope = ''acc'', job_execution_mode = ''paper'',
      job_status = ''recovery_required'', job_desired_state = ''stopped'', job_handoff_at = Some 1,
      job_reconciled_at = None, job_capabilities_snapshot = sample_snapshot trade,
      job_process_cleanup_state = Some ''confirmed'', job_process_cleanup_at = Some 2,
      job_process_cleanup_actor = Some ''op''\<rparr>"

definition sample_payload :: settlement_payload where
  "sample_payload =
     \<lparr>sp_account_scope = Some ''acc'', sp_strategy_run_id = Some ''r1'', sp_order_count = Some 2,
      sp_pending_order_count = Some 0, sp_coverage_complete = Some True,
      sp_run_state = RunState \<lparr>rv_strategy_run_id = Some ''r1'', rv_strategy_id = None,
        rv_is_stale = False, rv_positions = Some [PositionQty (Some 0)],
        rv_last_event_at = Some ''x'', rv_last_updated_at = None\<rparr>\<rparr>"

lemma sample_capabilities [simp]: "collect_capabilities (sample_job trade) = (trade, [])"
  by (simp add: collect_capabilities_def sample_job_def sample_snapshot_def
        parse_capability_snapshot_def capability_keys_def obj_get_def)

text \<open>
  C22. Over collected evidence, an attempt whose child was launched and that is trading
  capable (or whose capability snapshot cannot be read) is never allowed: there is no
  execution-settlement barrier, and the collector never claims quiescence. The reasons
  always include the missing one whenever the evidence is otherwise complete.
\<close>

theorem collected_trading_attempt_never_allowed:
  assumes launched: "job_handoff_at job \<noteq> None"
    and trading: "fst (collect_capabilities job)"
    and e: "e = collect job runs tokens paper options"
  shows "\<not> as_allowed (assess e)
    \<and> (as_case (assess e) = ''blocked'' \<and> as_reason_code (assess e) \<notin> {''HOSTED_JOB_ACTIVE'', ''EVIDENCE_UNAVAILABLE''}
       \<longrightarrow> ''EXECUTION_QUIESCENCE_UNVERIFIED'' \<in> set (as_blocking_reasons (assess e)))"
proof -
  have f: "ev_launched e" "ev_trade_capable e" "ev_quiescence_state e = ''unverified''"
    using launched trading by (simp_all add: e collect_sel)
  then have no: "\<not> as_allowed (assess e)" using assess_allowed_core [of e] by auto
  consider "ev_job_status e \<in> set active_statuses" | "ev_job_status e \<notin> set active_statuses" "\<not> ev_replacement_blocked e"
    | "ev_job_status e \<notin> set active_statuses" "ev_replacement_blocked e" "\<not> ev_evidence_complete e \<or> ev_unavailable e \<noteq> []"
    | "ev_job_status e \<notin> set active_statuses" "ev_replacement_blocked e" "ev_evidence_complete e" "ev_unavailable e = []"
    by blast
  then show ?thesis
    by cases (use no f in \<open>simp_all add: assess_def Let_def\<close>)
qed

theorem collected_trading_attempt_never_allowed_witness:
  "\<not> as_allowed (assess (collect (sample_job True) (RunRead None) (TokenRead (Some ''revoked''))
      (PaperPayload sample_payload) NoOptionReader))"
  using collected_trading_attempt_never_allowed
    [of "sample_job True" _ "RunRead None" "TokenRead (Some ''revoked'')" "PaperPayload sample_payload" NoOptionReader]
  by (simp add: sample_job_def [THEN arg_cong, of job_handoff_at])

text \<open>
  Missing evidence is never read as flat. When the evidence collected for a paper
  attempt says the exposure is flat, the runtime returned a payload attributed to the same
  account and run that either has no order at all or a fresh run view whose positions all
  have quantity zero.
\<close>

theorem collected_flat_has_evidence:
  assumes "job_execution_mode job = ''paper''" and "fst (collect_capabilities job)"
    and "ev_exposure_state (collect job runs tokens paper options) = ''flat''"
  shows "\<exists>p. paper = PaperPayload p \<and> flat_evidence job p"
  using assms settle_payload_flat
  by (auto simp: collect_sel collect_settlement_def split: paper_reader.splits)

theorem collected_flat_has_evidence_witness:
  "\<exists>p. PaperPayload sample_payload = PaperPayload p \<and> flat_evidence (sample_job True) p"
proof (rule collected_flat_has_evidence [of _ "RunRead None" "TokenRead None" _ NoOptionReader])
  show "job_execution_mode (sample_job True) = ''paper''" by (simp add: sample_job_def)
  show "fst (collect_capabilities (sample_job True))" by simp
  show "ev_exposure_state (collect (sample_job True) (RunRead None) (TokenRead None)
      (PaperPayload sample_payload) NoOptionReader) = ''flat''"
    by (simp add: collect_sel) (simp add: sample_job_def collect_settlement_def sample_payload_def
      settle_payload_def settle_run_view_def settle_options_def opt_str_def)
qed

text \<open>
  The capability parser fails closed: it succeeds only on a schema-version-2 snapshot
  whose capability map has no key besides \<open>data\<close>, \<open>trade\<close> and \<open>notify\<close> and a boolean for
  each of the three, and returns exactly those booleans; in every other case the collector
  treats the attempt as trading capable.
\<close>

theorem capability_snapshot_fails_closed:
  "(case parse_capability_snapshot snap of
      Inr parsed \<Rightarrow>
        (\<exists>d caps. snap = JObj d \<and> jnum (obj_get d ''schema_version'') = Some 2
           \<and> obj_get d ''capabilities'' = JObj caps
           \<and> set (map fst caps) = {''data'', ''trade'', ''notify''}
           \<and> map fst parsed = [''data'', ''trade'', ''notify'']
           \<and> list_all (\<lambda>(k, b). obj_get caps k = JBool b) parsed)
    | Inl err \<Rightarrow> fst (collect_capabilities (job\<lparr>job_capabilities_snapshot := snap\<rparr>)))"
proof (cases "parse_capability_snapshot snap")
  case (Inl err)
  then show ?thesis by (simp add: collect_capabilities_def)
next
  case (Inr parsed)
  from Inr obtain d where d1: "snap = JObj d"
    by (auto simp: parse_capability_snapshot_def jdict_Some split: option.splits)
  with Inr have d2: "jnum (obj_get d ''schema_version'') = Some 2"
    by (simp add: parse_capability_snapshot_def split: if_splits)
  with Inr d1 obtain caps where d3: "obj_get d ''capabilities'' = JObj caps"
    by (auto simp: parse_capability_snapshot_def jdict_Some split: option.splits)
  with Inr d1 d2 have d4: "filter (\<lambda>k. k \<notin> set capability_keys) (dedup (map fst caps)) = []"
    and p: "parse_capability_keys caps capability_keys = Inr parsed"
    by (simp_all add: parse_capability_snapshot_def Let_def split: if_splits)
  note d = d1 d2 d3 d4
  from d(4) have sub: "fst ` set caps \<subseteq> set capability_keys"
    by (auto simp: filter_empty_conv)
  have "k \<in> fst ` set caps" if "obj_get caps k = JBool b" for k b
    using that by (auto simp: obj_get_def split: option.splits dest!: map_of_SomeD intro: rev_image_eqI)
  moreover have "\<exists>b. obj_get caps k = JBool b" if "k \<in> set capability_keys" for k
    using parse_capability_keys_Inr [OF p] that by blast
  ultimately have "set capability_keys \<subseteq> fst ` set caps" by blast
  with sub have eq: "set (map fst caps) = {''data'', ''trade'', ''notify''}"
    by (simp add: capability_keys_def subset_antisym)
  have ks: "map fst parsed = [''data'', ''trade'', ''notify'']"
    "list_all (\<lambda>(k, b). obj_get caps k = JBool b) parsed"
    using parse_capability_keys_Inr [OF p] by (simp_all add: list_all_iff capability_keys_def)
  show ?thesis
    unfolding Inr sum.case by (intro exI [of _ d] exI [of _ caps] conjI d1 d2 d3 eq ks)
qed

text \<open>
  The digest that is recomputed before a commit pins the decision: for an injective
  hash, two pieces of evidence with the same digest that agree on whether replacement is
  blocked (the one gating field the digest leaves out) are classified alike.
\<close>

theorem digest_pins_assessment:
  assumes "inj digest"
    and "evidence_digest digest e1 = evidence_digest digest e2"
    and "ev_replacement_blocked e1 = ev_replacement_blocked e2"
  shows "as_allowed (assess e1) = as_allowed (assess e2)
    \<and> as_case (assess e1) = as_case (assess e2)
    \<and> as_reason_code (assess e1) = as_reason_code (assess e2)
    \<and> as_blocking_reasons (assess e1) = as_blocking_reasons (assess e2)"
proof -
  have axes: "canonical_axes e1 = canonical_axes e2"
    using assms(1,2) by (simp add: evidence_digest_def inj_eq)
  then have un: "ev_unavailable e1 = [] \<longleftrightarrow> ev_unavailable e2 = []"
    unfolding canonical_axes_def by (metis gating_axes.ext_inject sort_eq_Nil)
  from axes have eqs:
    "ev_job_status e1 = ev_job_status e2" "ev_launched e1 = ev_launched e2"
    "ev_trade_capable e1 = ev_trade_capable e2" "ev_evidence_complete e1 = ev_evidence_complete e2"
    "ev_recovery_action_required e1 = ev_recovery_action_required e2"
    "ev_exposure_state e1 = ev_exposure_state e2" "ev_protection_state e1 = ev_protection_state e2"
    "ev_quiescence_state e1 = ev_quiescence_state e2"
    unfolding canonical_axes_def by simp_all
  from axes have bl: "work_blockers e1 = work_blockers e2" "exposure_blockers e1 = exposure_blockers e2"
    "process_blockers e1 = process_blockers e2" "authority_blockers e1 = authority_blockers e2"
    unfolding canonical_axes_def
    by (simp_all add: work_blockers_def exposure_blockers_def process_blockers_def authority_blockers_def)
  show ?thesis
    by (simp only: assess_def Let_def eqs bl un assms(3) assessment_sel if_distrib [where f = as_allowed]
        if_distrib [where f = as_case] if_distrib [where f = as_reason_code]
        if_distrib [where f = as_blocking_reasons])
qed

theorem digest_pins_assessment_witness:
  "as_case (assess (sample_evidence\<lparr>ev_notes := [''n'']\<rparr>)) = as_case (assess sample_evidence)"
  using digest_pins_assessment [of "\<lambda>a. a" "sample_evidence\<lparr>ev_notes := [''n'']\<rparr>" sample_evidence]
  by (simp add: evidence_digest_def canonical_axes_def)

end
