(* ===== verification/AlertModel.thy ===== *)
theory AlertModel
  imports Json
begin

text \<open>
  The workflow document types of \<open>workflows/models.py\<close> that the alert evaluator works on
  (operands, conditions, groups, sequences, stages, alert specifications), the operand
  parser of \<open>workflows/parser.py\<close>, the argument coercion of \<open>workflows/compiler.py\<close> and the
  registry tables the evaluator consults.

  A parse failure carries the document path it is reported at; the wording of the message is
  not modelled. The theorem of this theory is the operand round trip: the serialized form of
  an operand parses back to that operand.
\<close>

section \<open>Document types\<close>

datatype operand_kind = KField | KValue | KIndicator | KPair

record operand =
  op_kind :: operand_kind
  op_name :: "string option"
  op_value :: "flt option"
  op_params :: jobj
  op_source :: "string option"
  op_offset :: "int option"

definition mk_operand ::
  "operand_kind \<Rightarrow> string option \<Rightarrow> flt option \<Rightarrow> jobj \<Rightarrow> string option \<Rightarrow> int option \<Rightarrow> operand" where
  "mk_operand k n v p s off =
     \<lparr>op_kind = k, op_name = n, op_value = v, op_params = p, op_source = s, op_offset = off\<rparr>"

lemma mk_operand_sel [simp]:
  "op_kind (mk_operand k n v p s off) = k" "op_name (mk_operand k n v p s off) = n"
  "op_value (mk_operand k n v p s off) = v" "op_params (mk_operand k n v p s off) = p"
  "op_source (mk_operand k n v p s off) = s" "op_offset (mk_operand k n v p s off) = off"
  by (simp_all add: mk_operand_def)

record condition =
  cond_left :: operand
  cond_op :: string
  cond_right :: operand
  cond_hysteresis :: "flt option"

datatype group_kind = GAll | GAny | GNot

record condition_group =
  grp_kind :: group_kind
  grp_conditions :: "condition list"

record sequence_spec =
  seq_first :: "condition_group list"
  seq_then :: "condition_group list"
  seq_within_bars :: "int option"
  seq_within_s :: "int option"

record stage =
  stage_id :: string
  stage_conditions :: "condition list"
  stage_any :: "condition list"
  stage_not :: "condition list"
  stage_consecutive_bars :: "int option"
  stage_sequence :: "sequence_spec option"

record alert_spec =
  al_trigger :: string
  al_reminder_interval_s :: "int option"
  al_cooldown_s :: "int option"
  al_rearm_level :: "flt option"
  al_rearm_direction :: "string option"
  al_notify_if_already_true :: bool
  al_expires_at :: "instant option"

section \<open>Registry tables\<close>

definition arithmetic_ops :: "string list" where
  "arithmetic_ops = [''add'', ''subtract'', ''multiply'', ''divide'']"

definition feature_feature_id :: "string \<Rightarrow> jobj \<Rightarrow> string \<Rightarrow> string" where
  "feature_feature_id function params source_field =
     function @ '':'' @ json_dumps (JObj params) @ '':'' @ source_field"

definition timeframe_seconds :: "string \<Rightarrow> int" where
  "timeframe_seconds name =
     (case map_of [(''minute'', 60), (''3minute'', 180), (''5minute'', 300), (''10minute'', 600),
        (''15minute'', 900), (''30minute'', 1800), (''60minute'', 3600), (''day'', 86400)] name of
        None \<Rightarrow> 0 | Some s \<Rightarrow> s)"

section \<open>The operand parser\<close>

type_synonym 'a parse = "string + 'a"

fun check_keys :: "jobj \<Rightarrow> string list \<Rightarrow> string \<Rightarrow> unit parse" where
  "check_keys [] known path = Inr ()"
| "check_keys ((k, v) # rest) known path =
     (if k \<in> set known then check_keys rest known path else Inl (path @ ''.'' @ k))"

definition require_str :: "jobj \<Rightarrow> string \<Rightarrow> string \<Rightarrow> string parse" where
  "require_str raw key path =
     (case jstr (obj_get raw key) of
        None \<Rightarrow> Inl (path @ ''.'' @ key)
      | Some s \<Rightarrow> if s = [] then Inl (path @ ''.'' @ key) else Inr s)"

definition optional_str :: "jobj \<Rightarrow> string \<Rightarrow> string \<Rightarrow> string option parse" where
  "optional_str raw key path =
     (if obj_get raw key = JNull then Inr None
      else (case require_str raw key path of Inl e \<Rightarrow> Inl e | Inr s \<Rightarrow> Inr (Some s)))"

definition number :: "jval \<Rightarrow> string \<Rightarrow> flt parse" where
  "number v path = (case jnum v of None \<Rightarrow> Inl path | Some x \<Rightarrow> Inr x)"

definition pair_kinds :: "string list" where
  "pair_kinds = [''pair_ratio'', ''relative_strength'']"

definition pair_keys :: "string list" where
  "pair_keys = [''instrument'', ''reference'', ''field'', ''lookback'', ''max_skew_bars'']"

definition pair_operand :: "jobj \<Rightarrow> string \<Rightarrow> operand option parse" where
  "pair_operand raw path =
     (case filter (dict_has raw) pair_kinds of
        [] \<Rightarrow> Inr None
      | kind # others \<Rightarrow>
          if others \<noteq> [] then Inl path
          else if length raw \<noteq> 1 then Inl (path @ ''.'' @ kind)
          else (case jdict (obj_get raw kind) of
              None \<Rightarrow> Inl (path @ ''.'' @ kind)
            | Some spec \<Rightarrow>
                (case check_keys spec pair_keys (path @ ''.'' @ kind) of
                   Inl e \<Rightarrow> Inl e
                 | Inr _ \<Rightarrow> Inr (Some (mk_operand KPair (Some kind) None spec None None)))))"

definition operand_kind_of :: "string \<Rightarrow> operand_kind option" where
  "operand_kind_of s =
     (if s = ''field'' then Some KField else if s = ''value'' then Some KValue
      else if s = ''indicator'' then Some KIndicator else if s = ''pair'' then Some KPair else None)"

definition explicit_operand :: "jobj \<Rightarrow> string \<Rightarrow> operand parse" where
  "explicit_operand raw path =
     (case check_keys raw [''kind'', ''name'', ''value'', ''params'', ''source'', ''offset''] path of
        Inl e \<Rightarrow> Inl e
      | Inr _ \<Rightarrow>
     (case require_str raw ''kind'' path of
        Inl e \<Rightarrow> Inl e
      | Inr kind_name \<Rightarrow>
     (case operand_kind_of kind_name of
        None \<Rightarrow> Inl (path @ ''.kind'')
      | Some kind \<Rightarrow>
     (case optional_str raw ''name'' path of
        Inl e \<Rightarrow> Inl e
      | Inr name \<Rightarrow>
     (case (if obj_get raw ''value'' = JNull then Inr None
            else (case number (obj_get raw ''value'') (path @ ''.value'') of
                    Inl e \<Rightarrow> Inl e | Inr x \<Rightarrow> Inr (Some x))) of
        Inl e \<Rightarrow> Inl e
      | Inr val \<Rightarrow>
     (case jdict (case dict_get raw ''params'' of None \<Rightarrow> JObj [] | Some p \<Rightarrow> p) of
        None \<Rightarrow> Inl (path @ ''.params'')
      | Some params \<Rightarrow>
     (case optional_str raw ''source'' path of
        Inl e \<Rightarrow> Inl e
      | Inr source \<Rightarrow>
          Inr (mk_operand kind name val params source (jint (obj_get raw ''offset''))))))))))"

text \<open>The extra keys of the shorthand form, with the \<open>params\<close> mapping merged in front.\<close>

definition shorthand_params :: "jobj \<Rightarrow> string \<Rightarrow> jobj parse" where
  "shorthand_params raw path =
     (let extras = filter (\<lambda>(k, v). k \<notin> {''field'', ''indicator'', ''value''}) raw in
      case dict_get extras ''params'' of
        None \<Rightarrow> Inr (dict_update [] extras)
      | Some p \<Rightarrow>
          (case jdict p of
             None \<Rightarrow> Inl (path @ ''.params'')
           | Some d \<Rightarrow> Inr (dict_update (dict_update [] d) (dict_pop ''params'' extras))))"

definition shorthand_operand :: "jobj \<Rightarrow> string \<Rightarrow> operand parse" where
  "shorthand_operand raw path =
     (case pair_operand raw path of
        Inl e \<Rightarrow> Inl e
      | Inr (Some p) \<Rightarrow> Inr p
      | Inr None \<Rightarrow>
     (case shorthand_params raw path of
        Inl e \<Rightarrow> Inl e
      | Inr params \<Rightarrow>
          if obj_get raw ''field'' \<noteq> JNull then
            (case require_str raw ''field'' path of
               Inl e \<Rightarrow> Inl e
             | Inr name \<Rightarrow> Inr (mk_operand KField (Some name) None params None None))
          else if obj_get raw ''indicator'' \<noteq> JNull then
            (case require_str raw ''indicator'' path of
               Inl e \<Rightarrow> Inl e
             | Inr name \<Rightarrow>
                 Inr (mk_operand KIndicator (Some name) None
                        (dict_pop ''offset'' (dict_pop ''source'' params))
                        (jstr (obj_get params ''source'')) (jint (obj_get params ''offset''))))
          else if obj_get raw ''value'' \<noteq> JNull then
            (case number (obj_get raw ''value'') (path @ ''.value'') of
               Inl e \<Rightarrow> Inl e
             | Inr x \<Rightarrow> Inr (mk_operand KValue None (Some x) params None None))
          else Inr (mk_operand KIndicator None None raw None None)))"

fun parse_operand :: "jval \<Rightarrow> string \<Rightarrow> operand parse" where
  "parse_operand JNull path = Inr (mk_operand KValue None None [] None None)"
| "parse_operand (JInt i) path = Inr (mk_operand KValue None (Some (of_int i)) [] None None)"
| "parse_operand (JNum x) path = Inr (mk_operand KValue None (Some x) [] None None)"
| "parse_operand (JObj raw) path =
     (if dict_has raw ''kind'' then explicit_operand raw path else shorthand_operand raw path)"
| "parse_operand _ path = Inl path"

text \<open>The serialized form of an operand.\<close>

fun kind_name :: "operand_kind \<Rightarrow> string" where
  "kind_name KField = ''field''"
| "kind_name KValue = ''value''"
| "kind_name KIndicator = ''indicator''"
| "kind_name KPair = ''pair''"

definition opt_jval :: "('a \<Rightarrow> jval) \<Rightarrow> 'a option \<Rightarrow> jval" where
  "opt_jval f x = (case x of None \<Rightarrow> JNull | Some a \<Rightarrow> f a)"

definition operand_dict :: "operand \<Rightarrow> jobj" where
  "operand_dict opn =
     [(''kind'', JStr (kind_name (op_kind opn))), (''name'', opt_jval JStr (op_name opn)),
      (''value'', opt_jval JNum (op_value opn)), (''params'', JObj (op_params opn)),
      (''source'', opt_jval JStr (op_source opn)), (''offset'', opt_jval JInt (op_offset opn))]"

section \<open>Expression arguments\<close>

fun coerce_expression_arg :: "jval \<Rightarrow> operand option" where
  "coerce_expression_arg (JInt i) = Some (mk_operand KValue None (Some (of_int i)) [] None None)"
| "coerce_expression_arg (JNum x) = Some (mk_operand KValue None (Some x) [] None None)"
| "coerce_expression_arg (JObj d) =
     (if dict_has d ''kind'' \<or> dict_has d ''field'' \<or> dict_has d ''indicator'' \<or> dict_has d ''value''
      then (case parse_operand (JObj d) ''expr'' of Inl e \<Rightarrow> None | Inr opn \<Rightarrow> Some opn)
      else if list_ex (dict_has d) arithmetic_ops
      then Some (mk_operand KIndicator None None d None None)
      else None)"
| "coerce_expression_arg _ = None"

section \<open>Sizes of parsed operands\<close>

lemma dsize_pair_operand:
  "pair_operand raw path = Inr (Some opn) \<Longrightarrow> dsize (op_params opn) \<le> dsize raw"
proof -
  assume p: "pair_operand raw path = Inr (Some opn)"
  then obtain kind spec where k: "jdict (obj_get raw kind) = Some spec" "op_params opn = spec"
    by (auto simp: pair_operand_def split: list.splits if_splits option.splits sum.splits)
  then have g: "dict_get raw kind = Some (JObj spec)"
    by (auto simp: obj_get_def jdict_Some split: option.splits)
  show ?thesis using dsize_get [OF g] k(2) by simp
qed

lemma dsize_explicit_operand:
  "explicit_operand raw path = Inr opn \<Longrightarrow> dsize (op_params opn) \<le> dsize raw"
proof -
  assume p: "explicit_operand raw path = Inr opn"
  then have "jdict (case dict_get raw ''params'' of None \<Rightarrow> JObj [] | Some p \<Rightarrow> p) = Some (op_params opn)"
    by (auto simp: explicit_operand_def split: sum.splits option.splits if_splits)
  then show ?thesis
    by (auto simp: jdict_Some split: option.splits dest!: dsize_get)
qed

lemma dsize_update_Nil: "dsize (dict_update [] d) \<le> dsize d"
  using dsize_update [of "[]" d] by simp

lemma dsize_split_pop:
  "dict_get d k = Some v \<Longrightarrow> dsize (dict_pop k d) + jsize v \<le> dsize d"
  by (induction d) (auto simp: dsize_pop le_add2 trans_le_add2 split: if_splits)

lemma dsize_shorthand_params:
  assumes "shorthand_params raw path = Inr params"
  shows "dsize params \<le> dsize raw"
proof -
  define extras where "extras = filter (\<lambda>(k, v). k \<notin> {''field'', ''indicator'', ''value''}) raw"
  have e: "dsize extras \<le> dsize raw" unfolding extras_def by (rule dsize_filter)
  show ?thesis
  proof (cases "dict_get extras ''params''")
    case None
    with assms have "params = dict_update [] extras"
      unfolding shorthand_params_def Let_def extras_def by simp
    then show ?thesis using dsize_update_Nil [of extras] e by simp
  next
    case (Some p)
    with assms obtain d where d: "p = JObj d"
      and ps: "params = dict_update (dict_update [] d) (dict_pop ''params'' extras)"
      unfolding shorthand_params_def Let_def extras_def
      by (auto simp: jdict_Some split: option.splits)
    have "dsize params \<le> dsize (dict_update [] d) + dsize (dict_pop ''params'' extras)"
      unfolding ps by (rule dsize_update)
    then show ?thesis
      using dsize_update_Nil [of d] dsize_split_pop [OF Some] e by (simp add: d)
  qed
qed

lemma dsize_shorthand_operand:
  assumes "shorthand_operand raw path = Inr opn"
  shows "dsize (op_params opn) \<le> dsize raw"
proof (cases "pair_operand raw path")
  case (Inl e)
  with assms show ?thesis by (simp add: shorthand_operand_def)
next
  case (Inr p)
  show ?thesis
  proof (cases p)
    case (Some q)
    with Inr assms show ?thesis
      using dsize_pair_operand [of raw path q] by (simp add: shorthand_operand_def)
  next
    case None
    with Inr assms obtain params where sp: "shorthand_params raw path = Inr params"
      by (auto simp: shorthand_operand_def split: sum.splits)
    have "op_params opn \<in> {params, dict_pop ''offset'' (dict_pop ''source'' params), raw}"
      using assms Inr None sp
      by (auto simp: shorthand_operand_def split: sum.splits if_splits)
    moreover have "dsize (dict_pop ''offset'' (dict_pop ''source'' params)) \<le> dsize params"
      using dsize_pop le_trans by blast
    ultimately show ?thesis using dsize_shorthand_params [OF sp] by auto
  qed
qed

text \<open>A coerced argument is smaller than the argument list it comes from.\<close>

lemma dsize_coerce:
  assumes "coerce_expression_arg arg = Some opn"
  shows "dsize (op_params opn) < jsize arg"
proof (cases arg)
  case (JObj d)
  then show ?thesis
    using assms dsize_explicit_operand [of d "''expr''" opn] dsize_shorthand_operand [of d "''expr''" opn]
    by (auto simp: less_Suc_eq_le split: if_splits sum.splits)
qed (use assms in auto)

section \<open>Properties\<close>

lemma operand_kind_of_name [simp]: "operand_kind_of (kind_name k) = Some k"
  by (cases k) (simp_all add: operand_kind_of_def)

lemma kind_name_nonempty [simp]: "kind_name k \<noteq> []"
  by (cases k) simp_all

text \<open>
  C23. The serialized form of an operand parses back to that operand, provided its name and
  its source override are not the empty string.
\<close>

theorem operand_roundtrip:
  assumes "op_name opn \<noteq> Some []" and "op_source opn \<noteq> Some []"
  shows "parse_operand (JObj (operand_dict opn)) path = Inr opn"
proof -
  have opt: "optional_str (operand_dict opn) ''name'' path = Inr (op_name opn)"
    "optional_str (operand_dict opn) ''source'' path = Inr (op_source opn)"
    using assms
    by (auto simp: optional_str_def require_str_def obj_get_def operand_dict_def opt_jval_def
        split: option.splits)
  have req: "require_str (operand_dict opn) ''kind'' path = Inr (kind_name (op_kind opn))"
    by (simp add: require_str_def obj_get_def operand_dict_def)
  have keys: "check_keys (operand_dict opn)
      [''kind'', ''name'', ''value'', ''params'', ''source'', ''offset''] path = Inr ()"
    by (simp add: operand_dict_def)
  have params: "dict_get (operand_dict opn) ''params'' = Some (JObj (op_params opn))"
    by (simp add: operand_dict_def)
  have val: "obj_get (operand_dict opn) ''value'' = opt_jval JNum (op_value opn)"
    and off: "obj_get (operand_dict opn) ''offset'' = opt_jval JInt (op_offset opn)"
    by (simp_all add: operand_dict_def obj_get_def)
  have "dict_has (operand_dict opn) ''kind''"
    by (simp add: dict_has_def operand_dict_def)
  then show ?thesis
    by (cases "op_value opn"; cases "op_offset opn")
      (simp_all add: explicit_operand_def keys req opt params val off opt_jval_def number_def mk_operand_def)
qed

theorem operand_roundtrip_witness:
  "parse_operand (JObj (operand_dict (mk_operand KIndicator (Some ''ema'') None [(''period'', JInt 20)]
      (Some ''volume'') (Some 1)))) ''p''
   = Inr (mk_operand KIndicator (Some ''ema'') None [(''period'', JInt 20)] (Some ''volume'') (Some 1))"
  by (rule operand_roundtrip) simp_all

end
