(* ===== verification/Predicates.thy ===== *)
theory Predicates
  imports AlertModel
begin

text \<open>
  The pure condition evaluator \<open>alerts/predicates.py\<close>: operand resolution, the five
  operator families with their per-condition sub-state, three-valued group combination,
  and the stage machines (consecutive bars, bounded sequences).

  The persistent state is a record: the top-level epoch, the \<open>conds\<close> dictionary of
  condition sub-states keyed by \<open>cond_key\<close>, and the \<open>stage_advanced\<close> dictionary. A sub-state
  has one optional field per key of the code's sub-dictionary. An absent \<open>context\<close> or
  \<open>features\<close> mapping is the empty one, which the code treats alike. The bounds of \<open>within\<close>
  are numbers (the compiler's \<open>_validate_within_bounds\<close> admits nothing else); a
  non-numeric bound is read as absent. The local \<open>evidence\<close> of \<open>_apply_sequence\<close>, which no
  caller sees, is left out.
\<close>

section \<open>Observations, states and results\<close>

record observation =
  ob_ts :: instant
  ob_epoch :: string
  ob_ltp :: "flt option"
  ob_open :: "flt option"
  ob_high :: "flt option"
  ob_low :: "flt option"
  ob_close :: "flt option"
  ob_volume :: "flt option"

record cond_sub =
  cs_epoch :: "string option"
  cs_prev :: "flt option"
  cs_baseline :: "flt option"
  cs_baseline_ts :: "instant option"
  cs_within :: "bool option"
  cs_pct_matched :: "bool option"
  cs_high_seen :: "bool option"
  cs_high_broken :: "bool option"
  cs_low_seen :: "bool option"
  cs_low_broken :: "bool option"
  cs_hyst_matched :: "bool option"

definition empty_sub :: cond_sub where
  "empty_sub = \<lparr>cs_epoch = None, cs_prev = None, cs_baseline = None, cs_baseline_ts = None,
     cs_within = None, cs_pct_matched = None, cs_high_seen = None, cs_high_broken = None,
     cs_low_seen = None, cs_low_broken = None, cs_hyst_matched = None\<rparr>"

record adv_sub =
  av_epoch :: "string option"
  av_streak :: "int option"
  av_armed :: bool
  av_armed_ts :: "instant option"
  av_armed_bar_ts :: "instant option"
  av_bars :: "int option"

definition empty_adv :: adv_sub where
  "empty_adv = \<lparr>av_epoch = None, av_streak = None, av_armed = False, av_armed_ts = None,
     av_armed_bar_ts = None, av_bars = None\<rparr>"

record pred_state =
  ps_epoch :: "string option"
  ps_conds :: "(string, cond_sub) dict"
  ps_advanced :: "(string, adv_sub) dict"

definition empty_state :: pred_state where
  "empty_state = \<lparr>ps_epoch = None, ps_conds = [], ps_advanced = []\<rparr>"

record predicate_result =
  pr_matched :: "bool option"
  pr_fired :: bool
  pr_evidence :: jobj
  pr_state :: pred_state

definition predicate_result ::
  "bool option \<Rightarrow> bool \<Rightarrow> jobj \<Rightarrow> pred_state \<Rightarrow> predicate_result" where
  "predicate_result m f e s = \<lparr>pr_matched = m, pr_fired = f, pr_evidence = e, pr_state = s\<rparr>"

lemma predicate_result_sel [simp]:
  "pr_matched (predicate_result m f e s) = m" "pr_fired (predicate_result m f e s) = f"
  "pr_evidence (predicate_result m f e s) = e" "pr_state (predicate_result m f e s) = s"
  by (simp_all add: predicate_result_def)

section \<open>Operand identity\<close>

definition stage_ref_prefix :: string where
  "stage_ref_prefix = ''stage:''"

definition feature_operand_id :: "operand \<Rightarrow> string option" where
  "feature_operand_id opn =
     (if op_kind opn \<noteq> KIndicator then None
      else (case op_name opn of
          None \<Rightarrow> None
        | Some name \<Rightarrow>
            if starts_with name stage_ref_prefix then Some name
            else if name = [] then None
            else
              let base = feature_feature_id name (op_params opn) (str_or (op_source opn) ''close'')
              in (case op_offset opn of
                    None \<Rightarrow> Some base
                  | Some off \<Rightarrow> Some (if off = 0 then base else base @ ''@'' @ int_str off))))"

definition operand_key :: "operand \<Rightarrow> string" where
  "operand_key opn =
     (case op_kind opn of
        KField \<Rightarrow> ''field:'' @ opt_str (op_name opn)
      | KValue \<Rightarrow> ''value:'' @ (case op_value opn of None \<Rightarrow> ''None'' | Some v \<Rightarrow> flt_str v)
      | _ \<Rightarrow> ''indicator:'' @ opt_str (op_name opn) @ '':'' @ json_dumps (JObj (op_params opn)))"

definition cond_key :: "condition \<Rightarrow> string" where
  "cond_key c = cond_op c @ '':'' @ operand_key (cond_left c) @ '':'' @ operand_key (cond_right c)"

definition pair_operand_id :: "operand \<Rightarrow> string" where
  "pair_operand_id opn =
     ''pair:'' @ join '':''
       (str_or (op_name opn) []
        # map (\<lambda>k. k @ ''='' @ py_str (obj_get (op_params opn) k))
            (filter (\<lambda>k. obj_get (op_params opn) k \<noteq> JNull)
               [''instrument'', ''reference'', ''field'', ''lookback'', ''max_skew_bars'']))"

section \<open>Operand resolution\<close>

definition observation_field :: "observation \<Rightarrow> string \<Rightarrow> flt option option" where
  "observation_field obs name =
     map_of [(''ltp'', ob_ltp obs), (''open'', ob_open obs), (''high'', ob_high obs),
             (''low'', ob_low obs), (''close'', ob_close obs), (''volume'', ob_volume obs)] name"

definition resolve_pair_operand :: "operand \<Rightarrow> jobj \<Rightarrow> flt option" where
  "resolve_pair_operand opn context =
     (case jdict (obj_get context ''pairs'') of
        None \<Rightarrow> None
      | Some pairs \<Rightarrow>
          (case obj_get pairs (pair_operand_id opn) of
             JObj entry \<Rightarrow> obj_num entry ''value''
           | entry \<Rightarrow> jnum entry))"

definition resolve_field :: "operand \<Rightarrow> observation \<Rightarrow> jobj \<Rightarrow> jobj \<Rightarrow> flt option" where
  "resolve_field opn obs context features =
     (let snapshot = obj_num features (''field:'' @ opt_str (op_name opn)) in
      case op_name opn of
        None \<Rightarrow> snapshot
      | Some name \<Rightarrow>
          (case observation_field obs name of
             Some (Some v) \<Rightarrow> Some v
           | Some None \<Rightarrow> snapshot
           | None \<Rightarrow>
               if name \<in> {''prev_day_high'', ''prev_day_low''} \<and> obj_num context name \<noteq> None
                 then obj_num context name
               else if starts_with name ''fundamentals.'' \<or> starts_with name ''external.''
                 then obj_num context name
               else snapshot))"

definition find_arithmetic :: "jobj \<Rightarrow> string option" where
  "find_arithmetic params = find (\<lambda>k. k \<in> set arithmetic_ops) (map fst params)"

definition arithmetic_args :: "jobj \<Rightarrow> (string \<times> jval \<times> jval) option" where
  "arithmetic_args params =
     (case find_arithmetic params of
        None \<Rightarrow> None
      | Some opname \<Rightarrow>
          (case obj_get params opname of JList [x, y] \<Rightarrow> Some (opname, x, y) | _ \<Rightarrow> None))"

definition apply_arithmetic :: "string \<Rightarrow> flt \<Rightarrow> flt \<Rightarrow> flt option" where
  "apply_arithmetic opname a b =
     (if opname = ''add'' then Some (a + b)
      else if opname = ''subtract'' then Some (a - b)
      else if opname = ''multiply'' then Some (a * b)
      else if \<bar>b\<bar> < 1 / 10 ^ 12 then None
      else Some (a / b))"

lemma arithmetic_args_size:
  assumes "arithmetic_args params = Some (opname, x, y)"
  shows "jsize x < dsize params \<and> jsize y < dsize params"
proof -
  from assms have "dict_get params opname = Some (JList [x, y])"
    by (auto simp: arithmetic_args_def obj_get_def split: option.splits jval.splits list.splits)
  from dsize_get [OF this] show ?thesis
    using jsize_pos [of x] jsize_pos [of y] by simp
qed

lemma arithmetic_child_smaller:
  assumes "arithmetic_args params = Some (opname, x, y)"
    and "coerce_expression_arg x = Some c \<or> coerce_expression_arg y = Some c"
  shows "dsize (op_params c) < dsize params"
  using assms(2) arithmetic_args_size [OF assms(1)] by (auto dest!: dsize_coerce)

function resolve_operand :: "operand \<Rightarrow> observation \<Rightarrow> jobj \<Rightarrow> jobj \<Rightarrow> flt option" where
  "resolve_operand opn obs context features =
     (case op_kind opn of
        KValue \<Rightarrow> op_value opn
      | KPair \<Rightarrow> resolve_pair_operand opn context
      | KField \<Rightarrow> resolve_field opn obs context features
      | KIndicator \<Rightarrow>
          if str_truthy (op_name opn) then
            (case feature_operand_id opn of
               None \<Rightarrow> None
             | Some fid \<Rightarrow> obj_num features fid)
          else
            (case arithmetic_args (op_params opn) of
               None \<Rightarrow> None
             | Some (opname, x, y) \<Rightarrow>
                 (case (case coerce_expression_arg x of
                          None \<Rightarrow> None | Some c \<Rightarrow> resolve_operand c obs context features) of
                    None \<Rightarrow> None
                  | Some a \<Rightarrow>
                      (case (case coerce_expression_arg y of
                               None \<Rightarrow> None | Some c \<Rightarrow> resolve_operand c obs context features) of
                         None \<Rightarrow> None
                       | Some b \<Rightarrow> apply_arithmetic opname a b))))"
  by pat_completeness auto

termination
proof (relation "measure (\<lambda>(opn, obs, context, features). dsize (op_params opn))")
qed (auto intro: arithmetic_child_smaller)

declare resolve_operand.simps [simp del]

section \<open>The operator families\<close>

definition left_key :: "operand \<Rightarrow> string" where
  "left_key opn = (if op_kind opn = KField \<and> str_truthy (op_name opn) then opt_str (op_name opn) else ''value'')"

definition unknown :: "pred_state \<Rightarrow> predicate_result" where
  "unknown st = predicate_result None False [] st"

definition clear_epoch_keys :: "cond_sub \<Rightarrow> cond_sub" where
  "clear_epoch_keys sub = empty_sub\<lparr>cs_epoch := cs_epoch sub\<rparr>"

definition begin_observation :: "pred_state \<Rightarrow> string \<Rightarrow> observation \<Rightarrow> cond_sub" where
  "begin_observation st key obs =
     (let sub = (case dict_get (ps_conds st) key of None \<Rightarrow> empty_sub | Some s \<Rightarrow> s) in
      case cs_epoch sub of
        None \<Rightarrow> sub
      | Some e \<Rightarrow> if e \<noteq> ob_epoch obs then clear_epoch_keys sub else sub)"

definition commit_substate :: "pred_state \<Rightarrow> string \<Rightarrow> cond_sub \<Rightarrow> observation \<Rightarrow> pred_state" where
  "commit_substate st key sub obs =
     st\<lparr>ps_conds := dict_set key (sub\<lparr>cs_epoch := Some (ob_epoch obs)\<rparr>) (ps_conds st),
        ps_epoch := Some (ob_epoch obs)\<rparr>"

definition compare :: "string \<Rightarrow> flt \<Rightarrow> flt \<Rightarrow> bool" where
  "compare op cur level =
     (if op = ''gt'' then cur > level
      else if op = ''gte'' then cur \<ge> level
      else if op = ''lt'' then cur < level
      else cur \<le> level)"

text \<open>The outcome of an evaluator: matched, fired, evidence and the new sub-state.\<close>

type_synonym outcome = "(bool \<times> bool \<times> jobj \<times> cond_sub) option"
type_synonym evaluator = "condition \<Rightarrow> observation \<Rightarrow> cond_sub \<Rightarrow> jobj \<Rightarrow> jobj \<Rightarrow> outcome"

definition apply_hysteresis :: "string \<Rightarrow> flt \<Rightarrow> cond_sub \<Rightarrow> flt \<Rightarrow> flt \<Rightarrow> bool \<Rightarrow> bool \<times> cond_sub" where
  "apply_hysteresis op release sub cur level matched =
     (let was = (cs_hyst_matched sub = Some True) in
      if op = ''gt'' \<or> op = ''gte'' then
        (if \<not> release < level then (matched, sub)
         else let now = (matched \<or> (was \<and> cur > release))
              in (now, sub\<lparr>cs_hyst_matched := Some now\<rparr>))
      else
        (if \<not> release > level then (matched, sub)
         else let now = (matched \<or> (was \<and> cur < release))
              in (now, sub\<lparr>cs_hyst_matched := Some now\<rparr>)))"

definition evaluate_level_op :: evaluator where
  "evaluate_level_op c obs sub context features =
     (case resolve_operand (cond_right c) obs context features of
        None \<Rightarrow> None
      | Some level \<Rightarrow>
     (case resolve_operand (cond_left c) obs context features of
        None \<Rightarrow> None
      | Some cur \<Rightarrow>
          let matched = compare (cond_op c) cur level;
              evidence = [(left_key (cond_left c), JNum cur), (''level'', JNum level)]
          in (case cond_hysteresis c of
                None \<Rightarrow> Some (matched, False, evidence, sub)
              | Some release \<Rightarrow>
                  let (m, sub') = apply_hysteresis (cond_op c) release sub cur level matched
                  in Some (m, False, dict_set ''hysteresis_release'' (JNum release) evidence, sub'))))"

definition evaluate_cross_op :: evaluator where
  "evaluate_cross_op c obs sub context features =
     (case resolve_operand (cond_right c) obs context features of
        None \<Rightarrow> None
      | Some level \<Rightarrow>
     (case resolve_operand (cond_left c) obs context features of
        None \<Rightarrow> None
      | Some cur \<Rightarrow>
          let is_above = (cond_op c = ''crosses_above'');
              matched = (if is_above then cur \<ge> level else cur \<le> level);
              sub' = sub\<lparr>cs_prev := Some cur\<rparr>;
              evidence = (\<lambda>p. [(left_key (cond_left c), JNum cur), (''level'', JNum level), (''prev_ltp'', p)])
          in (case cs_prev sub of
                None \<Rightarrow> Some (matched, False, evidence JNull, sub')
              | Some prev \<Rightarrow>
                  Some (matched,
                        if is_above then prev < level \<and> cur \<ge> level else prev > level \<and> cur \<le> level,
                        evidence (JNum prev), sub'))))"

definition within_bounds :: "operand \<Rightarrow> (flt \<times> flt) option" where
  "within_bounds right =
     (case (case op_value right of Some v \<Rightarrow> Some v | None \<Rightarrow> obj_num (op_params right) ''lo'') of
        None \<Rightarrow> None
      | Some lo \<Rightarrow> (case obj_num (op_params right) ''hi'' of None \<Rightarrow> None | Some hi \<Rightarrow> Some (lo, hi)))"

definition evaluate_within :: evaluator where
  "evaluate_within c obs sub context features =
     (case within_bounds (cond_right c) of
        None \<Rightarrow> None
      | Some (lo, hi) \<Rightarrow>
     (case resolve_operand (cond_left c) obs context features of
        None \<Rightarrow> None
      | Some cur \<Rightarrow>
          let matched = (lo \<le> cur \<and> cur \<le> hi)
          in Some (matched, cs_within sub = Some False \<and> matched,
                   [(left_key (cond_left c), JNum cur), (''lo'', JNum lo), (''hi'', JNum hi)],
                   sub\<lparr>cs_within := Some matched\<rparr>)))"

definition opt_time :: "instant option \<Rightarrow> jval" where
  "opt_time t = (case t of None \<Rightarrow> JNull | Some i \<Rightarrow> JTime i)"

definition evaluate_pct_op :: evaluator where
  "evaluate_pct_op c obs sub context features =
     (case resolve_operand (cond_right c) obs context features of
        None \<Rightarrow> None
      | Some threshold \<Rightarrow>
     (case resolve_operand (cond_left c) obs context features of
        None \<Rightarrow> None
      | Some cur \<Rightarrow>
          if cs_baseline sub = None \<and> cur = 0 then None
          else
            let sub1 = (if cs_baseline sub = None
                        then sub\<lparr>cs_baseline := Some cur, cs_baseline_ts := Some (ob_ts obs)\<rparr> else sub);
                baseline = (case cs_baseline sub of None \<Rightarrow> cur | Some b \<Rightarrow> b);
                pct = (cur - baseline) / baseline * 100;
                matched = (if cond_op c = ''rises_pct'' then pct \<ge> threshold else pct \<le> - threshold)
            in Some (matched, cs_pct_matched sub = Some False \<and> matched,
                     [(left_key (cond_left c), JNum cur), (''baseline'', JNum baseline),
                      (''baseline_ts'', opt_time (cs_baseline_ts sub1)), (''pct'', JNum pct),
                      (''threshold'', JNum threshold)],
                     sub1\<lparr>cs_pct_matched := Some matched\<rparr>)))"

definition evaluate_break_op :: evaluator where
  "evaluate_break_op c obs sub context features =
     (case resolve_operand (cond_right c) obs context features of
        None \<Rightarrow> None
      | Some level \<Rightarrow>
     (case resolve_operand (cond_left c) obs context features of
        None \<Rightarrow> None
      | Some cur \<Rightarrow>
          let is_high = (cond_op c = ''breaks_prev_high'');
              seen = ((if is_high then cs_high_seen sub else cs_low_seen sub) = Some True);
              broken = ((if is_high then cs_high_broken sub else cs_low_broken sub) = Some True);
              matched = (if is_high then cur > level else cur < level);
              fired = (seen \<and> matched \<and> \<not> broken);
              set_broken = (\<lambda>b s. if is_high then s\<lparr>cs_high_broken := Some b\<rparr> else s\<lparr>cs_low_broken := Some b\<rparr>);
              sub1 = (if matched then set_broken True sub
                      else if (if is_high then cur < level else cur > level) then set_broken False sub
                      else sub);
              sub2 = (if is_high then sub1\<lparr>cs_high_seen := Some True\<rparr> else sub1\<lparr>cs_low_seen := Some True\<rparr>)
          in Some (matched, fired, [(left_key (cond_left c), JNum cur), (''level'', JNum level)], sub2)))"

section \<open>Conditions\<close>

datatype op_family = FLevel | FCross | FWithin | FPct | FBreak

definition family_of :: "string \<Rightarrow> op_family option" where
  "family_of op =
     (if op \<in> {''gt'', ''gte'', ''lt'', ''lte''} then Some FLevel
      else if op \<in> {''crosses_above'', ''crosses_below''} then Some FCross
      else if op = ''within'' then Some FWithin
      else if op \<in> {''rises_pct'', ''falls_pct''} then Some FPct
      else if op \<in> {''breaks_prev_high'', ''breaks_prev_low''} then Some FBreak
      else None)"

fun op_evaluator :: "op_family \<Rightarrow> evaluator" where
  "op_evaluator FLevel = evaluate_level_op"
| "op_evaluator FCross = evaluate_cross_op"
| "op_evaluator FWithin = evaluate_within"
| "op_evaluator FPct = evaluate_pct_op"
| "op_evaluator FBreak = evaluate_break_op"

definition evaluate_condition ::
  "condition \<Rightarrow> observation \<Rightarrow> pred_state \<Rightarrow> jobj \<Rightarrow> jobj \<Rightarrow> predicate_result" where
  "evaluate_condition c obs st context features =
     (if resolve_operand (cond_left c) obs context features = None then unknown st
      else (case family_of (cond_op c) of
          None \<Rightarrow> unknown st
        | Some fam \<Rightarrow>
            (case op_evaluator fam c obs (begin_observation st (cond_key c) obs) context features of
               None \<Rightarrow> unknown st
             | Some (matched, fired, evidence, sub) \<Rightarrow>
                 predicate_result (Some matched) fired [(cond_key c, JObj evidence)]
                   (commit_substate st (cond_key c) sub obs))))"

section \<open>Three-valued groups\<close>

definition combine_all :: "bool option list \<Rightarrow> bool option" where
  "combine_all ms =
     (if Some False \<in> set ms then Some False
      else if None \<in> set ms then None
      else Some (list_all (\<lambda>m. m = Some True) ms))"

definition combine_any :: "bool option list \<Rightarrow> bool option" where
  "combine_any ms =
     (if Some True \<in> set ms then Some True else if None \<in> set ms then None else Some False)"

fun combine_not :: "bool option list \<Rightarrow> bool option" where
  "combine_not [] = Some True"
| "combine_not (m # ms) = (case m of None \<Rightarrow> None | Some b \<Rightarrow> Some (\<not> b))"

text \<open>
  The loop over the conditions of one group: the matched flags, whether a known condition
  fired, the evidence dictionary and the working state.
\<close>

fun run_group ::
  "condition list \<Rightarrow> observation \<Rightarrow> pred_state \<Rightarrow> jobj \<Rightarrow> jobj \<Rightarrow> jobj
   \<Rightarrow> bool option list \<times> bool \<times> jobj \<times> pred_state" where
  "run_group [] obs st context features ev = ([], False, ev, st)"
| "run_group (c # cs) obs st context features ev =
     (let r = evaluate_condition c obs st context features;
          (ms, fired, ev', st') =
            run_group cs obs (pr_state r) context features (dict_update ev (pr_evidence r))
      in (pr_matched r # ms, (pr_matched r \<noteq> None \<and> pr_fired r) \<or> fired, ev', st'))"

fun combine_group :: "group_kind \<Rightarrow> bool option list \<Rightarrow> bool option" where
  "combine_group GAll ms = combine_all ms"
| "combine_group GAny ms = combine_any ms"
| "combine_group GNot ms = combine_not ms"

fun run_groups ::
  "(group_kind \<times> condition list) list \<Rightarrow> observation \<Rightarrow> pred_state \<Rightarrow> jobj \<Rightarrow> jobj \<Rightarrow> jobj
   \<Rightarrow> bool option list \<times> bool \<times> jobj \<times> pred_state" where
  "run_groups [] obs st context features ev = ([], False, ev, st)"
| "run_groups ((kind, cs) # gs) obs st context features ev =
     (let (ms, fired, ev1, st1) = run_group cs obs st context features ev;
          (rest, fired', ev2, st2) = run_groups gs obs st1 context features ev1
      in (combine_group kind ms # rest, fired \<or> fired', ev2, st2))"

definition evaluate_groups ::
  "(group_kind \<times> condition list) list \<Rightarrow> observation \<Rightarrow> pred_state \<Rightarrow> jobj \<Rightarrow> jobj
   \<Rightarrow> bool option \<times> bool \<times> jobj \<times> pred_state" where
  "evaluate_groups gs obs st context features =
     (let (ms, fired, ev, st') = run_groups gs obs st context features []
      in (combine_all ms, fired, ev, st'))"

definition group_pairs :: "stage \<Rightarrow> (group_kind \<times> condition list) list" where
  "group_pairs s =
     [(GAll, stage_conditions s)]
     @ (if stage_any s \<noteq> [] then [(GAny, stage_any s)] else [])
     @ (if stage_not s \<noteq> [] then [(GNot, stage_not s)] else [])"

definition spec_group_pairs :: "condition_group list \<Rightarrow> (group_kind \<times> condition list) list" where
  "spec_group_pairs gs = map (\<lambda>g. (grp_kind g, grp_conditions g)) gs"

section \<open>Stage machines\<close>

definition advanced_state :: "pred_state \<Rightarrow> string \<Rightarrow> observation \<Rightarrow> adv_sub" where
  "advanced_state st sid obs =
     (let sub = (case dict_get (ps_advanced st) sid of None \<Rightarrow> empty_adv | Some s \<Rightarrow> s) in
      case av_epoch sub of
        None \<Rightarrow> sub
      | Some e \<Rightarrow> if e \<noteq> ob_epoch obs then empty_adv else sub)"

definition commit_advanced_state :: "pred_state \<Rightarrow> string \<Rightarrow> adv_sub \<Rightarrow> observation \<Rightarrow> pred_state" where
  "commit_advanced_state st sid sub obs =
     st\<lparr>ps_advanced := dict_set sid (sub\<lparr>av_epoch := Some (ob_epoch obs)\<rparr>) (ps_advanced st)\<rparr>"

definition apply_consecutive_bars ::
  "int \<Rightarrow> bool option \<Rightarrow> adv_sub \<Rightarrow> jobj \<Rightarrow> bool \<times> bool \<times> adv_sub \<times> jobj" where
  "apply_consecutive_bars required matched sub ev =
     (let previous = (case av_streak sub of None \<Rightarrow> 0 | Some n \<Rightarrow> n);
          streak = (if matched = Some True then previous + 1 else 0)
      in (streak \<ge> required, streak \<ge> required \<and> previous < required, sub\<lparr>av_streak := Some streak\<rparr>,
          dict_set ''consecutive_count'' (JInt streak) (dict_set ''consecutive_bars'' (JInt required) ev)))"

definition disarm :: "adv_sub \<Rightarrow> adv_sub" where
  "disarm sub = sub\<lparr>av_armed := False, av_armed_ts := None, av_bars := None\<rparr>"

definition sequence_expired :: "sequence_spec \<Rightarrow> observation \<Rightarrow> adv_sub \<Rightarrow> bool" where
  "sequence_expired sq obs sub =
     ((case seq_within_bars sq of
         None \<Rightarrow> False
       | Some n \<Rightarrow> (case av_bars sub of None \<Rightarrow> 0 | Some b \<Rightarrow> b) + 1 > n)
      \<or> (case (seq_within_s sq, av_armed_ts sub) of
           (Some s, Some t) \<Rightarrow> ob_ts obs - t > seconds s
         | _ \<Rightarrow> False))"

definition apply_sequence ::
  "sequence_spec \<Rightarrow> observation \<Rightarrow> adv_sub \<Rightarrow> jobj \<Rightarrow> jobj \<Rightarrow> pred_state
   \<Rightarrow> bool \<times> bool \<times> adv_sub \<times> pred_state" where
  "apply_sequence sq obs sub0 context features st =
     (let bars = (case av_bars sub0 of None \<Rightarrow> 0 | Some b \<Rightarrow> b);
          expired = (av_armed sub0 \<and> sequence_expired sq obs sub0);
          armed = (av_armed sub0 \<and> \<not> expired);
          sub = (if expired then disarm sub0 else sub0)
      in if armed then
           let sub1 = sub\<lparr>av_bars := Some (bars + 1)\<rparr>;
               (m, f, e, st') = evaluate_groups (spec_group_pairs (seq_then sq)) obs st context features
           in if m = Some True then (True, True, disarm sub1, st') else (False, False, sub1, st')
         else
           let (m, f, e, st') = evaluate_groups (spec_group_pairs (seq_first sq)) obs st context features
           in (False, False,
               if m = Some True
               then sub\<lparr>av_armed := True, av_armed_ts := Some (ob_ts obs),
                        av_armed_bar_ts := Some (ob_ts obs), av_bars := Some 0\<rparr>
               else sub, st'))"

definition evaluate_stage ::
  "stage \<Rightarrow> observation \<Rightarrow> pred_state \<Rightarrow> jobj \<Rightarrow> jobj \<Rightarrow> predicate_result" where
  "evaluate_stage s obs st context features =
     (let (ms, any_fired, ev, working) = run_groups (group_pairs s) obs st context features [];
          matched = combine_all ms
      in case stage_consecutive_bars s of
           Some n \<Rightarrow>
             let (m, fired, sub, ev') =
                   apply_consecutive_bars n matched (advanced_state working (stage_id s) obs) ev
             in predicate_result (Some m) fired ev' (commit_advanced_state working (stage_id s) sub obs)
         | None \<Rightarrow>
             (case stage_sequence s of
                Some sq \<Rightarrow>
                  let (m, fired, sub, working') =
                        apply_sequence sq obs (advanced_state working (stage_id s) obs) context features working
                  in predicate_result (Some m) fired ev (commit_advanced_state working' (stage_id s) sub obs)
              | None \<Rightarrow>
                  (case matched of
                     None \<Rightarrow> predicate_result None False ev working
                   | Some m \<Rightarrow> predicate_result (Some m) (m \<and> any_fired) ev working)))"

section \<open>The contract of an operator family\<close>

definition fresh_sub :: "cond_sub \<Rightarrow> bool" where
  "fresh_sub sub \<longleftrightarrow> clear_epoch_keys sub = sub"

text \<open>A captured percentage anchor is never zero, so the division by it is defined.\<close>

definition baseline_ok :: "cond_sub \<Rightarrow> bool" where
  "baseline_ok sub \<longleftrightarrow> cs_baseline sub \<noteq> Some 0"

lemma fresh_sub_sel:
  assumes "fresh_sub sub"
  shows "cs_prev sub = None" "cs_baseline sub = None" "cs_within sub = None"
    "cs_pct_matched sub = None" "cs_high_seen sub = None" "cs_low_seen sub = None"
    "cs_high_broken sub = None" "cs_low_broken sub = None" "cs_hyst_matched sub = None"
proof -
  have "sub = empty_sub\<lparr>cs_epoch := cs_epoch sub\<rparr>"
    using assms by (simp add: fresh_sub_def clear_epoch_keys_def)
  then show "cs_prev sub = None" "cs_baseline sub = None" "cs_within sub = None"
    "cs_pct_matched sub = None" "cs_high_seen sub = None" "cs_low_seen sub = None"
    "cs_high_broken sub = None" "cs_low_broken sub = None" "cs_hyst_matched sub = None"
    by (metis (no_types) cond_sub.select_convs cond_sub.update_convs(1) empty_sub_def)+
qed

lemma fresh_clear [simp]: "fresh_sub (clear_epoch_keys sub)" "fresh_sub empty_sub"
  by (simp_all add: fresh_sub_def clear_epoch_keys_def empty_sub_def)

locale condition_machine =
  fixes ev :: evaluator
  assumes fires_matched: "ev c obs sub ctx fs = Some (m, True, e, s) \<Longrightarrow> m"
    and fresh_silent: "ev c obs sub ctx fs = Some (m, f, e, s) \<Longrightarrow> fresh_sub sub \<Longrightarrow> \<not> f"
    and keeps_epoch: "ev c obs sub ctx fs = Some (m, f, e, s) \<Longrightarrow> cs_epoch s = cs_epoch sub"
    and keeps_baseline: "ev c obs sub ctx fs = Some (m, f, e, s) \<Longrightarrow> baseline_ok sub \<Longrightarrow> baseline_ok s"
begin

lemma fires_not_fresh: "ev c obs sub ctx fs = Some (m, True, e, s) \<Longrightarrow> m \<and> \<not> fresh_sub sub"
  using fires_matched fresh_silent by blast

end

lemma apply_hysteresis_frame:
  "apply_hysteresis op r sub cur level m = (m', s) \<Longrightarrow>
   cs_epoch s = cs_epoch sub \<and> cs_baseline s = cs_baseline sub"
  by (auto simp: apply_hysteresis_def Let_def split: if_splits)

interpretation level_op: condition_machine evaluate_level_op
  by unfold_locales
    (auto simp: evaluate_level_op_def Let_def baseline_ok_def dest!: apply_hysteresis_frame
      split: option.splits prod.splits)

interpretation cross_op: condition_machine evaluate_cross_op
  by unfold_locales
    (auto simp: evaluate_cross_op_def Let_def baseline_ok_def fresh_sub_sel
      split: option.splits if_splits)

interpretation within_op: condition_machine evaluate_within
  by unfold_locales
    (auto simp: evaluate_within_def Let_def baseline_ok_def fresh_sub_sel
      split: option.splits if_splits)

interpretation pct_op: condition_machine evaluate_pct_op
  by unfold_locales
    (auto simp: evaluate_pct_op_def Let_def baseline_ok_def fresh_sub_sel
      split: option.splits if_splits)

interpretation break_op: condition_machine evaluate_break_op
  by unfold_locales
    (auto simp: evaluate_break_op_def Let_def baseline_ok_def fresh_sub_sel
      split: option.splits if_splits)

text \<open>Every family honours the contract, so the dispatch table does.\<close>

interpretation any_op: condition_machine "op_evaluator fam" for fam
proof -
  show "condition_machine (op_evaluator fam)"
    by (cases fam) (simp_all add: level_op.condition_machine_axioms cross_op.condition_machine_axioms
        within_op.condition_machine_axioms pct_op.condition_machine_axioms
        break_op.condition_machine_axioms)
qed

section \<open>Conditions: frame and unknowns\<close>

lemma begin_observation_new_epoch:
  assumes "\<And>s. dict_get (ps_conds st) key = Some s \<Longrightarrow> cs_epoch s \<noteq> None \<and> cs_epoch s \<noteq> Some (ob_epoch obs)"
  shows "fresh_sub (begin_observation st key obs)"
  using assms
  by (cases "dict_get (ps_conds st) key")
    (auto simp: begin_observation_def Let_def empty_sub_def [THEN arg_cong, of cs_epoch] split: option.splits)

lemma evaluate_condition_cases [consumes 0, case_names unknown known]:
  obtains "evaluate_condition c obs st ctx fs = unknown st"
  | fam m f e s where "family_of (cond_op c) = Some fam"
      "op_evaluator fam c obs (begin_observation st (cond_key c) obs) ctx fs = Some (m, f, e, s)"
      "evaluate_condition c obs st ctx fs =
         predicate_result (Some m) f [(cond_key c, JObj e)] (commit_substate st (cond_key c) s obs)"
  unfolding evaluate_condition_def by (fastforce split: option.splits prod.splits if_splits)

lemma unknown_sel [simp]:
  "pr_matched (unknown st) = None" "pr_fired (unknown st) = False"
  "pr_evidence (unknown st) = []" "pr_state (unknown st) = st"
  by (simp_all add: unknown_def)

lemma commit_substate_sel [simp]:
  "dict_get (ps_conds (commit_substate st k s obs)) k' =
     (if k' = k then Some (s\<lparr>cs_epoch := Some (ob_epoch obs)\<rparr>) else dict_get (ps_conds st) k')"
  "ps_advanced (commit_substate st k s obs) = ps_advanced st"
  "ps_epoch (commit_substate st k s obs) = Some (ob_epoch obs)"
  by (simp_all add: commit_substate_def)

lemma evaluate_condition_other_key [frame_simps]:
  "k \<noteq> cond_key c \<Longrightarrow>
   dict_get (ps_conds (pr_state (evaluate_condition c obs st ctx fs))) k = dict_get (ps_conds st) k"
  by (rule evaluate_condition_cases [of c obs st ctx fs]) simp_all

lemma evaluate_condition_advanced [frame_simps]:
  "ps_advanced (pr_state (evaluate_condition c obs st ctx fs)) = ps_advanced st"
  by (rule evaluate_condition_cases [of c obs st ctx fs]) simp_all

text \<open>A condition's result depends on the state only through its own sub-state.\<close>

lemma evaluate_condition_local:
  fixes obs :: observation and ctx fs :: jobj
  assumes "dict_get (ps_conds st) (cond_key c) = dict_get (ps_conds st') (cond_key c)"
  defines "r \<equiv> \<lambda>st. evaluate_condition c obs st ctx fs"
  shows "pr_matched (r st) = pr_matched (r st')" "pr_fired (r st) = pr_fired (r st')"
    "pr_evidence (r st) = pr_evidence (r st')"
    "dict_get (ps_conds (pr_state (r st))) (cond_key c) = dict_get (ps_conds (pr_state (r st'))) (cond_key c)"
proof -
  have b: "begin_observation st (cond_key c) obs = begin_observation st' (cond_key c) obs"
    using assms(1) by (simp add: begin_observation_def)
  show "pr_matched (r st) = pr_matched (r st')" "pr_fired (r st) = pr_fired (r st')"
    "pr_evidence (r st) = pr_evidence (r st')"
    "dict_get (ps_conds (pr_state (r st))) (cond_key c) = dict_get (ps_conds (pr_state (r st'))) (cond_key c)"
    using assms(1) unfolding r_def evaluate_condition_def b
    by (auto split: option.splits prod.splits)
qed

end
