(* ===== verification/PredicateTheorems.thy ===== *)
theory PredicateTheorems
  imports Predicates
begin

text \<open>
  What the condition evaluator promises. The first group is about one evaluation: a condition
  touches only its own sub-state, an unknown operand changes nothing, a fire is a match, a
  new epoch never fires, and conditions with different keys do not influence each other.
  The second group is about whole histories of observations of one epoch: each operator
  family fires exactly when the transition its documentation names happens. The third group
  is about stages: the three-valued groups are Kleene's connectives, the consecutive-bars
  machine counts trailing matches, and a sequence fires within its bounds after arming.
\<close>

section \<open>Samples\<close>

definition sample_obs :: "instant \<Rightarrow> flt \<Rightarrow> observation" where
  "sample_obs t v = \<lparr>ob_ts = t, ob_epoch = ''e1'', ob_ltp = Some v, ob_open = None, ob_high = None,
     ob_low = None, ob_close = None, ob_volume = None\<rparr>"

definition sample_cond :: "string \<Rightarrow> flt \<Rightarrow> flt option \<Rightarrow> condition" where
  "sample_cond opname level hyst =
     \<lparr>cond_left = mk_operand KField (Some ''ltp'') None [] None None, cond_op = opname,
      cond_right = mk_operand KValue None (Some level) [(''hi'', JNum (level + 10))] None None,
      cond_hysteresis = hyst\<rparr>"

lemma sample_simps [simp]:
  "ob_epoch (sample_obs t v) = ''e1''" "ob_ltp (sample_obs t v) = Some v" "ob_ts (sample_obs t v) = t"
  "cond_op (sample_cond opname level hyst) = opname"
  "cond_hysteresis (sample_cond opname level hyst) = hyst"
  "resolve_operand (cond_left (sample_cond opname level hyst)) (sample_obs t v) ctx fs = Some v"
  "op_kind (cond_right (sample_cond opname level hyst)) = KValue"
  "op_value (cond_right (sample_cond opname level hyst)) = Some level"
  "within_bounds (cond_right (sample_cond opname level hyst)) = Some (level, level + 10)"
  by (simp_all add: sample_obs_def sample_cond_def resolve_operand.simps resolve_field_def
      observation_field_def within_bounds_def obj_num_def obj_get_def)

section \<open>One evaluation\<close>

lemma condition_fired_matched:
  "pr_fired (evaluate_condition c obs st ctx fs) \<Longrightarrow> pr_matched (evaluate_condition c obs st ctx fs) = Some True"
proof (rule evaluate_condition_cases [of c obs st ctx fs])
  assume "pr_fired (evaluate_condition c obs st ctx fs)" "evaluate_condition c obs st ctx fs = unknown st"
  then show ?thesis by simp
next
  fix fam m f e s
  assume "pr_fired (evaluate_condition c obs st ctx fs)"
    and "op_evaluator fam c obs (begin_observation st (cond_key c) obs) ctx fs = Some (m, f, e, s)"
    and "evaluate_condition c obs st ctx fs =
         predicate_result (Some m) f [(cond_key c, JObj e)] (commit_substate st (cond_key c) s obs)"
  then show ?thesis using any_op.fires_matched by fastforce
qed

lemma condition_unknown_inert:
  "pr_matched (evaluate_condition c obs st ctx fs) = None \<Longrightarrow> evaluate_condition c obs st ctx fs = unknown st"
  by (rule evaluate_condition_cases [of c obs st ctx fs]) simp_all

text \<open>
  A condition reads and writes only its own sub-state: every other entry of \<open>conds\<close> and
  all of \<open>stage_advanced\<close> are left alone; an unknown result leaves the whole state unchanged,
  fires nothing and records no evidence; and whatever fires has matched.
\<close>

theorem condition_isolated:
  assumes "r = evaluate_condition c obs st ctx fs"
  shows "(\<forall>k. k \<noteq> cond_key c \<longrightarrow> dict_get (ps_conds (pr_state r)) k = dict_get (ps_conds st) k)
    \<and> ps_advanced (pr_state r) = ps_advanced st
    \<and> (pr_matched r = None \<longrightarrow> pr_state r = st \<and> \<not> pr_fired r \<and> pr_evidence r = [])
    \<and> (pr_fired r \<longrightarrow> pr_matched r = Some True)"
  using condition_unknown_inert [of c obs st ctx fs] condition_fired_matched [of c obs st ctx fs]
  by (auto simp: assms frame_simps)

theorem condition_isolated_witness:
  "ps_advanced (pr_state (evaluate_condition (sample_cond ''gt'' 5 None) (sample_obs 0 7) empty_state [] [])) = []"
  using condition_isolated [OF refl, of "sample_cond ''gt'' 5 None" "sample_obs 0 7" empty_state "[]" "[]"]
  by (simp add: empty_state_def)

text \<open>
  An observation that opens a new epoch for a condition (no sub-state yet, or one stamped
  with another epoch) initializes it and never fires.
\<close>

theorem new_epoch_never_fires:
  assumes "\<forall>s. dict_get (ps_conds st) (cond_key c) = Some s \<longrightarrow>
      cs_epoch s \<noteq> None \<and> cs_epoch s \<noteq> Some (ob_epoch obs)"
  shows "\<not> pr_fired (evaluate_condition c obs st ctx fs)"
proof -
  have fresh: "fresh_sub (begin_observation st (cond_key c) obs)"
    using assms by (intro begin_observation_new_epoch) auto
  show ?thesis
  proof (rule evaluate_condition_cases [of c obs st ctx fs])
    fix fam m f e s
    assume "op_evaluator fam c obs (begin_observation st (cond_key c) obs) ctx fs = Some (m, f, e, s)"
      and "evaluate_condition c obs st ctx fs =
         predicate_result (Some m) f [(cond_key c, JObj e)] (commit_substate st (cond_key c) s obs)"
    then show ?thesis using any_op.fresh_silent [OF _ fresh] by simp
  qed simp
qed

theorem new_epoch_never_fires_witness:
  "\<not> pr_fired (evaluate_condition (sample_cond ''crosses_above'' 5 None) (sample_obs 0 7) empty_state [] [])"
  by (rule new_epoch_never_fires) (simp add: empty_state_def)

text \<open>
  Conditions with different keys do not influence each other: evaluating \<open>d\<close> first does
  not change what \<open>c\<close> reports, and both orders leave the same sub-state under every key.
\<close>

theorem conditions_commute:
  assumes "cond_key c \<noteq> cond_key d"
    and "after_c = evaluate_condition c obs st ctx fs"
    and "after_d = evaluate_condition d obs st ctx fs"
    and "c_last = evaluate_condition c obs (pr_state after_d) ctx fs"
    and "d_last = evaluate_condition d obs (pr_state after_c) ctx fs"
  shows "pr_matched c_last = pr_matched after_c \<and> pr_fired c_last = pr_fired after_c
    \<and> pr_evidence c_last = pr_evidence after_c
    \<and> map_of (ps_conds (pr_state c_last)) = map_of (ps_conds (pr_state d_last))"
proof -
  have c: "dict_get (ps_conds (pr_state after_d)) (cond_key c) = dict_get (ps_conds st) (cond_key c)"
    and d: "dict_get (ps_conds (pr_state after_c)) (cond_key d) = dict_get (ps_conds st) (cond_key d)"
    using assms(1) by (simp_all add: assms(2,3) frame_simps)
  note lc = evaluate_condition_local [OF c] and ld = evaluate_condition_local [OF d]
  have "dict_get (ps_conds (pr_state c_last)) k = dict_get (ps_conds (pr_state d_last)) k" for k
  proof (cases "k = cond_key c")
    case True
    then show ?thesis using assms lc(4) by (simp add: frame_simps)
  next
    case False
    then show ?thesis
      using assms ld(4) by (cases "k = cond_key d") (simp_all add: frame_simps)
  qed
  then show ?thesis using lc(1,2,3) by (simp add: assms(2,4) ext)
qed

theorem conditions_commute_witness:
  "pr_fired (evaluate_condition (sample_cond ''gt'' 5 None) (sample_obs 0 7)
      (pr_state (evaluate_condition (sample_cond ''lt'' 5 None) (sample_obs 0 7) empty_state [] [])) [] [])
   = pr_fired (evaluate_condition (sample_cond ''gt'' 5 None) (sample_obs 0 7) empty_state [] [])"
proof -
  have "cond_key (sample_cond ''gt'' 5 None) \<noteq> cond_key (sample_cond ''lt'' 5 None)"
    by (simp add: cond_key_def)
  from conditions_commute [OF this refl refl refl refl] show ?thesis by blast
qed

section \<open>Histories of one epoch\<close>

type_synonym feed = "observation \<times> jobj \<times> jobj"

definition feed_value :: "condition \<Rightarrow> feed \<Rightarrow> flt option" where
  "feed_value c x = (case x of (obs, ctx, fs) \<Rightarrow> resolve_operand (cond_left c) obs ctx fs)"

text \<open>The known values of a history, oldest first.\<close>

definition known_values :: "condition \<Rightarrow> feed list \<Rightarrow> flt list" where
  "known_values c h = List.map_filter (feed_value c) h"

definition state_after :: "condition \<Rightarrow> feed list \<Rightarrow> pred_state" where
  "state_after c h = fold (\<lambda>(obs, ctx, fs) st. pr_state (evaluate_condition c obs st ctx fs)) h empty_state"

definition result_after :: "condition \<Rightarrow> feed list \<Rightarrow> feed \<Rightarrow> predicate_result" where
  "result_after c h x = (case x of (obs, ctx, fs) \<Rightarrow> evaluate_condition c obs (state_after c h) ctx fs)"

definition one_epoch :: "string \<Rightarrow> feed list \<Rightarrow> bool" where
  "one_epoch e h \<longleftrightarrow> list_all (\<lambda>(obs, ctx, fs). ob_epoch obs = e) h"

definition constant_right :: "condition \<Rightarrow> flt \<Rightarrow> bool" where
  "constant_right c level \<longleftrightarrow> op_kind (cond_right c) = KValue \<and> op_value (cond_right c) = Some level"

lemma resolve_constant_right:
  "constant_right c level \<Longrightarrow> resolve_operand (cond_right c) obs ctx fs = Some level"
  by (simp add: constant_right_def resolve_operand.simps)

lemma known_values_simps [simp]:
  "known_values c [] = []"
  "known_values c (h @ [x]) = known_values c h @ (case feed_value c x of None \<Rightarrow> [] | Some v \<Rightarrow> [v])"
  by (simp_all add: known_values_def map_filter_def split: option.splits)

lemma one_epoch_snoc [simp]: "one_epoch e (h @ [x]) \<longleftrightarrow> one_epoch e h \<and> ob_epoch (fst x) = e"
  by (cases x) (simp add: one_epoch_def)

lemma state_after_simps [simp]:
  "state_after c [] = empty_state" "state_after c (h @ [x]) = pr_state (result_after c h x)"
  by (simp_all add: state_after_def result_after_def split: prod.splits)

text \<open>The sub-state the next observation of epoch \<open>e\<close> starts from.\<close>

definition sub_after :: "condition \<Rightarrow> feed list \<Rightarrow> string \<Rightarrow> cond_sub" where
  "sub_after c h e =
     (case dict_get (ps_conds (state_after c h)) (cond_key c) of None \<Rightarrow> empty_sub | Some s \<Rightarrow> s)"

lemma begin_sub_after:
  assumes "one_epoch e h" "ob_epoch obs = e"
  shows "begin_observation (state_after c h) (cond_key c) obs = sub_after c h e
    \<and> cs_epoch (sub_after c h e) \<in> {None, Some e}"
  using assms(1)
proof (induction h rule: rev_induct)
  case Nil
  then show ?case by (simp add: begin_observation_def sub_after_def empty_state_def empty_sub_def)
next
  case (snoc x h)
  obtain xo ctx fs where x: "x = (xo, ctx, fs)" by (cases x)
  with snoc have IH: "begin_observation (state_after c h) (cond_key c) obs = sub_after c h e"
    "cs_epoch (sub_after c h e) \<in> {None, Some e}" and e: "ob_epoch xo = e" by auto
  show ?case
  proof (rule evaluate_condition_cases [of c xo "state_after c h" ctx fs])
    assume "evaluate_condition c xo (state_after c h) ctx fs = unknown (state_after c h)"
    then have "state_after c (h @ [x]) = state_after c h" by (simp add: x result_after_def)
    then show ?thesis using IH by (simp add: sub_after_def)
  next
    fix fam m f ev s
    assume "evaluate_condition c xo (state_after c h) ctx fs =
      predicate_result (Some m) f [(cond_key c, JObj ev)] (commit_substate (state_after c h) (cond_key c) s xo)"
    then have "state_after c (h @ [x]) = commit_substate (state_after c h) (cond_key c) s xo"
      by (simp add: x result_after_def)
    then show ?thesis using assms(2) e by (simp add: begin_observation_def sub_after_def Let_def)
  qed
qed

lemma sub_after_Nil [simp]: "sub_after c [] e = empty_sub"
  by (simp add: sub_after_def empty_state_def)

lemma result_after_unknown:
  assumes "feed_value c x = None"
  shows "result_after c h x = unknown (state_after c h)" "sub_after c (h @ [x]) e = sub_after c h e"
  using assms
  by (simp_all add: result_after_def feed_value_def evaluate_condition_def sub_after_def split: prod.splits)

text \<open>One step of a history, seen through the evaluator of the condition's family.\<close>

lemma result_after_step:
  assumes "one_epoch e (h @ [x])" "x = (obs, ctx, fs)" "family_of (cond_op c) = Some fam"
    and "feed_value c x \<noteq> None"
  shows "op_evaluator fam c obs (sub_after c h e) ctx fs = Some (m, f, ev, s) \<Longrightarrow>
      pr_matched (result_after c h x) = Some m \<and> pr_fired (result_after c h x) = f
      \<and> sub_after c (h @ [x]) e = s\<lparr>cs_epoch := Some e\<rparr>"
    and "op_evaluator fam c obs (sub_after c h e) ctx fs = None \<Longrightarrow>
      result_after c h x = unknown (state_after c h) \<and> sub_after c (h @ [x]) e = sub_after c h e"
proof -
  have b: "begin_observation (state_after c h) (cond_key c) obs = sub_after c h e"
    using begin_sub_after assms(1,2) by simp
  have r: "resolve_operand (cond_left c) obs ctx fs \<noteq> None"
    using assms(2,4) by (simp add: feed_value_def)
  have e: "ob_epoch obs = e" using assms(1,2) by simp
  show "op_evaluator fam c obs (sub_after c h e) ctx fs = Some (m, f, ev, s) \<Longrightarrow>
      pr_matched (result_after c h x) = Some m \<and> pr_fired (result_after c h x) = f
      \<and> sub_after c (h @ [x]) e = s\<lparr>cs_epoch := Some e\<rparr>"
    using r assms(3) e
    by (simp add: sub_after_def [of c "h @ [x]"]) (simp add: assms(2) result_after_def evaluate_condition_def b)
  show "op_evaluator fam c obs (sub_after c h e) ctx fs = None \<Longrightarrow>
      result_after c h x = unknown (state_after c h) \<and> sub_after c (h @ [x]) e = sub_after c h e"
    using r assms(3)
    by (simp add: sub_after_def [of c "h @ [x]"]) (simp add: assms(2) result_after_def evaluate_condition_def b sub_after_def)
qed

text \<open>
  The induction principle of the histories: a relation between the known values and the
  sub-state that holds initially and is kept by the evaluator holds after every history.
\<close>

lemma tracked:
  assumes "family_of (cond_op c) = Some fam" and init: "P [] empty_sub"
    and step: "\<And>vs sub obs ctx fs cur. P vs sub \<Longrightarrow> resolve_operand (cond_left c) obs ctx fs = Some cur \<Longrightarrow>
      (case op_evaluator fam c obs sub ctx fs of
         None \<Rightarrow> P (vs @ [cur]) sub
       | Some (m, f, ev, s) \<Rightarrow> P (vs @ [cur]) (s\<lparr>cs_epoch := Some e\<rparr>))"
  shows "one_epoch e h \<Longrightarrow> P (known_values c h) (sub_after c h e)"
proof (induction h rule: rev_induct)
  case Nil
  then show ?case by (simp add: init)
next
  case (snoc x h)
  obtain obs ctx fs where x: "x = (obs, ctx, fs)" by (cases x)
  have IH: "P (known_values c h) (sub_after c h e)" using snoc by simp
  show ?case
  proof (cases "feed_value c x")
    case None
    then show ?thesis using IH result_after_unknown [OF None] by simp
  next
    case (Some v)
    then have v: "resolve_operand (cond_left c) obs ctx fs = Some v" by (simp add: x feed_value_def)
    show ?thesis
      using step [OF IH v] result_after_step [OF snoc.prems x assms(1)] Some
      by (auto split: option.splits prod.splits)
  qed
qed

subsection \<open>Crossings\<close>

lemma evaluate_cross_known:
  assumes "constant_right c level" "resolve_operand (cond_left c) obs ctx fs = Some cur"
  shows "\<exists>m ev. evaluate_cross_op c obs sub ctx fs =
    Some (m, (case cs_prev sub of None \<Rightarrow> False
       | Some prev \<Rightarrow> if cond_op c = ''crosses_above'' then prev < level \<and> level \<le> cur
                      else level < prev \<and> cur \<le> level),
      ev, sub\<lparr>cs_prev := Some cur\<rparr>)"
  by (cases "cs_prev sub") (simp_all add: evaluate_cross_op_def resolve_constant_right [OF assms(1)] assms(2) Let_def)

lemma last_known_cross:
  assumes "family_of (cond_op c) = Some FCross" "constant_right c level" "one_epoch e h"
  shows "cs_prev (sub_after c h e) = (if known_values c h = [] then None else Some (last (known_values c h)))"
proof (rule tracked [OF assms(1), where P = "\<lambda>vs s. cs_prev s = (if vs = [] then None else Some (last vs))"])
  fix vs sub obs ctx fs cur
  assume "resolve_operand (cond_left c) obs ctx fs = Some cur"
  from evaluate_cross_known [OF assms(2) this, of sub]
  show "case op_evaluator FCross c obs sub ctx fs of
      None \<Rightarrow> cs_prev sub = (if vs @ [cur] = [] then None else Some (last (vs @ [cur])))
    | Some (m, f, ev, s) \<Rightarrow>
        cs_prev (s\<lparr>cs_epoch := Some e\<rparr>) = (if vs @ [cur] = [] then None else Some (last (vs @ [cur])))"
    by auto
qed (use assms(3) in \<open>simp_all add: empty_sub_def\<close>)

text \<open>
  C24. Crossings over a whole history of one epoch: with a constant level,
  \<open>crosses_above\<close> fires exactly when the last known earlier value was strictly below the
  level and the current one is at or above it, and \<open>crosses_below\<close> mirrors it. Unknown
  observations in between neither fire nor forget the previous value.
\<close>

theorem cross_fires_iff:
  assumes "cond_op c \<in> {''crosses_above'', ''crosses_below''}" "constant_right c level"
    and "one_epoch e (h @ [x])"
  shows "pr_fired (result_after c h x) \<longleftrightarrow>
    (\<exists>prev cur. known_values c h \<noteq> [] \<and> prev = last (known_values c h) \<and> feed_value c x = Some cur
      \<and> (if cond_op c = ''crosses_above'' then prev < level \<and> level \<le> cur
         else level < prev \<and> cur \<le> level))"
proof (cases "feed_value c x")
  case None
  then show ?thesis by (simp add: result_after_unknown)
next
  case (Some cur)
  obtain obs ctx fs where x: "x = (obs, ctx, fs)" by (cases x)
  have fam: "family_of (cond_op c) = Some FCross" using assms(1) by (auto simp: family_of_def)
  have prev: "cs_prev (sub_after c h e) = (if known_values c h = [] then None else Some (last (known_values c h)))"
    using last_known_cross [OF fam assms(2)] assms(3) by simp
  have cur: "resolve_operand (cond_left c) obs ctx fs = Some cur" using Some by (simp add: x feed_value_def)
  obtain m ev where o: "op_evaluator FCross c obs (sub_after c h e) ctx fs = Some (m,
      (case cs_prev (sub_after c h e) of None \<Rightarrow> False
       | Some prev \<Rightarrow> if cond_op c = ''crosses_above'' then prev < level \<and> level \<le> cur
                      else level < prev \<and> cur \<le> level),
      ev, (sub_after c h e)\<lparr>cs_prev := Some cur\<rparr>)"
    using evaluate_cross_known [OF assms(2) cur, of "sub_after c h e"] by auto
  show ?thesis
    using result_after_step(1) [OF assms(3) x fam _ o] Some prev by simp
qed

theorem cross_fires_iff_witness:
  "pr_fired (result_after (sample_cond ''crosses_above'' 5 None) [(sample_obs 0 4, [], [])] (sample_obs 1 5, [], []))"
proof -
  let ?c = "sample_cond ''crosses_above'' 5 None"
  have "known_values ?c [(sample_obs 0 4, [], [])] = [4]"
    by (simp add: known_values_def map_filter_def feed_value_def)
  then show ?thesis
    using cross_fires_iff [of ?c 5 "''e1''" "[(sample_obs 0 4, [], [])]" "(sample_obs 1 5, [], [])"]
    by (simp add: constant_right_def one_epoch_def feed_value_def)
qed

subsection \<open>Breaks of a previous level\<close>

definition beyond :: "string \<Rightarrow> flt \<Rightarrow> flt \<Rightarrow> bool" where
  "beyond opname level v \<longleftrightarrow> (if opname = ''breaks_prev_high'' then v > level else v < level)"

text \<open>The side of the level the value was last strictly on, if any.\<close>

definition last_side_beyond :: "string \<Rightarrow> flt \<Rightarrow> flt list \<Rightarrow> bool" where
  "last_side_beyond opname level vs \<longleftrightarrow>
     (let off = filter (\<lambda>v. v \<noteq> level) vs in off \<noteq> [] \<and> beyond opname level (last off))"

definition break_tracks :: "condition \<Rightarrow> flt \<Rightarrow> flt list \<Rightarrow> cond_sub \<Rightarrow> bool" where
  "break_tracks c level vs sub \<longleftrightarrow>
     (if cond_op c = ''breaks_prev_high''
      then (cs_high_seen sub = Some True \<longleftrightarrow> vs \<noteq> [])
           \<and> (cs_high_broken sub = Some True \<longleftrightarrow> last_side_beyond (cond_op c) level vs)
      else (cs_low_seen sub = Some True \<longleftrightarrow> vs \<noteq> [])
           \<and> (cs_low_broken sub = Some True \<longleftrightarrow> last_side_beyond (cond_op c) level vs))"

lemma evaluate_break_known:
  assumes "constant_right c level" "resolve_operand (cond_left c) obs ctx fs = Some cur"
    and "break_tracks c level vs sub"
  shows "\<exists>ev s. evaluate_break_op c obs sub ctx fs =
      Some (beyond (cond_op c) level cur, vs \<noteq> [] \<and> beyond (cond_op c) level cur \<and> \<not> last_side_beyond (cond_op c) level vs, ev, s)
    \<and> break_tracks c level (vs @ [cur]) (s\<lparr>cs_epoch := e\<rparr>)"
  using assms(3)
  by (cases "cond_op c = ''breaks_prev_high''"; cases "cur > level"; cases "cur < level")
    (simp_all add: evaluate_break_op_def resolve_constant_right [OF assms(1)] assms(2) Let_def
      break_tracks_def beyond_def last_side_beyond_def)

lemma break_tracked:
  assumes "family_of (cond_op c) = Some FBreak" "constant_right c level" "one_epoch e h"
  shows "break_tracks c level (known_values c h) (sub_after c h e)"
proof (rule tracked [OF assms(1) _ _ assms(3)])
  show "break_tracks c level [] empty_sub"
    by (simp add: break_tracks_def last_side_beyond_def empty_sub_def)
  fix vs sub obs ctx fs cur
  assume "break_tracks c level vs sub" "resolve_operand (cond_left c) obs ctx fs = Some cur"
  from evaluate_break_known [OF assms(2) this(2,1), of "Some e"]
  show "case op_evaluator FBreak c obs sub ctx fs of
      None \<Rightarrow> break_tracks c level (vs @ [cur]) sub
    | Some (m, f, ev, s) \<Rightarrow> break_tracks c level (vs @ [cur]) (s\<lparr>cs_epoch := Some e\<rparr>)"
    by auto
qed

text \<open>
  Breaks over a whole history of one epoch: a break fires exactly when the value is
  strictly beyond the level, this is not the first known value, and the last value that was
  not on the level itself (if any) was on the other side. So it never refires while the
  value stays beyond or merely touches the level, and it re-arms only on a return to the
  other side.
\<close>

theorem break_fires_iff:
  assumes "cond_op c \<in> {''breaks_prev_high'', ''breaks_prev_low''}" "constant_right c level"
    and "one_epoch e (h @ [x])"
  shows "pr_fired (result_after c h x) \<longleftrightarrow>
    (\<exists>cur. feed_value c x = Some cur \<and> known_values c h \<noteq> [] \<and> beyond (cond_op c) level cur
      \<and> \<not> last_side_beyond (cond_op c) level (known_values c h))"
proof (cases "feed_value c x")
  case None
  then show ?thesis by (simp add: result_after_unknown)
next
  case (Some cur)
  obtain obs ctx fs where x: "x = (obs, ctx, fs)" by (cases x)
  have fam: "family_of (cond_op c) = Some FBreak" using assms(1) by (auto simp: family_of_def)
  have t: "break_tracks c level (known_values c h) (sub_after c h e)"
    using break_tracked [OF fam assms(2)] assms(3) by simp
  have cur: "resolve_operand (cond_left c) obs ctx fs = Some cur" using Some by (simp add: x feed_value_def)
  from evaluate_break_known [OF assms(2) cur t, of None] obtain ev s where
    o: "op_evaluator FBreak c obs (sub_after c h e) ctx fs = Some (beyond (cond_op c) level cur, known_values c h \<noteq> []
      \<and> beyond (cond_op c) level cur \<and> \<not> last_side_beyond (cond_op c) level (known_values c h), ev, s)"
    by auto
  show ?thesis using result_after_step(1) [OF assms(3) x fam _ o] Some by simp
qed

theorem break_fires_iff_witness:
  "pr_fired (result_after (sample_cond ''breaks_prev_high'' 5 None)
     [(sample_obs 0 6, [], []), (sample_obs 1 4, [], []), (sample_obs 2 5, [], [])] (sample_obs 3 6, [], []))"
proof -
  let ?c = "sample_cond ''breaks_prev_high'' 5 None"
  let ?h = "[(sample_obs 0 6, [], []), (sample_obs 1 4, [], []), (sample_obs 2 5, [], [])]"
  have "known_values ?c ?h = [6, 4, 5]" by (simp add: known_values_def map_filter_def feed_value_def)
  then show ?thesis
    using break_fires_iff [of ?c 5 "''e1''" ?h "(sample_obs 3 6, [], [])"]
    by (simp add: constant_right_def one_epoch_def feed_value_def beyond_def last_side_beyond_def)
qed

subsection \<open>Hysteresis\<close>

definition holds_release :: "string \<Rightarrow> flt \<Rightarrow> flt \<Rightarrow> bool" where
  "holds_release opname release v \<longleftrightarrow> (if opname \<in> {''gt'', ''gte''} then v > release else v < release)"

text \<open>Some value matched outright and every later one stayed on the near side of the release level.\<close>

definition held :: "string \<Rightarrow> flt \<Rightarrow> flt \<Rightarrow> flt list \<Rightarrow> bool" where
  "held opname level release vs \<longleftrightarrow>
     (\<exists>pre v post. vs = pre @ v # post \<and> compare opname v level
        \<and> (\<forall>w \<in> set post. holds_release opname release w))"

lemma held_Nil [simp]: "\<not> held opname level release []"
  by (simp add: held_def)

lemma held_snoc:
  "held opname level release (vs @ [cur]) \<longleftrightarrow>
   compare opname cur level \<or> (held opname level release vs \<and> holds_release opname release cur)"
proof
  assume "held opname level release (vs @ [cur])"
  then obtain pre v post where d: "vs @ [cur] = pre @ v # post" "compare opname v level"
    "\<forall>w \<in> set post. holds_release opname release w" by (auto simp: held_def)
  then show "compare opname cur level \<or> (held opname level release vs \<and> holds_release opname release cur)"
    by (cases post rule: rev_cases) (auto simp: held_def)
next
  assume "compare opname cur level \<or> (held opname level release vs \<and> holds_release opname release cur)"
  then show "held opname level release (vs @ [cur])"
  proof
    assume "compare opname cur level"
    then show ?thesis unfolding held_def by (intro exI [of _ vs] exI [of _ cur] exI [of _ "[]"]) simp
  next
    assume a: "held opname level release vs \<and> holds_release opname release cur"
    then obtain pre v post where d: "vs = pre @ v # post" "compare opname v level"
      "\<forall>w \<in> set post. holds_release opname release w" by (auto simp: held_def)
    then show ?thesis
      using a unfolding held_def by (intro exI [of _ pre] exI [of _ v] exI [of _ "post @ [cur]"]) auto
  qed
qed

definition release_ok :: "string \<Rightarrow> flt \<Rightarrow> flt \<Rightarrow> bool" where
  "release_ok opname level release \<longleftrightarrow> (if opname \<in> {''gt'', ''gte''} then release < level else release > level)"

lemma evaluate_level_hysteresis:
  assumes "constant_right c level" "resolve_operand (cond_left c) obs ctx fs = Some cur"
    and "cond_hysteresis c = Some release" "release_ok (cond_op c) level release"
    and "cs_hyst_matched sub = Some True \<longleftrightarrow> held (cond_op c) level release vs"
  shows "\<exists>ev. evaluate_level_op c obs sub ctx fs =
      Some (held (cond_op c) level release (vs @ [cur]), False, ev,
            sub\<lparr>cs_hyst_matched := Some (held (cond_op c) level release (vs @ [cur]))\<rparr>)"
  using assms(3-5)
  by (simp add: evaluate_level_op_def resolve_constant_right [OF assms(1)] assms(2) Let_def
      apply_hysteresis_def held_snoc holds_release_def release_ok_def split: if_splits)

lemma hysteresis_tracked:
  assumes "family_of (cond_op c) = Some FLevel" "constant_right c level" "one_epoch e h"
    and "cond_hysteresis c = Some release" "release_ok (cond_op c) level release"
  shows "cs_hyst_matched (sub_after c h e) = Some True \<longleftrightarrow> held (cond_op c) level release (known_values c h)"
proof (rule tracked [OF assms(1) _ _ assms(3),
      where P = "\<lambda>vs s. cs_hyst_matched s = Some True \<longleftrightarrow> held (cond_op c) level release vs"])
  fix vs obs ctx fs cur and sub :: cond_sub
  assume a: "cs_hyst_matched sub = Some True \<longleftrightarrow> held (cond_op c) level release vs"
    "resolve_operand (cond_left c) obs ctx fs = Some cur"
  from evaluate_level_hysteresis [OF assms(2) a(2) assms(4,5) a(1)]
  show "case op_evaluator FLevel c obs sub ctx fs of
      None \<Rightarrow> (cs_hyst_matched sub = Some True) = held (cond_op c) level release (vs @ [cur])
    | Some (m, f, ev, s) \<Rightarrow>
        (cs_hyst_matched (s\<lparr>cs_epoch := Some e\<rparr>) = Some True) = held (cond_op c) level release (vs @ [cur])"
    by auto
qed (simp add: empty_sub_def)

text \<open>
  Hysteresis over a whole history of one epoch: a level condition with a release bound
  on the far side of its threshold matches on an observation exactly when some known value
  up to and including it met the threshold and every later one stayed strictly on the near
  side of the release level; it never fires.
\<close>

theorem hysteresis_matches_iff:
  assumes "cond_op c \<in> {''gt'', ''gte'', ''lt'', ''lte''}" "constant_right c level"
    and "cond_hysteresis c = Some release" "release_ok (cond_op c) level release"
    and "one_epoch e (h @ [x])" "feed_value c x = Some cur"
  shows "pr_matched (result_after c h x) = Some (held (cond_op c) level release (known_values c h @ [cur]))
    \<and> \<not> pr_fired (result_after c h x)"
proof -
  obtain obs ctx fs where x: "x = (obs, ctx, fs)" by (cases x)
  have fam: "family_of (cond_op c) = Some FLevel" using assms(1) by (auto simp: family_of_def)
  have t: "cs_hyst_matched (sub_after c h e) = Some True \<longleftrightarrow> held (cond_op c) level release (known_values c h)"
    using hysteresis_tracked [OF fam assms(2) _ assms(3,4)] assms(5) by simp
  have cur: "resolve_operand (cond_left c) obs ctx fs = Some cur" using assms(6) by (simp add: x feed_value_def)
  from evaluate_level_hysteresis [OF assms(2) cur assms(3,4) t] obtain ev s where
    o: "op_evaluator FLevel c obs (sub_after c h e) ctx fs =
      Some (held (cond_op c) level release (known_values c h @ [cur]), False, ev, s)" by auto
  show ?thesis using result_after_step(1) [OF assms(5) x fam _ o] assms(6) by simp
qed

theorem hysteresis_matches_iff_witness:
  "pr_matched (result_after (sample_cond ''gt'' 5 (Some 3)) [(sample_obs 0 6, [], [])] (sample_obs 1 4, [], []))
   = Some True"
proof -
  let ?c = "sample_cond ''gt'' 5 (Some 3)"
  have "known_values ?c [(sample_obs 0 6, [], [])] = [6]"
    by (simp add: known_values_def map_filter_def feed_value_def)
  moreover have "held ''gt'' 5 3 ([] @ [6])" "held ''gt'' 5 3 ([6] @ [4])"
    unfolding held_snoc using held_snoc [of "''gt''" 5 3 "[]" 6]
    by (simp_all add: compare_def holds_release_def)
  ultimately show ?thesis
    using hysteresis_matches_iff [of ?c 5 3 "''e1''" "[(sample_obs 0 6, [], [])]" "(sample_obs 1 4, [], [])" 4]
    by (simp add: constant_right_def one_epoch_def feed_value_def release_ok_def)
qed

subsection \<open>Percentage moves\<close>

definition pct_hit :: "string \<Rightarrow> flt \<Rightarrow> flt \<Rightarrow> flt \<Rightarrow> bool" where
  "pct_hit opname threshold base v \<longleftrightarrow>
     (let pct = (v - base) / base * 100
      in if opname = ''rises_pct'' then pct \<ge> threshold else pct \<le> - threshold)"

text \<open>The values from the first one that can anchor a percentage.\<close>

definition anchored :: "flt list \<Rightarrow> flt list" where
  "anchored vs = dropWhile (\<lambda>v. v = 0) vs"

lemma anchored_snoc:
  "anchored (vs @ [cur]) = (if anchored vs = [] then (if cur = 0 then [] else [cur]) else anchored vs @ [cur])"
  by (induction vs) (auto simp: anchored_def)

definition pct_tracks :: "condition \<Rightarrow> flt \<Rightarrow> flt list \<Rightarrow> cond_sub \<Rightarrow> bool" where
  "pct_tracks c threshold vs sub \<longleftrightarrow>
     (if anchored vs = [] then cs_baseline sub = None \<and> cs_pct_matched sub = None
      else cs_baseline sub = Some (hd (anchored vs))
        \<and> cs_pct_matched sub = Some (pct_hit (cond_op c) threshold (hd (anchored vs)) (last (anchored vs))))"

lemma evaluate_pct_known:
  assumes "constant_right c threshold" "resolve_operand (cond_left c) obs ctx fs = Some cur"
    and t: "pct_tracks c threshold vs sub"
  shows "anchored (vs @ [cur]) = [] \<Longrightarrow> evaluate_pct_op c obs sub ctx fs = None"
    and "anchored (vs @ [cur]) \<noteq> [] \<Longrightarrow> \<exists>ev s. evaluate_pct_op c obs sub ctx fs =
      Some (pct_hit (cond_op c) threshold (hd (anchored (vs @ [cur]))) cur,
            anchored vs \<noteq> []
            \<and> \<not> pct_hit (cond_op c) threshold (hd (anchored vs)) (last (anchored vs))
            \<and> pct_hit (cond_op c) threshold (hd (anchored vs)) cur, ev, s)
      \<and> pct_tracks c threshold (vs @ [cur]) (s\<lparr>cs_epoch := e\<rparr>)"
proof -
  note defs = evaluate_pct_op_def resolve_constant_right [OF assms(1)] assms(2) Let_def
    pct_hit_def anchored_snoc
  show "anchored (vs @ [cur]) = [] \<Longrightarrow> evaluate_pct_op c obs sub ctx fs = None"
    using t by (simp add: defs pct_tracks_def split: if_splits)
  assume ne: "anchored (vs @ [cur]) \<noteq> []"
  show "\<exists>ev s. evaluate_pct_op c obs sub ctx fs =
      Some (pct_hit (cond_op c) threshold (hd (anchored (vs @ [cur]))) cur,
            anchored vs \<noteq> []
            \<and> \<not> pct_hit (cond_op c) threshold (hd (anchored vs)) (last (anchored vs))
            \<and> pct_hit (cond_op c) threshold (hd (anchored vs)) cur, ev, s)
      \<and> pct_tracks c threshold (vs @ [cur]) (s\<lparr>cs_epoch := e\<rparr>)"
  proof (cases "anchored vs = []")
    case True
    then show ?thesis using t ne by (auto simp: defs pct_tracks_def)
  next
    case False
    then show ?thesis using t by (auto simp: defs pct_tracks_def)
  qed
qed

lemma pct_tracked:
  assumes "family_of (cond_op c) = Some FPct" "constant_right c threshold" "one_epoch e h"
  shows "pct_tracks c threshold (known_values c h) (sub_after c h e)"
proof (rule tracked [OF assms(1) _ _ assms(3)])
  show "pct_tracks c threshold [] empty_sub" by (simp add: pct_tracks_def anchored_def empty_sub_def)
  fix vs obs ctx fs cur and sub :: cond_sub
  assume a: "pct_tracks c threshold vs sub" "resolve_operand (cond_left c) obs ctx fs = Some cur"
  note k = evaluate_pct_known [OF assms(2) a(2,1)]
  show "case op_evaluator FPct c obs sub ctx fs of
      None \<Rightarrow> pct_tracks c threshold (vs @ [cur]) sub
    | Some (m, f, ev, s) \<Rightarrow> pct_tracks c threshold (vs @ [cur]) (s\<lparr>cs_epoch := Some e\<rparr>)"
  proof (cases "anchored (vs @ [cur]) = []")
    case True
    then show ?thesis using k(1) a(1) by (auto simp: pct_tracks_def anchored_snoc split: if_splits)
  next
    case False
    then show ?thesis using k(2) [of "Some e"] by auto
  qed
qed

text \<open>
  Percentage moves over a whole history of one epoch: the baseline is the first
  non-zero known value and is never re-derived, and the condition fires exactly when the
  previous known value had not reached the threshold against that baseline and the current
  one has.
\<close>

theorem pct_fires_iff:
  assumes "cond_op c \<in> {''rises_pct'', ''falls_pct''}" "constant_right c threshold"
    and "one_epoch e (h @ [x])" "vs = anchored (known_values c h)"
  shows "(pr_fired (result_after c h x) \<longleftrightarrow>
      (\<exists>cur. feed_value c x = Some cur \<and> vs \<noteq> []
        \<and> \<not> pct_hit (cond_op c) threshold (hd vs) (last vs) \<and> pct_hit (cond_op c) threshold (hd vs) cur))
    \<and> cs_baseline (sub_after c h e) = (if vs = [] then None else Some (hd vs))"
proof -
  obtain obs ctx fs where x: "x = (obs, ctx, fs)" by (cases x)
  have fam: "family_of (cond_op c) = Some FPct" using assms(1) by (auto simp: family_of_def)
  have t: "pct_tracks c threshold (known_values c h) (sub_after c h e)"
    using pct_tracked [OF fam assms(2)] assms(3) by simp
  have "pr_fired (result_after c h x) \<longleftrightarrow>
      (\<exists>cur. feed_value c x = Some cur \<and> vs \<noteq> []
        \<and> \<not> pct_hit (cond_op c) threshold (hd vs) (last vs) \<and> pct_hit (cond_op c) threshold (hd vs) cur)"
  proof (cases "feed_value c x")
    case None
    then show ?thesis by (simp add: result_after_unknown)
  next
    case (Some cur)
    have cur: "resolve_operand (cond_left c) obs ctx fs = Some cur" using Some by (simp add: x feed_value_def)
    note k = evaluate_pct_known [OF assms(2) cur t] and r = result_after_step [OF assms(3) x fam]
    show ?thesis
    proof (cases "anchored (known_values c h @ [cur]) = []")
      case True
      then have "vs = []" by (simp add: assms(4) anchored_snoc split: if_splits)
      then show ?thesis using k(1) [OF True] r(2) Some by simp
    next
      case False
      then show ?thesis using k(2) [OF False, of None] r(1) Some assms(4) by fastforce
    qed
  qed
  then show ?thesis using t by (simp add: pct_tracks_def assms(4) split: if_splits)
qed

theorem pct_fires_iff_witness:
  "pr_fired (result_after (sample_cond ''rises_pct'' 10 None)
     [(sample_obs 0 0, [], []), (sample_obs 1 100, [], [])] (sample_obs 2 110, [], []))"
proof -
  let ?c = "sample_cond ''rises_pct'' 10 None"
  let ?h = "[(sample_obs 0 0, [], []), (sample_obs 1 100, [], [])]"
  have "known_values ?c ?h = [0, 100]" by (simp add: known_values_def map_filter_def feed_value_def)
  then show ?thesis
    using pct_fires_iff [of ?c 10 "''e1''" ?h "(sample_obs 2 110, [], [])" "[100]"]
    by (simp add: constant_right_def one_epoch_def feed_value_def pct_hit_def anchored_def)
qed

end
