(* ===== verification/StageTheorems.thy ===== *)
theory StageTheorems
  imports PredicateTheorems
begin

text \<open>
  Stages: the three-valued groups are Kleene's connectives (minimum and maximum of the chain
  false, unknown, true), a stage touches only its own conditions and its own machine, what
  fires has matched, the consecutive-bars machine fires exactly on the bar that completes the
  streak, and a sequence fires only after its first leg armed it, strictly later and within
  both bounds. Two theorems pin down behaviour that differs from the documentation: only the
  first negated condition of a stage counts, and two \<open>within\<close> conditions that differ only in
  their upper bound share one sub-state.
\<close>

section \<open>Truth values as a chain\<close>

datatype tri = TFalse | TUnknown | TTrue

fun tri_rank :: "tri \<Rightarrow> nat" where
  "tri_rank TFalse = 0"
| "tri_rank TUnknown = 1"
| "tri_rank TTrue = 2"

lemma tri_rank_inj: "tri_rank x = tri_rank y \<longleftrightarrow> x = y"
  by (cases x; cases y) simp_all

instantiation tri :: linorder
begin

definition less_eq_tri :: "tri \<Rightarrow> tri \<Rightarrow> bool" where
  "less_eq_tri x y = (tri_rank x \<le> tri_rank y)"

definition less_tri :: "tri \<Rightarrow> tri \<Rightarrow> bool" where
  "less_tri x y = (tri_rank x < tri_rank y)"

instance
  by standard (auto simp: less_eq_tri_def less_tri_def tri_rank_inj)

end

definition tri_of :: "bool option \<Rightarrow> tri" where
  "tri_of m = (case m of None \<Rightarrow> TUnknown | Some b \<Rightarrow> if b then TTrue else TFalse)"

lemma tri_min_max [simp]:
  "min TFalse x = TFalse" "min TTrue x = x" "max TTrue x = TTrue" "max TFalse x = x"
  "min TUnknown x = (if x = TFalse then TFalse else TUnknown)"
  "max TUnknown x = (if x = TTrue then TTrue else TUnknown)"
  by (cases x; simp add: min_def max_def less_eq_tri_def)+

text \<open>With no false and no unknown member, every member is true.\<close>

lemma combine_all_alt:
  "combine_all ms = (if Some False \<in> set ms then Some False else if None \<in> set ms then None else Some True)"
proof -
  have "m = Some True" if "m \<in> set ms" "Some False \<notin> set ms" "None \<notin> set ms" for m
  proof (cases m)
    case (Some b)
    then show ?thesis using that by (cases b) simp_all
  qed (use that in simp)
  then show ?thesis by (auto simp: combine_all_def list_all_iff)
qed

lemma combine_all_Cons:
  "tri_of (combine_all (m # ms)) = min (tri_of m) (tri_of (combine_all ms))"
  by (cases m) (auto simp: combine_all_alt tri_of_def)

lemma combine_any_Cons:
  "tri_of (combine_any (m # ms)) = max (tri_of m) (tri_of (combine_any ms))"
  by (cases m) (auto simp: combine_any_def tri_of_def)

text \<open>
  C25. The group combinators are Kleene's strong connectives: \<open>all\<close> is the minimum and
  \<open>any\<close> the maximum of the chain false < unknown < true, with true and false as units.
\<close>

theorem groups_are_kleene:
  "tri_of (combine_all ms) = foldr (\<lambda>m. min (tri_of m)) ms TTrue
   \<and> tri_of (combine_any ms) = foldr (\<lambda>m. max (tri_of m)) ms TFalse"
proof
  show "tri_of (combine_all ms) = foldr (\<lambda>m. min (tri_of m)) ms TTrue"
    by (induction ms) (simp_all add: combine_all_Cons, simp add: combine_all_def tri_of_def)
  show "tri_of (combine_any ms) = foldr (\<lambda>m. max (tri_of m)) ms TFalse"
    by (induction ms) (simp_all add: combine_any_Cons, simp add: combine_any_def tri_of_def)
qed

section \<open>Frames of groups and stages\<close>

lemma run_group_frame [frame_simps]:
  "k \<notin> cond_key ` set cs \<Longrightarrow>
   dict_get (ps_conds (snd (snd (snd (run_group cs obs st ctx fs ev))))) k = dict_get (ps_conds st) k"
  by (induction cs arbitrary: st ev) (auto simp: Let_def case_prod_beta frame_simps)

lemma run_group_advanced [frame_simps]:
  "ps_advanced (snd (snd (snd (run_group cs obs st ctx fs ev)))) = ps_advanced st"
  by (induction cs arbitrary: st ev) (auto simp: Let_def case_prod_beta frame_simps)

lemma run_groups_frame [frame_simps]:
  "k \<notin> cond_key ` set (concat (map snd gs)) \<Longrightarrow>
   dict_get (ps_conds (snd (snd (snd (run_groups gs obs st ctx fs ev))))) k = dict_get (ps_conds st) k"
  by (induction gs arbitrary: st ev) (auto simp: Let_def case_prod_beta frame_simps image_Un)

lemma run_groups_advanced [frame_simps]:
  "ps_advanced (snd (snd (snd (run_groups gs obs st ctx fs ev)))) = ps_advanced st"
  by (induction gs arbitrary: st ev) (auto simp: Let_def case_prod_beta frame_simps)

lemma evaluate_groups_state:
  "snd (snd (snd (evaluate_groups gs obs st ctx fs))) = snd (snd (snd (run_groups gs obs st ctx fs [])))"
  by (simp add: evaluate_groups_def Let_def case_prod_beta)

definition stage_all_conditions :: "stage \<Rightarrow> condition list" where
  "stage_all_conditions s =
     stage_conditions s @ stage_any s @ stage_not s
     @ (case stage_sequence s of
          None \<Rightarrow> []
        | Some sq \<Rightarrow> concat (map grp_conditions (seq_first sq @ seq_then sq)))"

lemma set_group_pairs:
  "set (concat (map snd (group_pairs s))) = set (stage_conditions s) \<union> set (stage_any s) \<union> set (stage_not s)"
  by (auto simp: group_pairs_def)

lemma set_spec_group_pairs:
  "concat (map snd (spec_group_pairs gs)) = concat (map grp_conditions gs)"
  by (simp add: spec_group_pairs_def comp_def)

lemma commit_advanced_sel [simp]:
  "ps_conds (commit_advanced_state st sid sub obs) = ps_conds st"
  "dict_get (ps_advanced (commit_advanced_state st sid sub obs)) sid' =
     (if sid' = sid then Some (sub\<lparr>av_epoch := Some (ob_epoch obs)\<rparr>) else dict_get (ps_advanced st) sid')"
  by (simp_all add: commit_advanced_state_def)

lemma apply_sequence_frame:
  "k \<notin> cond_key ` set (concat (map grp_conditions (seq_first sq @ seq_then sq))) \<Longrightarrow>
   dict_get (ps_conds (snd (snd (snd (apply_sequence sq obs sub ctx fs st))))) k = dict_get (ps_conds st) k"
  "ps_advanced (snd (snd (snd (apply_sequence sq obs sub ctx fs st)))) = ps_advanced st"
  by (simp_all add: apply_sequence_def Let_def case_prod_beta evaluate_groups_state frame_simps
      set_spec_group_pairs image_Un)

text \<open>
  A stage evaluation is confined to its own state: only the sub-states of its own
  conditions and its own machine entry can change; and whenever the stage fires, it has
  matched, so an unknown stage never fires.
\<close>

theorem stage_confined:
  assumes "r = evaluate_stage s obs st ctx fs"
  shows "(\<forall>k. k \<notin> cond_key ` set (stage_all_conditions s) \<longrightarrow>
        dict_get (ps_conds (pr_state r)) k = dict_get (ps_conds st) k)
    \<and> (\<forall>sid. sid \<noteq> stage_id s \<longrightarrow>
        dict_get (ps_advanced (pr_state r)) sid = dict_get (ps_advanced st) sid)
    \<and> (pr_fired r \<longrightarrow> pr_matched r = Some True)"
proof -
  let ?w = "snd (snd (snd (run_groups (group_pairs s) obs st ctx fs [])))"
  have f: "dict_get (ps_conds ?w) k = dict_get (ps_conds st) k"
    if "k \<notin> cond_key ` set (stage_all_conditions s)" for k
    using that by (intro run_groups_frame, unfold set_group_pairs) (auto simp: stage_all_conditions_def)
  have q: "dict_get (ps_conds (snd (snd (snd (apply_sequence sq obs sub ctx fs ?w))))) k = dict_get (ps_conds st) k"
    if "k \<notin> cond_key ` set (stage_all_conditions s)" "stage_sequence s = Some sq" for k sq sub
    using that f [OF that(1)] by (subst apply_sequence_frame(1)) (auto simp: stage_all_conditions_def)
  have m: "pr_fired r \<longrightarrow> pr_matched r = Some True"
    unfolding assms evaluate_stage_def Let_def
    by (auto simp: case_prod_beta apply_consecutive_bars_def apply_sequence_def Let_def split: option.splits if_splits)
  show ?thesis
    using m f q unfolding assms evaluate_stage_def Let_def
    by (auto simp: case_prod_beta apply_sequence_frame(2) frame_simps split: option.splits)
qed

definition sample_stage :: stage where
  "sample_stage = \<lparr>stage_id = ''s'', stage_conditions = [sample_cond ''gt'' 5 None], stage_any = [],
     stage_not = [], stage_consecutive_bars = None, stage_sequence = None\<rparr>"

theorem stage_confined_witness:
  "dict_get (ps_advanced (pr_state (evaluate_stage sample_stage (sample_obs 0 7) empty_state [] []))) ''t'' = None"
  using stage_confined [OF refl, of sample_stage "sample_obs 0 7" empty_state "[]" "[]"]
  by (simp add: sample_stage_def empty_state_def)

section \<open>Histories of a stage\<close>

definition stage_step :: "stage \<Rightarrow> feed \<Rightarrow> pred_state \<Rightarrow> predicate_result" where
  "stage_step s x st = (case x of (obs, ctx, fs) \<Rightarrow> evaluate_stage s obs st ctx fs)"

definition stage_state :: "stage \<Rightarrow> feed list \<Rightarrow> pred_state" where
  "stage_state s h = fold (\<lambda>x st. pr_state (stage_step s x st)) h empty_state"

lemma stage_state_simps [simp]:
  "stage_state s [] = empty_state"
  "stage_state s (h @ [x]) = pr_state (stage_step s x (stage_state s h))"
  by (simp_all add: stage_state_def)

text \<open>The three-valued verdict of the stage's own groups on one observation.\<close>

definition stage_flag :: "stage \<Rightarrow> pred_state \<Rightarrow> feed \<Rightarrow> bool option" where
  "stage_flag s st x =
     (case x of (obs, ctx, fs) \<Rightarrow> combine_all (fst (run_groups (group_pairs s) obs st ctx fs [])))"

definition stage_working :: "stage \<Rightarrow> pred_state \<Rightarrow> feed \<Rightarrow> pred_state" where
  "stage_working s st x =
     (case x of (obs, ctx, fs) \<Rightarrow> snd (snd (snd (run_groups (group_pairs s) obs st ctx fs []))))"

text \<open>How many of the latest observations matched in a row, the current one included.\<close>

fun trailing :: "stage \<Rightarrow> feed list \<Rightarrow> int" where
  "trailing s [] = 0"
| "trailing s (x # rev_h) =
     (if stage_flag s (stage_state s (rev rev_h)) x = Some True then trailing s rev_h + 1 else 0)"

text \<open>The machine entry the next observation of epoch \<open>e\<close> starts from.\<close>

definition machine_after :: "stage \<Rightarrow> feed list \<Rightarrow> adv_sub" where
  "machine_after s h =
     (case dict_get (ps_advanced (stage_state s h)) (stage_id s) of None \<Rightarrow> empty_adv | Some a \<Rightarrow> a)"

lemma machine_after_Nil [simp]: "machine_after s [] = empty_adv"
  by (simp add: machine_after_def empty_state_def)

lemma machine_after_snoc:
  "dict_get (ps_advanced (pr_state (stage_step s x (stage_state s h)))) (stage_id s) = Some a \<Longrightarrow>
   machine_after s (h @ [x]) = a"
  by (simp add: machine_after_def)

lemma stage_step_consecutive:
  assumes "stage_consecutive_bars s = Some n" "x = (obs, ctx, fs)"
    and a: "advanced_state (stage_working s st x) (stage_id s) obs = a"
    and "previous = (case av_streak a of None \<Rightarrow> 0 | Some k \<Rightarrow> k)"
    and "streak = (if stage_flag s st x = Some True then previous + 1 else 0)"
  shows "pr_matched (stage_step s x st) = Some (n \<le> streak)"
    and "pr_fired (stage_step s x st) \<longleftrightarrow> n \<le> streak \<and> previous < n"
    and "dict_get (ps_advanced (pr_state (stage_step s x st))) (stage_id s) =
      Some (a\<lparr>av_streak := Some streak, av_epoch := Some (ob_epoch obs)\<rparr>)"
  using assms
  by (simp_all add: stage_step_def evaluate_stage_def stage_flag_def stage_working_def
      apply_consecutive_bars_def Let_def case_prod_beta)

lemma advanced_of_machine:
  assumes "av_epoch (machine_after s h) \<in> {None, Some e}" "ob_epoch (fst x) = e"
  shows "advanced_state (stage_working s (stage_state s h) x) (stage_id s) (fst x) = machine_after s h"
proof -
  obtain obs ctx fs where x: "x = (obs, ctx, fs)" by (cases x)
  have "ps_advanced (stage_working s (stage_state s h) x) = ps_advanced (stage_state s h)"
    by (simp add: stage_working_def x frame_simps)
  then show ?thesis
    using assms by (auto simp: advanced_state_def machine_after_def Let_def split: option.splits)
qed

lemma machine_consecutive:
  assumes "stage_consecutive_bars s = Some n"
  shows "one_epoch e h \<Longrightarrow>
    av_epoch (machine_after s h) \<in> {None, Some e}
    \<and> (case av_streak (machine_after s h) of None \<Rightarrow> 0 | Some k \<Rightarrow> k) = trailing s (rev h)"
proof (induction h rule: rev_induct)
  case Nil
  then show ?case by (simp add: empty_adv_def)
next
  case (snoc x h)
  obtain obs ctx fs where x: "x = (obs, ctx, fs)" by (cases x)
  have IH: "av_epoch (machine_after s h) \<in> {None, Some e}"
    "(case av_streak (machine_after s h) of None \<Rightarrow> 0 | Some k \<Rightarrow> k) = trailing s (rev h)"
    and e: "ob_epoch (fst x) = e" using snoc by simp_all
  have a: "advanced_state (stage_working s (stage_state s h) x) (stage_id s) obs = machine_after s h"
    using advanced_of_machine [OF IH(1) e] by (simp add: x)
  have "machine_after s (h @ [x]) = (machine_after s h)\<lparr>av_streak := Some (trailing s (x # rev h)), av_epoch := Some e\<rparr>"
    using machine_after_snoc [OF stage_step_consecutive(3) [OF assms x a refl refl]] IH(2) e
    by (simp add: x)
  then show ?case by simp
qed

text \<open>
  N consecutive bars, over a whole history of one epoch: the stage matches exactly while
  the number of trailing observations whose groups were all true is at least N, and fires
  exactly on the observation that brings it to N. An unknown or false bar resets the streak.
\<close>

theorem consecutive_bars_correct:
  assumes "stage_consecutive_bars s = Some n" "1 \<le> n" "one_epoch e (h @ [x])"
  shows "pr_matched (stage_step s x (stage_state s h)) = Some (n \<le> trailing s (x # rev h))
    \<and> (pr_fired (stage_step s x (stage_state s h)) \<longleftrightarrow> trailing s (x # rev h) = n)"
proof -
  obtain obs ctx fs where x: "x = (obs, ctx, fs)" by (cases x)
  have m: "av_epoch (machine_after s h) \<in> {None, Some e}"
    "(case av_streak (machine_after s h) of None \<Rightarrow> 0 | Some k \<Rightarrow> k) = trailing s (rev h)"
    using machine_consecutive [OF assms(1), of e h] assms(3) by auto
  have a: "advanced_state (stage_working s (stage_state s h) x) (stage_id s) obs = machine_after s h"
    using advanced_of_machine [OF m(1), of x] assms(3) by (simp add: x)
  note step = stage_step_consecutive [OF assms(1) x a refl refl, unfolded m(2)]
  show ?thesis using step(1,2) assms(2) by auto
qed

theorem consecutive_bars_correct_witness:
  "pr_fired (stage_step (sample_stage\<lparr>stage_consecutive_bars := Some 1\<rparr>) (sample_obs 0 7, [], []) empty_state)"
proof -
  let ?s = "sample_stage\<lparr>stage_consecutive_bars := Some 1\<rparr>"
  have "stage_flag ?s empty_state (sample_obs 0 7, [], []) = Some True"
    by (simp add: stage_flag_def sample_stage_def group_pairs_def Let_def case_prod_beta evaluate_condition_def
        family_of_def evaluate_level_op_def resolve_operand.simps [of "cond_right c" for c] compare_def combine_all_def)
  then show ?thesis
    using consecutive_bars_correct [of ?s 1 "''e1''" "[]" "(sample_obs 0 7, [], [])"]
    by (simp add: one_epoch_def)
qed

section \<open>Sequences\<close>

text \<open>The verdict of one leg, evaluated after the stage's own groups.\<close>

definition leg_flag :: "condition_group list \<Rightarrow> stage \<Rightarrow> pred_state \<Rightarrow> feed \<Rightarrow> bool option" where
  "leg_flag gs s st x =
     (case x of (obs, ctx, fs) \<Rightarrow>
        fst (evaluate_groups (spec_group_pairs gs) obs (stage_working s st x) ctx fs))"

definition armed_by :: "stage \<Rightarrow> sequence_spec \<Rightarrow> feed list \<Rightarrow> feed list \<Rightarrow> feed \<Rightarrow> feed list \<Rightarrow> bool" where
  "armed_by s sq h h1 y h2 \<longleftrightarrow>
     h = h1 @ y # h2 \<and> leg_flag (seq_first sq) s (stage_state s h1) y = Some True"

definition sequence_tracks :: "stage \<Rightarrow> sequence_spec \<Rightarrow> feed list \<Rightarrow> adv_sub \<Rightarrow> bool" where
  "sequence_tracks s sq h a \<longleftrightarrow>
     (av_armed a \<longrightarrow>
       (\<exists>h1 y h2. armed_by s sq h h1 y h2 \<and> av_armed_ts a = Some (ob_ts (fst y))
          \<and> av_bars a = Some (int (length h2))))"

lemma stage_step_sequence:
  assumes "stage_consecutive_bars s = None" "stage_sequence s = Some sq" "x = (obs, ctx, fs)"
    and "advanced_state (stage_working s st x) (stage_id s) obs = a"
    and "apply_sequence sq obs a ctx fs (stage_working s st x) = (m, f, a', w)"
  shows "pr_fired (stage_step s x st) = f"
    and "dict_get (ps_advanced (pr_state (stage_step s x st))) (stage_id s) =
      Some (a'\<lparr>av_epoch := Some (ob_epoch obs)\<rparr>)"
  using assms
  by (simp_all add: stage_step_def evaluate_stage_def stage_working_def Let_def case_prod_beta)

lemma apply_sequence_tracks:
  assumes x: "x = (obs, ctx, fs)" and t: "sequence_tracks s sq h a"
    and r: "apply_sequence sq obs a ctx fs (stage_working s (stage_state s h) x) = (m, f, a', w)"
  shows "sequence_tracks s sq (h @ [x]) (a'\<lparr>av_epoch := ep\<rparr>)"
    and "f \<Longrightarrow> av_armed a \<and> \<not> sequence_expired sq obs a
      \<and> leg_flag (seq_then sq) s (stage_state s h) x = Some True"
proof -
  let ?first = "leg_flag (seq_first sq) s (stage_state s h) x"
  let ?then = "leg_flag (seq_then sq) s (stage_state s h) x"
  show "f \<Longrightarrow> av_armed a \<and> \<not> sequence_expired sq obs a \<and> ?then = Some True"
    using r by (auto simp: apply_sequence_def leg_flag_def x Let_def case_prod_beta split: if_splits)
  consider (keep) "av_armed a" "\<not> sequence_expired sq obs a"
      "a' = a\<lparr>av_bars := Some ((case av_bars a of None \<Rightarrow> 0 | Some b \<Rightarrow> b) + 1)\<rparr>"
    | (arm) "?first = Some True" "av_armed_ts a' = Some (ob_ts obs)" "av_bars a' = Some 0"
    | (idle) "\<not> av_armed a'"
    using r
    by (auto simp: apply_sequence_def leg_flag_def x Let_def case_prod_beta disarm_def split: if_splits)
  then show "sequence_tracks s sq (h @ [x]) (a'\<lparr>av_epoch := ep\<rparr>)"
  proof cases
    case keep
    from t keep obtain h1 y h2 where "armed_by s sq h h1 y h2"
      "av_armed_ts a = Some (ob_ts (fst y))" "av_bars a = Some (int (length h2))"
      by (auto simp: sequence_tracks_def)
    with keep show ?thesis
      unfolding sequence_tracks_def
      by (intro impI exI [of _ h1] exI [of _ y] exI [of _ "h2 @ [x]"]) (simp add: armed_by_def)
  next
    case arm
    then show ?thesis
      unfolding sequence_tracks_def
      by (intro impI exI [of _ h] exI [of _ x] exI [of _ "[]"]) (simp add: armed_by_def x)
  next
    case idle
    then show ?thesis by (simp add: sequence_tracks_def)
  qed
qed

lemma machine_sequence:
  assumes "stage_consecutive_bars s = None" "stage_sequence s = Some sq"
  shows "one_epoch e h \<Longrightarrow>
    av_epoch (machine_after s h) \<in> {None, Some e} \<and> sequence_tracks s sq h (machine_after s h)"
proof (induction h rule: rev_induct)
  case Nil
  then show ?case by (simp add: sequence_tracks_def empty_adv_def)
next
  case (snoc x h)
  obtain obs ctx fs where x: "x = (obs, ctx, fs)" by (cases x)
  have IH: "av_epoch (machine_after s h) \<in> {None, Some e}" "sequence_tracks s sq h (machine_after s h)"
    and e: "ob_epoch (fst x) = e" using snoc by auto
  have a: "advanced_state (stage_working s (stage_state s h) x) (stage_id s) obs = machine_after s h"
    using advanced_of_machine [OF IH(1) e] by (simp add: x)
  obtain m f a' w where r:
    "apply_sequence sq obs (machine_after s h) ctx fs (stage_working s (stage_state s h) x) = (m, f, a', w)"
    by (metis prod_cases4)
  have "machine_after s (h @ [x]) = a'\<lparr>av_epoch := Some e\<rparr>"
    using machine_after_snoc [OF stage_step_sequence(2) [OF assms x a r]] e by (simp add: x)
  then show ?case using apply_sequence_tracks(1) [OF x IH(2) r] by simp
qed

text \<open>
  C26. A bounded sequence fires soundly, over a whole history of one epoch: when the stage
  fires, its second leg is true on the current observation, and there is a strictly earlier
  observation on which the first leg was true such that the bars consumed since then are
  within \<open>within_bars\<close> and the elapsed event time is within \<open>within\<close>.
\<close>

theorem sequence_fires_sound:
  assumes "stage_consecutive_bars s = None" "stage_sequence s = Some sq" "one_epoch e (h @ [x])"
    and "pr_fired (stage_step s x (stage_state s h))"
  shows "leg_flag (seq_then sq) s (stage_state s h) x = Some True
    \<and> (\<exists>h1 y h2. h = h1 @ y # h2 \<and> leg_flag (seq_first sq) s (stage_state s h1) y = Some True
        \<and> (\<forall>n. seq_within_bars sq = Some n \<longrightarrow> int (length h2) + 1 \<le> n)
        \<and> (\<forall>w. seq_within_s sq = Some w \<longrightarrow> ob_ts (fst x) - ob_ts (fst y) \<le> seconds w))"
proof -
  obtain obs ctx fs where x: "x = (obs, ctx, fs)" by (cases x)
  have m: "av_epoch (machine_after s h) \<in> {None, Some e}" "sequence_tracks s sq h (machine_after s h)"
    using machine_sequence [OF assms(1,2), of e h] assms(3) by auto
  have a: "advanced_state (stage_working s (stage_state s h) x) (stage_id s) obs = machine_after s h"
    using advanced_of_machine [OF m(1), of x] assms(3) by (simp add: x)
  obtain b f a' w where r:
    "apply_sequence sq obs (machine_after s h) ctx fs (stage_working s (stage_state s h) x) = (b, f, a', w)"
    by (metis prod_cases4)
  have f: "f" using stage_step_sequence(1) [OF assms(1,2) x a r] assms(4) by simp
  note g = apply_sequence_tracks(2) [OF x m(2) r f]
  with m(2) obtain h1 y h2 where "h = h1 @ y # h2" "leg_flag (seq_first sq) s (stage_state s h1) y = Some True"
    "av_armed_ts (machine_after s h) = Some (ob_ts (fst y))" "av_bars (machine_after s h) = Some (int (length h2))"
    by (auto simp: sequence_tracks_def armed_by_def)
  moreover from this g have "\<forall>n. seq_within_bars sq = Some n \<longrightarrow> int (length h2) + 1 \<le> n"
    "\<forall>w. seq_within_s sq = Some w \<longrightarrow> ob_ts (fst x) - ob_ts (fst y) \<le> seconds w"
    by (auto simp: sequence_expired_def x)
  ultimately show ?thesis using g by blast
qed

definition sample_sequence :: sequence_spec where
  "sample_sequence =
     \<lparr>seq_first = [\<lparr>grp_kind = GAll, grp_conditions = [sample_cond ''gt'' 5 None]\<rparr>],
      seq_then = [\<lparr>grp_kind = GAll, grp_conditions = [sample_cond ''lt'' 5 None]\<rparr>],
      seq_within_bars = Some 3, seq_within_s = None\<rparr>"

definition sample_sequence_stage :: stage where
  "sample_sequence_stage = sample_stage\<lparr>stage_conditions := [], stage_sequence := Some sample_sequence\<rparr>"

lemma resolve_sample_right [simp]:
  "resolve_operand (cond_right (sample_cond opname level hyst)) obs ctx fs = Some level"
  by (simp add: resolve_operand.simps)

lemmas sample_eval_simps =
  evaluate_condition_def family_of_def evaluate_level_op_def evaluate_within_def compare_def
  combine_all_def combine_any_def Let_def case_prod_beta group_pairs_def spec_group_pairs_def
  evaluate_groups_def begin_observation_def

lemma sample_sequence_fires:
  "pr_fired (stage_step sample_sequence_stage (sample_obs 1 4, [], [])
     (stage_state sample_sequence_stage [(sample_obs 0 6, [], [])]))"
proof -
  have s: "stage_state sample_sequence_stage [(sample_obs 0 6, [], [])] =
      pr_state (stage_step sample_sequence_stage (sample_obs 0 6, [], []) empty_state)"
    using stage_state_simps(2) [of sample_sequence_stage "[]"] by simp
  show ?thesis
    unfolding s
    by (simp add: stage_step_def evaluate_stage_def sample_sequence_stage_def sample_sequence_def
        sample_stage_def apply_sequence_def advanced_state_def commit_advanced_state_def empty_state_def empty_adv_def
        commit_substate_def sequence_expired_def sample_eval_simps)
qed

theorem sequence_fires_sound_witness:
  "leg_flag (seq_then sample_sequence) sample_sequence_stage
     (stage_state sample_sequence_stage [(sample_obs 0 6, [], [])]) (sample_obs 1 4, [], []) = Some True"
proof -
  have "stage_consecutive_bars sample_sequence_stage = None"
    "stage_sequence sample_sequence_stage = Some sample_sequence"
    "one_epoch ''e1'' ([(sample_obs 0 6, [], [])] @ [(sample_obs 1 4, [], [])])"
    by (simp_all add: sample_sequence_stage_def sample_stage_def one_epoch_def)
  from sequence_fires_sound [OF this sample_sequence_fires] show ?thesis by blast
qed

section \<open>Two places where the behaviour is not the documented one\<close>

text \<open>
  Only the first negated condition of a stage counts: for a stage without a sequence,
  the verdict with the negated conditions \<open>c # cs\<close> is the verdict with \<open>c\<close> alone, whatever
  \<open>cs\<close> are, although the compiler accepts up to 32 of them.
\<close>

theorem stage_not_ignores_rest:
  assumes "stage_sequence s = None"
  shows "pr_matched (evaluate_stage (s\<lparr>stage_not := c # cs\<rparr>) obs st ctx fs)
       = pr_matched (evaluate_stage (s\<lparr>stage_not := [c]\<rparr>) obs st ctx fs)"
proof -
  let ?ms = "\<lambda>ns. fst (run_groups (group_pairs (s\<lparr>stage_not := ns\<rparr>)) obs st ctx fs [])"
  let ?w = "\<lambda>ns. snd (snd (snd (run_groups (group_pairs (s\<lparr>stage_not := ns\<rparr>)) obs st ctx fs [])))"
  have m: "?ms (c # cs) = ?ms [c]"
    by (simp add: group_pairs_def Let_def case_prod_beta)
  have w: "ps_advanced (?w (c # cs)) = ps_advanced (?w [c])"
    by (simp add: frame_simps)
  show ?thesis
    using assms m w
    by (simp add: evaluate_stage_def Let_def case_prod_beta apply_consecutive_bars_def advanced_state_def
        split: option.splits)
qed

theorem stage_not_ignores_rest_witness:
  "pr_matched (evaluate_stage (sample_stage\<lparr>stage_not := [sample_cond ''lt'' 5 None, sample_cond ''gt'' 5 None]\<rparr>)
      (sample_obs 0 7) empty_state [] []) = Some True"
proof -
  have "stage_sequence sample_stage = None" by (simp add: sample_stage_def)
  note eq = stage_not_ignores_rest [OF this, of "sample_cond ''lt'' 5 None" "[sample_cond ''gt'' 5 None]"]
  show ?thesis
    unfolding eq
    by (simp add: evaluate_stage_def sample_stage_def empty_state_def commit_substate_def sample_eval_simps)
qed

definition within_cond :: "flt \<Rightarrow> flt \<Rightarrow> condition" where
  "within_cond lo hi =
     \<lparr>cond_left = mk_operand KField (Some ''ltp'') None [] None None, cond_op = ''within'',
      cond_right = mk_operand KValue None (Some lo) [(''hi'', JNum hi)] None None, cond_hysteresis = None\<rparr>"

definition two_bands :: "flt \<Rightarrow> flt \<Rightarrow> flt \<Rightarrow> stage" where
  "two_bands lo hi1 hi2 = sample_stage\<lparr>stage_conditions := [], stage_any := [within_cond lo hi1, within_cond lo hi2]\<rparr>"

lemma within_cond_simps [simp]:
  "cond_op (within_cond lo hi) = ''within''"
  "resolve_operand (cond_left (within_cond lo hi)) (sample_obs t v) ctx fs = Some v"
  "within_bounds (cond_right (within_cond lo hi)) = Some (lo, hi)"
  by (simp_all add: within_cond_def resolve_operand.simps resolve_field_def observation_field_def
      sample_obs_def within_bounds_def obj_num_def obj_get_def)

lemma within_cond_key: "cond_key (within_cond lo hi) = cond_key (within_cond lo hi')"
  by (simp add: cond_key_def operand_key_def within_cond_def)

text \<open>
  Two \<open>within\<close> conditions with the same lower bound and different upper bounds have the
  same key, so they share one sub-state and clobber each other's \<open>within\<close> flag: with a value
  that stays inside the first band and outside the second, the stage fires again on the next
  observation although nothing entered a band.
\<close>

theorem within_bands_share_state:
  assumes "lo \<le> v" "v \<le> hi1" "hi2 < v"
  shows "cond_key (within_cond lo hi1) = cond_key (within_cond lo hi2)
    \<and> pr_fired (stage_step (two_bands lo hi1 hi2) (sample_obs 1 v, [], [])
        (pr_state (stage_step (two_bands lo hi1 hi2) (sample_obs 0 v, [], []) empty_state)))"
  using assms within_cond_key [of lo hi2 hi1]
  by (simp add: two_bands_def stage_step_def evaluate_stage_def sample_stage_def empty_state_def
      commit_substate_def sample_eval_simps) blast

theorem within_bands_share_state_witness:
  "cond_key (within_cond 5 20) = cond_key (within_cond 5 8)
   \<and> pr_fired (stage_step (two_bands 5 20 8) (sample_obs 1 10, [], [])
        (pr_state (stage_step (two_bands 5 20 8) (sample_obs 0 10, [], []) empty_state)))"
  by (rule within_bands_share_state) simp_all

end
