(* ===== verification/AlertEngine.thy ===== *)
theory AlertEngine
  imports AlertModel
begin

text \<open>
  The trigger engine \<open>alerts/engine.py\<close>: \<open>decide\<close> turns one evaluation of a rule into an
  emission decision and a new persistent state. The state dictionary is a record with one
  field per key; instants are stored as instants (the code stores their ISO text and parses
  it back).

  The locale \<open>latch\<close> is the contract of a gate that lets at most one emission through; it is
  interpreted on the engine for the \<open>once\<close> trigger, for \<open>once_per_session\<close> within a session
  and for a disarmed rule that sees no value at its re-arm level. The other theorems give the
  spacing of emissions and the inertness of expired and quiet evaluations.
\<close>

section \<open>The decision\<close>

record engine_state =
  es_initialized :: bool
  es_armed :: "bool option"
  es_fired_once :: bool
  es_last_session :: "string option"
  es_last_emitted :: "instant option"
  es_cooldown_until :: "instant option"

record engine_decision =
  ed_emit :: bool
  ed_reason :: "string option"
  ed_completed :: bool
  ed_state :: engine_state

record engine_input =
  ei_fired :: bool
  ei_now :: instant
  ei_session_active :: bool
  ei_current_value :: "flt option"
  ei_already_true :: "bool option"
  ei_session_id :: "string option"
  ei_matched :: "bool option"

definition decision :: "bool \<Rightarrow> string option \<Rightarrow> bool \<Rightarrow> engine_state \<Rightarrow> engine_decision" where
  "decision e r c s = \<lparr>ed_emit = e, ed_reason = r, ed_completed = c, ed_state = s\<rparr>"

lemma decision_sel [simp]:
  "ed_emit (decision e r c s) = e" "ed_reason (decision e r c s) = r"
  "ed_completed (decision e r c s) = c" "ed_state (decision e r c s) = s"
  by (simp_all add: decision_def)

definition expired :: "alert_spec \<Rightarrow> instant \<Rightarrow> bool" where
  "expired alert now = (case al_expires_at alert of None \<Rightarrow> False | Some t \<Rightarrow> now \<ge> t)"

definition rearm_hit :: "alert_spec \<Rightarrow> flt option \<Rightarrow> bool" where
  "rearm_hit alert value =
     (case (al_rearm_level alert, value) of
        (Some level, Some v) \<Rightarrow>
          if str_or (al_rearm_direction alert) ''below'' = ''below'' then v \<le> level else v \<ge> level
      | _ \<Rightarrow> False)"

text \<open>Step 6 and 7: the cooldown gate, then the emission with its bookkeeping.\<close>

definition deliver :: "alert_spec \<Rightarrow> instant \<Rightarrow> bool \<Rightarrow> engine_state \<Rightarrow> engine_decision" where
  "deliver alert now completed st =
     (let cooldown = (case al_cooldown_s alert of None \<Rightarrow> 0 | Some c \<Rightarrow> c) in
      if cooldown \<noteq> 0 \<and> (case es_cooldown_until st of None \<Rightarrow> False | Some u \<Rightarrow> now < u)
      then decision False (Some ''cooldown'') completed st
      else
        let st1 = st\<lparr>es_last_emitted := Some now\<rparr>;
            st2 = (if cooldown \<noteq> 0 then st1\<lparr>es_cooldown_until := Some (now + seconds cooldown)\<rparr> else st1);
            st3 = (if al_rearm_level alert \<noteq> None then st2\<lparr>es_armed := Some False\<rparr> else st2)
        in decision True None completed st3)"

text \<open>Step 5: the trigger's own gate.\<close>

definition trigger_gate :: "alert_spec \<Rightarrow> engine_input \<Rightarrow> engine_state \<Rightarrow> engine_decision" where
  "trigger_gate alert i st =
     (if al_trigger alert = ''once'' then
        (if es_fired_once st then decision False (Some ''already_fired'') False st
         else deliver alert (ei_now i) True (st\<lparr>es_fired_once := True\<rparr>))
      else if al_trigger alert = ''once_per_session'' then
        (case ei_session_id i of
           None \<Rightarrow> deliver alert (ei_now i) False st
         | Some sid \<Rightarrow>
             if es_last_session st = Some sid then decision False (Some ''session_fired'') False st
             else deliver alert (ei_now i) False (st\<lparr>es_last_session := Some sid\<rparr>))
      else if al_trigger alert = ''reminder'' then
        (case es_last_emitted st of
           None \<Rightarrow> deliver alert (ei_now i) False st
         | Some t \<Rightarrow>
             if ei_now i < t + seconds (case al_reminder_interval_s alert of None \<Rightarrow> 0 | Some s \<Rightarrow> s)
             then decision False (Some ''reminder_interval'') False st
             else deliver alert (ei_now i) False st)
      else deliver alert (ei_now i) False st)"

text \<open>Step 4: re-arming and the due test.\<close>

definition arm_gate :: "alert_spec \<Rightarrow> engine_input \<Rightarrow> bool \<Rightarrow> engine_state \<Rightarrow> engine_decision" where
  "arm_gate alert i fired st =
     (let due = (fired \<or> (al_trigger alert = ''reminder'' \<and> ei_matched i = Some True));
          armed0 = (case es_armed st of None \<Rightarrow> True | Some b \<Rightarrow> b);
          hit = (\<not> armed0 \<and> rearm_hit alert (ei_current_value i));
          st1 = (if hit then st\<lparr>es_armed := Some True\<rparr> else st);
          armed = (armed0 \<or> hit)
      in if due \<and> \<not> armed then decision False (Some ''not_armed'') False st1
         else if \<not> due then decision False None False st1
         else trigger_gate alert i st1)"

definition decide :: "alert_spec \<Rightarrow> engine_input \<Rightarrow> engine_state \<Rightarrow> engine_decision" where
  "decide alert i st =
     (if expired alert (ei_now i) then decision False (Some ''expired'') False st
      else if \<not> ei_session_active i then decision False (Some ''quiet_session'') False st
      else if \<not> es_initialized st then
        (let st1 = st\<lparr>es_initialized := True\<rparr> in
         if ei_already_true i = Some True then
           (if \<not> al_notify_if_already_true alert
            then decision False (Some ''already_true_at_activation'') False st1
            else arm_gate alert i True st1)
         else arm_gate alert i (ei_fired i) st1)
      else arm_gate alert i (ei_fired i) st)"

fun decide_run :: "alert_spec \<Rightarrow> engine_input list \<Rightarrow> engine_state \<Rightarrow> engine_decision list" where
  "decide_run alert [] st = []"
| "decide_run alert (i # inputs) st =
     (let d = decide alert i st in d # decide_run alert inputs (ed_state d))"

section \<open>Case analysis\<close>

text \<open>
  Every decision either goes through the delivery step from a state that differs in
  bookkeeping only, or suppresses.
\<close>

lemma deliver_cases:
  obtains "deliver alert now c st = decision False (Some ''cooldown'') c st"
  | st' where "deliver alert now c st = decision True None c st'"
      "es_fired_once st' = es_fired_once st" "es_last_session st' = es_last_session st"
      "es_last_emitted st' = Some now"
      "al_rearm_level alert \<noteq> None \<Longrightarrow> es_armed st' = Some False"
      "al_rearm_level alert = None \<Longrightarrow> es_armed st' = es_armed st"
      "\<And>s. al_cooldown_s alert = Some s \<Longrightarrow> s \<noteq> 0 \<Longrightarrow>
        es_cooldown_until st' = Some (now + seconds s)
        \<and> (case es_cooldown_until st of None \<Rightarrow> True | Some u \<Rightarrow> u \<le> now)"
proof (cases "ed_emit (deliver alert now c st)")
  case True
  then show thesis
    by (intro that(2) [of "ed_state (deliver alert now c st)"])
      (auto simp: deliver_def Let_def split: if_splits option.splits)
next
  case False
  then show thesis
    by (intro that(1)) (auto simp: deliver_def Let_def split: if_splits option.splits)
qed

lemma deliver_frame:
  "es_fired_once (ed_state (deliver alert now c st)) = es_fired_once st"
  "es_last_session (ed_state (deliver alert now c st)) = es_last_session st"
  "ed_completed (deliver alert now c st) = c"
  by (auto simp: deliver_def Let_def)

text \<open>Where an emission comes from: an armed, due state with the same latches.\<close>

definition gate_entry :: "alert_spec \<Rightarrow> engine_input \<Rightarrow> engine_state \<Rightarrow> engine_state \<Rightarrow> bool" where
  "gate_entry alert i st st1 \<longleftrightarrow>
     es_fired_once st1 = es_fired_once st \<and> es_last_session st1 = es_last_session st
     \<and> es_last_emitted st1 = es_last_emitted st \<and> es_cooldown_until st1 = es_cooldown_until st
     \<and> (es_armed st1 = es_armed st \<or> (es_armed st1 = Some True \<and> rearm_hit alert (ei_current_value i)))"

lemma decide_cases [case_names suppressed gated]:
  obtains "\<not> ed_emit (decide alert i st)" "\<not> ed_completed (decide alert i st)"
      "gate_entry alert i st (ed_state (decide alert i st))"
  | st1 where "decide alert i st = trigger_gate alert i st1" "gate_entry alert i st st1"
      "es_armed st1 \<noteq> Some False"
proof -
  have arm: "(\<not> ed_emit (arm_gate alert i f s) \<and> \<not> ed_completed (arm_gate alert i f s)
      \<and> gate_entry alert i s (ed_state (arm_gate alert i f s)))
    \<or> (\<exists>st1. arm_gate alert i f s = trigger_gate alert i st1 \<and> gate_entry alert i s st1 \<and> es_armed st1 \<noteq> Some False)"
    for f s
    by (auto simp: arm_gate_def gate_entry_def Let_def split: option.splits if_splits)
  have init: "gate_entry alert i st s" if "gate_entry alert i (st\<lparr>es_initialized := True\<rparr>) s" for s
    using that by (simp add: gate_entry_def)
  have forms: "decide alert i st = decision False (Some ''expired'') False st
    \<or> decide alert i st = decision False (Some ''quiet_session'') False st
    \<or> decide alert i st = decision False (Some ''already_true_at_activation'') False (st\<lparr>es_initialized := True\<rparr>)
    \<or> (\<exists>f. decide alert i st = arm_gate alert i f (st\<lparr>es_initialized := True\<rparr>))
    \<or> (\<exists>f. decide alert i st = arm_gate alert i f st)"
    by (cases "expired alert (ei_now i)"; cases "ei_session_active i"; cases "es_initialized st";
        cases "ei_already_true i = Some True"; cases "al_notify_if_already_true alert")
      (simp_all add: decide_def Let_def, blast+)
  then consider "decide alert i st = decision False (Some ''expired'') False st"
    | "decide alert i st = decision False (Some ''quiet_session'') False st"
    | "decide alert i st = decision False (Some ''already_true_at_activation'') False (st\<lparr>es_initialized := True\<rparr>)"
    | f where "decide alert i st = arm_gate alert i f (st\<lparr>es_initialized := True\<rparr>)"
    | f where "decide alert i st = arm_gate alert i f st"
    by blast
  then show thesis
  proof cases
    case (4 f)
    then show thesis using arm [of f "st\<lparr>es_initialized := True\<rparr>"] init that by metis
  next
    case (5 f)
    then show thesis using arm [of f st] that by metis
  qed (use that(1) in \<open>auto simp: gate_entry_def\<close>)
qed

section \<open>Latches\<close>

fun run_emits :: "('i \<Rightarrow> 's \<Rightarrow> bool \<times> 's) \<Rightarrow> 'i list \<Rightarrow> 's \<Rightarrow> bool list" where
  "run_emits step [] s = []"
| "run_emits step (i # inputs) s = fst (step i s) # run_emits step inputs (snd (step i s))"

definition engine_step :: "alert_spec \<Rightarrow> engine_input \<Rightarrow> engine_state \<Rightarrow> bool \<times> engine_state" where
  "engine_step alert i st = (ed_emit (decide alert i st), ed_state (decide alert i st))"

lemma decide_run_emits: "map ed_emit (decide_run alert inputs st) = run_emits (engine_step alert) inputs st"
  by (induction inputs arbitrary: st) (simp_all add: Let_def engine_step_def)

locale latch =
  fixes step :: "'i \<Rightarrow> 's \<Rightarrow> bool \<times> 's"
    and admissible :: "'i \<Rightarrow> bool"
    and latched :: "'s \<Rightarrow> bool"
  assumes shut: "admissible i \<Longrightarrow> latched s \<Longrightarrow> \<not> fst (step i s) \<and> latched (snd (step i s))"
    and catches: "admissible i \<Longrightarrow> fst (step i s) \<Longrightarrow> latched (snd (step i s))"
begin

lemma latched_silent:
  "list_all admissible inputs \<Longrightarrow> latched s \<Longrightarrow> True \<notin> set (run_emits step inputs s)"
  by (induction inputs arbitrary: s) (use shut in auto)

lemma at_most_once:
  "list_all admissible inputs \<Longrightarrow> length (filter (\<lambda>b. b) (run_emits step inputs s)) \<le> 1"
proof (induction inputs arbitrary: s)
  case (Cons i inputs)
  show ?case
  proof (cases "fst (step i s)")
    case True
    then have "latched (snd (step i s))" using Cons.prems catches by simp
    then have "filter (\<lambda>b. b) (run_emits step inputs (snd (step i s))) = []"
      using latched_silent [of inputs "snd (step i s)"] Cons.prems by (auto simp: filter_empty_conv)
    then show ?thesis by simp
  next
    case False
    then show ?thesis using Cons by simp
  qed
qed simp

end

interpretation once_latch: latch "engine_step (alert\<lparr>al_trigger := ''once''\<rparr>)" "\<lambda>_. True" es_fired_once
  for alert
proof
  fix i :: engine_input and s
  let ?a = "alert\<lparr>al_trigger := ''once''\<rparr>"
  show "es_fired_once s \<Longrightarrow> \<not> fst (engine_step ?a i s) \<and> es_fired_once (snd (engine_step ?a i s))"
    by (rule decide_cases [of ?a i s]) (simp_all add: engine_step_def gate_entry_def trigger_gate_def)
  show "fst (engine_step ?a i s) \<Longrightarrow> es_fired_once (snd (engine_step ?a i s))"
    by (rule decide_cases [of ?a i s])
      (auto simp: engine_step_def gate_entry_def trigger_gate_def deliver_frame split: if_splits)
qed

interpretation session_latch: latch "engine_step (alert\<lparr>al_trigger := ''once_per_session''\<rparr>)"
    "\<lambda>i. ei_session_id i = Some sid" "\<lambda>s. es_last_session s = Some sid"
  for alert sid
proof
  fix i :: engine_input and s
  let ?a = "alert\<lparr>al_trigger := ''once_per_session''\<rparr>"
  assume i: "ei_session_id i = Some sid"
  show "es_last_session s = Some sid \<Longrightarrow>
      \<not> fst (engine_step ?a i s) \<and> es_last_session (snd (engine_step ?a i s)) = Some sid"
    by (rule decide_cases [of ?a i s]) (simp_all add: engine_step_def gate_entry_def trigger_gate_def i)
  show "fst (engine_step ?a i s) \<Longrightarrow> es_last_session (snd (engine_step ?a i s)) = Some sid"
    by (rule decide_cases [of ?a i s])
      (auto simp: engine_step_def gate_entry_def trigger_gate_def i deliver_frame split: if_splits)
qed

lemma trigger_gate_armed:
  assumes "ed_emit (trigger_gate alert i st)" "al_rearm_level alert \<noteq> None"
  shows "es_armed (ed_state (trigger_gate alert i st)) = Some False"
proof -
  have "es_armed (ed_state (deliver alert n c s)) = Some False" if "ed_emit (deliver alert n c s)" for n c s
    using that assms(2) by (auto simp: deliver_def Let_def split: if_splits)
  then show ?thesis using assms(1) by (auto simp: trigger_gate_def split: if_splits option.splits)
qed

interpretation arm_latch: latch "engine_step (alert\<lparr>al_rearm_level := Some level\<rparr>)"
    "\<lambda>i. \<not> rearm_hit (alert\<lparr>al_rearm_level := Some level\<rparr>) (ei_current_value i)"
    "\<lambda>s. es_armed s = Some False"
  for alert level
proof
  fix i :: engine_input and s
  let ?a = "alert\<lparr>al_rearm_level := Some level\<rparr>"
  assume i: "\<not> rearm_hit ?a (ei_current_value i)"
  show "es_armed s = Some False \<Longrightarrow>
      \<not> fst (engine_step ?a i s) \<and> es_armed (snd (engine_step ?a i s)) = Some False"
    by (rule decide_cases [of ?a i s]) (auto simp: engine_step_def gate_entry_def i)
  show "fst (engine_step ?a i s) \<Longrightarrow> es_armed (snd (engine_step ?a i s)) = Some False"
    by (rule decide_cases [of ?a i s]) (auto simp: engine_step_def intro: trigger_gate_armed)
qed

section \<open>Properties\<close>

text \<open>
  An alert with trigger \<open>once\<close> emits at most once, over any run of evaluations and from
  any state.
\<close>

theorem once_emits_at_most_once:
  assumes "al_trigger alert = ''once''"
  shows "length (filter ed_emit (decide_run alert inputs st)) \<le> 1"
proof -
  have a: "alert\<lparr>al_trigger := ''once''\<rparr> = alert" using assms by simp
  have "length (filter (\<lambda>b. b) (map ed_emit (decide_run alert inputs st))) \<le> 1"
    unfolding decide_run_emits using once_latch.at_most_once [where alert = alert and inputs = inputs and s = st] by (simp add: a list_all_iff)
  then show ?thesis by (simp add: filter_map comp_def)
qed

definition sample_alert :: alert_spec where
  "sample_alert = \<lparr>al_trigger = ''once'', al_reminder_interval_s = None, al_cooldown_s = Some 60,
     al_rearm_level = Some 5, al_rearm_direction = None, al_notify_if_already_true = False,
     al_expires_at = None\<rparr>"

definition sample_input :: "instant \<Rightarrow> engine_input" where
  "sample_input t = \<lparr>ei_fired = True, ei_now = t, ei_session_active = True, ei_current_value = Some 9,
     ei_already_true = Some False, ei_session_id = Some ''d1'', ei_matched = Some True\<rparr>"

definition fresh_engine :: engine_state where
  "fresh_engine = \<lparr>es_initialized = False, es_armed = None, es_fired_once = False,
     es_last_session = None, es_last_emitted = None, es_cooldown_until = None\<rparr>"

theorem once_emits_at_most_once_witness:
  "length (filter ed_emit (decide_run sample_alert [sample_input 0, sample_input 1] fresh_engine)) \<le> 1"
  by (rule once_emits_at_most_once) (simp add: sample_alert_def)

text \<open>
  An alert with trigger \<open>once_per_session\<close> emits at most once over any run of
  evaluations of one trading session, and an alert with a re-arm level emits at most once
  over any run whose values never reach that level from the configured side.
\<close>

theorem session_and_rearm_emit_at_most_once:
  assumes "(al_trigger alert = ''once_per_session'' \<and> list_all (\<lambda>i. ei_session_id i = Some sid) inputs)
    \<or> (al_rearm_level alert = Some level \<and> list_all (\<lambda>i. \<not> rearm_hit alert (ei_current_value i)) inputs)"
  shows "length (filter ed_emit (decide_run alert inputs st)) \<le> 1"
proof -
  have "length (filter (\<lambda>b. b) (map ed_emit (decide_run alert inputs st))) \<le> 1"
    using assms
  proof
    assume a: "al_trigger alert = ''once_per_session'' \<and> list_all (\<lambda>i. ei_session_id i = Some sid) inputs"
    then have e: "alert\<lparr>al_trigger := ''once_per_session''\<rparr> = alert" by simp
    show ?thesis
      unfolding decide_run_emits using session_latch.at_most_once [where sid = sid and alert = alert and inputs = inputs and s = st] a by (simp add: e)
  next
    assume a: "al_rearm_level alert = Some level \<and> list_all (\<lambda>i. \<not> rearm_hit alert (ei_current_value i)) inputs"
    then have e: "alert\<lparr>al_rearm_level := Some level\<rparr> = alert" by simp
    show ?thesis
      unfolding decide_run_emits using arm_latch.at_most_once [where alert = alert and level = level and inputs = inputs and s = st] a by (simp add: e)
  qed
  then show ?thesis by (simp add: filter_map comp_def)
qed

theorem session_and_rearm_emit_at_most_once_witness:
  "length (filter ed_emit (decide_run (sample_alert\<lparr>al_trigger := ''on_transition''\<rparr>)
     [sample_input 0, sample_input 100000000] fresh_engine)) \<le> 1"
  by (rule session_and_rearm_emit_at_most_once [of _ "''d1''" _ 5])
    (simp add: sample_alert_def sample_input_def rearm_hit_def)

section \<open>Spacing\<close>

fun emit_times :: "('i \<Rightarrow> 's \<Rightarrow> bool \<times> 's) \<Rightarrow> ('i \<Rightarrow> int) \<Rightarrow> 'i list \<Rightarrow> 's \<Rightarrow> int list" where
  "emit_times step time [] s = []"
| "emit_times step time (i # inputs) s =
     (if fst (step i s) then [time i] else []) @ emit_times step time inputs (snd (step i s))"

text \<open>A gate that remembers the earliest instant of its next emission.\<close>

locale spacer =
  fixes step :: "'i \<Rightarrow> 's \<Rightarrow> bool \<times> 's"
    and time :: "'i \<Rightarrow> int"
    and earliest :: "'s \<Rightarrow> int option"
    and gap :: int
  assumes gap_nonneg: "0 \<le> gap"
    and emits: "fst (step i s) \<Longrightarrow>
      (earliest s = None \<or> the (earliest s) \<le> time i) \<and> earliest (snd (step i s)) = Some (time i + gap)"
    and keeps: "\<not> fst (step i s) \<Longrightarrow> earliest (snd (step i s)) = earliest s"
begin

lemma not_before:
  "earliest s = Some u \<Longrightarrow> t \<in> set (emit_times step time inputs s) \<Longrightarrow> u \<le> t"
proof (induction inputs arbitrary: s u)
  case (Cons i inputs)
  show ?case
  proof (cases "fst (step i s)")
    case True
    with emits [OF True] Cons.prems have "u \<le> time i" "earliest (snd (step i s)) = Some (time i + gap)" by auto
    then show ?thesis
      using Cons.IH [of "snd (step i s)" "time i + gap"] Cons.prems(2) True gap_nonneg by auto
  next
    case False
    then show ?thesis using Cons keeps [OF False] by auto
  qed
qed simp

lemma spaced: "sorted_wrt (\<lambda>a b. a + gap \<le> b) (emit_times step time inputs s)"
proof (induction inputs arbitrary: s)
  case (Cons i inputs)
  then show ?case
    using emits [of i s] not_before [of "snd (step i s)" "time i + gap"] by auto
qed simp

end

lemma deliver_cooldown:
  assumes "al_cooldown_s alert = Some c" "c \<noteq> 0"
  shows "ed_emit (deliver alert now b st) \<Longrightarrow>
      (es_cooldown_until st = None \<or> the (es_cooldown_until st) \<le> now)
      \<and> es_cooldown_until (ed_state (deliver alert now b st)) = Some (now + seconds c)"
    and "\<not> ed_emit (deliver alert now b st) \<Longrightarrow> ed_state (deliver alert now b st) = st"
  using assms by (auto simp: deliver_def Let_def split: option.splits if_splits)

lemma deliver_last_emitted:
  "ed_emit (deliver alert now b st) \<Longrightarrow> es_last_emitted (ed_state (deliver alert now b st)) = Some now"
  "\<not> ed_emit (deliver alert now b st) \<Longrightarrow> ed_state (deliver alert now b st) = st"
  by (auto simp: deliver_def Let_def split: if_splits)

lemma trigger_gate_forms:
  "(\<not> ed_emit (trigger_gate alert i st) \<and> ed_state (trigger_gate alert i st) = st)
   \<or> (\<exists>b st'. trigger_gate alert i st = deliver alert (ei_now i) b st'
        \<and> es_cooldown_until st' = es_cooldown_until st \<and> es_last_emitted st' = es_last_emitted st
        \<and> (al_trigger alert = ''reminder'' \<longrightarrow> es_last_emitted st = None \<or>
            the (es_last_emitted st) + seconds (case al_reminder_interval_s alert of None \<Rightarrow> 0 | Some r \<Rightarrow> r) \<le> ei_now i))"
proof (cases "\<not> ed_emit (trigger_gate alert i st) \<and> ed_state (trigger_gate alert i st) = st")
  case False
  then have "\<exists>b st'. st' \<in> {st, st\<lparr>es_fired_once := True\<rparr>, st\<lparr>es_last_session := ei_session_id i\<rparr>}
      \<and> trigger_gate alert i st = deliver alert (ei_now i) b st'
      \<and> (al_trigger alert = ''reminder'' \<longrightarrow> es_last_emitted st = None \<or>
            the (es_last_emitted st) + seconds (case al_reminder_interval_s alert of None \<Rightarrow> 0 | Some r \<Rightarrow> r) \<le> ei_now i)"
    by (auto simp: trigger_gate_def split: if_splits option.splits)
  then show ?thesis by (elim exE) (auto intro!: exI)
qed simp

lemma trigger_gate_cases [case_names blocked delivered]:
  obtains "\<not> ed_emit (trigger_gate alert i st)" "ed_state (trigger_gate alert i st) = st"
  | b st' where "trigger_gate alert i st = deliver alert (ei_now i) b st'"
      "es_cooldown_until st' = es_cooldown_until st" "es_last_emitted st' = es_last_emitted st"
      "al_trigger alert = ''reminder'' \<Longrightarrow> es_last_emitted st = None \<or>
        the (es_last_emitted st) + seconds (case al_reminder_interval_s alert of None \<Rightarrow> 0 | Some r \<Rightarrow> r) \<le> ei_now i"
  using trigger_gate_forms [of alert i st] by blast

lemma trigger_gate_cooldown:
  assumes c: "al_cooldown_s alert = Some c" "c \<noteq> 0"
  shows "ed_emit (trigger_gate alert i st) \<Longrightarrow>
      (es_cooldown_until st = None \<or> the (es_cooldown_until st) \<le> ei_now i)
      \<and> es_cooldown_until (ed_state (trigger_gate alert i st)) = Some (ei_now i + seconds c)"
    and "\<not> ed_emit (trigger_gate alert i st) \<Longrightarrow>
      es_cooldown_until (ed_state (trigger_gate alert i st)) = es_cooldown_until st"
  by (rule trigger_gate_cases [of alert i st]; use deliver_cooldown [OF c, of "ei_now i"] in force)+

lemma trigger_gate_reminder:
  assumes r: "al_trigger alert = ''reminder''" "al_reminder_interval_s alert = Some n"
  shows "ed_emit (trigger_gate alert i st) \<Longrightarrow>
      (es_last_emitted st = None \<or> the (es_last_emitted st) + seconds n \<le> ei_now i)
      \<and> es_last_emitted (ed_state (trigger_gate alert i st)) = Some (ei_now i)"
    and "\<not> ed_emit (trigger_gate alert i st) \<Longrightarrow>
      es_last_emitted (ed_state (trigger_gate alert i st)) = es_last_emitted st"
  by (rule trigger_gate_cases [of alert i st]; use r in \<open>force simp: deliver_last_emitted\<close>)+

lemma decide_cooldown:
  assumes c: "al_cooldown_s alert = Some c" "c \<noteq> 0"
  shows "if ed_emit (decide alert i st)
    then (es_cooldown_until st = None \<or> the (es_cooldown_until st) \<le> ei_now i)
      \<and> es_cooldown_until (ed_state (decide alert i st)) = Some (ei_now i + seconds c)
    else es_cooldown_until (ed_state (decide alert i st)) = es_cooldown_until st"
proof (rule decide_cases [of alert i st])
  fix st1 assume "decide alert i st = trigger_gate alert i st1" "gate_entry alert i st st1"
  then show ?thesis using trigger_gate_cooldown [OF c, of i st1] by (simp add: gate_entry_def)
qed (simp add: gate_entry_def)

lemma decide_reminder:
  assumes r: "al_trigger alert = ''reminder''" "al_reminder_interval_s alert = Some n"
  shows "if ed_emit (decide alert i st)
    then (es_last_emitted st = None \<or> the (es_last_emitted st) + seconds n \<le> ei_now i)
      \<and> es_last_emitted (ed_state (decide alert i st)) = Some (ei_now i)
    else es_last_emitted (ed_state (decide alert i st)) = es_last_emitted st"
proof (rule decide_cases [of alert i st])
  fix st1 assume "decide alert i st = trigger_gate alert i st1" "gate_entry alert i st st1"
  then show ?thesis using trigger_gate_reminder [OF r, of i st1] by (simp add: gate_entry_def)
qed (simp add: gate_entry_def)

interpretation cooldown_spacer: spacer "engine_step (alert\<lparr>al_cooldown_s := Some (int (Suc n))\<rparr>)"
    ei_now es_cooldown_until "seconds (int (Suc n))"
  for alert n
proof
  fix i :: engine_input and s
  let ?a = "alert\<lparr>al_cooldown_s := Some (int (Suc n))\<rparr>"
  have d: "al_cooldown_s ?a = Some (int (Suc n))" "int (Suc n) \<noteq> 0" by simp_all
  note tc = decide_cooldown [OF d, of i s]
  show "0 \<le> seconds (int (Suc n))" by (simp add: seconds_def)
  show "fst (engine_step ?a i s) \<Longrightarrow>
      (es_cooldown_until s = None \<or> the (es_cooldown_until s) \<le> ei_now i)
      \<and> es_cooldown_until (snd (engine_step ?a i s)) = Some (ei_now i + seconds (int (Suc n)))"
    using tc by (auto simp: engine_step_def)
  show "\<not> fst (engine_step ?a i s) \<Longrightarrow> es_cooldown_until (snd (engine_step ?a i s)) = es_cooldown_until s"
    using tc by (auto simp: engine_step_def)
qed

interpretation reminder_spacer: spacer
    "engine_step (alert\<lparr>al_trigger := ''reminder'', al_reminder_interval_s := Some (int n)\<rparr>)"
    ei_now "\<lambda>s. map_option (\<lambda>t. t + seconds (int n)) (es_last_emitted s)" "seconds (int n)"
  for alert n
proof
  fix i :: engine_input and s
  let ?a = "alert\<lparr>al_trigger := ''reminder'', al_reminder_interval_s := Some (int n)\<rparr>"
  have d: "al_trigger ?a = ''reminder''" "al_reminder_interval_s ?a = Some (int n)" by simp_all
  note tc = decide_reminder [OF d, of i s]
  show "0 \<le> seconds (int n)" by (simp add: seconds_def)
  show "fst (engine_step ?a i s) \<Longrightarrow>
      (map_option (\<lambda>t. t + seconds (int n)) (es_last_emitted s) = None
        \<or> the (map_option (\<lambda>t. t + seconds (int n)) (es_last_emitted s)) \<le> ei_now i)
      \<and> map_option (\<lambda>t. t + seconds (int n)) (es_last_emitted (snd (engine_step ?a i s)))
        = Some (ei_now i + seconds (int n))"
    using tc by (cases "es_last_emitted s") (auto simp: engine_step_def)
  show "\<not> fst (engine_step ?a i s) \<Longrightarrow>
      map_option (\<lambda>t. t + seconds (int n)) (es_last_emitted (snd (engine_step ?a i s)))
      = map_option (\<lambda>t. t + seconds (int n)) (es_last_emitted s)"
    using tc by (auto simp: engine_step_def)
qed

text \<open>
  C10. Emissions are spaced: in any run, from any state, every emission comes at least the
  cooldown after each earlier one, and for a reminder at least the reminder interval after
  it. No assumption is made on the clock readings.
\<close>

theorem emissions_spaced:
  assumes "(al_cooldown_s alert = Some gap \<and> 0 < gap)
    \<or> (al_trigger alert = ''reminder'' \<and> al_reminder_interval_s alert = Some gap \<and> 0 \<le> gap)"
  shows "sorted_wrt (\<lambda>a b. a + seconds gap \<le> b) (emit_times (engine_step alert) ei_now inputs st)"
  using assms
proof
  assume a: "al_cooldown_s alert = Some gap \<and> 0 < gap"
  then obtain n where n: "gap = int (Suc n)" using zero_less_imp_eq_int by (metis Suc_pred)
  have e: "alert\<lparr>al_cooldown_s := Some (int (Suc n))\<rparr> = alert" using a n by simp
  show ?thesis
    using cooldown_spacer.spaced [where alert = alert and n = n and s = st and inputs = inputs] by (simp only: e n)
next
  assume a: "al_trigger alert = ''reminder'' \<and> al_reminder_interval_s alert = Some gap \<and> 0 \<le> gap"
  then obtain n where n: "gap = int n" using nonneg_int_cases by blast
  have e: "alert\<lparr>al_trigger := ''reminder'', al_reminder_interval_s := Some (int n)\<rparr> = alert"
    using a n by simp
  show ?thesis
    using reminder_spacer.spaced [where alert = alert and n = n and s = st and inputs = inputs] by (simp only: e n)
qed

theorem emissions_spaced_witness:
  "sorted_wrt (\<lambda>a b. a + seconds 60 \<le> b)
     (emit_times (engine_step sample_alert) ei_now [sample_input 0, sample_input 1] fresh_engine)"
  by (rule emissions_spaced) (simp add: sample_alert_def)

text \<open>
  Expired and quiet evaluations are inert: they emit nothing and return the state
  unchanged; and a non-reminder evaluation that neither fired nor activates an
  already-true rule never emits.
\<close>

theorem inert_evaluations:
  "(expired alert (ei_now i) \<or> \<not> ei_session_active i \<longrightarrow>
      \<not> ed_emit (decide alert i st) \<and> \<not> ed_completed (decide alert i st) \<and> ed_state (decide alert i st) = st)
   \<and> (ed_emit (decide alert i st) \<longrightarrow>
        ei_fired i \<or> (al_trigger alert = ''reminder'' \<and> ei_matched i = Some True)
        \<or> (\<not> es_initialized st \<and> ei_already_true i = Some True \<and> al_notify_if_already_true alert))"
  by (auto simp: decide_def arm_gate_def Let_def split: if_splits)

theorem inert_evaluations_witness:
  "ed_state (decide (sample_alert\<lparr>al_expires_at := Some 3\<rparr>) (sample_input 4) fresh_engine) = fresh_engine"
  using inert_evaluations [of "sample_alert\<lparr>al_expires_at := Some 3\<rparr>" "sample_input 4" fresh_engine]
  by (simp add: expired_def sample_input_def)

end
