(* ===== verification/PaperModels.thy ===== *)
theory PaperModels
  imports Json
begin

text \<open>
  The data of the paper-trading runtime: \<open>paper_runtime/models.py\<close> (the enumerations, the
  models and their validators), the cost contract of \<open>execution_accounting/contracts.py\<close>,
  the charges estimator and the margin engine.

  A \<open>Decimal\<close> is an exact rational. The metadata of a row is a JSON object; the decimals the
  service writes into it as text are \<open>JNum\<close> entries, and \<open>md_dec\<close> reads them back (an absent
  or empty entry is zero, as in \<open>Decimal(str(x or "0"))\<close>; the service writes nothing else
  under these keys).

  The theorems give the signs and the scaling of margins and charges and the derivation of
  the totals of a cost contract.
\<close>

section \<open>Enumerations\<close>

datatype paper_order_side = Buy | Sell

datatype paper_order_type = Market | Limit | Sl | SlM

datatype paper_order_status =
  Pending | Open | PartiallyFilled | FilledStatus | Cancelled | RejectedStatus | Expired

datatype fund_ledger_entry_type = Credit | Debit | Reserve | Release | Adjustment

definition side_of :: "string \<Rightarrow> paper_order_side option" where
  "side_of s = (if s = ''buy'' then Some Buy else if s = ''sell'' then Some Sell else None)"

definition order_type_of :: "string \<Rightarrow> paper_order_type option" where
  "order_type_of s =
     (if s = ''market'' then Some Market else if s = ''limit'' then Some Limit
      else if s = ''sl'' then Some Sl else if s = ''sl_m'' then Some SlM else None)"

fun side_value :: "paper_order_side \<Rightarrow> string" where
  "side_value Buy = ''buy''"
| "side_value Sell = ''sell''"

fun order_type_value :: "paper_order_type \<Rightarrow> string" where
  "order_type_value Market = ''market''"
| "order_type_value Limit = ''limit''"
| "order_type_value Sl = ''sl''"
| "order_type_value SlM = ''sl_m''"

section \<open>Rows\<close>

record paper_account =
  pa_scope :: string
  pa_starting :: dec
  pa_available :: dec
  pa_blocked :: dec
  pa_realized :: dec
  pa_created_at :: instant
  pa_updated_at :: instant

record paper_order =
  po_scope :: string
  po_id :: string
  po_token :: int
  po_exchange :: string
  po_symbol :: string
  po_product :: string
  po_side :: paper_order_side
  po_type :: paper_order_type
  po_quantity :: int
  po_filled :: int
  po_pending :: int
  po_price :: "dec option"
  po_trigger :: "dec option"
  po_average :: "dec option"
  po_status :: paper_order_status
  po_placed_at :: instant
  po_updated_at :: instant
  po_completed_at :: "instant option"
  po_metadata :: jobj

record paper_trade =
  pt_scope :: string
  pt_id :: string
  pt_order_id :: string
  pt_token :: int
  pt_side :: paper_order_side
  pt_quantity :: int
  pt_price :: dec
  pt_timestamp :: instant
  pt_metadata :: jobj

record paper_position =
  pp_scope :: string
  pp_token :: int
  pp_product :: string
  pp_exchange :: string
  pp_symbol :: string
  pp_net :: int
  pp_average :: dec
  pp_buy_qty :: int
  pp_sell_qty :: int
  pp_buy_value :: dec
  pp_sell_value :: dec
  pp_realized :: dec
  pp_unrealized :: dec
  pp_updated_at :: instant
  pp_metadata :: jobj

record paper_lot =
  pl_scope :: string
  pl_id :: string
  pl_token :: int
  pl_product :: string
  pl_trade_id :: string
  pl_order_id :: string
  pl_open :: int
  pl_remaining :: int
  pl_entry_price :: dec
  pl_opened_at :: instant
  pl_closed_at :: "instant option"
  pl_metadata :: jobj

record paper_ledger_entry =
  le_scope :: string
  le_type :: fund_ledger_entry_type
  le_amount :: dec
  le_balance_after :: "dec option"
  le_reference_id :: string
  le_notes :: string
  le_created_at :: instant

section \<open>Errors and validation\<close>

datatype paper_error =
    ScopeRequired
  | OrderIdRequired
  | InvalidSide string
  | InvalidOrderType string
  | InvalidQuantity
  | InvalidToken
  | MissingFields "string list"
  | PriceRequired
  | OrderNotFound string string
  | DuplicateKey string string
  | ArithmeticFailure
  | RunIdRequired

definition validate_scope :: "string \<Rightarrow> paper_error + string" where
  "validate_scope s = (if str_strip s = [] then Inl ScopeRequired else Inr (str_strip s))"

text \<open>\<open>_normalize_quantities\<close>: an absent pending quantity is the unfilled rest.\<close>

definition normalize_quantities :: "int \<Rightarrow> int \<Rightarrow> int option \<Rightarrow> paper_error + int" where
  "normalize_quantities quantity filled pending =
     (if quantity \<le> 0 \<or> filled < 0 \<or> quantity < filled then Inl InvalidQuantity
      else (case pending of
          None \<Rightarrow> Inr (quantity - filled)
        | Some p \<Rightarrow> if p < 0 then Inl InvalidQuantity else Inr p))"

definition normalize_lot_quantities :: "int \<Rightarrow> int option \<Rightarrow> paper_error + int" where
  "normalize_lot_quantities opened remaining =
     (if opened \<le> 0 then Inl InvalidQuantity
      else (case remaining of
          None \<Rightarrow> Inr opened
        | Some r \<Rightarrow> if r < 0 \<or> opened < r then Inl InvalidQuantity else Inr r))"

section \<open>Metadata\<close>

definition md_dec :: "jobj \<Rightarrow> string \<Rightarrow> dec" where
  "md_dec m k = (case obj_num m k of None \<Rightarrow> 0 | Some x \<Rightarrow> x)"

text \<open>\<open>str(metadata.get(k) or "").strip()\<close> of a textual entry.\<close>

definition md_text :: "jobj \<Rightarrow> string \<Rightarrow> string" where
  "md_text m k = (case jstr (obj_get m k) of None \<Rightarrow> [] | Some s \<Rightarrow> str_strip s)"

text \<open>\<open>value not in (None, "")\<close>.\<close>

definition jpresent :: "jval \<Rightarrow> bool" where
  "jpresent v \<longleftrightarrow> v \<noteq> JNull \<and> v \<noteq> JStr []"

section \<open>Execution costs\<close>

datatype charges_status = Estimated | BrokerQuoted | Reconciled | Unavailable

record cost_contract =
  cc_margin_required :: dec
  cc_charges_estimate :: dec
  cc_brokerage :: dec
  cc_exchange_txn :: dec
  cc_stt :: dec
  cc_stamp_duty :: dec
  cc_sebi :: dec
  cc_gst :: dec
  cc_total_taxes :: dec
  cc_total_charges :: dec
  cc_net_cash_impact :: dec
  cc_status :: charges_status

definition zero_contract :: cost_contract where
  "zero_contract = \<lparr>cc_margin_required = 0, cc_charges_estimate = 0, cc_brokerage = 0,
     cc_exchange_txn = 0, cc_stt = 0, cc_stamp_duty = 0, cc_sebi = 0, cc_gst = 0,
     cc_total_taxes = 0, cc_total_charges = 0, cc_net_cash_impact = 0, cc_status = Estimated\<rparr>"

definition derive_totals :: "cost_contract \<Rightarrow> cost_contract" where
  "derive_totals c =
     (let taxes = cc_stt c + cc_stamp_duty c + cc_sebi c + cc_gst c;
          non_tax = cc_brokerage c + cc_exchange_txn c;
          total = non_tax + taxes;
          c1 = (if cc_total_taxes c = 0 then c\<lparr>cc_total_taxes := taxes\<rparr> else c)
      in if cc_total_charges c1 = 0
         then c1\<lparr>cc_total_charges := (if total \<noteq> 0 then total else cc_charges_estimate c1)\<rparr>
         else c1)"

definition signed_cash_flow :: "string \<Rightarrow> dec \<Rightarrow> int \<Rightarrow> dec" where
  "signed_cash_flow side price quantity =
     (let notional = price * of_int quantity
      in if str_lower side = ''sell'' then notional else - notional)"

text \<open>The charge rows of the broker: missing keys are zero.\<close>

definition contract_from_kite_payload :: "dec \<Rightarrow> (string, dec) dict \<Rightarrow> cost_contract" where
  "contract_from_kite_payload margin_required charges =
     (let g = (\<lambda>k. case dict_get charges k of None \<Rightarrow> 0 | Some v \<Rightarrow> v)
      in derive_totals (zero_contract\<lparr>cc_margin_required := margin_required,
           cc_charges_estimate := g ''total'', cc_brokerage := g ''brokerage'',
           cc_exchange_txn := g ''exchange_turnover_charge'', cc_stt := g ''transaction_tax'',
           cc_stamp_duty := g ''stamp_duty'', cc_sebi := g ''sebi_turnover_charge'',
           cc_gst := g ''gst'', cc_total_charges := g ''total'', cc_status := BrokerQuoted\<rparr>))"

definition charge_keys :: "string list" where
  "charge_keys = [''brokerage'', ''transaction_tax'', ''exchange_turnover_charge'',
     ''sebi_turnover_charge'', ''stamp_duty'', ''gst'', ''total'']"

definition add_charge_row :: "(string, dec) dict \<Rightarrow> (string, dec) dict \<Rightarrow> (string, dec) dict" where
  "add_charge_row row totals =
     map (\<lambda>(k, t). (k, t + (case dict_get row k of None \<Rightarrow> 0 | Some v \<Rightarrow> v))) totals"

definition sum_charge_rows :: "(string, dec) dict list \<Rightarrow> (string, dec) dict" where
  "sum_charge_rows rows = fold add_charge_row rows (map (\<lambda>k. (k, 0)) charge_keys)"

section \<open>Charges and margin\<close>

definition charge_rate :: "string option \<Rightarrow> string option \<Rightarrow> dec" where
  "charge_rate instrument_type exchange =
     (if str_upper (str_or instrument_type []) \<in> {''CE'', ''PE'', ''FUT''} then 5 / 10000
      else if str_upper (str_or exchange []) = ''MCX'' then 6 / 10000
      else 3 / 10000)"

definition estimate :: "dec \<Rightarrow> int \<Rightarrow> string option \<Rightarrow> string option \<Rightarrow> dec" where
  "estimate price quantity instrument_type exchange =
     round_half_up 2 (price * of_int (max quantity 0) * charge_rate instrument_type exchange)"

definition estimate_contract :: "dec \<Rightarrow> int \<Rightarrow> string option \<Rightarrow> string option \<Rightarrow> cost_contract" where
  "estimate_contract price quantity instrument_type exchange =
     (let total = estimate price quantity instrument_type exchange
      in derive_totals (zero_contract\<lparr>cc_charges_estimate := total, cc_brokerage := total,
           cc_total_charges := total\<rparr>))"

definition margin_rate :: "string \<Rightarrow> string \<Rightarrow> string \<Rightarrow> dec" where
  "margin_rate side product instrument_type =
     (let side = str_upper side; product = str_upper product; itype = str_upper instrument_type in
      if itype \<in> {''CE'', ''PE''} then (if side = ''BUY'' then 1 else 125 / 100)
      else if itype = ''FUT'' then (if product = ''MIS'' then 18 / 100 else 35 / 100)
      else if product = ''MIS'' then 20 / 100
      else 1)"

definition required_margin :: "string \<Rightarrow> string \<Rightarrow> int \<Rightarrow> dec \<Rightarrow> string \<Rightarrow> dec" where
  "required_margin side product quantity reference_price instrument_type =
     (if max quantity 0 \<le> 0 \<or> reference_price \<le> 0 then 0
      else reference_price * of_int quantity * margin_rate side product instrument_type)"

section \<open>Lemmas\<close>

lemma margin_rate_bounds: "18 / 100 \<le> margin_rate s p i" "margin_rate s p i \<le> 125 / 100"
  by (auto simp: margin_rate_def Let_def)

lemma charge_rate_bounds: "3 / 10000 \<le> charge_rate i e" "charge_rate i e \<le> 6 / 10000"
  by (auto simp: charge_rate_def)

lemma on_grid_margin_rate: "margin_rate s p i * 10 ^ 2 \<in> \<int>"
  by (simp add: margin_rate_def Let_def)

lemma required_margin_nonneg: "0 \<le> required_margin side product q price itype"
  using margin_rate_bounds(1) [of side product itype]
  by (auto simp: required_margin_def intro!: mult_nonneg_nonneg)

lemma required_margin_on_grid:
  assumes "on_grid 4 price"
  shows "on_grid 6 (required_margin side product q price itype)"
proof -
  have "on_grid (4 + 2) (price * of_int q * margin_rate side product itype)"
    by (intro on_grid_scale on_grid_of_int_mult assms on_grid_margin_rate)
  then show ?thesis by (auto simp: required_margin_def)
qed

lemma estimate_nonneg: "0 \<le> price \<Longrightarrow> 0 \<le> estimate price q i e"
  using charge_rate_bounds(1) [of i e]
  by (auto simp: estimate_def intro!: round_half_up_nonneg mult_nonneg_nonneg)

lemma estimate_on_grid: "on_grid 2 (estimate price q i e)"
  by (simp add: estimate_def round_half_up_on_grid)

lemma estimate_contract_total: "cc_total_charges (estimate_contract price q i e) = estimate price q i e"
  by (simp add: estimate_contract_def derive_totals_def Let_def zero_contract_def)

end
