(* ===== verification/PaperStore.thy ===== *)
theory PaperStore
  imports PaperModels "HOL-Library.Product_Lexorder"
begin

text \<open>
  The paper repository \<open>paper_runtime/repository.py\<close>: the six tables and the statements on
  them. A table with a primary key is a dictionary from the key to the row, in insertion
  order; the ledger is an append-only list. Money columns are \<open>NUMERIC(18,6)\<close>: every write
  rounds to six decimals, half away from zero, and every method returns the row as stored.
  The eighteen-digit capacity of the columns is not modelled, nor are the foreign keys (the
  service creates the account first). Rows a query does not order keep their insertion order.
  The unit of work runs the same statements on one session; its rollback is the caller's
  choice of which store to keep.

  The locale \<open>weighted_table\<close> states how a sum over a table changes when one row is written;
  it is interpreted on keyed tables with any weight, and carries the funds invariant.
\<close>

section \<open>Tables\<close>

record paper_store =
  db_accounts :: "(string, paper_account) dict"
  db_orders :: "(string \<times> string, paper_order) dict"
  db_trades :: "(string \<times> string, paper_trade) dict"
  db_positions :: "(string \<times> int \<times> string, paper_position) dict"
  db_lots :: "(string \<times> string, paper_lot) dict"
  db_ledger :: "paper_ledger_entry list"

definition empty_store :: paper_store where
  "empty_store = \<lparr>db_accounts = [], db_orders = [], db_trades = [], db_positions = [],
     db_lots = [], db_ledger = []\<rparr>"

definition money :: "dec \<Rightarrow> dec" where
  "money x = round_half_up 6 x"

definition account_row :: "paper_account \<Rightarrow> paper_account" where
  "account_row a = a\<lparr>pa_starting := money (pa_starting a), pa_available := money (pa_available a),
     pa_blocked := money (pa_blocked a), pa_realized := money (pa_realized a)\<rparr>"

definition order_row :: "paper_order \<Rightarrow> paper_order" where
  "order_row r = r\<lparr>po_price := map_option money (po_price r), po_trigger := map_option money (po_trigger r),
     po_average := map_option money (po_average r)\<rparr>"

definition trade_row :: "paper_trade \<Rightarrow> paper_trade" where
  "trade_row t = t\<lparr>pt_price := money (pt_price t)\<rparr>"

definition position_row :: "paper_position \<Rightarrow> paper_position" where
  "position_row p = p\<lparr>pp_average := money (pp_average p), pp_buy_value := money (pp_buy_value p),
     pp_sell_value := money (pp_sell_value p), pp_realized := money (pp_realized p),
     pp_unrealized := money (pp_unrealized p)\<rparr>"

definition lot_row :: "paper_lot \<Rightarrow> paper_lot" where
  "lot_row l = l\<lparr>pl_entry_price := money (pl_entry_price l)\<rparr>"

definition ledger_row :: "paper_ledger_entry \<Rightarrow> paper_ledger_entry" where
  "ledger_row e = e\<lparr>le_amount := money (le_amount e), le_balance_after := map_option money (le_balance_after e)\<rparr>"

section \<open>Statements\<close>

definition get_account :: "string \<Rightarrow> paper_store \<Rightarrow> paper_account option" where
  "get_account scope db = dict_get (db_accounts db) scope"

definition upsert_account :: "paper_account \<Rightarrow> paper_store \<Rightarrow> paper_account \<times> paper_store" where
  "upsert_account a db =
     (let row = account_row a;
          row' = (case dict_get (db_accounts db) (pa_scope a) of
                    None \<Rightarrow> row | Some old \<Rightarrow> row\<lparr>pa_created_at := pa_created_at old\<rparr>)
      in (row', db\<lparr>db_accounts := dict_set (pa_scope a) row' (db_accounts db)\<rparr>))"

definition order_key :: "paper_order \<Rightarrow> string \<times> string" where
  "order_key r = (po_scope r, po_id r)"

definition get_order :: "string \<Rightarrow> string \<Rightarrow> paper_store \<Rightarrow> paper_order option" where
  "get_order scope oid db = dict_get (db_orders db) (scope, oid)"

definition insert_order :: "paper_order \<Rightarrow> paper_store \<Rightarrow> (paper_error + paper_order) \<times> paper_store" where
  "insert_order r db =
     (if dict_has (db_orders db) (order_key r) then (Inl (DuplicateKey (po_scope r) (po_id r)), db)
      else (Inr (order_row r), db\<lparr>db_orders := dict_set (order_key r) (order_row r) (db_orders db)\<rparr>))"

definition update_order :: "paper_order \<Rightarrow> paper_store \<Rightarrow> (paper_error + paper_order) \<times> paper_store" where
  "update_order r db =
     (case dict_get (db_orders db) (order_key r) of
        None \<Rightarrow> (Inl (OrderNotFound (po_scope r) (po_id r)), db)
      | Some old \<Rightarrow>
          let row = (order_row r)\<lparr>po_token := po_token old, po_placed_at := po_placed_at old\<rparr>
          in (Inr row, db\<lparr>db_orders := dict_set (order_key r) row (db_orders db)\<rparr>))"

definition insert_trade :: "paper_trade \<Rightarrow> paper_store \<Rightarrow> (paper_error + paper_trade) \<times> paper_store" where
  "insert_trade t db =
     (if dict_has (db_trades db) (pt_scope t, pt_id t) then (Inl (DuplicateKey (pt_scope t) (pt_id t)), db)
      else (Inr (trade_row t), db\<lparr>db_trades := dict_set (pt_scope t, pt_id t) (trade_row t) (db_trades db)\<rparr>))"

definition position_key :: "paper_position \<Rightarrow> string \<times> int \<times> string" where
  "position_key p = (pp_scope p, pp_token p, pp_product p)"

definition get_position :: "string \<Rightarrow> int \<Rightarrow> string \<Rightarrow> paper_store \<Rightarrow> paper_position option" where
  "get_position scope token product db = dict_get (db_positions db) (scope, token, product)"

definition upsert_position :: "paper_position \<Rightarrow> paper_store \<Rightarrow> paper_position \<times> paper_store" where
  "upsert_position p db =
     (position_row p, db\<lparr>db_positions := dict_set (position_key p) (position_row p) (db_positions db)\<rparr>)"

definition upsert_position_lot :: "paper_lot \<Rightarrow> paper_store \<Rightarrow> paper_lot \<times> paper_store" where
  "upsert_position_lot l db =
     (lot_row l, db\<lparr>db_lots := dict_set (pl_scope l, pl_id l) (lot_row l) (db_lots db)\<rparr>)"

definition append_fund_ledger_entry :: "paper_ledger_entry \<Rightarrow> paper_store \<Rightarrow> paper_ledger_entry \<times> paper_store" where
  "append_fund_ledger_entry e db = (ledger_row e, db\<lparr>db_ledger := db_ledger db @ [ledger_row e]\<rparr>)"

section \<open>Queries\<close>

definition is_pending :: "paper_order_status \<Rightarrow> bool" where
  "is_pending s \<longleftrightarrow> s = Pending \<or> s = Open \<or> s = PartiallyFilled"

text \<open>A filter that is null selects every row.\<close>

definition opt_match :: "'a option \<Rightarrow> 'a \<Rightarrow> bool" where
  "opt_match x v = (case x of None \<Rightarrow> True | Some y \<Rightarrow> v = y)"

definition list_orders ::
  "string \<Rightarrow> int option \<Rightarrow> paper_order_status option \<Rightarrow> paper_order_side option \<Rightarrow> string option \<Rightarrow> int
   \<Rightarrow> paper_store \<Rightarrow> paper_order list" where
  "list_orders scope token status side product limit db =
     take (nat (max 1 limit))
       (sort_key (\<lambda>r. - po_placed_at r)
         (filter (\<lambda>r. po_scope r = scope \<and> opt_match token (po_token r) \<and> opt_match status (po_status r)
                    \<and> opt_match side (po_side r) \<and> opt_match product (po_product r)) (map snd (db_orders db))))"

text \<open>\<open>COALESCE\<close> over the identity keys: the first one that is not null.\<close>

definition coalesce_identity :: "jobj \<Rightarrow> string option" where
  "coalesce_identity m =
     (case find (\<lambda>k. obj_get m k \<noteq> JNull)
             [''strategy_run_id'', ''option_strategy_id'', ''strategy_id'', ''algo_instance_id''] of
        None \<Rightarrow> None
      | Some k \<Rightarrow> jstr (obj_get m k))"

definition list_orders_for_strategy ::
  "string \<Rightarrow> string \<Rightarrow> int \<Rightarrow> paper_store \<Rightarrow> paper_order list \<times> bool" where
  "list_orders_for_strategy scope run_id limit db =
     (let rid = str_strip run_id; cap = nat (max 1 limit);
          rows = take (cap + 1) (sort_key (\<lambda>r. - po_placed_at r)
                   (filter (\<lambda>r. po_scope r = scope \<and> coalesce_identity (po_metadata r) = Some rid)
                      (map snd (db_orders db))))
      in if rid = [] then ([], True) else (take cap rows, length rows \<le> cap))"

definition list_pending_orders_for_instrument :: "int \<Rightarrow> paper_store \<Rightarrow> paper_order list" where
  "list_pending_orders_for_instrument token db =
     sort_key po_placed_at
       (filter (\<lambda>r. po_token r = token \<and> is_pending (po_status r)) (map snd (db_orders db)))"

definition list_pending_orders_by_instrument :: "string \<Rightarrow> int \<Rightarrow> paper_store \<Rightarrow> paper_order list" where
  "list_pending_orders_by_instrument scope token db =
     sort_key po_placed_at
       (filter (\<lambda>r. po_scope r = scope \<and> po_token r = token \<and> is_pending (po_status r)) (map snd (db_orders db)))"

definition list_active_market_tokens :: "paper_store \<Rightarrow> int list" where
  "list_active_market_tokens db =
     sort (dedup
       (map po_token (filter (\<lambda>r. is_pending (po_status r)) (map snd (db_orders db)))
        @ map pp_token (filter (\<lambda>p. pp_net p \<noteq> 0) (map snd (db_positions db)))))"

definition list_trades :: "string \<Rightarrow> string option \<Rightarrow> int option \<Rightarrow> int \<Rightarrow> paper_store \<Rightarrow> paper_trade list" where
  "list_trades scope oid token limit db =
     take (nat (max 1 limit))
       (sort_key (\<lambda>t. - pt_timestamp t)
         (filter (\<lambda>t. pt_scope t = scope \<and> opt_match oid (pt_order_id t) \<and> opt_match token (pt_token t))
            (map snd (db_trades db))))"

definition list_positions ::
  "string \<Rightarrow> int option \<Rightarrow> string option \<Rightarrow> bool \<Rightarrow> paper_store \<Rightarrow> paper_position list" where
  "list_positions scope token product only_open db =
     sort_key (\<lambda>p. - pp_updated_at p)
       (filter (\<lambda>p. pp_scope p = scope \<and> opt_match token (pp_token p) \<and> opt_match product (pp_product p)
                  \<and> (\<not> only_open \<or> pp_net p \<noteq> 0)) (map snd (db_positions db)))"

definition list_open_positions_for_instrument :: "int \<Rightarrow> paper_store \<Rightarrow> paper_position list" where
  "list_open_positions_for_instrument token db =
     sort_key (\<lambda>p. - pp_updated_at p)
       (filter (\<lambda>p. pp_token p = token \<and> pp_net p \<noteq> 0) (map snd (db_positions db)))"

definition list_open_position_lots :: "string \<Rightarrow> int option \<Rightarrow> string option \<Rightarrow> paper_store \<Rightarrow> paper_lot list" where
  "list_open_position_lots scope token product db =
     sort_key (\<lambda>l. (pl_opened_at l, pl_id l))
       (filter (\<lambda>l. pl_scope l = scope \<and> 0 < pl_remaining l \<and> opt_match token (pl_token l) \<and> opt_match product (pl_product l))
          (map snd (db_lots db)))"

definition list_fund_ledger :: "string \<Rightarrow> int \<Rightarrow> paper_store \<Rightarrow> paper_ledger_entry list" where
  "list_fund_ledger scope limit db =
     take (nat (max 1 limit))
       (sort_key (\<lambda>e. - le_created_at e) (rev (filter (\<lambda>e. le_scope e = scope) (db_ledger db))))"

definition clear_account_scope :: "string \<Rightarrow> paper_store \<Rightarrow> paper_store" where
  "clear_account_scope scope db =
     db\<lparr>db_lots := filter (\<lambda>(k, r). pl_scope r \<noteq> scope) (db_lots db),
        db_trades := filter (\<lambda>(k, r). pt_scope r \<noteq> scope) (db_trades db),
        db_orders := filter (\<lambda>(k, r). po_scope r \<noteq> scope) (db_orders db),
        db_positions := filter (\<lambda>(k, r). pp_scope r \<noteq> scope) (db_positions db),
        db_ledger := filter (\<lambda>e. le_scope e \<noteq> scope) (db_ledger db)\<rparr>"

section \<open>Sums over tables\<close>

definition table_sum :: "('v \<Rightarrow> rat) \<Rightarrow> ('k, 'v) dict \<Rightarrow> rat" where
  "table_sum w t = sum_list (map (w \<circ> snd) t)"

locale weighted_table =
  fixes total :: "'t \<Rightarrow> rat"
    and get :: "'t \<Rightarrow> 'k \<Rightarrow> 'v option"
    and put :: "'k \<Rightarrow> 'v \<Rightarrow> 't \<Rightarrow> 't"
    and weight :: "'v \<Rightarrow> rat"
  assumes total_put: "total (put k v t) = total t - (case get t k of None \<Rightarrow> 0 | Some u \<Rightarrow> weight u) + weight v"
begin

lemma total_put_same_weight: "get t k = Some u \<Longrightarrow> weight u = weight v \<Longrightarrow> total (put k v t) = total t"
  by (simp add: total_put)

lemma total_put_new: "get t k = None \<Longrightarrow> total (put k v t) = total t + weight v"
  by (simp add: total_put)

lemma total_put_old: "get t k = Some u \<Longrightarrow> total (put k v t) = total t + (weight v - weight u)"
  by (simp add: total_put)

end

lemma table_sum_set:
  "table_sum w (dict_set k v t) = table_sum w t - (case dict_get t k of None \<Rightarrow> 0 | Some u \<Rightarrow> w u) + w v"
  by (induction t) (auto simp: table_sum_def split: option.splits)

interpretation table: weighted_table "table_sum w" map_of AList.update w for w
  by unfold_locales (rule table_sum_set)

lemma table_sum_nonneg: "(\<And>k v. (k, v) \<in> set t \<Longrightarrow> 0 \<le> w v) \<Longrightarrow> 0 \<le> table_sum w t"
  unfolding table_sum_def by (rule sum_list_nonneg) auto

section \<open>Rows on the grid\<close>

lemma money_exact: "on_grid 6 x \<Longrightarrow> money x = x"
  by (simp add: money_def round_half_up_exact)

lemma money_on_grid [simp]: "on_grid 6 (money x)"
  by (simp add: money_def round_half_up_on_grid)

lemma account_row_sel [simp]:
  "pa_scope (account_row a) = pa_scope a" "pa_available (account_row a) = money (pa_available a)"
  "pa_blocked (account_row a) = money (pa_blocked a)" "pa_starting (account_row a) = money (pa_starting a)"
  "pa_realized (account_row a) = money (pa_realized a)"
  by (simp_all add: account_row_def)

lemma order_row_sel [simp]:
  "po_scope (order_row r) = po_scope r" "po_id (order_row r) = po_id r" "po_token (order_row r) = po_token r"
  "po_status (order_row r) = po_status r" "po_metadata (order_row r) = po_metadata r"
  "po_quantity (order_row r) = po_quantity r" "po_side (order_row r) = po_side r"
  "po_product (order_row r) = po_product r" "po_type (order_row r) = po_type r"
  "po_exchange (order_row r) = po_exchange r" "po_symbol (order_row r) = po_symbol r"
  by (simp_all add: order_row_def)

lemma position_row_sel [simp]:
  "pp_scope (position_row p) = pp_scope p" "pp_token (position_row p) = pp_token p"
  "pp_product (position_row p) = pp_product p" "pp_net (position_row p) = pp_net p"
  "pp_metadata (position_row p) = pp_metadata p" "position_key (position_row p) = position_key p"
  "pp_realized (position_row p) = money (pp_realized p)"
  "pp_buy_qty (position_row p) = pp_buy_qty p" "pp_sell_qty (position_row p) = pp_sell_qty p"
  by (simp_all add: position_row_def position_key_def)

lemma lot_row_sel [simp]:
  "pl_scope (lot_row l) = pl_scope l" "pl_id (lot_row l) = pl_id l" "pl_remaining (lot_row l) = pl_remaining l"
  "pl_open (lot_row l) = pl_open l" "pl_token (lot_row l) = pl_token l" "pl_product (lot_row l) = pl_product l"
  "pl_opened_at (lot_row l) = pl_opened_at l" "pl_metadata (lot_row l) = pl_metadata l"
  by (simp_all add: lot_row_def)

end
