(* ===== verification/PaperService.thy ===== *)
theory PaperService
  imports PaperStore
begin

text \<open>
  The paper-trading service \<open>paper_runtime/service.py\<close>. The world is the database, the
  counter of generated identifiers and the list of published events; the environment holds
  what the service reads from elsewhere: the identifier generator, the instrument catalogue,
  the market snapshot of a token, the clock and the default balance. A handler runs under
  the account lock and reads the clock once. A raised exception is an \<open>Inl\<close> value, returned
  with the world as it was when it was raised. The journal calls, which go to another
  component, are left out.

  The metadata of a payload is an object and its prices are numbers; a price that is not a
  number is refused at normalization.
\<close>

section \<open>Environment and world\<close>

record instrument =
  in_token :: int
  in_type :: "string option"
  in_lot_size :: "int option"
  in_last_price :: "dec option"

record snapshot =
  sn_last :: "dec option"
  sn_buy :: "dec option list"
  sn_sell :: "dec option list"

record paper_env =
  pe_uuid :: "nat \<Rightarrow> string"
  pe_instrument :: "string \<Rightarrow> string \<Rightarrow> instrument option"
  pe_snapshot :: "int \<Rightarrow> snapshot"
  pe_now :: instant
  pe_default_balance :: dec

datatype paper_event =
    OrderEvent string paper_order
  | TradeEvent string paper_trade
  | PositionEvent string paper_position

record world =
  w_db :: paper_store
  w_next :: nat
  w_events :: "paper_event list"

type_synonym 'a outcome_of = "(paper_error + 'a) \<times> world"

definition bind_ok :: "'a outcome_of \<Rightarrow> ('a \<Rightarrow> world \<Rightarrow> 'b outcome_of) \<Rightarrow> 'b outcome_of" where
  "bind_ok r f = (case r of (Inl e, w) \<Rightarrow> (Inl e, w) | (Inr x, w) \<Rightarrow> f x w)"

lemma bind_ok_simps [simp]:
  "bind_ok (Inl e, w) f = (Inl e, w)" "bind_ok (Inr x, w) f = f x w"
  by (simp_all add: bind_ok_def)

definition on_db :: "(paper_store \<Rightarrow> 'a \<times> paper_store) \<Rightarrow> world \<Rightarrow> 'a \<times> world" where
  "on_db f w = (let (r, db) = f (w_db w) in (r, w\<lparr>w_db := db\<rparr>))"

definition publish_event :: "paper_event \<Rightarrow> world \<Rightarrow> world" where
  "publish_event e w = w\<lparr>w_events := w_events w @ [e]\<rparr>"

definition new_id :: "string \<Rightarrow> paper_env \<Rightarrow> world \<Rightarrow> string \<times> world" where
  "new_id prefix env w = (prefix @ pe_uuid env (w_next w), w\<lparr>w_next := Suc (w_next w)\<rparr>)"

datatype order_result =
    ResRejected string paper_order
  | ResAccepted paper_order
  | ResFilled paper_order paper_trade paper_position

definition rejected_result :: "order_result \<Rightarrow> bool" where
  "rejected_result r = (case r of ResRejected _ _ \<Rightarrow> True | _ \<Rightarrow> False)"

section \<open>Order requests\<close>

record order_request =
  rq_exchange :: string
  rq_symbol :: string
  rq_side :: string
  rq_product :: string
  rq_type :: string
  rq_quantity :: int
  rq_price :: "dec option"
  rq_trigger :: "dec option"

definition required_fields :: "string list" where
  "required_fields = [''exchange'', ''tradingsymbol'', ''transaction_type'', ''product'', ''order_type'', ''quantity'']"

definition opt_price :: "jval \<Rightarrow> paper_error + dec option" where
  "opt_price v = (if v = JNull then Inr None
     else (case jnum v of None \<Rightarrow> Inl ArithmeticFailure | Some x \<Rightarrow> Inr (Some x)))"

definition normalize_order_request :: "jobj \<Rightarrow> paper_error + order_request" where
  "normalize_order_request payload =
     (let missing = filter (\<lambda>f. \<not> jpresent (obj_get payload f)) required_fields;
          order_type = str_upper (py_str (obj_get payload ''order_type''));
          price = obj_get payload ''price''; trigger = obj_get payload ''trigger_price''
      in if missing \<noteq> [] then Inl (MissingFields missing)
         else (case py_int (obj_get payload ''quantity'') of
            None \<Rightarrow> Inl InvalidQuantity
          | Some quantity \<Rightarrow>
              if quantity \<le> 0 then Inl InvalidQuantity
              else if order_type = ''LIMIT'' \<and> price = JNull then Inl PriceRequired
              else if order_type = ''SL'' \<and> (price = JNull \<or> trigger = JNull) then Inl PriceRequired
              else if order_type = ''SL-M'' \<and> trigger = JNull then Inl PriceRequired
              else (case (opt_price price, opt_price trigger) of
                  (Inr p, Inr t) \<Rightarrow>
                    Inr \<lparr>rq_exchange = str_upper (py_str (obj_get payload ''exchange'')),
                         rq_symbol = str_upper (str_strip (py_str (obj_get payload ''tradingsymbol''))),
                         rq_side = str_upper (py_str (obj_get payload ''transaction_type'')),
                         rq_product = str_upper (py_str (obj_get payload ''product'')),
                         rq_type = order_type, rq_quantity = quantity, rq_price = p, rq_trigger = t\<rparr>
                | (Inl e, _) \<Rightarrow> Inl e
                | (_, Inl e) \<Rightarrow> Inl e)))"

definition attribution_keys :: "string list" where
  "attribution_keys = [''journal_run_id'', ''journal_ref'', ''strategy_run_id'', ''option_strategy_id'',
     ''strategy_id'', ''algo_instance_id'', ''strategy_tag'']"

definition merged_attribution :: "jobj \<Rightarrow> jobj \<Rightarrow> jobj" where
  "merged_attribution attribution metadata =
     fold (\<lambda>k merged.
        if \<not> jpresent (obj_get merged k) \<and> jpresent (obj_get metadata k)
        then dict_set k (obj_get metadata k) merged else merged)
       attribution_keys attribution"

definition payload_metadata :: "jobj \<Rightarrow> jobj" where
  "payload_metadata payload = (case jdict (obj_get payload ''metadata'') of None \<Rightarrow> [] | Some d \<Rightarrow> d)"

definition strategy_identity :: "jobj \<Rightarrow> string option" where
  "strategy_identity m =
     find (\<lambda>s. s \<noteq> []) (map (md_text m) [''strategy_run_id'', ''option_strategy_id'', ''strategy_id'', ''algo_instance_id''])"

section \<open>Prices, triggers and margins\<close>

definition nz :: "dec option \<Rightarrow> dec" where
  "nz x = (case x of None \<Rightarrow> 0 | Some v \<Rightarrow> v)"

definition reference_price :: "order_request \<Rightarrow> instrument \<Rightarrow> snapshot \<Rightarrow> dec" where
  "reference_price rq ins sn =
     (if rq_type rq \<in> {''LIMIT'', ''SL''} \<and> rq_price rq \<noteq> None then nz (rq_price rq)
      else if rq_type rq = ''SL-M'' \<and> rq_trigger rq \<noteq> None then nz (rq_trigger rq)
      else if sn_last sn \<noteq> None then nz (sn_last sn)
      else nz (in_last_price ins))"

definition position_margin :: "paper_position option \<Rightarrow> string option \<Rightarrow> dec \<Rightarrow> dec" where
  "position_margin pos itype ref =
     (case pos of
        None \<Rightarrow> 0
      | Some p \<Rightarrow>
          if pp_net p = 0 then 0
          else required_margin (if pp_net p > 0 then ''BUY'' else ''SELL'') (pp_product p) \<bar>pp_net p\<bar>
                 (if ref > 0 then ref else pp_average p)
                 (str_or itype (str_or (jstr (obj_get (pp_metadata p) ''instrument_type'')) [])))"

definition position_margin_in_use :: "paper_position option \<Rightarrow> string option \<Rightarrow> dec \<Rightarrow> dec" where
  "position_margin_in_use pos itype ref =
     (case pos of
        None \<Rightarrow> 0
      | Some p \<Rightarrow>
          if pp_net p = 0 then 0
          else (case obj_num (pp_metadata p) ''margin_in_use'' of
              Some m \<Rightarrow> if m \<ge> 0 then m else position_margin pos itype ref
            | None \<Rightarrow> position_margin pos itype ref))"

definition apply_fill_to_position ::
  "string \<Rightarrow> paper_position option \<Rightarrow> order_request \<Rightarrow> dec \<Rightarrow> instrument \<Rightarrow> instant \<Rightarrow> paper_position" where
  "apply_fill_to_position scope pos rq price ins now =
     (let side = (if rq_side rq = ''BUY'' then 1 else - 1 :: int);
          qty = rq_quantity rq;
          old = (case pos of None \<Rightarrow> 0 | Some p \<Rightarrow> pp_net p);
          avg = (case pos of None \<Rightarrow> 0 | Some p \<Rightarrow> pp_average p);
          realized = (case pos of None \<Rightarrow> 0 | Some p \<Rightarrow> pp_realized p);
          buy_qty = (case pos of None \<Rightarrow> 0 | Some p \<Rightarrow> pp_buy_qty p) + (if side > 0 then qty else 0);
          sell_qty = (case pos of None \<Rightarrow> 0 | Some p \<Rightarrow> pp_sell_qty p) + (if side > 0 then 0 else qty);
          buy_value = (case pos of None \<Rightarrow> 0 | Some p \<Rightarrow> pp_buy_value p) + (if side > 0 then price * of_int qty else 0);
          sell_value = (case pos of None \<Rightarrow> 0 | Some p \<Rightarrow> pp_sell_value p) + (if side > 0 then 0 else price * of_int qty);
          new_qty = old + side * qty;
          extends = (old = 0 \<or> (old > 0 \<and> side > 0) \<or> (old < 0 \<and> side < 0));
          closing = min \<bar>old\<bar> qty;
          realized' = (if extends then realized
                       else if old > 0 then realized + (price - avg) * of_int closing
                       else realized + (avg - price) * of_int closing);
          new_avg = (if extends then
                       (if old = 0 then price
                        else (avg * of_int \<bar>old\<bar> + price * of_int qty) / of_int \<bar>new_qty\<bar>)
                     else if new_qty = 0 then 0
                     else if qty - closing > 0 \<and> ((new_qty > 0 \<and> side > 0) \<or> (new_qty < 0 \<and> side < 0)) then price
                     else avg);
          unrealized = (if new_qty > 0 then (price - new_avg) * of_int new_qty
                        else if new_qty < 0 then (new_avg - price) * of_int \<bar>new_qty\<bar> else 0);
          md = dict_set ''last_price'' (JNum price)
                 (dict_set ''instrument_type'' (JStr (str_or (in_type ins) []))
                   (case pos of None \<Rightarrow> [] | Some p \<Rightarrow> pp_metadata p))
      in \<lparr>pp_scope = (case pos of None \<Rightarrow> scope | Some p \<Rightarrow> pp_scope p), pp_token = in_token ins,
          pp_product = rq_product rq, pp_exchange = rq_exchange rq, pp_symbol = rq_symbol rq,
          pp_net = new_qty, pp_average = new_avg, pp_buy_qty = buy_qty, pp_sell_qty = sell_qty,
          pp_buy_value = buy_value, pp_sell_value = sell_value, pp_realized = realized',
          pp_unrealized = unrealized, pp_updated_at = now, pp_metadata = md\<rparr>)"

definition stop_limit_trigger_reached :: "order_request \<Rightarrow> snapshot \<Rightarrow> bool" where
  "stop_limit_trigger_reached rq sn =
     (let last = nz (sn_last sn); trigger = nz (rq_trigger rq)
      in if last \<le> 0 \<or> trigger \<le> 0 then False
         else if rq_side rq = ''BUY'' then last \<ge> trigger else last \<le> trigger)"

definition best_price :: "dec option list \<Rightarrow> dec" where
  "best_price depth = (case depth of [] \<Rightarrow> 0 | p # _ \<Rightarrow> nz p)"

definition limit_order_fillable :: "order_request \<Rightarrow> snapshot \<Rightarrow> bool" where
  "limit_order_fillable rq sn =
     (let last = nz (sn_last sn); limit = nz (rq_price rq);
          best_sell = best_price (sn_sell sn); best_buy = best_price (sn_buy sn)
      in if limit \<le> 0 \<or> last \<le> 0 then False
         else if rq_side rq = ''BUY'' then (if best_sell > 0 then best_sell \<le> limit else last \<le> limit)
         else (if best_buy > 0 then best_buy \<ge> limit else last \<ge> limit))"

definition stop_triggered :: "paper_order \<Rightarrow> bool" where
  "stop_triggered r = jtruth (obj_get (po_metadata r) ''stop_triggered'')"

definition order_should_trigger :: "paper_order option \<Rightarrow> order_request \<Rightarrow> snapshot \<Rightarrow> bool" where
  "order_should_trigger ord rq sn =
     (let last = nz (sn_last sn) in
      if last \<le> 0 then False
      else if rq_type rq = ''LIMIT'' then limit_order_fillable rq sn
      else if rq_type rq = ''SL'' then
        (case ord of None \<Rightarrow> stop_limit_trigger_reached rq sn | Some r \<Rightarrow> stop_triggered r)
        \<and> limit_order_fillable rq sn
      else if rq_type rq = ''SL-M'' then
        (if rq_side rq = ''BUY'' then last \<ge> nz (rq_trigger rq) else last \<le> nz (rq_trigger rq))
      else False)"

definition should_fill_immediately :: "order_request \<Rightarrow> snapshot \<Rightarrow> bool" where
  "should_fill_immediately rq sn = (rq_type rq = ''MARKET'' \<or> order_should_trigger None rq sn)"

definition depth_price :: "dec option list \<Rightarrow> dec \<Rightarrow> dec" where
  "depth_price depth fallback =
     (case depth of [] \<Rightarrow> fallback | p # _ \<Rightarrow> if nz p = 0 then fallback else nz p)"

definition fill_price :: "paper_order \<Rightarrow> snapshot \<Rightarrow> dec \<Rightarrow> dec" where
  "fill_price r sn fallback =
     (let market = (case po_side r of Buy \<Rightarrow> depth_price (sn_sell sn) fallback
                                    | Sell \<Rightarrow> depth_price (sn_buy sn) fallback)
      in case po_type r of
           Market \<Rightarrow> market
         | SlM \<Rightarrow> market
         | _ \<Rightarrow> (case po_price r of
                    Some p \<Rightarrow> p
                  | None \<Rightarrow> if nz (sn_last sn) = 0 then fallback else nz (sn_last sn)))"

definition request_from_paper_order :: "paper_order \<Rightarrow> order_request" where
  "request_from_paper_order r =
     \<lparr>rq_exchange = po_exchange r, rq_symbol = po_symbol r, rq_side = str_upper (side_value (po_side r)),
      rq_product = po_product r,
      rq_type = (if po_type r = SlM then ''SL-M'' else str_upper (order_type_value (po_type r))),
      rq_quantity = po_quantity r, rq_price = po_price r, rq_trigger = po_trigger r\<rparr>"

section \<open>Accounts and funds\<close>

definition fresh_account :: "string \<Rightarrow> dec \<Rightarrow> instant \<Rightarrow> paper_account" where
  "fresh_account scope balance now =
     \<lparr>pa_scope = scope, pa_starting = balance, pa_available = balance, pa_blocked = 0, pa_realized = 0,
      pa_created_at = now, pa_updated_at = now\<rparr>"

definition ensure_account :: "paper_env \<Rightarrow> string \<Rightarrow> world \<Rightarrow> paper_account outcome_of" where
  "ensure_account env scope w =
     (case get_account scope (w_db w) of
        Some a \<Rightarrow> (Inr a, w)
      | None \<Rightarrow>
          (case validate_scope scope of
             Inl e \<Rightarrow> (Inl e, w)
           | Inr s \<Rightarrow>
               let (a, w1) = on_db (upsert_account (fresh_account s (pe_default_balance env) (pe_now env))) w
               in (Inr a, w1)))"

definition ledger_entry ::
  "string \<Rightarrow> fund_ledger_entry_type \<Rightarrow> dec \<Rightarrow> dec \<Rightarrow> string \<Rightarrow> string \<Rightarrow> instant \<Rightarrow> paper_ledger_entry" where
  "ledger_entry scope ty amount balance ref notes now =
     \<lparr>le_scope = scope, le_type = ty, le_amount = amount, le_balance_after = Some balance,
      le_reference_id = ref, le_notes = notes, le_created_at = now\<rparr>"

definition apply_account_delta ::
  "paper_env \<Rightarrow> paper_account \<Rightarrow> dec \<Rightarrow> string \<Rightarrow> world \<Rightarrow> paper_account \<times> world" where
  "apply_account_delta env a delta ref w =
     (if delta = 0 then (a, w)
      else
        let (a1, w1) = on_db (upsert_account (a\<lparr>pa_available := pa_available a - delta,
                         pa_blocked := pa_blocked a + delta, pa_updated_at := pe_now env\<rparr>)) w;
            (e, w2) = on_db (append_fund_ledger_entry (ledger_entry (pa_scope a)
                         (if delta > 0 then Reserve else Release) \<bar>delta\<bar> (pa_available a1) ref
                         ''paper_margin_adjustment'' (pe_now env))) w1
        in (a1, w2))"

definition apply_cash_delta ::
  "paper_env \<Rightarrow> paper_account \<Rightarrow> dec \<Rightarrow> fund_ledger_entry_type \<Rightarrow> string \<Rightarrow> string \<Rightarrow> world
   \<Rightarrow> paper_account \<times> world" where
  "apply_cash_delta env a delta ty ref notes w =
     (if delta = 0 then (a, w)
      else
        let (a1, w1) = on_db (upsert_account (a\<lparr>pa_available := pa_available a + delta,
                         pa_updated_at := pe_now env\<rparr>)) w;
            (e, w2) = on_db (append_fund_ledger_entry (ledger_entry (pa_scope a) ty \<bar>delta\<bar>
                         (pa_available a1) ref notes (pe_now env))) w1
        in (a1, w2))"

section \<open>Lots\<close>

definition ordered_lots_for_consumption :: "paper_lot list \<Rightarrow> string option \<Rightarrow> bool \<Rightarrow> paper_lot list" where
  "ordered_lots_for_consumption lots preferred strict =
     (let want = str_strip (str_or preferred []) in
      if want = [] then lots
      else
        let mine = filter (\<lambda>l. strategy_identity (pl_metadata l) = Some want) lots;
            others = filter (\<lambda>l. strategy_identity (pl_metadata l) \<noteq> Some want) lots
        in if strict then mine else mine @ others)"

fun consume_lots :: "instant \<Rightarrow> paper_lot list \<Rightarrow> int \<Rightarrow> paper_store \<Rightarrow> paper_store" where
  "consume_lots now [] remaining db = db"
| "consume_lots now (l # ls) remaining db =
     (if remaining \<le> 0 then db
      else if pl_remaining l \<le> 0 then consume_lots now ls remaining db
      else
        let consumed = min (pl_remaining l) remaining;
            left = pl_remaining l - consumed;
            db1 = snd (upsert_position_lot
                    (l\<lparr>pl_remaining := left, pl_closed_at := (if left = 0 then Some now else pl_closed_at l)\<rparr>) db)
        in consume_lots now ls (remaining - consumed) db1)"

definition consume_position_lots ::
  "paper_env \<Rightarrow> string \<Rightarrow> int \<Rightarrow> string \<Rightarrow> int \<Rightarrow> string option \<Rightarrow> bool \<Rightarrow> world \<Rightarrow> world" where
  "consume_position_lots env scope token product quantity preferred strict w =
     (let remaining = max 0 quantity in
      if remaining \<le> 0 then w
      else
        let lots = ordered_lots_for_consumption (list_open_position_lots scope (Some token) (Some product) (w_db w)) preferred strict
        in w\<lparr>w_db := consume_lots (pe_now env) lots remaining (w_db w)\<rparr>)"

section \<open>Building and rejecting orders\<close>

definition replace_dash :: "string \<Rightarrow> string" where
  "replace_dash s = map (\<lambda>c. if c = CHR ''-'' then CHR ''_'' else c) s"

definition make_order ::
  "paper_env \<Rightarrow> string \<Rightarrow> int \<Rightarrow> order_request \<Rightarrow> dec option \<Rightarrow> dec option \<Rightarrow> paper_order_status \<Rightarrow> jobj
   \<Rightarrow> world \<Rightarrow> paper_order outcome_of" where
  "make_order env scope token rq price trigger status md w =
     (let (oid, w1) = new_id ''PAPER-'' env w in
      case (validate_scope scope, side_of (str_lower (rq_side rq)),
            order_type_of (str_lower (replace_dash (rq_type rq))), normalize_quantities (rq_quantity rq) 0 None) of
        (Inl e, _, _, _) \<Rightarrow> (Inl e, w1)
      | (_, None, _, _) \<Rightarrow> (Inl (InvalidSide (rq_side rq)), w1)
      | (_, _, None, _) \<Rightarrow> (Inl (InvalidOrderType (rq_type rq)), w1)
      | (_, _, _, Inl e) \<Rightarrow> (Inl e, w1)
      | (Inr s, Some side, Some ty, Inr pending) \<Rightarrow>
          (Inr \<lparr>po_scope = s, po_id = oid, po_token = token, po_exchange = rq_exchange rq,
                po_symbol = rq_symbol rq, po_product = rq_product rq, po_side = side, po_type = ty,
                po_quantity = rq_quantity rq, po_filled = 0, po_pending = pending, po_price = price,
                po_trigger = trigger, po_average = None, po_status = status, po_placed_at = pe_now env,
                po_updated_at = pe_now env, po_completed_at = None, po_metadata = md\<rparr>, w1))"

definition attribution_token :: "jobj \<Rightarrow> paper_error + int" where
  "attribution_token m =
     (let v = obj_get m ''instrument_token'' in
      if \<not> jtruth v then Inr 0 else (case py_int v of None \<Rightarrow> Inl InvalidToken | Some i \<Rightarrow> Inr i))"

definition rejected_order :: "paper_env \<Rightarrow> string \<Rightarrow> order_request \<Rightarrow> jobj \<Rightarrow> string \<Rightarrow> world \<Rightarrow> paper_order outcome_of" where
  "rejected_order env scope rq attribution reason w =
     (case attribution_token attribution of
        Inl e \<Rightarrow> (Inl e, snd (new_id ''PAPER-'' env w))
      | Inr token \<Rightarrow> make_order env scope token rq None None RejectedStatus (dict_set ''rejection_reason'' (JStr reason) attribution) w)"

text \<open>A rejected order that is only reported, and one that is also stored and published.\<close>

definition build_rejected_result ::
  "paper_env \<Rightarrow> string \<Rightarrow> order_request \<Rightarrow> jobj \<Rightarrow> string \<Rightarrow> world \<Rightarrow> order_result outcome_of" where
  "build_rejected_result env scope rq attribution reason w =
     bind_ok (rejected_order env scope rq attribution reason w) (\<lambda>r w1. (Inr (ResRejected reason r), w1))"

definition reject_order ::
  "paper_env \<Rightarrow> string \<Rightarrow> order_request \<Rightarrow> jobj \<Rightarrow> string \<Rightarrow> world \<Rightarrow> order_result outcome_of" where
  "reject_order env scope rq attribution reason w =
     bind_ok (rejected_order env scope rq attribution reason w)
       (\<lambda>r w1. bind_ok (on_db (insert_order r) w1)
         (\<lambda>row w2. (Inr (ResRejected reason row), publish_event (OrderEvent ''rejected'' row) w2)))"

definition persist_stop_limit_trigger_state ::
  "paper_env \<Rightarrow> paper_order \<Rightarrow> order_request \<Rightarrow> snapshot \<Rightarrow> world \<Rightarrow> paper_order outcome_of" where
  "persist_stop_limit_trigger_state env r rq sn w =
     (if po_type r \<noteq> Sl \<or> stop_triggered r \<or> \<not> stop_limit_trigger_reached rq sn then (Inr r, w)
      else on_db (update_order (r\<lparr>po_updated_at := pe_now env,
             po_metadata := dict_update (po_metadata r)
               [(''stop_triggered'', JBool True), (''stop_triggered_at'', JTime (pe_now env))]\<rparr>)) w)"

section \<open>Fills\<close>

definition carried_keys :: "string list" where
  "carried_keys = [''strategy_run_id'', ''option_strategy_id'', ''strategy_id'', ''algo_instance_id'',
     ''strategy_tag'', ''journal_run_id'', ''journal_ref'', ''source'', ''notes'']"

definition position_fill_metadata :: "jobj \<Rightarrow> jobj \<Rightarrow> dec \<Rightarrow> dec \<Rightarrow> jobj" where
  "position_fill_metadata position_md order_md margin price =
     dict_update
       (dict_set ''last_price'' (JNum price) (dict_set ''margin_in_use'' (JNum margin) position_md))
       (filter (\<lambda>(k, v). k \<in> set carried_keys \<and> jpresent v) order_md)"

definition exit_for :: "paper_order \<Rightarrow> string option" where
  "exit_for r = (let s = md_text (po_metadata r) ''exit_for'' in if s = [] then None else Some s)"

text \<open>Opening a lot on a buy, consuming lots on a sell.\<close>

definition record_lots :: "paper_env \<Rightarrow> paper_order \<Rightarrow> paper_trade \<Rightarrow> dec \<Rightarrow> world \<Rightarrow> world" where
  "record_lots env r tr price w =
     (case po_side r of
        Buy \<Rightarrow>
          let (lid, w1) = new_id ''PLOT-'' env w
          in snd (on_db (upsert_position_lot
               \<lparr>pl_scope = po_scope r, pl_id = lid, pl_token = po_token r, pl_product = po_product r,
                pl_trade_id = pt_id tr, pl_order_id = po_id r, pl_open = po_quantity r,
                pl_remaining = po_quantity r, pl_entry_price = price, pl_opened_at = pt_timestamp tr,
                pl_closed_at = None, pl_metadata = po_metadata r\<rparr>) w1)
      | Sell \<Rightarrow>
          consume_position_lots env (po_scope r) (po_token r) (po_product r) (po_quantity r)
            (exit_for r) (exit_for r \<noteq> None) w)"

text \<open>The margin move, the charges and the realized result, booked on the account.\<close>

definition book_funds ::
  "paper_env \<Rightarrow> paper_account \<Rightarrow> string \<Rightarrow> dec \<Rightarrow> dec \<Rightarrow> dec \<Rightarrow> world \<Rightarrow> paper_account \<times> world" where
  "book_funds env a oid margin_adjustment charges realized_delta w =
     (let (a1, w1) = apply_account_delta env a margin_adjustment oid w;
          (a2, w2) = apply_cash_delta env a1 (- charges) Debit oid ''paper_trade_charges'' w1
      in if realized_delta = 0 then (a2, w2)
         else
           let (a3, w3) = apply_cash_delta env a2 realized_delta (if realized_delta > 0 then Credit else Debit)
                            oid ''paper_realized_pnl'' w2
           in on_db (upsert_account (a3\<lparr>pa_realized := pa_realized a3 + realized_delta,
                pa_updated_at := pe_now env\<rparr>)) w3)"

text \<open>Completing the order, the trade, the lots and the position; the events in order.\<close>

definition book_fill ::
  "paper_env \<Rightarrow> paper_order \<Rightarrow> dec \<Rightarrow> paper_position \<Rightarrow> dec \<Rightarrow> world \<Rightarrow> order_result outcome_of" where
  "book_fill env r price new_position new_margin w =
     bind_ok (on_db (update_order (r\<lparr>po_status := FilledStatus, po_filled := po_quantity r, po_pending := 0,
                po_average := Some price, po_updated_at := pe_now env, po_completed_at := Some (pe_now env)\<rparr>)) w)
       (\<lambda>completed w1.
          let (tid, w2) = new_id ''PTRD-'' env w1 in
          bind_ok (on_db (insert_trade
              \<lparr>pt_scope = po_scope r, pt_id = tid, pt_order_id = po_id r, pt_token = po_token r,
               pt_side = po_side r, pt_quantity = po_quantity r, pt_price = price, pt_timestamp = pe_now env,
               pt_metadata = dict_update (po_metadata r)
                 [(''exchange'', JStr (po_exchange r)), (''tradingsymbol'', JStr (po_symbol r)),
                  (''product'', JStr (po_product r))]\<rparr>) w2)
            (\<lambda>tr w3.
               let w4 = record_lots env r tr price w3;
                   (pos, w5) = on_db (upsert_position (new_position\<lparr>pp_metadata :=
                     position_fill_metadata (pp_metadata new_position) (po_metadata r) new_margin price\<rparr>)) w4
               in (Inr (ResFilled completed tr pos),
                   publish_event (PositionEvent ''updated'' pos)
                     (publish_event (TradeEvent ''filled'' tr)
                       (publish_event (OrderEvent ''filled'' completed) w5)))))"

definition fill_shortfall :: string where
  "fill_shortfall = ''Insufficient funds for fill-time margin adjustment''"

definition fill_order ::
  "paper_env \<Rightarrow> paper_order \<Rightarrow> paper_account \<Rightarrow> order_request \<Rightarrow> instrument \<Rightarrow> dec \<Rightarrow> paper_position option
   \<Rightarrow> world \<Rightarrow> order_result outcome_of" where
  "fill_order env r a rq ins price existing w =
     (let reserved = md_dec (po_metadata r) ''reserved_margin'';
          old_margin = position_margin_in_use existing (in_type ins) price;
          new_position = (apply_fill_to_position (po_scope r) existing rq price ins (pe_now env))
                           \<lparr>pp_scope := po_scope r\<rparr>;
          new_margin = position_margin (Some new_position) (in_type ins) price;
          adjustment = new_margin - (old_margin + reserved);
          charges = md_dec (po_metadata r) ''estimated_charges''
      in if pa_available a - adjustment - charges < 0 then
           bind_ok (on_db (update_order (r\<lparr>po_status := RejectedStatus, po_updated_at := pe_now env,
                      po_metadata := dict_set ''rejection_reason'' (JStr fill_shortfall) (po_metadata r)\<rparr>)) w)
             (\<lambda>rejected w1.
                let (a1, w2) = apply_account_delta env a (- reserved) (po_id rejected) w1
                in (Inr (ResRejected fill_shortfall rejected),
                    publish_event (OrderEvent ''rejected'' rejected) w2))
         else
           let realized_delta = pp_realized new_position - (case existing of None \<Rightarrow> 0 | Some p \<Rightarrow> pp_realized p);
               (a1, w1) = book_funds env a (po_id r) adjustment charges realized_delta w
           in book_fill env r price new_position new_margin w1)"

section \<open>Placing an order\<close>

definition contract_json :: "cost_contract \<Rightarrow> jval" where
  "contract_json c = JObj
     [(''margin_required'', JNum (cc_margin_required c)), (''charges_estimate'', JNum (cc_charges_estimate c)),
      (''brokerage'', JNum (cc_brokerage c)), (''exchange_txn_charge'', JNum (cc_exchange_txn c)),
      (''stt'', JNum (cc_stt c)), (''stamp_duty'', JNum (cc_stamp_duty c)), (''sebi_charge'', JNum (cc_sebi c)),
      (''gst'', JNum (cc_gst c)), (''total_taxes'', JNum (cc_total_taxes c)),
      (''total_charges'', JNum (cc_total_charges c)),
      (''net_cash_impact_estimate'', JNum (cc_net_cash_impact c))]"

definition order_metadata :: "jobj \<Rightarrow> dec \<Rightarrow> cost_contract \<Rightarrow> instrument \<Rightarrow> int \<Rightarrow> jobj" where
  "order_metadata attribution reserved contract ins lot_size =
     dict_update attribution
       [(''reserved_margin'', JNum reserved), (''estimated_charges'', JNum (cc_total_charges contract)),
        (''cost_contract'', contract_json contract), (''instrument_type'', JStr (str_or (in_type ins) [])),
        (''lot_size'', JInt lot_size)]"

definition lot_size_of :: "instrument \<Rightarrow> int" where
  "lot_size_of ins = (case in_lot_size ins of None \<Rightarrow> 1 | Some n \<Rightarrow> if n = 0 then 1 else n)"

text \<open>
  The checks of an order, in the code's order: \<open>Inl\<close> the rejection reason,
  \<open>Inr\<close> the reference price, the margin to reserve and the cost contract.
\<close>

definition admit_order ::
  "string \<Rightarrow> paper_account \<Rightarrow> order_request \<Rightarrow> instrument \<Rightarrow> snapshot \<Rightarrow> paper_position option \<Rightarrow> instant
   \<Rightarrow> string + dec \<times> dec \<times> cost_contract" where
  "admit_order scope a rq ins sn existing now =
     (let ref = reference_price rq ins sn; lot_size = lot_size_of ins in
      if ref \<le> 0 then Inl ''No reference price available for paper execution''
      else if lot_size > 1 \<and> rq_quantity rq mod lot_size \<noteq> 0
        then Inl (''Quantity must be a multiple of lot size '' @ int_str lot_size)
      else
        let old_margin = position_margin existing (in_type ins) ref;
            hypothetical = apply_fill_to_position scope existing rq ref ins now;
            new_margin = position_margin (Some hypothetical) (in_type ins) ref;
            incremental = max (new_margin - old_margin) 0;
            contract = estimate_contract ref (rq_quantity rq) (in_type ins) (Some (rq_exchange rq))
        in if pa_available a < incremental + cc_total_charges contract
           then Inl ''Insufficient paper funds or margin''
           else Inr (ref, incremental, contract))"

text \<open>Storing the order, reserving its margin and latching a stop trigger.\<close>

definition accept_order ::
  "paper_env \<Rightarrow> string \<Rightarrow> paper_account \<Rightarrow> order_request \<Rightarrow> instrument \<Rightarrow> snapshot \<Rightarrow> jobj \<Rightarrow> dec \<Rightarrow> cost_contract
   \<Rightarrow> world \<Rightarrow> (paper_order \<times> paper_account) outcome_of" where
  "accept_order env scope a rq ins sn attribution incremental contract w =
     bind_ok (make_order env scope (in_token ins) rq (rq_price rq) (rq_trigger rq) Pending
                (order_metadata attribution incremental contract ins (lot_size_of ins)) w)
       (\<lambda>r w1. bind_ok (on_db (insert_order r) w1)
         (\<lambda>row w2.
            let (a1, w3) = apply_account_delta env a incremental (po_id row) w2;
                w4 = publish_event (OrderEvent ''accepted'' row) w3
            in bind_ok (persist_stop_limit_trigger_state env row rq sn w4)
                 (\<lambda>row' w5. (Inr (row', a1), w5))))"

definition open_order :: "paper_env \<Rightarrow> paper_order \<Rightarrow> world \<Rightarrow> paper_order outcome_of" where
  "open_order env r w =
     bind_ok (on_db (update_order (r\<lparr>po_status := Open, po_updated_at := pe_now env\<rparr>)) w)
       (\<lambda>row w1. (Inr row, publish_event (OrderEvent ''open'' row) w1))"

definition place_order_locked :: "paper_env \<Rightarrow> string \<Rightarrow> jobj \<Rightarrow> jobj \<Rightarrow> world \<Rightarrow> order_result outcome_of" where
  "place_order_locked env scope payload attribution0 w =
     (let attribution = merged_attribution attribution0 (payload_metadata payload) in
      case normalize_order_request payload of
        Inl e \<Rightarrow> (Inl e, w)
      | Inr rq \<Rightarrow>
          bind_ok (ensure_account env scope w) (\<lambda>a w1.
            case pe_instrument env (rq_exchange rq) (rq_symbol rq) of
              None \<Rightarrow> reject_order env scope rq attribution
                        (''Instrument not found for '' @ rq_exchange rq @ '':'' @ rq_symbol rq) w1
            | Some ins \<Rightarrow>
                let existing = get_position scope (in_token ins) (rq_product rq) (w_db w1);
                    sn = pe_snapshot env (in_token ins)
                in case admit_order scope a rq ins sn existing (pe_now env) of
                     Inl reason \<Rightarrow> reject_order env scope rq attribution reason w1
                   | Inr (ref, incremental, contract) \<Rightarrow>
                       bind_ok (accept_order env scope a rq ins sn attribution incremental contract w1)
                         (\<lambda>(r, a1) w2.
                            if should_fill_immediately rq sn
                            then fill_order env r a1 rq ins (fill_price r sn ref) existing w2
                            else bind_ok (open_order env r w2) (\<lambda>row w3. (Inr (ResAccepted row), w3)))))"

section \<open>The unit-of-work copies\<close>

text \<open>
  The order path of an atomic basket is a second body of code that works on the session of a unit
  of work: each step of the plain path has a copy. Events are staged in order; a rejection is only
  built, since the caller rolls the session back, and the account is returned for the next order.
\<close>

definition apply_account_delta_uow ::
  "paper_env \<Rightarrow> paper_account \<Rightarrow> dec \<Rightarrow> string \<Rightarrow> world \<Rightarrow> paper_account \<times> world" where
  "apply_account_delta_uow env account reserve_delta reserve_entry w =
     (if reserve_delta = 0 then (account, w)
      else
        let (new_account, w1) = on_db (upsert_account (account\<lparr>pa_available := pa_available account - reserve_delta,
                                  pa_blocked := pa_blocked account + reserve_delta, pa_updated_at := pe_now env\<rparr>)) w;
            (entry, w2) = on_db (append_fund_ledger_entry
              \<lparr>le_scope = pa_scope account, le_type = (if reserve_delta > 0 then Reserve else Release), le_amount = \<bar>reserve_delta\<bar>,
               le_balance_after = Some (pa_available new_account), le_reference_id = reserve_entry,
               le_notes = ''paper_margin_adjustment'', le_created_at = pe_now env\<rparr>) w1
        in (new_account, w2))"

definition apply_cash_delta_uow ::
  "paper_env \<Rightarrow> paper_account \<Rightarrow> dec \<Rightarrow> fund_ledger_entry_type \<Rightarrow> string \<Rightarrow> string \<Rightarrow> world \<Rightarrow> paper_account \<times> world" where
  "apply_cash_delta_uow env account delta entry_type reference_id notes w =
     (if delta = 0 then (account, w)
      else
        let (new_account, w1) = on_db (upsert_account (account\<lparr>pa_available := pa_available account + delta, pa_updated_at := pe_now env\<rparr>)) w;
            (entry, w2) = on_db (append_fund_ledger_entry
              \<lparr>le_scope = pa_scope account, le_type = entry_type, le_amount = \<bar>delta\<bar>, le_balance_after = Some (pa_available new_account),
               le_reference_id = reference_id, le_notes = notes, le_created_at = pe_now env\<rparr>) w1
        in (new_account, w2))"

fun consume_lots_uow :: "instant \<Rightarrow> paper_lot list \<Rightarrow> int \<Rightarrow> paper_store \<Rightarrow> paper_store" where
  "consume_lots_uow now [] remaining db = db"
| "consume_lots_uow now (lot # lots) remaining db =
     (if remaining \<le> 0 then db
      else if pl_remaining lot \<le> 0 then consume_lots_uow now lots remaining db
      else
        let consumed = min (pl_remaining lot) remaining;
            updated = lot\<lparr>pl_remaining := pl_remaining lot - consumed,
              pl_closed_at := (if pl_remaining lot - consumed = 0 then Some now else pl_closed_at lot)\<rparr>
        in consume_lots_uow now lots (remaining - consumed) (snd (upsert_position_lot updated db)))"

definition consume_position_lots_uow ::
  "paper_env \<Rightarrow> string \<Rightarrow> int \<Rightarrow> string \<Rightarrow> int \<Rightarrow> string option \<Rightarrow> bool \<Rightarrow> world \<Rightarrow> world" where
  "consume_position_lots_uow env scope token product quantity preferred strict w =
     (if max 0 quantity \<le> 0 then w
      else w\<lparr>w_db := consume_lots_uow (pe_now env)
             (ordered_lots_for_consumption (list_open_position_lots scope (Some token) (Some product) (w_db w)) preferred strict)
             (max 0 quantity) (w_db w)\<rparr>)"

definition persist_stop_limit_trigger_state_uow ::
  "paper_env \<Rightarrow> paper_order \<Rightarrow> order_request \<Rightarrow> snapshot \<Rightarrow> world \<Rightarrow> paper_order outcome_of" where
  "persist_stop_limit_trigger_state_uow env order rq sn w =
     (if po_type order \<noteq> Sl then (Inr order, w)
      else if stop_triggered order then (Inr order, w)
      else if \<not> stop_limit_trigger_reached rq sn then (Inr order, w)
      else on_db (update_order (order\<lparr>po_updated_at := pe_now env,
             po_metadata := dict_update (po_metadata order)
               [(''stop_triggered'', JBool True), (''stop_triggered_at'', JTime (pe_now env))]\<rparr>)) w)"

definition record_lots_uow :: "paper_env \<Rightarrow> paper_order \<Rightarrow> paper_trade \<Rightarrow> dec \<Rightarrow> world \<Rightarrow> world" where
  "record_lots_uow env order trade price w =
     (if po_side order = Buy
      then
        let (lid, w1) = new_id ''PLOT-'' env w
        in snd (on_db (upsert_position_lot
             \<lparr>pl_scope = po_scope order, pl_id = lid, pl_token = po_token order, pl_product = po_product order,
              pl_trade_id = pt_id trade, pl_order_id = po_id order, pl_open = po_quantity order,
              pl_remaining = po_quantity order, pl_entry_price = price, pl_opened_at = pt_timestamp trade,
              pl_closed_at = None, pl_metadata = po_metadata order\<rparr>) w1)
      else consume_position_lots_uow env (po_scope order) (po_token order) (po_product order) (po_quantity order)
             (exit_for order) (exit_for order \<noteq> None) w)"

definition book_funds_uow ::
  "paper_env \<Rightarrow> paper_account \<Rightarrow> string \<Rightarrow> dec \<Rightarrow> dec \<Rightarrow> dec \<Rightarrow> world \<Rightarrow> paper_account \<times> world" where
  "book_funds_uow env account oid margin_adjustment charges realized_delta w =
     (let (a1, w1) = (if margin_adjustment \<noteq> 0 then apply_account_delta_uow env account margin_adjustment oid w else (account, w));
          (a2, w2) = apply_cash_delta_uow env a1 (- charges) Debit oid ''paper_trade_charges'' w1
      in if realized_delta \<noteq> 0
         then
           let (a3, w3) = apply_cash_delta_uow env a2 realized_delta (if realized_delta > 0 then Credit else Debit)
                            oid ''paper_realized_pnl'' w2
           in on_db (upsert_account (a3\<lparr>pa_realized := pa_realized a3 + realized_delta, pa_updated_at := pe_now env\<rparr>)) w3
         else (a2, w2))"

definition book_fill_uow ::
  "paper_env \<Rightarrow> paper_order \<Rightarrow> dec \<Rightarrow> paper_position \<Rightarrow> dec \<Rightarrow> world \<Rightarrow> order_result outcome_of" where
  "book_fill_uow env order price new_position new_margin w =
     bind_ok (on_db (update_order (order\<lparr>po_status := FilledStatus, po_filled := po_quantity order, po_pending := 0,
                po_average := Some price, po_updated_at := pe_now env, po_completed_at := Some (pe_now env)\<rparr>)) w)
       (\<lambda>completed w1.
          let (tid, w2) = new_id ''PTRD-'' env w1;
              trade = \<lparr>pt_scope = po_scope order, pt_id = tid, pt_order_id = po_id order, pt_token = po_token order,
                pt_side = po_side order, pt_quantity = po_quantity order, pt_price = price, pt_timestamp = pe_now env,
                pt_metadata = dict_update (po_metadata order)
                  [(''exchange'', JStr (po_exchange order)), (''tradingsymbol'', JStr (po_symbol order)),
                   (''product'', JStr (po_product order))]\<rparr>
          in bind_ok (on_db (insert_trade trade) w2)
               (\<lambda>tr w3.
                  let w4 = record_lots_uow env order tr price w3;
                      filled = new_position\<lparr>pp_metadata := position_fill_metadata (pp_metadata new_position) (po_metadata order) new_margin price\<rparr>;
                      (pos, w5) = on_db (upsert_position filled) w4;
                      w6 = publish_event (OrderEvent ''filled'' completed) w5;
                      w7 = publish_event (TradeEvent ''filled'' tr) w6
                  in (Inr (ResFilled completed tr pos), publish_event (PositionEvent ''updated'' pos) w7)))"

definition fill_order_uow ::
  "paper_env \<Rightarrow> paper_order \<Rightarrow> paper_account \<Rightarrow> order_request \<Rightarrow> instrument \<Rightarrow> dec \<Rightarrow> paper_position option
   \<Rightarrow> world \<Rightarrow> (order_result \<times> paper_account) outcome_of" where
  "fill_order_uow env r a rq ins price existing w =
     (let reserved = md_dec (po_metadata r) ''reserved_margin'';
          old_margin = position_margin_in_use existing (in_type ins) price;
          new_position = (apply_fill_to_position (po_scope r) existing rq price ins (pe_now env))
                           \<lparr>pp_scope := po_scope r\<rparr>;
          new_margin = position_margin (Some new_position) (in_type ins) price;
          adjustment = new_margin - (old_margin + reserved);
          charges = md_dec (po_metadata r) ''estimated_charges''
      in if pa_available a - adjustment - charges < 0 then
           bind_ok (build_rejected_result env (po_scope r) rq (po_metadata r) fill_shortfall w)
             (\<lambda>res w1. (Inr (res, a), w1))
         else
           let realized_delta = pp_realized new_position - (case existing of None \<Rightarrow> 0 | Some p \<Rightarrow> pp_realized p);
               (a1, w1) = book_funds_uow env a (po_id r) adjustment charges realized_delta w
           in bind_ok (book_fill_uow env r price new_position new_margin w1) (\<lambda>res w2. (Inr (res, a1), w2)))"

definition admit_order_uow ::
  "string \<Rightarrow> paper_account \<Rightarrow> order_request \<Rightarrow> instrument \<Rightarrow> snapshot \<Rightarrow> paper_position option \<Rightarrow> instant
   \<Rightarrow> string + dec \<times> dec \<times> cost_contract" where
  "admit_order_uow scope account rq ins sn existing now =
     (let price = reference_price rq ins sn in
      if price \<le> 0 then Inl ''No reference price available for paper execution''
      else if 1 < lot_size_of ins \<and> rq_quantity rq mod lot_size_of ins \<noteq> 0
        then Inl (''Quantity must be a multiple of lot size '' @ int_str (lot_size_of ins))
      else
        let incremental = max (position_margin (Some (apply_fill_to_position scope existing rq price ins now)) (in_type ins) price
                                 - position_margin existing (in_type ins) price) 0;
            contract = estimate_contract price (rq_quantity rq) (in_type ins) (Some (rq_exchange rq));
            required_cash = incremental + cc_total_charges contract
        in if pa_available account < required_cash then Inl ''Insufficient paper funds or margin''
           else Inr (price, incremental, contract))"

definition accept_order_uow ::
  "paper_env \<Rightarrow> string \<Rightarrow> paper_account \<Rightarrow> order_request \<Rightarrow> instrument \<Rightarrow> snapshot \<Rightarrow> jobj \<Rightarrow> dec \<Rightarrow> cost_contract
   \<Rightarrow> world \<Rightarrow> (paper_order \<times> paper_account) outcome_of" where
  "accept_order_uow env scope account rq ins sn attribution incremental contract w =
     bind_ok (make_order env scope (in_token ins) rq (rq_price rq) (rq_trigger rq) Pending
                (order_metadata attribution incremental contract ins (lot_size_of ins)) w)
       (\<lambda>order w1. bind_ok (on_db (insert_order order) w1)
         (\<lambda>stored w2.
            let (a1, w3) = apply_account_delta_uow env account incremental (po_id stored) w2
            in bind_ok (persist_stop_limit_trigger_state_uow env stored rq sn (publish_event (OrderEvent ''accepted'' stored) w3))
                 (\<lambda>latched w4. (Inr (latched, a1), w4))))"

definition open_order_uow :: "paper_env \<Rightarrow> paper_order \<Rightarrow> world \<Rightarrow> paper_order outcome_of" where
  "open_order_uow env order w =
     bind_ok (on_db (update_order (order\<lparr>po_status := Open, po_updated_at := pe_now env\<rparr>)) w)
       (\<lambda>pending w1. (Inr pending, publish_event (OrderEvent ''open'' pending) w1))"

definition place_order_locked_uow ::
  "paper_env \<Rightarrow> string \<Rightarrow> paper_account \<Rightarrow> order_request \<Rightarrow> instrument \<Rightarrow> snapshot \<Rightarrow> jobj
   \<Rightarrow> world \<Rightarrow> (order_result \<times> paper_account) outcome_of" where
  "place_order_locked_uow env scope a rq ins sn attribution w =
     (let existing = get_position scope (in_token ins) (rq_product rq) (w_db w) in
      case admit_order_uow scope a rq ins sn existing (pe_now env) of
        Inl reason \<Rightarrow>
          bind_ok (build_rejected_result env scope rq attribution reason w) (\<lambda>res w1. (Inr (res, a), w1))
      | Inr (ref, incremental, contract) \<Rightarrow>
          bind_ok (accept_order_uow env scope a rq ins sn attribution incremental contract w)
            (\<lambda>(r, a1) w1.
               if \<not> should_fill_immediately rq sn
               then bind_ok (open_order_uow env r w1) (\<lambda>row w2. (Inr (ResAccepted row, a1), w2))
               else fill_order_uow env r a1 rq ins (fill_price r sn ref) existing w1))"

text \<open>Each copy has the effect of the step it copies.\<close>

lemma delta_copies:
  "apply_account_delta_uow env a d ref w = apply_account_delta env a d ref w"
  "apply_cash_delta_uow env a d ty ref notes w = apply_cash_delta env a d ty ref notes w"
  by (simp_all add: apply_account_delta_uow_def apply_account_delta_def apply_cash_delta_uow_def apply_cash_delta_def ledger_entry_def Let_def)

lemma lots_copies:
  "consume_lots_uow now lots remaining db = consume_lots now lots remaining db"
  "consume_position_lots_uow env scope token product q preferred strict w = consume_position_lots env scope token product q preferred strict w"
  "record_lots_uow env r tr price w = record_lots env r tr price w"
proof -
  show lots: "consume_lots_uow now lots remaining db = consume_lots now lots remaining db" for now lots remaining db
    by (induction now lots remaining db rule: consume_lots_uow.induct) (simp_all add: Let_def)
  show pos: "consume_position_lots_uow env scope token product q preferred strict w = consume_position_lots env scope token product q preferred strict w"
    for scope token product q preferred strict
    by (simp add: consume_position_lots_uow_def consume_position_lots_def lots Let_def)
  show "record_lots_uow env r tr price w = record_lots env r tr price w"
    by (cases "po_side r") (simp_all add: record_lots_uow_def record_lots_def pos)
qed

lemma book_funds_copy: "book_funds_uow env a oid adj charges rd w = book_funds env a oid adj charges rd w"
  by (cases "adj = 0"; cases "rd = 0")
    (simp_all add: book_funds_uow_def book_funds_def delta_copies apply_account_delta_def [of env a 0] Let_def split_def del: if_split)

lemma book_fill_copy: "book_fill_uow env r price np m w = book_fill env r price np m w"
  by (simp add: book_fill_uow_def book_fill_def lots_copies Let_def split_def)

lemma order_copies:
  "admit_order_uow scope a rq ins sn existing now = admit_order scope a rq ins sn existing now"
  "persist_stop_limit_trigger_state_uow env r rq sn w = persist_stop_limit_trigger_state env r rq sn w"
  "open_order_uow env r w = open_order env r w"
  by (simp_all add: admit_order_uow_def admit_order_def persist_stop_limit_trigger_state_uow_def persist_stop_limit_trigger_state_def
      open_order_uow_def open_order_def Let_def)

lemma accept_order_copy:
  "accept_order_uow env scope a rq ins sn att incremental contract w = accept_order env scope a rq ins sn att incremental contract w"
  by (simp add: accept_order_uow_def accept_order_def delta_copies order_copies Let_def)

lemmas uow_copies = delta_copies lots_copies book_funds_copy book_fill_copy order_copies accept_order_copy
lemmas fill_order_uow_eq = fill_order_uow_def [unfolded uow_copies]
lemmas place_order_locked_uow_eq = place_order_locked_uow_def [unfolded uow_copies]

section \<open>Baskets\<close>

record basket_result =
  br_status :: string
  br_results :: "order_result list"
  br_errors :: "order_result list"

definition basket_orders :: "jobj \<Rightarrow> jobj list" where
  "basket_orders payload =
     (case obj_get payload ''orders'' of
        JList xs \<Rightarrow> map (\<lambda>v. case jdict v of None \<Rightarrow> [] | Some d \<Rightarrow> d) xs
      | _ \<Rightarrow> [])"

fun place_each :: "paper_env \<Rightarrow> string \<Rightarrow> jobj \<Rightarrow> jobj list \<Rightarrow> world \<Rightarrow> order_result list outcome_of" where
  "place_each env scope attribution [] w = (Inr [], w)"
| "place_each env scope attribution (raw # raws) w =
     bind_ok (place_order_locked env scope raw (merged_attribution attribution (payload_metadata raw)) w)
       (\<lambda>r w1. bind_ok (place_each env scope attribution raws w1) (\<lambda>rs w2. (Inr (r # rs), w2)))"

type_synonym prepared_order = "order_request \<times> instrument \<times> snapshot \<times> jobj"

text \<open>
  The preparation loop: a malformed order raises, an unknown instrument ends the basket with
  the rejection that is reported.
\<close>

fun prepare_orders ::
  "paper_env \<Rightarrow> string \<Rightarrow> jobj \<Rightarrow> jobj list \<Rightarrow> world \<Rightarrow> (order_result + prepared_order list) outcome_of" where
  "prepare_orders env scope attribution [] w = (Inr (Inr []), w)"
| "prepare_orders env scope attribution (raw # raws) w =
     (case normalize_order_request raw of
        Inl e \<Rightarrow> (Inl e, w)
      | Inr rq \<Rightarrow>
          (case pe_instrument env (rq_exchange rq) (rq_symbol rq) of
             None \<Rightarrow>
               bind_ok (build_rejected_result env scope rq attribution
                          (''Instrument not found for '' @ rq_exchange rq @ '':'' @ rq_symbol rq) w)
                 (\<lambda>res w1. (Inr (Inl res), w1))
           | Some ins \<Rightarrow>
               bind_ok (prepare_orders env scope attribution raws w)
                 (\<lambda>rest w1. case rest of
                    Inl res \<Rightarrow> (Inr (Inl res), w1)
                  | Inr ps \<Rightarrow> (Inr (Inr ((rq, ins, pe_snapshot env (in_token ins),
                      merged_attribution attribution (payload_metadata raw)) # ps)), w1))))"

text \<open>The orders of the basket inside the unit of work: \<open>Inl\<close> the first rejection.\<close>

fun run_prepared ::
  "paper_env \<Rightarrow> string \<Rightarrow> prepared_order list \<Rightarrow> paper_account \<Rightarrow> world \<Rightarrow> (order_result + order_result list) outcome_of" where
  "run_prepared env scope [] a w = (Inr (Inr []), w)"
| "run_prepared env scope ((rq, ins, sn, attribution) # ps) a w =
     bind_ok (place_order_locked_uow env scope a rq ins sn attribution w)
       (\<lambda>(res, a1) w1.
          if rejected_result res then (Inr (Inl res), w1)
          else bind_ok (run_prepared env scope ps a1 w1)
                 (\<lambda>rest w2. case rest of
                    Inl bad \<Rightarrow> (Inr (Inl bad), w2)
                  | Inr rs \<Rightarrow> (Inr (Inr (res # rs)), w2)))"

definition failed_basket :: "order_result \<Rightarrow> basket_result" where
  "failed_basket res = \<lparr>br_status = ''failed'', br_results = [], br_errors = [res]\<rparr>"

text \<open>
  The atomic basket: the unit of work stages its events; a rejection or an exception rolls
  the database back and publishes nothing, success commits and publishes them in order.
\<close>

definition place_basket_all_or_none_atomic ::
  "paper_env \<Rightarrow> string \<Rightarrow> jobj list \<Rightarrow> jobj \<Rightarrow> world \<Rightarrow> basket_result outcome_of" where
  "place_basket_all_or_none_atomic env scope orders attribution w =
     bind_ok (prepare_orders env scope attribution orders w)
       (\<lambda>prep w1. case prep of
          Inl res \<Rightarrow> (Inr (failed_basket res), w1)
        | Inr ps \<Rightarrow>
            let staged = w1\<lparr>w_events := []\<rparr>;
                rollback = (\<lambda>w2. w2\<lparr>w_db := w_db w1, w_events := w_events w1\<rparr>)
            in case bind_ok (ensure_account env scope staged)
                      (\<lambda>a w2. run_prepared env scope ps a w2) of
                 (Inl e, w2) \<Rightarrow> (Inl e, rollback w2)
               | (Inr (Inl bad), w2) \<Rightarrow> (Inr (failed_basket bad), rollback w2)
               | (Inr (Inr rs), w2) \<Rightarrow>
                   (Inr \<lparr>br_status = ''success'', br_results = rs, br_errors = []\<rparr>,
                    w2\<lparr>w_events := w_events w1 @ w_events w2\<rparr>))"

definition place_basket_locked :: "paper_env \<Rightarrow> string \<Rightarrow> jobj \<Rightarrow> jobj \<Rightarrow> world \<Rightarrow> basket_result outcome_of" where
  "place_basket_locked env scope payload attribution0 w =
     (let orders = basket_orders payload;
          attribution = merged_attribution attribution0 (payload_metadata payload)
      in if jtruth (obj_get payload ''all_or_none'')
         then place_basket_all_or_none_atomic env scope orders attribution w
         else
           bind_ok (place_each env scope attribution orders w)
             (\<lambda>results w1.
                let failures = filter rejected_result results
                in (Inr \<lparr>br_status = (if failures = [] then ''success''
                           else if length failures = length results then ''failed'' else ''partial''),
                         br_results = results, br_errors = failures\<rparr>, w1)))"

section \<open>Ticks\<close>

record paper_tick =
  tk_token :: int
  tk_snapshot :: snapshot

definition tick_order :: "paper_env \<Rightarrow> paper_tick \<Rightarrow> paper_order \<Rightarrow> world \<Rightarrow> unit outcome_of" where
  "tick_order env tick r0 w =
     (let sn = tk_snapshot tick; rq = request_from_paper_order r0 in
      bind_ok (persist_stop_limit_trigger_state env r0 rq sn w)
        (\<lambda>r w1.
           if \<not> order_should_trigger (Some r) rq sn then (Inr (), w1)
           else
             bind_ok (ensure_account env (po_scope r) w1) (\<lambda>a w2.
               case pe_instrument env (po_exchange r) (po_symbol r) of
                 None \<Rightarrow> (Inr (), w2)
               | Some ins \<Rightarrow>
                   bind_ok (fill_order env r a rq ins (fill_price r sn (nz (sn_last sn)))
                              (get_position (po_scope r) (po_token r) (po_product r) (w_db w2)) w2)
                     (\<lambda>res w3. (Inr (), w3)))))"

definition mark_to_market :: "paper_env \<Rightarrow> paper_tick \<Rightarrow> paper_position \<Rightarrow> world \<Rightarrow> world" where
  "mark_to_market env tick p w =
     (let last = nz (sn_last (tk_snapshot tick)) in
      if last \<le> 0 then w
      else
        let unrealized = (if pp_net p > 0 then (last - pp_average p) * of_int (pp_net p)
                          else if pp_net p < 0 then (pp_average p - last) * of_int \<bar>pp_net p\<bar> else 0);
            (row, w1) = on_db (upsert_position (p\<lparr>pp_unrealized := unrealized, pp_updated_at := pe_now env,
                          pp_metadata := dict_set ''last_price'' (JNum last) (pp_metadata p)\<rparr>)) w
        in publish_event (PositionEvent ''mark_to_market'' row) w1)"

fun tick_orders :: "paper_env \<Rightarrow> paper_tick \<Rightarrow> paper_order list \<Rightarrow> world \<Rightarrow> unit outcome_of" where
  "tick_orders env tick [] w = (Inr (), w)"
| "tick_orders env tick (r # rs) w =
     bind_ok (tick_order env tick r w) (\<lambda>_ w1. tick_orders env tick rs w1)"

definition process_tick :: "paper_env \<Rightarrow> paper_tick \<Rightarrow> world \<Rightarrow> unit outcome_of" where
  "process_tick env tick w =
     (if tk_token tick \<le> 0 then (Inr (), w)
      else
        bind_ok (tick_orders env tick (list_pending_orders_for_instrument (tk_token tick) (w_db w)) w)
          (\<lambda>_ w1. (Inr (), fold (mark_to_market env tick)
                            (list_open_positions_for_instrument (tk_token tick) (w_db w1)) w1)))"

section \<open>Resets\<close>

definition reset_account :: "paper_env \<Rightarrow> string \<Rightarrow> dec option \<Rightarrow> world \<Rightarrow> paper_account outcome_of" where
  "reset_account env scope balance w =
     (let w1 = w\<lparr>w_db := clear_account_scope scope (w_db w)\<rparr> in
      case validate_scope scope of
        Inl e \<Rightarrow> (Inl e, w1)
      | Inr s \<Rightarrow>
          let (a, w2) = on_db (upsert_account (fresh_account s
                (case balance of None \<Rightarrow> pe_default_balance env | Some b \<Rightarrow> b) (pe_now env))) w1
          in (Inr a, w2))"

end
