(* ===== verification/PaperRuns.thy ===== *)
theory PaperRuns
  imports PaperService Reconciliation
begin

text \<open>
  Strategy runs on a paper account: \<open>paper_runtime/run_state.py\<close>, which replays the trades of
  a run into legs, and the parts of \<open>paper_runtime/service.py\<close> that group positions by
  strategy, close a strategy and report the settlement of a run to the reconciliation
  collector of \<open>Reconciliation\<close>.

  A float is an exact rational, an ISO timestamp the instant it denotes (printed, where text
  is needed, as its microsecond count), and a missing timestamp does not occur: every row
  has one. The timeline labels are left out.
\<close>

section \<open>Reading metadata\<close>

definition to_float :: "jval \<Rightarrow> flt" where
  "to_float v = (case v of JBool b \<Rightarrow> (if b then 1 else 0) | _ \<Rightarrow> (case jnum v of None \<Rightarrow> 0 | Some x \<Rightarrow> x))"

definition charges_from_metadata :: "jobj \<Rightarrow> flt" where
  "charges_from_metadata md =
     (case jdict (obj_get md ''cost_contract'') of
        Some c \<Rightarrow> if c \<noteq> [] then to_float (obj_get c ''total_charges'') else to_float (obj_get md ''estimated_charges'')
      | None \<Rightarrow> to_float (obj_get md ''estimated_charges''))"

definition side_for_quantity :: "int \<Rightarrow> string" where
  "side_for_quantity q = (if q > 0 then ''LONG'' else if q < 0 then ''SHORT'' else ''FLAT'')"

text \<open>\<open>str(metadata.get(k) or "") or None\<close> of a textual entry.\<close>

definition md_opt :: "jobj \<Rightarrow> string \<Rightarrow> string option" where
  "md_opt md k = (case jstr (obj_get md k) of Some s \<Rightarrow> if s = [] then None else Some s | None \<Rightarrow> None)"

definition is_letter :: "char \<Rightarrow> bool" where
  "is_letter c = (let n = (of_char c :: nat) in (65 \<le> n \<and> n \<le> 90) \<or> (97 \<le> n \<and> n \<le> 122))"

fun title_from :: "bool \<Rightarrow> string \<Rightarrow> string" where
  "title_from cased [] = []"
| "title_from cased (c # cs) = (if cased then char_lower c else char_upper c) # title_from (is_letter c) cs"

text \<open>\<open>tag.replace("_", " ").title()\<close>.\<close>

definition tag_title :: "string \<Rightarrow> string" where
  "tag_title tag = title_from False (map (\<lambda>c. if c = CHR ''_'' then CHR '' '' else c) tag)"

definition present_entries :: "jobj \<Rightarrow> jobj" where
  "present_entries md = filter (\<lambda>(k, v). jpresent v) md"

section \<open>Legs\<close>

record leg_state =
  lg_token :: int
  lg_product :: string
  lg_exchange :: "string option"
  lg_symbol :: "string option"
  lg_net :: int
  lg_average :: flt
  lg_realized :: flt
  lg_charges :: flt
  lg_last_fill :: "instant option"

definition new_leg :: "int \<Rightarrow> string \<Rightarrow> string option \<Rightarrow> string option \<Rightarrow> leg_state" where
  "new_leg token product exchange symbol =
     \<lparr>lg_token = token, lg_product = product, lg_exchange = exchange, lg_symbol = symbol, lg_net = 0,
      lg_average = 0, lg_realized = 0, lg_charges = 0, lg_last_fill = None\<rparr>"

definition fill_leg :: "paper_trade \<Rightarrow> leg_state \<Rightarrow> leg_state" where
  "fill_leg t s =
     (let q = pt_quantity t; price = pt_price t; buy = (pt_side t = Buy);
          net = lg_net s; avg = lg_average s;
          s1 = s\<lparr>lg_charges := lg_charges s + charges_from_metadata (pt_metadata t)\<rparr>;
          s2 = (if net = 0 \<or> (net > 0 \<and> buy) \<or> (net < 0 \<and> \<not> buy)
                then s1\<lparr>lg_average := (if \<bar>net\<bar> + q = 0 then price
                                       else (avg * of_int \<bar>net\<bar> + price * of_int q) / of_int (\<bar>net\<bar> + q)),
                        lg_net := net + (if buy then q else - q)\<rparr>
                else
                  let closing = min \<bar>net\<bar> q;
                      realized = (if net > 0 \<and> \<not> buy then lg_realized s + (price - avg) * of_int closing
                                  else if net < 0 \<and> buy then lg_realized s + (avg - price) * of_int closing
                                  else lg_realized s);
                      s3 = s1\<lparr>lg_realized := realized\<rparr>;
                      left = \<bar>net\<bar> - closing; incoming = q - closing
                  in if left > 0 then s3\<lparr>lg_net := (if net > 0 then left else - left)\<rparr>
                     else if incoming > 0 then s3\<lparr>lg_net := (if buy then incoming else - incoming), lg_average := price\<rparr>
                     else s3\<lparr>lg_net := 0, lg_average := 0\<rparr>)
      in s2\<lparr>lg_last_fill := Some (pt_timestamp t)\<rparr>)"

type_synonym leg_key = "int \<times> string"

text \<open>The leg a trade belongs to: the product of its order, or of its own metadata.\<close>

definition find_order :: "paper_order list \<Rightarrow> string \<Rightarrow> paper_order option" where
  "find_order orders oid = find (\<lambda>r. po_id r = oid) (rev orders)"

definition trade_product :: "paper_order list \<Rightarrow> paper_trade \<Rightarrow> string" where
  "trade_product orders t =
     (case find_order orders (pt_order_id t) of
        Some r \<Rightarrow> po_product r
      | None \<Rightarrow> str_or (jstr (obj_get (pt_metadata t) ''product'')) [])"

definition trade_key :: "paper_order list \<Rightarrow> paper_trade \<Rightarrow> leg_key" where
  "trade_key orders t = (pt_token t, trade_product orders t)"

definition opt_nonempty :: "string option \<Rightarrow> string option" where
  "opt_nonempty x = (case x of Some s \<Rightarrow> if s = [] then None else Some s | None \<Rightarrow> None)"

definition trade_leg :: "paper_order list \<Rightarrow> paper_trade \<Rightarrow> leg_state" where
  "trade_leg orders t =
     (case find_order orders (pt_order_id t) of
        Some r \<Rightarrow> new_leg (pt_token t) (po_product r) (opt_nonempty (Some (po_exchange r))) (opt_nonempty (Some (po_symbol r)))
      | None \<Rightarrow> new_leg (pt_token t) (trade_product orders t) (md_opt (pt_metadata t) ''exchange'') (md_opt (pt_metadata t) ''tradingsymbol''))"

definition replay_trade :: "paper_order list \<Rightarrow> paper_trade \<Rightarrow> (leg_key, leg_state) dict \<Rightarrow> (leg_key, leg_state) dict" where
  "replay_trade orders t legs =
     (let k = trade_key orders t;
          s = (case dict_get legs k of None \<Rightarrow> trade_leg orders t | Some s \<Rightarrow> s)
      in dict_set k (fill_leg t s) legs)"

definition replay_trades :: "paper_order list \<Rightarrow> paper_trade list \<Rightarrow> (leg_key, leg_state) dict" where
  "replay_trades orders trades =
     fold (replay_trade orders) (sort_key (\<lambda>t. (pt_timestamp t, pt_id t)) trades) []"

section \<open>The state of a run\<close>

record leg_view =
  lv_token :: int
  lv_exchange :: "string option"
  lv_symbol :: "string option"
  lv_product :: string
  lv_net :: int
  lv_side :: string
  lv_average :: flt
  lv_last_price :: flt
  lv_realized :: flt
  lv_unrealized :: flt
  lv_charges :: flt
  lv_metadata :: jobj

record run_state =
  rs_strategy_run_id :: string
  rs_display_name :: string
  rs_strategy_tag :: "string option"
  rs_algo_instance_id :: "string option"
  rs_strategy_family :: string
  rs_strategy_name :: string
  rs_status :: string
  rs_open_legs :: int
  rs_net :: int
  rs_unrealized :: flt
  rs_realized :: flt
  rs_charges :: flt
  rs_stale_reasons :: "string list"
  rs_last_updated :: "instant option"
  rs_last_event :: "instant option"
  rs_can_edit_risk :: bool
  rs_edit_risk_reason :: string
  rs_exit_reason :: "string option"
  rs_positions :: "leg_view list"
  rs_orders :: "paper_order list"
  rs_trades :: "paper_trade list"

definition is_stale :: "run_state \<Rightarrow> bool" where
  "is_stale rs \<longleftrightarrow> rs_stale_reasons rs \<noteq> []"

definition opt_max :: "instant option \<Rightarrow> instant option \<Rightarrow> instant option" where
  "opt_max a b = (case (a, b) of (None, _) \<Rightarrow> b | (_, None) \<Rightarrow> a | (Some x, Some y) \<Rightarrow> Some (max x y))"

definition position_mark :: "paper_position list \<Rightarrow> leg_key \<Rightarrow> paper_position option" where
  "position_mark positions k = find (\<lambda>p. (pp_token p, pp_product p) = k) (rev positions)"

definition leg_metadata_keys :: "string list" where
  "leg_metadata_keys = [''strategy_run_id'', ''strategy_family'', ''strategy_name'', ''algo_instance_id'', ''strategy_tag'',
     ''journal_run_id'', ''journal_ref'', ''entry_surface'', ''source'']"

definition leg_last_price :: "paper_position option \<Rightarrow> leg_state \<Rightarrow> flt" where
  "leg_last_price pos s =
     (let p = (case pos of None \<Rightarrow> 0 | Some p \<Rightarrow> to_float (obj_get (pp_metadata p) ''last_price''))
      in if p = 0 then lg_average s else p)"

definition leg_unrealized :: "leg_state \<Rightarrow> flt \<Rightarrow> flt" where
  "leg_unrealized s price =
     (if lg_net s > 0 then (price - lg_average s) * of_int (lg_net s)
      else if lg_net s < 0 then (lg_average s - price) * of_int \<bar>lg_net s\<bar> else 0)"

text \<open>Why a leg no longer reconciles with the account's position.\<close>

definition leg_stale_reasons :: "paper_position option \<Rightarrow> leg_state \<Rightarrow> string list" where
  "leg_stale_reasons pos s =
     (let name = int_str (lg_token s) @ '':'' @ lg_product s;
          held = (case pos of None \<Rightarrow> 0 | Some p \<Rightarrow> pp_net p)
      in if lg_net s = 0 then []
         else if held = 0 then [''missing_account_position:'' @ name]
         else if (lg_net s > 0 \<and> held < 0) \<or> (lg_net s < 0 \<and> held > 0) then [''sign_mismatch:'' @ name]
         else [])"

definition leg_view_of :: "jobj \<Rightarrow> paper_position option \<Rightarrow> leg_state \<Rightarrow> leg_view" where
  "leg_view_of latest pos s =
     (let mark = leg_last_price pos s in
      \<lparr>lv_token = lg_token s,
       lv_exchange = (case lg_exchange s of None \<Rightarrow> map_option pp_exchange pos | Some e \<Rightarrow> Some e),
       lv_symbol = (case lg_symbol s of None \<Rightarrow> map_option pp_symbol pos | Some e \<Rightarrow> Some e),
       lv_product = lg_product s, lv_net = lg_net s, lv_side = side_for_quantity (lg_net s),
       lv_average = lg_average s, lv_last_price = mark, lv_realized = lg_realized s,
       lv_unrealized = leg_unrealized s mark, lv_charges = lg_charges s,
       lv_metadata = filter (\<lambda>(k, v). k \<in> set leg_metadata_keys) latest\<rparr>)"

definition run_orders :: "string \<Rightarrow> paper_order list \<Rightarrow> paper_order list" where
  "run_orders rid orders = filter (\<lambda>r. strategy_identity (po_metadata r) = Some rid) orders"

definition run_trades :: "string \<Rightarrow> paper_trade list \<Rightarrow> paper_trade list" where
  "run_trades rid trades = filter (\<lambda>t. strategy_identity (pt_metadata t) = Some rid) trades"

definition latest_metadata :: "paper_order list \<Rightarrow> paper_trade list \<Rightarrow> jobj" where
  "latest_metadata orders trades =
     fold (\<lambda>md acc. dict_update acc (present_entries md))
       (map pt_metadata (sort_key (\<lambda>t. (pt_timestamp t, pt_id t)) trades) @ map po_metadata orders) []"

definition run_state_of ::
  "string \<Rightarrow> paper_order list \<Rightarrow> paper_trade list \<Rightarrow> paper_position list \<Rightarrow> run_state option" where
  "run_state_of rid orders trades positions =
     (let mine = run_orders rid orders; fills = run_trades rid trades in
      if mine = [] \<and> fills = [] then None
      else
        let legs = map snd (replay_trades orders fills);
            mark = (\<lambda>s. position_mark positions (lg_token s, lg_product s));
            latest = latest_metadata mine fills;
            views = map (\<lambda>s. leg_view_of latest (mark s) s) legs;
            tag = md_opt latest ''strategy_tag'';
            name = str_or (md_opt latest ''strategy_name'') (case tag of Some t \<Rightarrow> tag_title t | None \<Rightarrow> rid);
            open_legs = length (filter (\<lambda>s. lg_net s \<noteq> 0) legs);
            updated = fold (\<lambda>s acc. opt_max (opt_max acc (map_option pp_updated_at (mark s))) (lg_last_fill s)) legs None;
            event = fold (\<lambda>x acc. opt_max acc (Some x)) (map pt_timestamp fills @ map po_updated_at mine) None
        in Some \<lparr>rs_strategy_run_id = rid, rs_display_name = name, rs_strategy_tag = tag,
             rs_algo_instance_id = md_opt latest ''algo_instance_id'',
             rs_strategy_family = str_or (md_opt latest ''strategy_family'') ''indicator_strategy'',
             rs_strategy_name = str_or (md_opt latest ''strategy_name'') name,
             rs_status = (if open_legs > 0 then ''open'' else ''closed''), rs_open_legs = int open_legs,
             rs_net = sum_list (map lg_net legs), rs_unrealized = sum_list (map lv_unrealized views),
             rs_realized = sum_list (map lg_realized legs), rs_charges = sum_list (map lg_charges legs),
             rs_stale_reasons = concat (map (\<lambda>s. leg_stale_reasons (mark s) s) legs),
             rs_last_updated = updated, rs_last_event = (if event = None then updated else event),
             rs_can_edit_risk = jtruth (obj_get latest ''can_edit_risk''),
             rs_edit_risk_reason = str_or (md_opt latest ''edit_risk_reason'') ''No editable risk controls available'',
             rs_exit_reason = md_opt latest ''exit_reason'',
             rs_positions = views, rs_orders = mine, rs_trades = fills\<rparr>)"

definition get_run_state :: "string \<Rightarrow> string \<Rightarrow> paper_store \<Rightarrow> paper_error + run_state option" where
  "get_run_state scope run_id db =
     (let rid = str_strip run_id in
      if rid = [] then Inl RunIdRequired
      else Inr (run_state_of rid (list_orders scope None None None None 50000 db) (list_trades scope None None 50000 db)
                  (list_positions scope None None False db)))"

section \<open>Settlement\<close>

definition run_view_of :: "run_state \<Rightarrow> paper_run_view" where
  "run_view_of rs =
     \<lparr>rv_strategy_run_id = Some (rs_strategy_run_id rs), rv_strategy_id = Some (rs_strategy_run_id rs),
      rv_is_stale = is_stale rs,
      rv_positions = Some (map (\<lambda>v. PositionQty (Some (lv_net v))) (rs_positions rs)),
      rv_last_event_at = map_option int_str (rs_last_event rs),
      rv_last_updated_at = map_option int_str (rs_last_updated rs)\<rparr>"

definition settlement_readonly :: "string \<Rightarrow> string \<Rightarrow> paper_store \<Rightarrow> settlement_payload option" where
  "settlement_readonly scope run_id db =
     (let rid = str_strip run_id in
      if rid = [] then None
      else
        let state = (case get_run_state scope rid db of Inl _ \<Rightarrow> NoRunState | Inr None \<Rightarrow> NoRunState
                       | Inr (Some rs) \<Rightarrow> RunState (run_view_of rs));
            (orders, complete) = list_orders_for_strategy scope rid 5000 db
        in Some \<lparr>sp_account_scope = Some scope, sp_strategy_run_id = Some rid,
             sp_order_count = Some (int (length orders)),
             sp_pending_order_count = Some (int (length (filter (\<lambda>r. is_pending (po_status r)) orders))),
             sp_coverage_complete = Some complete, sp_run_state = state\<rparr>)"

section \<open>Grouping positions by strategy\<close>

definition attribution_marks :: "string list" where
  "attribution_marks = [''strategy_run_id'', ''option_strategy_id'', ''strategy_id'', ''algo_instance_id'', ''strategy_tag'']"

definition attributed :: "jobj \<Rightarrow> bool" where
  "attributed md = list_ex (\<lambda>k. jpresent (obj_get md k)) attribution_marks"

text \<open>The newest attributed order or trade of the instrument lends its metadata to a position without any.\<close>

definition position_strategy_metadata :: "paper_position \<Rightarrow> paper_order list \<Rightarrow> paper_trade list \<Rightarrow> jobj" where
  "position_strategy_metadata p orders trades =
     (if attributed (pp_metadata p) then pp_metadata p
      else
        let candidates =
              map (\<lambda>r. (po_updated_at r, po_metadata r))
                (filter (\<lambda>r. po_token r = pp_token p \<and> po_product r = pp_product p \<and> attributed (po_metadata r)) orders)
              @ map (\<lambda>t. (pt_timestamp t, pt_metadata t))
                (filter (\<lambda>t. pt_token t = pp_token p \<and> attributed (pt_metadata t)) trades)
        in case sort_key (\<lambda>c. - fst c) candidates of
             [] \<Rightarrow> pp_metadata p
           | c # _ \<Rightarrow> dict_update (snd c) (pp_metadata p))"

definition set_default :: "string \<Rightarrow> jval \<Rightarrow> jobj \<Rightarrow> jobj" where
  "set_default k v d = (if dict_has d k then d else dict_set k v d)"

definition monitored_reason :: string where
  "monitored_reason = ''Strategy-level exit requires a monitored paper strategy id''"

definition manual_reason :: string where
  "manual_reason = ''Strategy-level exit is unavailable for manual paper activity''"

definition instrument_name :: "string \<Rightarrow> paper_position \<Rightarrow> string" where
  "instrument_name prefix p = prefix @ int_str (pp_token p) @ '':'' @ pp_product p"

definition not_exitable :: "jobj \<Rightarrow> jobj" where
  "not_exitable md = set_default ''exit_reason'' (JStr monitored_reason) (set_default ''can_exit_strategy'' (JBool False) md)"

text \<open>
  The identities of the open lots, each with the metadata of its newest lot: later lots of
  the list win ties.
\<close>

definition note_lot :: "paper_lot \<Rightarrow> (string, instant \<times> jobj) dict \<times> bool \<Rightarrow> (string, instant \<times> jobj) dict \<times> bool" where
  "note_lot l acc =
     (case strategy_identity (pl_metadata l) of
        None \<Rightarrow> (fst acc, True)
      | Some i \<Rightarrow>
          ((case dict_get (fst acc) i of
              Some (t, _) \<Rightarrow> if pl_opened_at l \<ge> t then dict_set i (pl_opened_at l, pl_metadata l) (fst acc) else fst acc
            | None \<Rightarrow> dict_set i (pl_opened_at l, pl_metadata l) (fst acc)), snd acc))"

definition lot_identities :: "paper_lot list \<Rightarrow> (string, instant \<times> jobj) dict \<times> bool" where
  "lot_identities lots = fold note_lot lots ([], False)"

definition resolve_open_position_lot_grouping :: "paper_position \<Rightarrow> paper_lot list \<Rightarrow> jobj option" where
  "resolve_open_position_lot_grouping p lots =
     (let (ids, missing) = lot_identities lots;
          shared = (\<lambda>prefix reason. [(''_group_strategy_id'', JStr (instrument_name prefix p)), (''strategy_tag'', JNull),
             (''algo_instance_id'', JNull), (''can_exit_strategy'', JBool False), (''exit_reason'', JStr reason)])
      in if length ids = 1 \<and> \<not> missing then Some (not_exitable (snd (snd (hd ids))))
         else if length ids > 1 then
           Some (shared ''unsupported:''
             (''Strategy-level exit is disabled because this open position is shared across multiple strategy ids: ''
              @ join '', '' (sort (map fst ids))))
         else if missing then Some (shared ''manual:'' manual_reason)
         else None)"

definition strategy_group_metadata_for_position ::
  "paper_position \<Rightarrow> paper_order list \<Rightarrow> paper_trade list \<Rightarrow> paper_store \<Rightarrow> jobj" where
  "strategy_group_metadata_for_position p orders trades db =
     (let lots = list_open_position_lots (pp_scope p) (Some (pp_token p)) (Some (pp_product p)) db;
          resolved = (if pp_net p \<noteq> 0 \<and> lots \<noteq> [] then resolve_open_position_lot_grouping p lots else None);
          inferred = position_strategy_metadata p orders trades
      in case resolved of
           Some md \<Rightarrow> dict_update md (filter (\<lambda>(k, v). \<not> dict_has md k \<and> jpresent v) (pp_metadata p))
         | None \<Rightarrow>
             if attributed inferred then not_exitable inferred
             else dict_update inferred
                    [(''_group_strategy_id'', JStr (instrument_name ''manual:'' p)), (''can_exit_strategy'', JBool False),
                     (''exit_reason'', JStr manual_reason)])"

definition group_strategy_id :: "jobj \<Rightarrow> string" where
  "group_strategy_id md =
     (case md_opt md ''_group_strategy_id'' of
        Some s \<Rightarrow> s
      | None \<Rightarrow> (case strategy_identity md of Some s \<Rightarrow> s | None \<Rightarrow> []))"

section \<open>Closing a strategy\<close>

record exit_position =
  xp_exchange :: "string option"
  xp_symbol :: "string option"
  xp_product :: string
  xp_net :: int

text \<open>Open quantity of the lots by identity: this strategy's, none's, other strategies'.\<close>

definition lot_quantity :: "(string option \<Rightarrow> bool) \<Rightarrow> paper_lot list \<Rightarrow> int" where
  "lot_quantity P lots =
     sum_list (map (\<lambda>l. max 0 (pl_remaining l)) (filter (\<lambda>l. P (strategy_identity (pl_metadata l))) lots))"

definition lot_ambiguity :: "string \<Rightarrow> int \<Rightarrow> string \<Rightarrow> int \<Rightarrow> paper_lot list \<Rightarrow> string list" where
  "lot_ambiguity sid token product requested lots =
     (let name = int_str token @ '':'' @ product;
          matching = lot_quantity (\<lambda>i. i = Some sid) lots;
          unknown = lot_quantity (\<lambda>i. i = None) lots;
          foreign = map (\<lambda>l. case strategy_identity (pl_metadata l) of Some i \<Rightarrow> i | None \<Rightarrow> [])
                      (filter (\<lambda>l. pl_remaining l > 0 \<and> strategy_identity (pl_metadata l) \<notin> {None, Some sid}) lots)
      in (if unknown > 0 then [''unresolved_lots:'' @ name @ '':missing_strategy_identity_qty='' @ int_str unknown] else [])
         @ (if foreign \<noteq> [] \<and> matching < requested
            then [''ambiguous_lots:'' @ name @ '':foreign_strategies='' @ join '','' (sort (dedup foreign))] else [])
         @ (if matching < requested
            then [''insufficient_attributed_lots:'' @ name @ '':needed='' @ int_str requested @ '':matched='' @ int_str matching]
            else []))"

definition resolve_strategy_exit_lot_ambiguity :: "string \<Rightarrow> string \<Rightarrow> leg_view list \<Rightarrow> paper_store \<Rightarrow> string list" where
  "resolve_strategy_exit_lot_ambiguity scope sid views db =
     concat (map (\<lambda>v.
       if lv_token v \<le> 0 \<or> lv_product v = [] then []
       else
         let lots = list_open_position_lots scope (Some (lv_token v)) (Some (lv_product v)) db
         in if lots = [] then [] else lot_ambiguity sid (lv_token v) (lv_product v) \<bar>lv_net v\<bar> lots) views)"

definition view_exit :: "leg_view \<Rightarrow> exit_position" where
  "view_exit v = \<lparr>xp_exchange = lv_exchange v, xp_symbol = lv_symbol v, xp_product = lv_product v, xp_net = lv_net v\<rparr>"

definition position_exit :: "paper_position \<Rightarrow> exit_position" where
  "position_exit p = \<lparr>xp_exchange = Some (pp_exchange p), xp_symbol = Some (pp_symbol p), xp_product = pp_product p, xp_net = pp_net p\<rparr>"

definition add_legacy :: "string \<Rightarrow> string \<Rightarrow> paper_store \<Rightarrow> paper_position
    \<Rightarrow> (leg_key, exit_position) dict \<Rightarrow> (leg_key, exit_position) dict" where
  "add_legacy scope sid db p m =
     (let k = (pp_token p, pp_product p);
          lots = list_open_position_lots scope (Some (pp_token p)) (Some (pp_product p)) db;
          ids = dedup (map (\<lambda>l. strategy_identity (pl_metadata l)) (filter (\<lambda>l. strategy_identity (pl_metadata l) \<noteq> None) lots));
          safe = (lots \<noteq> [] \<and> ids = [Some sid])
      in case dict_get m k of
           None \<Rightarrow> dict_set k (position_exit p) m
         | Some x \<Rightarrow> if safe \<and> \<bar>pp_net p\<bar> > \<bar>xp_net x\<bar> then dict_set k (position_exit p) m else m)"

definition opt_json :: "string option \<Rightarrow> jval" where
  "opt_json x = (case x of None \<Rightarrow> JNull | Some s \<Rightarrow> JStr s)"

definition exit_order :: "string \<Rightarrow> string option \<Rightarrow> string option \<Rightarrow> exit_position \<Rightarrow> jobj" where
  "exit_order sid algo tag x =
     [(''exchange'', opt_json (xp_exchange x)), (''tradingsymbol'', opt_json (xp_symbol x)),
      (''product'', JStr (xp_product x)), (''transaction_type'', JStr (if xp_net x < 0 then ''BUY'' else ''SELL'')),
      (''order_type'', JStr ''MARKET''), (''quantity'', JInt \<bar>xp_net x\<bar>),
      (''metadata'', JObj [(''strategy_run_id'', JStr sid), (''option_strategy_id'', JStr sid),
         (''algo_instance_id'', opt_json algo), (''strategy_tag'', opt_json tag), (''exit_for'', JStr sid)])]"

datatype exit_result = ExitBlocked "string list" | ExitNoop | ExitBasket basket_result

text \<open>The positions a strategy exit would close: the run's open legs, then the account positions grouped under it.\<close>

definition exit_positions :: "string \<Rightarrow> string \<Rightarrow> leg_view list \<Rightarrow> paper_position list \<Rightarrow> paper_store \<Rightarrow> exit_position list" where
  "exit_positions scope sid linked legacy db =
     filter (\<lambda>x. xp_net x \<noteq> 0)
       (map snd (fold (add_legacy scope sid db) legacy
          (fold (\<lambda>v. dict_set (lv_token v, lv_product v) (view_exit v)) linked [])))"

definition legacy_positions :: "string \<Rightarrow> string \<Rightarrow> paper_store \<Rightarrow> paper_position list" where
  "legacy_positions scope sid db =
     filter (\<lambda>p. group_strategy_id (strategy_group_metadata_for_position p
                   (list_orders scope None None None None 1000 db) (list_trades scope None None 2000 db) db) = sid)
       (list_positions scope None None True db)"

definition exit_basket :: "string \<Rightarrow> run_state option \<Rightarrow> exit_position list \<Rightarrow> jobj \<times> jobj" where
  "exit_basket sid rs xs =
     (let algo = (case rs of None \<Rightarrow> None | Some r \<Rightarrow> rs_algo_instance_id r);
          tag = (case rs of None \<Rightarrow> None | Some r \<Rightarrow> rs_strategy_tag r)
      in ([(''orders'', JList (map (\<lambda>x. JObj (exit_order sid algo tag x)) xs)), (''all_or_none'', JBool True)],
          [(''source'', JStr ''paper-page-exit''), (''strategy_tag'', opt_json tag), (''strategy_run_id'', JStr sid),
           (''option_strategy_id'', JStr sid), (''algo_instance_id'', opt_json algo),
           (''notes'', JStr (''exit-strategy:'' @ sid))]))"

definition exit_strategy :: "paper_env \<Rightarrow> string \<Rightarrow> string \<Rightarrow> world \<Rightarrow> exit_result outcome_of" where
  "exit_strategy env scope strategy_id w =
     (let sid = str_strip strategy_id; db = w_db w in
      if sid = [] then (Inl RunIdRequired, w)
      else if starts_with sid ''manual:'' \<or> starts_with sid ''unsupported:'' then (Inr (ExitBlocked []), w)
      else (case get_run_state scope sid db of
          Inl e \<Rightarrow> (Inl e, w)
        | Inr rs \<Rightarrow>
            let linked = (case rs of None \<Rightarrow> [] | Some r \<Rightarrow> filter (\<lambda>v. lv_net v \<noteq> 0) (rs_positions r));
                legacy = legacy_positions scope sid db;
                stale = (case rs of None \<Rightarrow> [] | Some r \<Rightarrow> rs_stale_reasons r);
                ambiguous = resolve_strategy_exit_lot_ambiguity scope sid linked db;
                xs = exit_positions scope sid linked legacy db
            in if linked = [] \<and> legacy = [] then (Inr ExitNoop, w)
               else if stale \<noteq> [] then (Inr (ExitBlocked stale), w)
               else if ambiguous \<noteq> [] then (Inr (ExitBlocked ambiguous), w)
               else if xs = [] then (Inr ExitNoop, w)
               else
                 let (payload, attribution) = exit_basket sid rs xs
                 in bind_ok (place_basket_locked env scope payload attribution w) (\<lambda>b w1. (Inr (ExitBasket b), w1))))"

section \<open>Reads\<close>

definition account_unrealized :: "string \<Rightarrow> paper_store \<Rightarrow> dec" where
  "account_unrealized scope db = sum_list (map pp_unrealized (list_positions scope None None True db))"

definition matches_attribution :: "jobj \<Rightarrow> string option \<Rightarrow> string option \<Rightarrow> bool" where
  "matches_attribution md tag algo =
     ((str_truthy tag \<longrightarrow> str_or (jstr (obj_get md ''strategy_tag'')) [] = opt_str tag)
      \<and> (str_truthy algo \<longrightarrow> str_or (jstr (obj_get md ''algo_instance_id'')) [] = opt_str algo))"

definition service_list_orders :: "string \<Rightarrow> string option \<Rightarrow> string option \<Rightarrow> int \<Rightarrow> paper_store \<Rightarrow> paper_order list" where
  "service_list_orders scope tag algo limit db =
     filter (\<lambda>r. matches_attribution (po_metadata r) tag algo) (list_orders scope None None None None limit db)"

definition service_list_trades :: "string \<Rightarrow> string option \<Rightarrow> string option \<Rightarrow> int \<Rightarrow> paper_store \<Rightarrow> paper_trade list" where
  "service_list_trades scope tag algo limit db =
     filter (\<lambda>t. matches_attribution (pt_metadata t) tag algo) (list_trades scope None None limit db)"

record account_summary =
  sm_account :: paper_account
  sm_unrealized :: dec
  sm_open_positions :: nat

definition get_account_summary :: "paper_env \<Rightarrow> string \<Rightarrow> world \<Rightarrow> account_summary outcome_of" where
  "get_account_summary env scope w =
     bind_ok (ensure_account env scope w) (\<lambda>a w1.
       (Inr \<lparr>sm_account = a, sm_unrealized = account_unrealized scope (w_db w1),
             sm_open_positions = length (list_positions scope None None True (w_db w1))\<rparr>, w1))"

end
