(* ===== verification/PaperFunds.thy ===== *)
theory PaperFunds
  imports PaperService
begin

text \<open>
  The funds of a paper account. The invariant \<open>funds_ok\<close> says, for every account: its blocked
  funds are the margin of its open positions plus the margin reserved by its pending orders;
  available and blocked funds together are the starting balance plus the realized result
  minus the charges of its filled orders; and the ledger replays to the available funds. All
  money columns hold six-decimal values, so the rounding of the database changes nothing as
  long as prices have at most four decimals.

  The lemmas give the effect of every step on these sums; \<open>account_step\<close> is the shape they
  compose in. The theorems say that every handler keeps the invariant, whatever it returns.
\<close>

section \<open>The sums\<close>

definition order_reserved :: "paper_order \<Rightarrow> dec" where
  "order_reserved r = md_dec (po_metadata r) ''reserved_margin''"

definition order_charges :: "paper_order \<Rightarrow> dec" where
  "order_charges r = md_dec (po_metadata r) ''estimated_charges''"

definition position_recorded :: "paper_position \<Rightarrow> dec" where
  "position_recorded p = (if pp_net p = 0 then 0 else md_dec (pp_metadata p) ''margin_in_use'')"

definition reserved_weight :: "string \<Rightarrow> paper_order \<Rightarrow> rat" where
  "reserved_weight s r = (if po_scope r = s \<and> is_pending (po_status r) then order_reserved r else 0)"

definition charged_weight :: "string \<Rightarrow> paper_order \<Rightarrow> rat" where
  "charged_weight s r = (if po_scope r = s \<and> po_status r = FilledStatus then order_charges r else 0)"

definition margin_weight :: "string \<Rightarrow> paper_position \<Rightarrow> rat" where
  "margin_weight s p = (if pp_scope p = s then position_recorded p else 0)"

fun ledger_sign :: "fund_ledger_entry_type \<Rightarrow> rat" where
  "ledger_sign Credit = 1"
| "ledger_sign Debit = -1"
| "ledger_sign Reserve = -1"
| "ledger_sign Release = 1"
| "ledger_sign Adjustment = 0"

definition ledger_total :: "string \<Rightarrow> paper_store \<Rightarrow> rat" where
  "ledger_total s db =
     sum_list (map (\<lambda>e. ledger_sign (le_type e) * le_amount e) (filter (\<lambda>e. le_scope e = s) (db_ledger db)))"

section \<open>The invariant\<close>

definition account_ok :: "paper_account \<Rightarrow> bool" where
  "account_ok a \<longleftrightarrow> on_grid 6 (pa_available a) \<and> on_grid 6 (pa_blocked a) \<and> on_grid 6 (pa_realized a)
     \<and> on_grid 6 (pa_starting a)"

definition limit_price_ok :: "paper_order_type \<Rightarrow> dec option \<Rightarrow> bool" where
  "limit_price_ok ty p = (case p of None \<Rightarrow> True | Some x \<Rightarrow> ty = Market \<or> ty = SlM \<or> (on_grid 4 x \<and> 0 < x))"

text \<open>
  A pending order carries what its fill will need: its reserved margin and its charges, a
  usable limit price, a normalized scope, and the token the catalogue still gives its symbol.
\<close>

definition order_ok :: "paper_env \<Rightarrow> paper_order \<Rightarrow> bool" where
  "order_ok env r \<longleftrightarrow> (is_pending (po_status r) \<longrightarrow>
     on_grid 6 (order_reserved r) \<and> 0 \<le> order_reserved r \<and> on_grid 6 (order_charges r) \<and> 0 \<le> order_charges r
     \<and> limit_price_ok (po_type r) (po_price r) \<and> 0 < po_quantity r \<and> validate_scope (po_scope r) = Inr (po_scope r)
     \<and> (\<forall>ins. pe_instrument env (po_exchange r) (po_symbol r) = Some ins \<longrightarrow> in_token ins = po_token r))"

definition position_ok :: "paper_position \<Rightarrow> bool" where
  "position_ok p \<longleftrightarrow> on_grid 6 (pp_average p) \<and> on_grid 6 (pp_realized p)
     \<and> (pp_net p \<noteq> 0 \<longrightarrow> (\<exists>m. obj_num (pp_metadata p) ''margin_in_use'' = Some m \<and> 0 \<le> m \<and> on_grid 6 m))"

definition accounts_ok :: "paper_store \<Rightarrow> bool" where
  "accounts_ok db \<longleftrightarrow> (\<forall>(k, a) \<in> set (db_accounts db). k = pa_scope a \<and> account_ok a)"

definition orders_ok :: "paper_env \<Rightarrow> (string \<times> string, paper_order) dict \<Rightarrow> bool" where
  "orders_ok env t \<longleftrightarrow> distinct (map fst t) \<and> (\<forall>(k, r) \<in> set t. k = order_key r \<and> order_ok env r)"

definition positions_ok :: "(string \<times> int \<times> string, paper_position) dict \<Rightarrow> bool" where
  "positions_ok t \<longleftrightarrow> distinct (map fst t) \<and> (\<forall>(k, p) \<in> set t. k = position_key p \<and> position_ok p)"

definition store_ok :: "paper_env \<Rightarrow> paper_store \<Rightarrow> bool" where
  "store_ok env db \<longleftrightarrow> accounts_ok db \<and> orders_ok env (db_orders db) \<and> positions_ok (db_positions db)"

definition balanced :: "string \<Rightarrow> paper_store \<Rightarrow> bool" where
  "balanced s db \<longleftrightarrow>
     (case get_account s db of
        None \<Rightarrow> table_sum (reserved_weight s) (db_orders db) = 0
          \<and> table_sum (charged_weight s) (db_orders db) = 0
          \<and> table_sum (margin_weight s) (db_positions db) = 0 \<and> ledger_total s db = 0
      | Some a \<Rightarrow>
          pa_blocked a = table_sum (margin_weight s) (db_positions db) + table_sum (reserved_weight s) (db_orders db)
          \<and> pa_available a + pa_blocked a
              = pa_starting a + pa_realized a - table_sum (charged_weight s) (db_orders db)
          \<and> pa_available a = pa_starting a + ledger_total s db)"

definition funds_ok :: "paper_store \<Rightarrow> bool" where
  "funds_ok db \<longleftrightarrow> (\<forall>s. balanced s db)"

text \<open>Every stored trade has an identifier generated before the current counter.\<close>

definition ids_ok :: "paper_env \<Rightarrow> world \<Rightarrow> bool" where
  "ids_ok env w \<longleftrightarrow> (\<forall>(k, t) \<in> set (db_trades (w_db w)). \<exists>i < w_next w. snd k = ''PTRD-'' @ pe_uuid env i)"

definition paper_ok :: "paper_env \<Rightarrow> world \<Rightarrow> bool" where
  "paper_ok env w \<longleftrightarrow> store_ok env (w_db w) \<and> funds_ok (w_db w) \<and> ids_ok env w"

section \<open>Booking on the account\<close>

text \<open>
  From \<open>db\<close> to \<open>db'\<close> only the account \<open>a\<close> and the ledger change: available, blocked and realized
  move by the given amounts and the ledger total follows the available funds.
\<close>

definition account_step ::
  "paper_account \<Rightarrow> paper_account \<Rightarrow> rat \<Rightarrow> rat \<Rightarrow> rat \<Rightarrow> paper_store \<Rightarrow> paper_store \<Rightarrow> bool" where
  "account_step a a' dav dbl drl db db' \<longleftrightarrow>
     pa_scope a' = pa_scope a \<and> pa_starting a' = pa_starting a
     \<and> pa_available a' = pa_available a + dav \<and> pa_blocked a' = pa_blocked a + dbl
     \<and> pa_realized a' = pa_realized a + drl \<and> account_ok a'
     \<and> (\<forall>s. get_account s db' = (if s = pa_scope a then Some a' else get_account s db))
     \<and> (accounts_ok db \<longrightarrow> accounts_ok db')
     \<and> db_orders db' = db_orders db \<and> db_trades db' = db_trades db \<and> db_positions db' = db_positions db
     \<and> db_lots db' = db_lots db
     \<and> (\<forall>s. ledger_total s db' = ledger_total s db + (if s = pa_scope a then dav else 0))"

lemma set_dict_set: "set (dict_set k v t) \<subseteq> insert (k, v) (set t)"
  by (induction t) auto

lemma account_step_refl:
  "get_account (pa_scope a) db = Some a \<Longrightarrow> account_ok a \<Longrightarrow> account_step a a 0 0 0 db db"
  by (auto simp: account_step_def)

lemma account_step_trans:
  assumes "account_step a b x1 y1 z1 db db1" "account_step b c x2 y2 z2 db1 db2"
  shows "account_step a c (x1 + x2) (y1 + y2) (z1 + z2) db db2"
  using assms unfolding account_step_def by auto

lemma account_row_exact: "account_ok a \<Longrightarrow> account_row a = a"
  by (simp add: account_row_def account_ok_def money_exact)

lemma upsert_existing_account:
  assumes "get_account (pa_scope a) db = Some old" "pa_created_at old = pa_created_at a" "account_ok a"
  shows "upsert_account a db = (a, db\<lparr>db_accounts := dict_set (pa_scope a) a (db_accounts db)\<rparr>)"
proof -
  have "a\<lparr>pa_created_at := pa_created_at old\<rparr> = a" using assms(2) by simp
  then show ?thesis
    using assms by (simp add: upsert_account_def Let_def get_account_def account_row_exact)
qed

lemma accounts_ok_set:
  "accounts_ok db \<Longrightarrow> account_ok a \<Longrightarrow> accounts_ok (db\<lparr>db_accounts := dict_set (pa_scope a) a (db_accounts db)\<rparr>)"
  using set_dict_set [of "pa_scope a" a "db_accounts db"] by (fastforce simp: accounts_ok_def)

definition ledger_sum :: "string \<Rightarrow> paper_ledger_entry list \<Rightarrow> rat" where
  "ledger_sum s es = sum_list (map (\<lambda>e. ledger_sign (le_type e) * le_amount e) (filter (\<lambda>e. le_scope e = s) es))"

lemma ledger_total_append: "ledger_total s (db\<lparr>db_ledger := db_ledger db @ es\<rparr>) = ledger_total s db + ledger_sum s es"
  by (simp add: ledger_total_def ledger_sum_def)

lemma account_step_booked:
  assumes "account_ok a'" "pa_scope a' = pa_scope a" "pa_starting a' = pa_starting a"
    and "\<And>s. ledger_sum s es = (if s = pa_scope a then pa_available a' - pa_available a else 0)"
  shows "account_step a a' (pa_available a' - pa_available a) (pa_blocked a' - pa_blocked a)
    (pa_realized a' - pa_realized a) db
    (db\<lparr>db_accounts := dict_set (pa_scope a) a' (db_accounts db), db_ledger := db_ledger db @ es\<rparr>)"
proof -
  let ?db1 = "db\<lparr>db_accounts := dict_set (pa_scope a) a' (db_accounts db)\<rparr>"
  have "accounts_ok db \<longrightarrow> accounts_ok ?db1" using accounts_ok_set [of db a'] assms(1,2) by simp
  then have acc: "accounts_ok db \<longrightarrow> accounts_ok (?db1\<lparr>db_ledger := db_ledger db @ es\<rparr>)"
    by (simp add: accounts_ok_def)
  have led: "ledger_total s (?db1\<lparr>db_ledger := db_ledger db @ es\<rparr>) = ledger_total s db + ledger_sum s es" for s
    by (simp add: ledger_total_def ledger_sum_def)
  show ?thesis
    unfolding account_step_def using assms acc led by (simp add: get_account_def)
qed

lemma apply_account_delta_step:
  assumes get: "get_account (pa_scope a) (w_db w) = Some a" and ok: "account_ok a" and d: "on_grid 6 d"
    and r: "apply_account_delta env a d ref w = (a', w')"
  shows "account_step a a' (- d) d 0 (w_db w) (w_db w') \<and> w' = w\<lparr>w_db := w_db w'\<rparr>"
proof (cases "d = 0")
  case True
  then show ?thesis using r account_step_refl [OF get ok] by (simp add: apply_account_delta_def)
next
  case False
  let ?a = "a\<lparr>pa_available := pa_available a - d, pa_blocked := pa_blocked a + d, pa_updated_at := pe_now env\<rparr>"
  let ?e = "ledger_row (ledger_entry (pa_scope a) (if d > 0 then Reserve else Release) \<bar>d\<bar> (pa_available ?a) ref
    ''paper_margin_adjustment'' (pe_now env))"
  have ok': "account_ok ?a" using ok d by (simp add: account_ok_def on_grid_add on_grid_diff)
  have u: "upsert_account ?a (w_db w) = (?a, (w_db w)\<lparr>db_accounts := dict_set (pa_scope a) ?a (db_accounts (w_db w))\<rparr>)"
    using upsert_existing_account [OF _ _ ok', of "w_db w" a] get by simp
  have m: "money \<bar>d\<bar> = \<bar>d\<bar>" using d on_grid_uminus [OF d] by (intro money_exact) (simp add: abs_if)
  have l: "ledger_sum s [?e] = (if s = pa_scope a then pa_available ?a - pa_available a else 0)" for s
    using False m by (auto simp: ledger_sum_def ledger_row_def ledger_entry_def)
  note st = account_step_booked [OF ok' _ _ l, of "w_db w"]
  have "(a', w') = (?a, w\<lparr>w_db := (w_db w)\<lparr>db_accounts := dict_set (pa_scope a) ?a (db_accounts (w_db w)),
      db_ledger := db_ledger (w_db w) @ [?e]\<rparr>\<rparr>)"
    using False unfolding r [symmetric] by (simp add: apply_account_delta_def on_db_def u append_fund_ledger_entry_def)
  then show ?thesis using st by simp
qed

lemma apply_cash_delta_step:
  assumes get: "get_account (pa_scope a) (w_db w) = Some a" and ok: "account_ok a" and d: "on_grid 6 d"
    and ty: "d > 0 \<Longrightarrow> ty = Credit" "d < 0 \<Longrightarrow> ty = Debit"
    and r: "apply_cash_delta env a d ty ref notes w = (a', w')"
  shows "account_step a a' d 0 0 (w_db w) (w_db w') \<and> w' = w\<lparr>w_db := w_db w'\<rparr>"
proof (cases "d = 0")
  case True
  then show ?thesis using r account_step_refl [OF get ok] by (simp add: apply_cash_delta_def)
next
  case False
  let ?a = "a\<lparr>pa_available := pa_available a + d, pa_updated_at := pe_now env\<rparr>"
  let ?e = "ledger_row (ledger_entry (pa_scope a) ty \<bar>d\<bar> (pa_available ?a) ref notes (pe_now env))"
  have ok': "account_ok ?a" using ok d by (simp add: account_ok_def on_grid_add)
  have u: "upsert_account ?a (w_db w) = (?a, (w_db w)\<lparr>db_accounts := dict_set (pa_scope a) ?a (db_accounts (w_db w))\<rparr>)"
    using upsert_existing_account [OF _ _ ok', of "w_db w" a] get by simp
  have m: "money \<bar>d\<bar> = \<bar>d\<bar>" using d on_grid_uminus [OF d] by (intro money_exact) (simp add: abs_if)
  have l: "ledger_sum s [?e] = (if s = pa_scope a then pa_available ?a - pa_available a else 0)" for s
    using False m ty by (cases "d > 0") (auto simp: ledger_sum_def ledger_row_def ledger_entry_def)
  note st = account_step_booked [OF ok' _ _ l, of "w_db w"]
  have "(a', w') = (?a, w\<lparr>w_db := (w_db w)\<lparr>db_accounts := dict_set (pa_scope a) ?a (db_accounts (w_db w)),
      db_ledger := db_ledger (w_db w) @ [?e]\<rparr>\<rparr>)"
    using False unfolding r [symmetric] by (simp add: apply_cash_delta_def on_db_def u append_fund_ledger_entry_def)
  then show ?thesis using st by simp
qed

lemma upsert_realized_step:
  assumes get: "get_account (pa_scope a) (w_db w) = Some a" and ok: "account_ok a" and d: "on_grid 6 d"
    and r: "on_db (upsert_account (a\<lparr>pa_realized := pa_realized a + d, pa_updated_at := t\<rparr>)) w = (a', w')"
  shows "account_step a a' 0 0 d (w_db w) (w_db w') \<and> w' = w\<lparr>w_db := w_db w'\<rparr>"
proof -
  let ?a = "a\<lparr>pa_realized := pa_realized a + d, pa_updated_at := t\<rparr>"
  have ok': "account_ok ?a" using ok d by (simp add: account_ok_def on_grid_add)
  have u: "upsert_account ?a (w_db w) = (?a, (w_db w)\<lparr>db_accounts := dict_set (pa_scope a) ?a (db_accounts (w_db w))\<rparr>)"
    using upsert_existing_account [OF _ _ ok', of "w_db w" a] get by simp
  have l: "ledger_sum s [] = (if s = pa_scope a then pa_available ?a - pa_available a else 0)" for s
    by (simp add: ledger_sum_def)
  have "(a', w') = (?a, w\<lparr>w_db := (w_db w)\<lparr>db_accounts := dict_set (pa_scope a) ?a (db_accounts (w_db w))\<rparr>\<rparr>)"
    unfolding r [symmetric] by (simp add: on_db_def u)
  then show ?thesis using account_step_booked [OF ok' _ _ l, of "w_db w"] by simp
qed

lemma account_step_get: "account_step a a' x y z db db' \<Longrightarrow> get_account (pa_scope a') db' = Some a' \<and> account_ok a'"
  by (simp add: account_step_def)

lemma book_funds_step:
  assumes get: "get_account (pa_scope a) (w_db w) = Some a" and ok: "account_ok a"
    and grid: "on_grid 6 adj" "on_grid 6 charges" "on_grid 6 rd" and "0 \<le> charges"
    and r: "book_funds env a oid adj charges rd w = (a', w')"
  shows "account_step a a' (- adj - charges + rd) adj rd (w_db w) (w_db w') \<and> w' = w\<lparr>w_db := w_db w'\<rparr>"
proof -
  obtain a1 w1 where r1: "apply_account_delta env a adj oid w = (a1, w1)" by force
  note s1 = apply_account_delta_step [OF get ok grid(1) r1]
  obtain a2 w2 where r2: "apply_cash_delta env a1 (- charges) Debit oid ''paper_trade_charges'' w1 = (a2, w2)" by force
  have s2: "account_step a1 a2 (- charges) 0 0 (w_db w1) (w_db w2) \<and> w2 = w1\<lparr>w_db := w_db w2\<rparr>"
    using apply_cash_delta_step [OF _ _ on_grid_uminus [OF grid(2)] _ _ r2] account_step_get s1 assms(6) by auto
  have s12: "account_step a a2 (- adj + - charges) (adj + 0) (0 + 0) (w_db w) (w_db w2)"
    using account_step_trans s1 s2 by blast
  have w2: "w2 = w\<lparr>w_db := w_db w2\<rparr>" using s1 s2 by (metis world.surjective world.update_convs(1))
  show ?thesis
  proof (cases "rd = 0")
    case True
    then show ?thesis using r s12 w2 by (simp add: book_funds_def r1 r2)
  next
    case False
    obtain a3 w3 where r3: "apply_cash_delta env a2 rd (if rd > 0 then Credit else Debit) oid ''paper_realized_pnl'' w2 = (a3, w3)"
      by force
    have s3: "account_step a2 a3 rd 0 0 (w_db w2) (w_db w3) \<and> w3 = w2\<lparr>w_db := w_db w3\<rparr>"
      using apply_cash_delta_step [OF _ _ grid(3) _ _ r3] account_step_get s2 by auto
    have r4: "on_db (upsert_account (a3\<lparr>pa_realized := pa_realized a3 + rd, pa_updated_at := pe_now env\<rparr>)) w3 = (a', w')"
      using r False by (simp add: book_funds_def r1 r2 r3)
    have s4: "account_step a3 a' 0 0 rd (w_db w3) (w_db w') \<and> w' = w3\<lparr>w_db := w_db w'\<rparr>"
      using upsert_realized_step [OF _ _ grid(3) r4] account_step_get s3 by auto
    have "account_step a a' (- adj + - charges + rd + 0) (adj + 0 + 0 + 0) (0 + 0 + 0 + rd) (w_db w) (w_db w')"
      by (rule account_step_trans [OF account_step_trans [OF s12 conjunct1 [OF s3]] conjunct1 [OF s4]])
    moreover have "w' = w\<lparr>w_db := w_db w'\<rparr>" using w2 s3 s4 by (metis world.surjective world.update_convs(1))
    ultimately show ?thesis by simp
  qed
qed

end
