(* ===== verification/PaperInvariant.thy ===== *)
theory PaperInvariant
  imports PaperFunds
begin

text \<open>
  The handlers of the paper service keep the funds invariant of \<open>PaperFunds\<close>, whatever they
  return: an order placed, filled, rejected or left open, a basket, a tick that fires the
  pending orders of an instrument. The environment supplies prices of at most four decimals
  that are not negative, a default balance of at most six, and identifiers that never repeat.
\<close>

section \<open>The environment\<close>

definition price_ok :: "dec option \<Rightarrow> bool" where
  "price_ok p = (case p of None \<Rightarrow> True | Some x \<Rightarrow> on_grid 4 x \<and> 0 \<le> x)"

definition snapshot_ok :: "snapshot \<Rightarrow> bool" where
  "snapshot_ok sn \<longleftrightarrow> price_ok (sn_last sn) \<and> (\<forall>p \<in> set (sn_buy sn). price_ok p) \<and> (\<forall>p \<in> set (sn_sell sn). price_ok p)"

definition env_ok :: "paper_env \<Rightarrow> bool" where
  "env_ok env \<longleftrightarrow> inj (pe_uuid env) \<and> on_grid 6 (pe_default_balance env) \<and> (\<forall>t. snapshot_ok (pe_snapshot env t))
     \<and> (\<forall>e s ins. pe_instrument env e s = Some ins \<longrightarrow> price_ok (in_last_price ins))"

lemma nz_ok: "price_ok p \<Longrightarrow> on_grid 4 (nz p) \<and> 0 \<le> nz p"
  by (cases p) (auto simp: price_ok_def nz_def)

lemma depth_price_ok:
  assumes "\<forall>p \<in> set depth. price_ok p" "on_grid 4 fb" "0 < fb"
  shows "on_grid 4 (depth_price depth fb) \<and> 0 < depth_price depth fb"
  using assms nz_ok by (cases depth) (auto simp: depth_price_def less_le)

lemma fill_price_ok:
  assumes "snapshot_ok sn" "on_grid 4 fb" "0 < fb" "limit_price_ok (po_type r) (po_price r)"
  shows "on_grid 4 (fill_price r sn fb) \<and> 0 < fill_price r sn fb"
proof -
  have "on_grid 4 (nz (sn_last sn)) \<and> 0 \<le> nz (sn_last sn)" using assms(1) nz_ok by (simp add: snapshot_ok_def)
  moreover have "on_grid 4 (depth_price d fb) \<and> 0 < depth_price d fb" if "d = sn_buy sn \<or> d = sn_sell sn" for d
    using depth_price_ok [OF _ assms(2,3), of d] assms(1) that by (auto simp: snapshot_ok_def)
  ultimately show ?thesis using assms(2-4)
    by (cases "po_type r"; cases "po_side r"; cases "po_price r") (simp_all add: fill_price_def limit_price_ok_def less_le)
qed

section \<open>Rows of the order and position tables\<close>

definition stored :: "paper_order \<Rightarrow> paper_store \<Rightarrow> bool" where
  "stored r db \<longleftrightarrow> get_order (po_scope r) (po_id r) db = Some r"

lemma stored_get: "stored r db \<Longrightarrow> dict_get (db_orders db) (order_key r) = Some r"
  by (simp add: stored_def get_order_def order_key_def)

lemma orders_ok_get: "orders_ok env t \<Longrightarrow> dict_get t k = Some r \<Longrightarrow> k = order_key r \<and> order_ok env r"
  by (auto simp: orders_ok_def dest: map_of_SomeD)

lemma orders_ok_set: "orders_ok env t \<Longrightarrow> order_ok env r \<Longrightarrow> orders_ok env (dict_set (order_key r) r t)"
  using set_dict_set [of "order_key r" r t] by (fastforce simp: orders_ok_def distinct_update)

lemma positions_ok_get: "positions_ok t \<Longrightarrow> dict_get t k = Some p \<Longrightarrow> k = position_key p \<and> position_ok p"
  by (auto simp: positions_ok_def dest: map_of_SomeD)

lemma positions_ok_set: "positions_ok t \<Longrightarrow> position_ok p \<Longrightarrow> positions_ok (dict_set (position_key p) p t)"
  using set_dict_set [of "position_key p" p t] by (fastforce simp: positions_ok_def distinct_update)

text \<open>A rewritten order keeps its token and placing time, so the stored row is the written one.\<close>

lemma update_order_stored:
  assumes "stored r db" "po_scope r' = po_scope r" "po_id r' = po_id r" "po_token r' = po_token r"
    "po_placed_at r' = po_placed_at r"
  shows "update_order r' db = (Inr (order_row r'), db\<lparr>db_orders := dict_set (order_key r) (order_row r') (db_orders db)\<rparr>)"
proof -
  have "order_key r' = order_key r" using assms by (simp add: order_key_def)
  moreover have "(order_row r')\<lparr>po_token := po_token r, po_placed_at := po_placed_at r\<rparr> = order_row r'"
    using assms(4,5) by (simp add: order_row_def)
  ultimately show ?thesis using stored_get [OF assms(1)] by (simp add: update_order_def Let_def)
qed

section \<open>Moving the sums\<close>

text \<open>
  The conservation law: when the account moves by the amounts the orders and the positions
  release and take, the books of every account still balance.
\<close>

lemma balanced_move:
  assumes "funds_ok db" and st: "account_step a a' dav dbl drl db1 db2"
    and "get_account (pa_scope a) db = Some a"
    and src: "db_accounts db1 = db_accounts db" "db_ledger db1 = db_ledger db"
    and dst: "db_accounts db' = db_accounts db2" "db_ledger db' = db_ledger db2"
    and R: "\<And>s. table_sum (reserved_weight s) (db_orders db') = table_sum (reserved_weight s) (db_orders db) + (if s = pa_scope a then dR else 0)"
    and C: "\<And>s. table_sum (charged_weight s) (db_orders db') = table_sum (charged_weight s) (db_orders db) + (if s = pa_scope a then dC else 0)"
    and M: "\<And>s. table_sum (margin_weight s) (db_positions db') = table_sum (margin_weight s) (db_positions db) + (if s = pa_scope a then dM else 0)"
    and eq: "dbl = dM + dR" "dav + dbl = drl - dC"
  shows "funds_ok db'"
  unfolding funds_ok_def
proof
  fix s
  have get: "get_account s db' = (if s = pa_scope a then Some a' else get_account s db)" for s
    using st src(1) dst(1) by (simp add: account_step_def get_account_def)
  have led: "ledger_total s db' = ledger_total s db + (if s = pa_scope a then dav else 0)" for s
    using st src(2) dst(2) by (simp add: account_step_def ledger_total_def)
  have bal: "balanced s db" using assms(1) by (simp add: funds_ok_def)
  have acc: "pa_starting a' = pa_starting a" "pa_available a' = pa_available a + dav"
    "pa_blocked a' = pa_blocked a + dbl" "pa_realized a' = pa_realized a + drl"
    using st by (simp_all add: account_step_def)
  show "balanced s db'"
  proof (cases "s = pa_scope a")
    case True
    then show ?thesis using bal assms(3) acc eq by (auto simp: balanced_def get led R C M)
  next
    case False
    then show ?thesis using bal by (simp add: balanced_def get led R C M split: option.splits)
  qed
qed

lemma funds_ok_cong:
  assumes "funds_ok db" "db_accounts db' = db_accounts db" "db_ledger db' = db_ledger db"
    and "\<And>s. table_sum (reserved_weight s) (db_orders db') = table_sum (reserved_weight s) (db_orders db)"
    and "\<And>s. table_sum (charged_weight s) (db_orders db') = table_sum (charged_weight s) (db_orders db)"
    and "\<And>s. table_sum (margin_weight s) (db_positions db') = table_sum (margin_weight s) (db_positions db)"
  shows "funds_ok db'"
  unfolding funds_ok_def
proof
  fix s
  have "balanced s db" using assms(1) by (simp add: funds_ok_def)
  then show "balanced s db'"
    by (simp add: balanced_def get_account_def ledger_total_def assms(2-6) split: option.splits)
qed

lemma reserved_weight_set:
  assumes "dict_get (db_orders db) (order_key r) = Some r" "po_scope r' = po_scope r"
  shows "table_sum (reserved_weight s) (dict_set (order_key r) r' (db_orders db)) =
    table_sum (reserved_weight s) (db_orders db)
    + (if s = po_scope r then reserved_weight s r' - reserved_weight s r else 0)"
  using assms by (simp add: table.total_put_old [OF assms(1)] reserved_weight_def)

lemma charged_weight_set:
  assumes "dict_get (db_orders db) (order_key r) = Some r" "po_scope r' = po_scope r"
  shows "table_sum (charged_weight s) (dict_set (order_key r) r' (db_orders db)) =
    table_sum (charged_weight s) (db_orders db)
    + (if s = po_scope r then charged_weight s r' - charged_weight s r else 0)"
  using assms by (simp add: table.total_put_old [OF assms(1)] charged_weight_def)

text \<open>An order row rewritten without changing what it reserves or was charged moves nothing.\<close>

lemma funds_ok_same_order:
  assumes "funds_ok db" "stored r db" "po_scope r' = po_scope r" "is_pending (po_status r)" "is_pending (po_status r')"
    "order_reserved r' = order_reserved r"
  shows "funds_ok (db\<lparr>db_orders := dict_set (order_key r) r' (db_orders db)\<rparr>)"
proof -
  have w: "reserved_weight s r' = reserved_weight s r" "charged_weight s r' = charged_weight s r" for s
    using assms(3-6) by (auto simp: reserved_weight_def charged_weight_def is_pending_def)
  let ?t = "dict_set (order_key r) r' (db_orders db)"
  have "table_sum (reserved_weight s) ?t = table_sum (reserved_weight s) (db_orders db)" for s
    by (rule table.total_put_same_weight [OF stored_get [OF assms(2)] w(1) [symmetric]])
  moreover have "table_sum (charged_weight s) ?t = table_sum (charged_weight s) (db_orders db)" for s
    by (rule table.total_put_same_weight [OF stored_get [OF assms(2)] w(2) [symmetric]])
  ultimately show ?thesis by (intro funds_ok_cong [OF assms(1)]) simp_all
qed

section \<open>Accounts\<close>

lemma validate_scope_id: "validate_scope s = Inr t \<Longrightarrow> t = str_strip s \<and> t \<noteq> []"
  by (simp add: validate_scope_def split: if_splits)

definition rest_same :: "world \<Rightarrow> world \<Rightarrow> bool" where
  "rest_same w w' \<longleftrightarrow> db_orders (w_db w') = db_orders (w_db w) \<and> db_positions (w_db w') = db_positions (w_db w)
     \<and> db_trades (w_db w') = db_trades (w_db w) \<and> w_next w' = w_next w"

lemma get_account_ok:
  "accounts_ok db \<Longrightarrow> get_account s db = Some a \<Longrightarrow> pa_scope a = s \<and> account_ok a"
  by (auto simp: accounts_ok_def get_account_def dest: map_of_SomeD)

lemma ensure_account_ok:
  assumes env: "env_ok env" and ok: "paper_ok env w" and scope: "validate_scope scope = Inr scope"
    and r: "ensure_account env scope w = (res, w')"
  shows "\<exists>a. res = Inr a \<and> get_account scope (w_db w') = Some a \<and> pa_scope a = scope \<and> account_ok a
    \<and> paper_ok env w' \<and> rest_same w w'"
proof (cases "get_account scope (w_db w)")
  case (Some a)
  have acc: "accounts_ok (w_db w)" using ok by (simp add: paper_ok_def store_ok_def)
  show ?thesis using r Some ok get_account_ok [OF acc Some] by (auto simp: ensure_account_def rest_same_def)
next
  case None
  let ?a = "fresh_account scope (pe_default_balance env) (pe_now env)"
  let ?db = "(w_db w)\<lparr>db_accounts := dict_set scope ?a (db_accounts (w_db w))\<rparr>"
  have a_ok: "account_ok ?a" using env by (simp add: account_ok_def fresh_account_def env_ok_def)
  have row: "account_row ?a = ?a" by (rule account_row_exact [OF a_ok])
  have sc: "pa_scope ?a = scope" by (simp add: fresh_account_def)
  have res: "res = Inr ?a" "w' = w\<lparr>w_db := ?db\<rparr>"
    using r None scope by (auto simp: ensure_account_def on_db_def upsert_account_def row sc get_account_def Let_def)
  have store: "store_ok env ?db"
    using ok accounts_ok_set [OF _ a_ok, of "w_db w"] by (simp add: paper_ok_def store_ok_def sc)
  have "balanced s ?db" for s
  proof (cases "s = scope")
    case True
    have "balanced scope (w_db w)" using ok by (simp add: paper_ok_def funds_ok_def)
    then show ?thesis using True None
      by (simp add: balanced_def get_account_def ledger_total_def) (simp add: fresh_account_def)
  next
    case False
    have "balanced s (w_db w)" using ok by (simp add: paper_ok_def funds_ok_def)
    then show ?thesis using False
      by (simp add: balanced_def get_account_def ledger_total_def split: option.splits)
  qed
  then have "paper_ok env w'" using store ok by (simp add: res paper_ok_def funds_ok_def ids_ok_def)
  then show ?thesis using a_ok sc by (simp add: res get_account_def rest_same_def)
qed

section \<open>Orders\<close>

definition same_order :: "paper_order \<Rightarrow> paper_order \<Rightarrow> bool" where
  "same_order r r' \<longleftrightarrow> po_scope r' = po_scope r \<and> po_id r' = po_id r \<and> po_token r' = po_token r
     \<and> po_exchange r' = po_exchange r \<and> po_symbol r' = po_symbol r \<and> po_product r' = po_product r
     \<and> po_side r' = po_side r \<and> po_type r' = po_type r \<and> po_quantity r' = po_quantity r"

definition others_same :: "string \<times> string \<Rightarrow> world \<Rightarrow> world \<Rightarrow> bool" where
  "others_same k w w' \<longleftrightarrow> (\<forall>k'. k' \<noteq> k \<longrightarrow> dict_get (db_orders (w_db w')) k' = dict_get (db_orders (w_db w)) k')"

text \<open>The order of a key is settled: filled or rejected.\<close>

definition settled :: "paper_order \<Rightarrow> world \<Rightarrow> bool" where
  "settled r w \<longleftrightarrow> (\<exists>r'. get_order (po_scope r) (po_id r) (w_db w) = Some r' \<and> \<not> is_pending (po_status r'))"

lemma settled_row: "dict_get (db_orders (w_db w)) (order_key r) = Some r' \<Longrightarrow> \<not> is_pending (po_status r') \<Longrightarrow> settled r w"
  by (simp add: settled_def get_order_def order_key_def)

lemma others_same_trans: "others_same k w w1 \<Longrightarrow> others_same k w1 w2 \<Longrightarrow> others_same k w w2"
  by (simp add: others_same_def)

lemma same_order_key: "same_order r r' \<Longrightarrow> order_key r' = order_key r"
  by (simp add: same_order_def order_key_def)

lemma limit_price_money: "limit_price_ok ty p \<Longrightarrow> limit_price_ok ty (map_option money p)"
  by (cases p) (auto simp: limit_price_ok_def money_exact [OF on_grid_mono])

lemma order_row_price: "po_price (order_row r) = map_option money (po_price r)"
  by (simp add: order_row_def)

lemma order_ok_same:
  assumes "order_ok env r" "same_order r r'" "is_pending (po_status r)" "order_reserved r' = order_reserved r"
    "order_charges r' = order_charges r" "po_price r' = po_price r"
  shows "order_ok env (order_row r')"
  using assms limit_price_money [of "po_type r" "po_price r"]
  by (auto simp: order_ok_def same_order_def order_row_price order_reserved_def order_charges_def)

lemma order_ok_done: "\<not> is_pending (po_status r) \<Longrightarrow> order_ok env r"
  by (simp add: order_ok_def)

lemma md_dec_update:
  "distinct (map fst e) \<Longrightarrow> md_dec (dict_update m e) k =
     (case dict_get e k of None \<Rightarrow> md_dec m k | Some v \<Rightarrow> (case jnum v of None \<Rightarrow> 0 | Some x \<Rightarrow> x))"
  by (simp add: md_dec_def obj_num_def obj_get_def dict_get_update split: option.splits)

lemma md_dec_set: "md_dec (dict_set k' v m) k = (if k = k' then (case jnum v of None \<Rightarrow> 0 | Some x \<Rightarrow> x) else md_dec m k)"
  by (simp add: md_dec_def obj_num_def obj_get_def)

text \<open>Latching a stop trigger rewrites one pending order and moves no money.\<close>

lemma persist_stop_ok:
  assumes ok: "paper_ok env w" and st: "stored r (w_db w)" and p: "is_pending (po_status r)"
    and r: "persist_stop_limit_trigger_state env r rq sn w = (res, w')"
  shows "\<exists>r'. res = Inr r' \<and> same_order r r' \<and> po_status r' = po_status r \<and> stored r' (w_db w') \<and> paper_ok env w'
    \<and> others_same (order_key r) w w' \<and> db_accounts (w_db w') = db_accounts (w_db w)
    \<and> db_positions (w_db w') = db_positions (w_db w) \<and> order_reserved r' = order_reserved r
    \<and> stop_triggered r' = (stop_triggered r \<or> po_type r = Sl \<and> stop_limit_trigger_reached rq sn)"
proof (cases "po_type r \<noteq> Sl \<or> stop_triggered r \<or> \<not> stop_limit_trigger_reached rq sn")
  case True
  then show ?thesis using assms
    by (auto simp: persist_stop_limit_trigger_state_def same_order_def others_same_def)
next
  case False
  let ?r = "r\<lparr>po_updated_at := pe_now env, po_metadata := dict_update (po_metadata r)
    [(''stop_triggered'', JBool True), (''stop_triggered_at'', JTime (pe_now env))]\<rparr>"
  let ?db = "(w_db w)\<lparr>db_orders := dict_set (order_key r) (order_row ?r) (db_orders (w_db w))\<rparr>"
  have md: "order_reserved ?r = order_reserved r" "order_charges ?r = order_charges r"
    by (simp_all add: order_reserved_def order_charges_def md_dec_update md_dec_set)
  have same: "same_order r ?r" by (simp add: same_order_def)
  have "update_order ?r (w_db w) = (Inr (order_row ?r), ?db)"
    by (rule update_order_stored [OF st]) simp_all
  then have res: "res = Inr (order_row ?r)" "w' = w\<lparr>w_db := ?db\<rparr>"
    using r False by (auto simp: persist_stop_limit_trigger_state_def on_db_def)
  have oks: "orders_ok env (db_orders (w_db w))" using ok by (simp add: paper_ok_def store_ok_def)
  have rok: "order_ok env (order_row ?r)"
    using orders_ok_get [OF oks stored_get [OF st]] 
    by (intro order_ok_same [OF _ same p md]) simp_all
  have k: "order_key (order_row ?r) = order_key r" by (simp add: order_key_def)
  have "orders_ok env (db_orders ?db)" using orders_ok_set [OF oks rok] k by simp
  moreover have "funds_ok ?db"
    using ok p md by (intro funds_ok_same_order [OF _ st]) (simp_all add: paper_ok_def order_reserved_def)
  ultimately have "paper_ok env w'"
    using ok by (simp add: res paper_ok_def store_ok_def ids_ok_def accounts_ok_def)
  moreover have "stop_triggered (order_row ?r)" by (simp add: stop_triggered_def obj_get_def)
  ultimately show ?thesis using md k False
    by (simp add: res same_order_def stored_def get_order_def order_key_def others_same_def order_reserved_def)
qed

section \<open>Fills\<close>

lemma consume_lots_frame:
  "db_accounts (consume_lots now ls q db) = db_accounts db \<and> db_orders (consume_lots now ls q db) = db_orders db
   \<and> db_trades (consume_lots now ls q db) = db_trades db \<and> db_positions (consume_lots now ls q db) = db_positions db
   \<and> db_ledger (consume_lots now ls q db) = db_ledger db"
  by (induction ls arbitrary: q db) (simp_all add: Let_def upsert_position_lot_def)

definition only_lots :: "world \<Rightarrow> world \<Rightarrow> bool" where
  "only_lots w w' \<longleftrightarrow> (\<exists>ls. w_db w' = (w_db w)\<lparr>db_lots := ls\<rparr>) \<and> w_next w \<le> w_next w'"

lemma record_lots_frame: "only_lots w (record_lots env r tr price w)"
proof (cases "po_side r")
  case Buy
  then show ?thesis
    by (simp add: record_lots_def only_lots_def new_id_def on_db_def upsert_position_lot_def) blast
next
  case Sell
  have "\<exists>ls. consume_lots now l q db = db\<lparr>db_lots := ls\<rparr>" for now l q db
    using consume_lots_frame [of now l q db]
    by (intro exI [of _ "db_lots (consume_lots now l q db)"] paper_store.equality) simp_all
  moreover have "\<exists>ls. db = db\<lparr>db_lots := ls\<rparr>" for db :: paper_store
    by (rule exI [of _ "db_lots db"]) simp
  ultimately show ?thesis using Sell
    by (auto simp: record_lots_def only_lots_def consume_position_lots_def Let_def)
qed

definition completed_order :: "paper_env \<Rightarrow> paper_order \<Rightarrow> dec \<Rightarrow> paper_order" where
  "completed_order env r price = order_row (r\<lparr>po_status := FilledStatus, po_filled := po_quantity r, po_pending := 0,
     po_average := Some price, po_updated_at := pe_now env, po_completed_at := Some (pe_now env)\<rparr>)"

definition filled_position :: "paper_order \<Rightarrow> dec \<Rightarrow> paper_position \<Rightarrow> dec \<Rightarrow> paper_position" where
  "filled_position r price np m =
     position_row (np\<lparr>pp_metadata := position_fill_metadata (pp_metadata np) (po_metadata r) m price\<rparr>)"

lemma fresh_trade:
  assumes "ids_ok env w" "inj (pe_uuid env)"
  shows "dict_get (db_trades (w_db w)) (s, ''PTRD-'' @ pe_uuid env (w_next w)) = None"
proof (rule ccontr)
  assume "dict_get (db_trades (w_db w)) (s, ''PTRD-'' @ pe_uuid env (w_next w)) \<noteq> None"
  then obtain t where "((s, ''PTRD-'' @ pe_uuid env (w_next w)), t) \<in> set (db_trades (w_db w))"
    by (auto dest: map_of_SomeD)
  then obtain i where "i < w_next w" "pe_uuid env (w_next w) = pe_uuid env i"
    using assms(1) by (auto simp: ids_ok_def)
  then show False using injD [OF assms(2)] by auto
qed

lemma db_only: "w1 = w\<lparr>w_db := db\<rparr> \<Longrightarrow> w_next w1 = w_next w \<and> w_events w1 = w_events w"
  by simp

lemma ids_ok_mono:
  assumes "ids_ok env w" "db_trades (w_db w') = db_trades (w_db w)" "w_next w \<le> w_next w'"
  shows "ids_ok env w'"
  using assms(1) less_le_trans [OF _ assms(3)] unfolding ids_ok_def assms(2) by blast

lemma ids_ok_add:
  assumes "ids_ok env w" "db_trades (w_db w') = dict_set (s, ''PTRD-'' @ pe_uuid env (w_next w)) t (db_trades (w_db w))"
    "w_next w' = Suc (w_next w)"
  shows "ids_ok env w'"
  unfolding ids_ok_def
proof clarify
  fix s1 k1 t1
  assume "((s1, k1), t1) \<in> set (db_trades (w_db w'))"
  then have "((s1, k1), t1) \<in> set (db_trades (w_db w)) \<or> k1 = ''PTRD-'' @ pe_uuid env (w_next w)"
    using set_dict_set [of "(s, ''PTRD-'' @ pe_uuid env (w_next w))" t "db_trades (w_db w)"]
    unfolding assms(2) by blast
  then show "\<exists>i < w_next w'. snd (s1, k1) = ''PTRD-'' @ pe_uuid env i"
  proof
    assume "((s1, k1), t1) \<in> set (db_trades (w_db w))"
    then obtain i where "i < w_next w" "k1 = ''PTRD-'' @ pe_uuid env i" using assms(1) by (force simp: ids_ok_def)
    then show ?thesis using assms(3) by (intro exI [of _ i]) simp
  next
    assume "k1 = ''PTRD-'' @ pe_uuid env (w_next w)"
    then show ?thesis using assms(3) by (intro exI [of _ "w_next w"]) simp
  qed
qed

lemma book_fill_ok:
  assumes ids: "ids_ok env w" "inj (pe_uuid env)" and st: "stored r (w_db w)"
    and r: "book_fill env r price np m w = (res, w')"
  shows "(\<exists>tr. res = Inr (ResFilled (completed_order env r price) tr (filled_position r price np m)))
    \<and> db_accounts (w_db w') = db_accounts (w_db w) \<and> db_ledger (w_db w') = db_ledger (w_db w)
    \<and> db_orders (w_db w') = dict_set (order_key r) (completed_order env r price) (db_orders (w_db w))
    \<and> db_positions (w_db w') = dict_set (position_key np) (filled_position r price np m) (db_positions (w_db w))
    \<and> ids_ok env w'"
proof -
  let ?c = "completed_order env r price" and ?f = "filled_position r price np m"
  let ?tid = "''PTRD-'' @ pe_uuid env (w_next w)"
  let ?T = "\<lparr>pt_scope = po_scope r, pt_id = ?tid, pt_order_id = po_id r, pt_token = po_token r,
    pt_side = po_side r, pt_quantity = po_quantity r, pt_price = price, pt_timestamp = pe_now env,
    pt_metadata = dict_update (po_metadata r) [(''exchange'', JStr (po_exchange r)),
      (''tradingsymbol'', JStr (po_symbol r)), (''product'', JStr (po_product r))]\<rparr>"
  define tr where "tr = trade_row ?T"
  define w1 where "w1 = w\<lparr>w_db := (w_db w)\<lparr>db_orders := dict_set (order_key r) ?c (db_orders (w_db w))\<rparr>\<rparr>"
  define w2 where "w2 = w1\<lparr>w_next := Suc (w_next w1)\<rparr>"
  define w3 where "w3 = w2\<lparr>w_db := (w_db w2)\<lparr>db_trades := dict_set (po_scope r, ?tid) tr (db_trades (w_db w2))\<rparr>\<rparr>"
  define w4 where "w4 = record_lots env r tr price w3"
  have l: "only_lots w3 w4" unfolding w4_def by (rule record_lots_frame)
  have "update_order (r\<lparr>po_status := FilledStatus, po_filled := po_quantity r, po_pending := 0,
      po_average := Some price, po_updated_at := pe_now env, po_completed_at := Some (pe_now env)\<rparr>) (w_db w) =
    (Inr ?c, (w_db w)\<lparr>db_orders := dict_set (order_key r) ?c (db_orders (w_db w))\<rparr>)"
    unfolding completed_order_def by (rule update_order_stored [OF st]) simp_all
  then have u1: "on_db (update_order (r\<lparr>po_status := FilledStatus, po_filled := po_quantity r, po_pending := 0,
      po_average := Some price, po_updated_at := pe_now env, po_completed_at := Some (pe_now env)\<rparr>)) w = (Inr ?c, w1)"
    by (simp add: on_db_def w1_def)
  have u2: "new_id ''PTRD-'' env w1 = (?tid, w2)" by (simp add: new_id_def w1_def w2_def)
  have "dict_get (db_trades (w_db w2)) (po_scope r, ?tid) = None"
    using fresh_trade [OF ids] by (simp add: w2_def w1_def)
  then have u3: "on_db (insert_trade ?T) w2 = (Inr tr, w3)"
    by (simp add: on_db_def insert_trade_def dict_has_def w3_def tr_def)
  have u4: "on_db (upsert_position (np\<lparr>pp_metadata := position_fill_metadata (pp_metadata np) (po_metadata r) m price\<rparr>)) w4
     = (?f, w4\<lparr>w_db := (w_db w4)\<lparr>db_positions := dict_set (position_key np) ?f (db_positions (w_db w4))\<rparr>\<rparr>)"
    by (simp add: on_db_def upsert_position_def filled_position_def position_key_def)
  have b: "book_fill env r price np m w = (Inr (ResFilled ?c tr ?f), publish_event (PositionEvent ''updated'' ?f)
     (publish_event (TradeEvent ''filled'' tr) (publish_event (OrderEvent ''filled'' ?c)
       (w4\<lparr>w_db := (w_db w4)\<lparr>db_positions := dict_set (position_key np) ?f (db_positions (w_db w4))\<rparr>\<rparr>))))"
    unfolding book_fill_def u1 bind_ok_simps u2 Let_def prod.case u3 w4_def [symmetric] u4 ..
  from l obtain ls where db4: "w_db w4 = (w_db w3)\<lparr>db_lots := ls\<rparr>" and n4: "w_next w3 \<le> w_next w4"
    by (auto simp: only_lots_def)
  have "ids_ok env w3"
    by (rule ids_ok_add [OF ids(1)]) (simp_all add: w3_def w2_def w1_def)
  then have i4: "ids_ok env w4" by (rule ids_ok_mono) (simp_all add: db4 n4)
  have "res = Inr (ResFilled ?c tr ?f)" and w': "w' = publish_event (PositionEvent ''updated'' ?f)
     (publish_event (TradeEvent ''filled'' tr) (publish_event (OrderEvent ''filled'' ?c)
       (w4\<lparr>w_db := (w_db w4)\<lparr>db_positions := dict_set (position_key np) ?f (db_positions (w_db w4))\<rparr>\<rparr>)))"
    using r unfolding b by simp_all
  moreover have "ids_ok env w'" by (rule ids_ok_mono [OF i4]) (simp_all add: w' publish_event_def)
  ultimately show ?thesis by (simp add: publish_event_def db4 w3_def w2_def w1_def)
qed

lemma apply_fill_sel [simp]:
  "pp_token (apply_fill_to_position scope pos rq price ins now) = in_token ins"
  "pp_product (apply_fill_to_position scope pos rq price ins now) = rq_product rq"
  by (simp_all add: apply_fill_to_position_def Let_def)

definition old_realized :: "paper_position option \<Rightarrow> dec" where
  "old_realized pos = (case pos of None \<Rightarrow> 0 | Some p \<Rightarrow> pp_realized p)"

lemma apply_fill_realized_grid:
  assumes "on_grid 4 price" "pos = None \<or> (\<exists>p. pos = Some p \<and> position_ok p)"
  shows "on_grid 6 (pp_realized (apply_fill_to_position scope pos rq price ins now) - old_realized pos)"
proof (cases pos)
  case None
  then show ?thesis by (simp add: apply_fill_to_position_def Let_def old_realized_def)
next
  case (Some p)
  have p6: "on_grid 6 price" by (rule on_grid_mono [OF assms(1)]) simp
  have a6: "on_grid 6 (pp_average p)" using assms(2) Some by (simp add: position_ok_def)
  have "on_grid 6 ((price - pp_average p) * of_int k)" "on_grid 6 ((pp_average p - price) * of_int k)" for k
    using p6 a6 by (auto intro: on_grid_intros)
  then show ?thesis using Some by (simp add: apply_fill_to_position_def Let_def old_realized_def)
qed

lemma position_margin_ok:
  assumes "on_grid 4 ref" "0 < ref"
  shows "on_grid 6 (position_margin pos it ref) \<and> 0 \<le> position_margin pos it ref"
  using assms required_margin_nonneg required_margin_on_grid by (simp add: position_margin_def split: option.splits)

lemma margin_in_use_recorded: "position_ok p \<Longrightarrow> position_margin_in_use (Some p) it ref = position_recorded p"
  by (auto simp: position_margin_in_use_def position_recorded_def position_ok_def md_dec_def)

lemma position_recorded_ok: "position_ok p \<Longrightarrow> on_grid 6 (position_recorded p) \<and> 0 \<le> position_recorded p"
  by (auto simp: position_recorded_def position_ok_def md_dec_def)

lemma dict_update_other: "k \<notin> fst ` set e \<Longrightarrow> dict_get (dict_update d e) k = dict_get d k"
  by (induction e arbitrary: d) auto

lemma fill_metadata_margin: "obj_num (position_fill_metadata pm om m price) ''margin_in_use'' = Some m"
proof -
  have "''margin_in_use'' \<notin> fst ` set (filter (\<lambda>(k, v). k \<in> set carried_keys \<and> jpresent v) om)"
    by (auto simp: carried_keys_def)
  then show ?thesis
    by (simp add: position_fill_metadata_def obj_num_def obj_get_def dict_update_other)
qed

lemma filled_position_ok:
  assumes "0 \<le> m" "on_grid 6 m"
  shows "position_ok (filled_position r price np m)"
  using assms by (simp add: position_ok_def filled_position_def fill_metadata_margin) (simp add: position_row_def)

lemma filled_position_recorded:
  "position_recorded (filled_position r price np (position_margin (Some np) it ref)) = position_margin (Some np) it ref"
  by (simp add: position_recorded_def filled_position_def md_dec_def fill_metadata_margin position_margin_def)

lemma filled_position_key: "position_key (filled_position r price np m) = position_key np"
  by (simp add: filled_position_def position_key_def)

lemma margin_weight_set:
  assumes "positions_ok t" "pp_scope p' = fst (position_key p')"
  shows "table_sum (margin_weight s) (dict_set (position_key p') p' t) = table_sum (margin_weight s) t
    + (if s = pp_scope p' then position_recorded p'
         - (case dict_get t (position_key p') of None \<Rightarrow> 0 | Some p \<Rightarrow> position_recorded p) else 0)"
proof (cases "dict_get t (position_key p')")
  case None
  then show ?thesis by (simp add: table_sum_set margin_weight_def)
next
  case (Some p)
  then have "pp_scope p = pp_scope p'" using positions_ok_get [OF assms(1) Some] by (simp add: position_key_def)
  then show ?thesis using Some by (simp add: table_sum_set margin_weight_def)
qed

text \<open>The effect of a fill on the books.\<close>

lemma fill_books:
  assumes env: "inj (pe_uuid env)" and ok: "paper_ok env w" and st: "stored r (w_db w)" and p: "is_pending (po_status r)"
    and acc: "get_account (po_scope r) (w_db w) = Some a"
    and m: "m = position_margin (Some np) it price" and m_ok: "on_grid 6 m" "0 \<le> m"
    and np: "position_key np = (po_scope r, po_token r, po_product r)"
    and old: "old = (case get_position (po_scope r) (po_token r) (po_product r) (w_db w) of None \<Rightarrow> 0 | Some p \<Rightarrow> position_recorded p)"
    and rd: "on_grid 6 rd"
    and b: "book_funds env a (po_id r) (m - (old + order_reserved r)) (order_charges r) rd w = (a1, w1)"
    and f: "book_fill env r price np m w1 = (res, w')"
  shows "paper_ok env w' \<and> others_same (order_key r) w w' \<and> get_account (po_scope r) (w_db w') = Some a1
    \<and> (\<exists>c t p. res = Inr (ResFilled c t p)) \<and> settled r w'"
proof -
  have sok: "accounts_ok (w_db w)" "orders_ok env (db_orders (w_db w))" "positions_ok (db_positions (w_db w))"
    and fok: "funds_ok (w_db w)" and ids: "ids_ok env w"
    using ok by (simp_all add: paper_ok_def store_ok_def)
  have aok: "pa_scope a = po_scope r" "account_ok a" using get_account_ok [OF sok(1) acc] by simp_all
  have rok: "on_grid 6 (order_reserved r)" "on_grid 6 (order_charges r)" "0 \<le> order_charges r"
    using orders_ok_get [OF sok(2) stored_get [OF st]] p by (simp_all add: order_ok_def)
  have old6: "on_grid 6 old"
    using positions_ok_get [OF sok(3)] position_recorded_ok unfolding old get_position_def
    by (simp split: option.splits)
  have s: "account_step a a1 (- (m - (old + order_reserved r)) - order_charges r + rd) (m - (old + order_reserved r)) rd (w_db w) (w_db w1)
    \<and> w1 = w\<lparr>w_db := w_db w1\<rparr>"
    using acc aok rok m_ok old6 rd by (intro book_funds_step [OF _ _ _ _ _ _ b]) (auto intro!: on_grid_intros)
  then have st1: "stored r (w_db w1)" using st by (simp add: account_step_def stored_def get_order_def)
  have id1: "ids_ok env w1"
    using s db_only [OF conjunct2 [OF s]] by (intro ids_ok_mono [OF ids]) (simp_all add: account_step_def)
  let ?c = "completed_order env r price" and ?f = "filled_position r price np m"
  note eff = book_fill_ok [OF id1 env st1 f]
  have cw: "reserved_weight t ?c = 0" "charged_weight t ?c = (if t = po_scope r then order_charges r else 0)"
      "reserved_weight t r = (if t = po_scope r then order_reserved r else 0)" "charged_weight t r = 0" "po_scope ?c = po_scope r"
      "order_key ?c = order_key r" for t
    using p by (auto simp: reserved_weight_def charged_weight_def completed_order_def is_pending_def order_charges_def order_key_def)
  have ord: "db_orders (w_db w') = dict_set (order_key r) ?c (db_orders (w_db w))"
    and pos: "db_positions (w_db w') = dict_set (position_key ?f) ?f (db_positions (w_db w))"
    using eff s by (simp_all add: account_step_def filled_position_key)
  have fs: "pp_scope ?f = po_scope r" "position_key ?f = (po_scope r, po_token r, po_product r)"
    using np by (simp_all add: filled_position_key) (simp add: filled_position_def position_key_def)
  have frec: "position_recorded ?f = m" unfolding m by (rule filled_position_recorded)
  have "funds_ok (w_db w')"
  proof (rule balanced_move [OF fok conjunct1 [OF s]])
    show "get_account (pa_scope a) (w_db w) = Some a" using acc aok by simp
    show "table_sum (reserved_weight t) (db_orders (w_db w')) = table_sum (reserved_weight t) (db_orders (w_db w))
        + (if t = pa_scope a then - order_reserved r else 0)" for t
      unfolding ord reserved_weight_set [OF stored_get [OF st] cw(5)] by (simp add: cw aok)
    show "table_sum (charged_weight t) (db_orders (w_db w')) = table_sum (charged_weight t) (db_orders (w_db w))
        + (if t = pa_scope a then order_charges r else 0)" for t
      unfolding ord charged_weight_set [OF stored_get [OF st] cw(5)] by (simp add: cw aok)
    show "table_sum (margin_weight t) (db_positions (w_db w')) = table_sum (margin_weight t) (db_positions (w_db w))
        + (if t = pa_scope a then m - old else 0)" for t
      unfolding pos by (subst margin_weight_set [OF sok(3)]) (simp_all add: fs aok frec old get_position_def)
  qed (use eff in simp_all)
  moreover have "store_ok env (w_db w')"
  proof -
    have "accounts_ok (w_db w')" using s sok(1) eff by (simp add: account_step_def accounts_ok_def)
    moreover have "orders_ok env (db_orders (w_db w'))"
      using orders_ok_set [OF sok(2) order_ok_done, of ?c] unfolding ord by (simp add: cw) (simp add: completed_order_def is_pending_def)
    moreover have "positions_ok (db_positions (w_db w'))"
      unfolding pos using sok(3) m_ok by (intro positions_ok_set filled_position_ok) simp_all
    ultimately show ?thesis by (simp add: store_ok_def)
  qed
  moreover have "others_same (order_key r) w w'" by (simp add: others_same_def ord)
  moreover have "settled r w'"
    by (rule settled_row [of _ _ ?c]) (simp_all add: ord, simp add: completed_order_def is_pending_def)
  moreover have "get_account (po_scope r) (w_db w') = Some a1"
    using s eff aok by (simp add: account_step_def get_account_def)
  ultimately show ?thesis using eff by (auto simp: paper_ok_def)
qed

text \<open>The effect of turning a pending order down at fill time: its reservation is released.\<close>

lemma reject_books:
  assumes ok: "paper_ok env w" and st: "stored r (w_db w)" and p: "is_pending (po_status r)"
    and acc: "get_account (po_scope r) (w_db w) = Some a"
    and r': "po_scope r' = po_scope r" "po_id r' = po_id r" "po_token r' = po_token r"
      "po_placed_at r' = po_placed_at r" "po_status r' = RejectedStatus"
    and u: "on_db (update_order r') w = (Inr row, w1)" and d: "apply_account_delta env a (- order_reserved r) oid w1 = (a1, w2)"
  shows "paper_ok env w2 \<and> others_same (order_key r) w w2 \<and> settled r w2"
proof -
  have sok: "accounts_ok (w_db w)" "orders_ok env (db_orders (w_db w))" "positions_ok (db_positions (w_db w))"
    and fok: "funds_ok (w_db w)" and ids: "ids_ok env w"
    using ok by (simp_all add: paper_ok_def store_ok_def)
  have aok: "pa_scope a = po_scope r" "account_ok a" using get_account_ok [OF sok(1) acc] by simp_all
  have rok: "on_grid 6 (- order_reserved r)"
    using orders_ok_get [OF sok(2) stored_get [OF st]] p by (simp add: order_ok_def on_grid_uminus)
  let ?row = "order_row r'"
  have w1: "w1 = w\<lparr>w_db := (w_db w)\<lparr>db_orders := dict_set (order_key r) ?row (db_orders (w_db w))\<rparr>\<rparr>"
    using u update_order_stored [OF st r'(1-4)] by (auto simp: on_db_def)
  have s: "account_step a a1 (- (- order_reserved r)) (- order_reserved r) 0 (w_db w1) (w_db w2) \<and> w2 = w1\<lparr>w_db := w_db w2\<rparr>"
    using acc aok by (intro apply_account_delta_step [OF _ _ rok d]) (simp_all add: w1 get_account_def)
  have ord: "db_orders (w_db w2) = dict_set (order_key r) ?row (db_orders (w_db w))"
    and pos: "db_positions (w_db w2) = db_positions (w_db w)" and tr: "db_trades (w_db w2) = db_trades (w_db w)"
    using s by (simp_all add: account_step_def w1)
  have cw: "reserved_weight t ?row = 0" "charged_weight t ?row = 0" "charged_weight t r = 0" "po_scope ?row = po_scope r"
      "reserved_weight t r = (if t = po_scope r then order_reserved r else 0)" "order_key ?row = order_key r" for t
    using p r' by (auto simp: reserved_weight_def charged_weight_def is_pending_def order_key_def)
  have "funds_ok (w_db w2)"
  proof (rule balanced_move [OF fok conjunct1 [OF s], where dM = 0 and dC = 0 and dR = "- order_reserved r"])
    show "get_account (pa_scope a) (w_db w) = Some a" using acc aok by simp
    show "table_sum (reserved_weight t) (db_orders (w_db w2)) = table_sum (reserved_weight t) (db_orders (w_db w))
        + (if t = pa_scope a then - order_reserved r else 0)" for t
      unfolding ord reserved_weight_set [OF stored_get [OF st] cw(4)] by (simp add: cw aok)
    show "table_sum (charged_weight t) (db_orders (w_db w2)) = table_sum (charged_weight t) (db_orders (w_db w))
        + (if t = pa_scope a then 0 else 0)" for t
      unfolding ord charged_weight_set [OF stored_get [OF st] cw(4)] by (simp add: cw)
  qed (simp_all add: w1 pos)
  moreover have "orders_ok env (db_orders (w_db w2))"
    using orders_ok_set [OF sok(2) order_ok_done, of ?row] r'(5) unfolding ord by (simp add: cw is_pending_def)
  moreover have "accounts_ok (w_db w2)" using s sok(1) by (simp add: account_step_def accounts_ok_def w1)
  moreover have "ids_ok env w2"
    using db_only [OF conjunct2 [OF s]] by (intro ids_ok_mono [OF ids]) (simp_all add: tr w1)
  moreover have "settled r w2" by (rule settled_row [of _ _ ?row]) (simp_all add: ord r' is_pending_def)
  ultimately show ?thesis using sok(3) by (simp add: paper_ok_def store_ok_def pos others_same_def ord)
qed

lemma paper_ok_event: "paper_ok env (publish_event e w) = paper_ok env w"
  by (simp add: paper_ok_def publish_event_def ids_ok_def)

lemma settled_event: "settled r (publish_event e w) = settled r w"
  by (simp add: settled_def publish_event_def)

lemma others_same_event: "others_same k w (publish_event e w') = others_same k w w'"
  by (simp add: others_same_def publish_event_def)

text \<open>
  What a fill needs: a stored pending order of an existing account, the instrument it was
  placed on, a usable price and the current position row.
\<close>

definition fillable :: "paper_env \<Rightarrow> paper_order \<Rightarrow> paper_account \<Rightarrow> order_request \<Rightarrow> instrument \<Rightarrow> dec
    \<Rightarrow> paper_position option \<Rightarrow> world \<Rightarrow> bool" where
  "fillable env r a rq ins price existing w \<longleftrightarrow>
     stored r (w_db w) \<and> is_pending (po_status r) \<and> get_account (po_scope r) (w_db w) = Some a
     \<and> in_token ins = po_token r \<and> rq_product rq = po_product r \<and> on_grid 4 price \<and> 0 < price
     \<and> existing = get_position (po_scope r) (po_token r) (po_product r) (w_db w)"

lemma fill_numbers:
  assumes ok: "paper_ok env w" and f: "fillable env r a rq ins price existing w"
    and np: "np = (apply_fill_to_position (po_scope r) existing rq price ins (pe_now env))\<lparr>pp_scope := po_scope r\<rparr>"
  shows "position_key np = (po_scope r, po_token r, po_product r)"
    "position_margin_in_use existing (in_type ins) price = (case existing of None \<Rightarrow> 0 | Some p \<Rightarrow> position_recorded p)"
    "on_grid 6 (pp_realized np - old_realized existing)"
    "on_grid 6 (position_margin (Some np) (in_type ins) price)" "0 \<le> position_margin (Some np) (in_type ins) price"
proof -
  have pos: "existing = None \<or> (\<exists>p. existing = Some p \<and> position_ok p)"
    using ok f positions_ok_get by (cases existing) (auto simp: fillable_def get_position_def paper_ok_def store_ok_def)
  show "position_margin_in_use existing (in_type ins) price = (case existing of None \<Rightarrow> 0 | Some p \<Rightarrow> position_recorded p)"
    using pos margin_in_use_recorded by (auto simp: position_margin_in_use_def)
  show "on_grid 6 (pp_realized np - old_realized existing)"
    using apply_fill_realized_grid [OF _ pos] f by (simp add: np fillable_def)
  show "position_key np = (po_scope r, po_token r, po_product r)"
    using f by (simp add: np position_key_def fillable_def)
  show "on_grid 6 (position_margin (Some np) (in_type ins) price)" "0 \<le> position_margin (Some np) (in_type ins) price"
    using position_margin_ok f by (simp_all add: fillable_def)
qed

lemma fill_order_ok:
  assumes env: "inj (pe_uuid env)" and ok: "paper_ok env w" and f: "fillable env r a rq ins price existing w"
    and res: "fill_order env r a rq ins price existing w = (res, w')"
  shows "paper_ok env w' \<and> others_same (order_key r) w w' \<and> settled r w' \<and> (\<exists>x. res = Inr x)"
proof -
  define np where "np = (apply_fill_to_position (po_scope r) existing rq price ins (pe_now env))\<lparr>pp_scope := po_scope r\<rparr>"
  define m where "m = position_margin (Some np) (in_type ins) price"
  define old where "old = position_margin_in_use existing (in_type ins) price"
  note nums = fill_numbers [OF ok f np_def]
  note F = f [unfolded fillable_def]
  have fo: "fill_order env r a rq ins price existing w =
     (if pa_available a - (m - (old + order_reserved r)) - order_charges r < 0 then
           bind_ok (on_db (update_order (r\<lparr>po_status := RejectedStatus, po_updated_at := pe_now env,
                      po_metadata := dict_set ''rejection_reason'' (JStr fill_shortfall) (po_metadata r)\<rparr>)) w)
             (\<lambda>rejected w1.
                let (a1, w2) = apply_account_delta env a (- order_reserved r) (po_id rejected) w1
                in (Inr (ResRejected fill_shortfall rejected),
                    publish_event (OrderEvent ''rejected'' rejected) w2))
         else
           let (a1, w1) = book_funds env a (po_id r) (m - (old + order_reserved r)) (order_charges r)
                 (pp_realized np - old_realized existing) w
           in book_fill env r price np m w1)"
    unfolding fill_order_def Let_def np_def m_def old_def order_reserved_def order_charges_def old_realized_def ..
  show ?thesis
  proof (cases "pa_available a - (m - (old + order_reserved r)) - order_charges r < 0")
    case True
    let ?r = "r\<lparr>po_status := RejectedStatus, po_updated_at := pe_now env,
      po_metadata := dict_set ''rejection_reason'' (JStr fill_shortfall) (po_metadata r)\<rparr>"
    have "update_order ?r (w_db w) = (Inr (order_row ?r), (w_db w)\<lparr>db_orders := dict_set (order_key r) (order_row ?r) (db_orders (w_db w))\<rparr>)"
      by (rule update_order_stored) (use F in simp_all)
    then obtain w1 where u: "on_db (update_order ?r) w = (Inr (order_row ?r), w1)" by (simp add: on_db_def)
    obtain a1 w2 where d: "apply_account_delta env a (- order_reserved r) (po_id (order_row ?r)) w1 = (a1, w2)" by force
    have "w' = publish_event (OrderEvent ''rejected'' (order_row ?r)) w2" "\<exists>x. res = Inr x"
      using res True unfolding fo u bind_ok_simps d by auto
    then show ?thesis using reject_books [OF ok _ _ _ _ _ _ _ _ u d] F
      by (simp add: paper_ok_event others_same_event settled_event)
  next
    case False
    obtain a1 w1 where b: "book_funds env a (po_id r) (m - (old + order_reserved r)) (order_charges r)
                 (pp_realized np - old_realized existing) w = (a1, w1)" by force
    have f2: "book_fill env r price np m w1 = (res, w')" using res False unfolding fo b by simp
    have "paper_ok env w' \<and> others_same (order_key r) w w' \<and> get_account (po_scope r) (w_db w') = Some a1
      \<and> (\<exists>c t p. res = Inr (ResFilled c t p)) \<and> settled r w'"
      by (rule fill_books [OF env ok _ _ _ m_def _ _ nums(1) _ nums(3) b f2])
        (use F nums in \<open>simp_all add: m_def old_def\<close>)
    then show ?thesis by blast
  qed
qed

end
