(* ===== verification/PaperHandlers.thy ===== *)
theory PaperHandlers
  imports PaperInvariant
begin

text \<open>
  The handlers that place orders, baskets and ticks keep the invariant of \<open>PaperFunds\<close>: the
  steps of \<open>PaperInvariant\<close> composed along every branch, the errors included.
\<close>

section \<open>Order types\<close>

lemma of_char_upper: "(of_char (char_upper c) :: nat) = (let n = of_char c in if 97 \<le> n \<and> n \<le> 122 then n - 32 else n)"
  by (auto simp: char_upper_def Let_def intro!: mod_less)

lemma of_char_lower: "(of_char (char_lower c) :: nat) = (let n = of_char c in if 65 \<le> n \<and> n \<le> 90 then n + 32 else n)"
  by (simp add: char_lower_def Let_def)

lemma lower_upper_letter:
  assumes "char_lower (if char_upper c = CHR ''-'' then CHR ''_'' else char_upper c) = d"
    and "97 \<le> (of_char d :: nat)" "of_char d \<le> (122 :: nat)"
  shows "char_upper c = char_upper d"
proof -
  let ?n = "of_char (char_upper c) :: nat"
  have "char_upper c \<noteq> CHR ''-''"
  proof
    assume "char_upper c = CHR ''-''"
    then have "(of_char d :: nat) = 95" using assms(1) of_char_lower [of "CHR ''_''"] by simp
    then show False using assms(2) by simp
  qed
  then have d: "char_lower (char_upper c) = d" using assms(1) by simp
  have u: "\<not> (97 \<le> ?n \<and> ?n \<le> 122)" by (auto simp: of_char_upper Let_def)
  have l: "(of_char d :: nat) = (if 65 \<le> ?n \<and> ?n \<le> 90 then ?n + 32 else ?n)"
    using of_char_lower [of "char_upper c"] by (simp add: d Let_def)
  have "(of_char (char_upper d) :: nat) = of_char d - 32" using assms(2,3) by (simp add: of_char_upper Let_def)
  then have "(of_char (char_upper d) :: nat) = ?n" using l u assms(2,3) by (simp split: if_splits)
  then show ?thesis by simp
qed

lemma lower_upper_string:
  assumes "str_lower (replace_dash (str_upper s)) = t" "\<forall>d \<in> set t. 97 \<le> (of_char d :: nat) \<and> of_char d \<le> (122 :: nat)"
  shows "str_upper s = str_upper t"
  using assms
proof (induction s arbitrary: t)
  case Nil
  then show ?case by (simp add: str_lower_def replace_dash_def str_upper_def)
next
  case (Cons c s)
  then obtain d t' where t: "t = d # t'" by (cases t) (auto simp: str_lower_def replace_dash_def str_upper_def)
  have "char_upper c = char_upper d"
    using lower_upper_letter [of c d] Cons.prems by (simp add: t str_lower_def replace_dash_def str_upper_def)
  moreover have "str_upper s = str_upper t'"
    using Cons.IH [of t'] Cons.prems by (simp add: t str_lower_def replace_dash_def str_upper_def)
  ultimately show ?case by (simp add: t str_upper_def)
qed

lemma limit_type:
  assumes "order_type_of (str_lower (replace_dash (str_upper s))) = Some ty"
  shows "ty = Limit \<Longrightarrow> str_upper s = ''LIMIT''" "ty = Sl \<Longrightarrow> str_upper s = ''SL''"
proof -
  have up: "str_upper ''limit'' = ''LIMIT''" "str_upper ''sl'' = ''SL''" by code_simp+
  show "ty = Limit \<Longrightarrow> str_upper s = ''LIMIT''"
    using assms lower_upper_string [of s "''limit''"] up by (simp add: order_type_of_def split: if_splits)
  show "ty = Sl \<Longrightarrow> str_upper s = ''SL''"
    using assms lower_upper_string [of s "''sl''"] up by (simp add: order_type_of_def split: if_splits)
qed

section \<open>Requests\<close>

definition request_ok :: "order_request \<Rightarrow> bool" where
  "request_ok rq \<longleftrightarrow> (\<forall>x. rq_price rq = Some x \<longrightarrow> on_grid 4 x) \<and> (\<forall>x. rq_trigger rq = Some x \<longrightarrow> on_grid 4 x)"

text \<open>A payload whose prices, if it has any, have at most four decimals.\<close>

definition payload_ok :: "jobj \<Rightarrow> bool" where
  "payload_ok payload \<longleftrightarrow> (case normalize_order_request payload of Inl _ \<Rightarrow> True | Inr rq \<Rightarrow> request_ok rq)"

lemma normalize_request:
  assumes "normalize_order_request payload = Inr rq"
  shows "\<exists>s. rq_type rq = str_upper s" "0 < rq_quantity rq"
    "rq_type rq = ''LIMIT'' \<or> rq_type rq = ''SL'' \<Longrightarrow> rq_price rq \<noteq> None"
  using assms
  by (auto simp: normalize_order_request_def Let_def opt_price_def split: if_splits option.splits sum.splits prod.splits)

lemma reference_price_grid:
  assumes "request_ok rq" "snapshot_ok sn" "price_ok (in_last_price ins)"
  shows "on_grid 4 (reference_price rq ins sn)"
  using assms nz_ok unfolding reference_price_def request_ok_def snapshot_ok_def
  by (auto simp: nz_def price_ok_def split: option.splits)

lemma request_limit_price:
  assumes n: "normalize_order_request payload = Inr rq" and rq: "request_ok rq" and ref: "0 < reference_price rq ins sn"
    and ty: "order_type_of (str_lower (replace_dash (rq_type rq))) = Some ty"
  shows "limit_price_ok ty (rq_price rq)"
proof -
  obtain s where s: "rq_type rq = str_upper s" using normalize_request(1) [OF n] by blast
  show ?thesis
  proof (cases "ty = Limit \<or> ty = Sl")
    case True
    then have t: "rq_type rq = ''LIMIT'' \<or> rq_type rq = ''SL''" using limit_type ty s by metis
    then obtain x where x: "rq_price rq = Some x" using normalize_request(3) [OF n] by auto
    then show ?thesis using rq ref t by (auto simp: limit_price_ok_def request_ok_def reference_price_def nz_def)
  next
    case False
    then show ?thesis by (cases ty) (auto simp: limit_price_ok_def split: option.splits)
  qed
qed

section \<open>Orders\<close>

lemma make_order_inv:
  assumes "make_order env scope token rq price trigger status md w = (res, w1)"
  shows "w1 = w\<lparr>w_next := Suc (w_next w)\<rparr>"
    "res = Inr r \<Longrightarrow> validate_scope scope = Inr (po_scope r) \<and> po_status r = status \<and> po_metadata r = md \<and> po_token r = token
       \<and> po_exchange r = rq_exchange rq \<and> po_symbol r = rq_symbol rq \<and> po_product r = rq_product rq
       \<and> po_price r = price \<and> po_quantity r = rq_quantity rq
       \<and> order_type_of (str_lower (replace_dash (rq_type rq))) = Some (po_type r)"
  using assms by (auto simp: make_order_def new_id_def split: sum.splits option.splits prod.splits)

lemma paper_ok_next: "paper_ok env w \<Longrightarrow> paper_ok env (w\<lparr>w_next := Suc (w_next w)\<rparr>)"
  using ids_ok_mono [of env w "w\<lparr>w_next := Suc (w_next w)\<rparr>"] by (simp add: paper_ok_def)

lemma insert_order_inv:
  assumes "on_db (insert_order r) w = (res, w1)"
  shows "(\<exists>e. res = Inl e) \<and> w1 = w \<or> res = Inr (order_row r) \<and> dict_get (db_orders (w_db w)) (order_key r) = None
     \<and> w1 = w\<lparr>w_db := (w_db w)\<lparr>db_orders := dict_set (order_key r) (order_row r) (db_orders (w_db w))\<rparr>\<rparr>"
  using assms by (auto simp: on_db_def insert_order_def dict_has_def split: if_splits)

text \<open>Storing an order that is not pending moves nothing.\<close>

lemma insert_done_ok:
  assumes ok: "paper_ok env w" and new: "dict_get (db_orders (w_db w)) (order_key r) = None" and rej: "po_status r = RejectedStatus"
  shows "paper_ok env (w\<lparr>w_db := (w_db w)\<lparr>db_orders := dict_set (order_key r) (order_row r) (db_orders (w_db w))\<rparr>\<rparr>)"
proof -
  let ?db = "(w_db w)\<lparr>db_orders := dict_set (order_key r) (order_row r) (db_orders (w_db w))\<rparr>"
  have z: "reserved_weight s (order_row r) = 0" "charged_weight s (order_row r) = 0" for s
    using rej by (simp_all add: reserved_weight_def charged_weight_def is_pending_def)
  have k: "order_key (order_row r) = order_key r" by (simp add: order_key_def)
  have "funds_ok ?db"
    by (rule funds_ok_cong [of "w_db w"]) (use ok new in \<open>simp_all add: paper_ok_def table.total_put_new z\<close>)
  moreover have "orders_ok env (db_orders ?db)"
    using orders_ok_set [of env "db_orders (w_db w)" "order_row r"] ok rej k order_ok_done
    by (simp add: paper_ok_def store_ok_def is_pending_def)
  ultimately show ?thesis using ok by (simp add: paper_ok_def store_ok_def accounts_ok_def ids_ok_def)
qed

lemma rejected_order_inv:
  assumes "rejected_order env scope rq att reason w = (res, w1)"
  shows "w1 = w\<lparr>w_next := Suc (w_next w)\<rparr>" "res = Inr r \<Longrightarrow> po_status r = RejectedStatus"
  using assms make_order_inv by (fastforce simp: rejected_order_def new_id_def split: sum.splits)+

lemma reject_order_ok:
  assumes ok: "paper_ok env w" and r: "reject_order env scope rq att reason w = (res, w')"
  shows "paper_ok env w'"
proof -
  obtain res1 w1 where m: "rejected_order env scope rq att reason w = (res1, w1)" by force
  have ok1: "paper_ok env w1" using rejected_order_inv(1) [OF m] paper_ok_next [OF ok] by simp
  show ?thesis
  proof (cases res1)
    case (Inl e)
    then show ?thesis using r m ok1 by (simp add: reject_order_def)
  next
    case (Inr o1)
    obtain res2 w2 where i: "on_db (insert_order o1) w1 = (res2, w2)" by force
    have st: "po_status o1 = RejectedStatus" using rejected_order_inv(2) [OF m Inr] .
    have "paper_ok env w2" using insert_order_inv [OF i] insert_done_ok [OF ok1 _ st] ok1 by auto
    then show ?thesis using r m i by (cases res2) (auto simp: reject_order_def Inr paper_ok_event)
  qed
qed

lemma build_rejected_world:
  "snd (build_rejected_result env scope rq att reason w) = w\<lparr>w_next := Suc (w_next w)\<rparr>"
proof -
  obtain res1 w1 where m: "rejected_order env scope rq att reason w = (res1, w1)" by force
  then show ?thesis using rejected_order_inv(1) [OF m] by (cases res1) (simp_all add: build_rejected_result_def)
qed

lemma open_order_ok:
  assumes ok: "paper_ok env w" and st: "stored r (w_db w)" and p: "is_pending (po_status r)"
    and r: "open_order env r w = (res, w')"
  shows "paper_ok env w' \<and> db_accounts (w_db w') = db_accounts (w_db w)"
proof -
  let ?r = "r\<lparr>po_status := Open, po_updated_at := pe_now env\<rparr>"
  let ?db = "(w_db w)\<lparr>db_orders := dict_set (order_key r) (order_row ?r) (db_orders (w_db w))\<rparr>"
  have "update_order ?r (w_db w) = (Inr (order_row ?r), ?db)" by (rule update_order_stored [OF st]) simp_all
  then have w': "w' = publish_event (OrderEvent ''open'' (order_row ?r)) (w\<lparr>w_db := ?db\<rparr>)"
    using r by (simp add: open_order_def on_db_def)
  have oks: "orders_ok env (db_orders (w_db w))" using ok by (simp add: paper_ok_def store_ok_def)
  have "order_ok env (order_row ?r)"
    using orders_ok_get [OF oks stored_get [OF st]]
    by (intro order_ok_same [OF _ _ p]) (simp_all add: same_order_def order_reserved_def order_charges_def)
  then have "orders_ok env (db_orders ?db)"
    using orders_ok_set [OF oks, of "order_row ?r"] by (simp add: order_key_def)
  moreover have "funds_ok ?db"
    using ok p by (intro funds_ok_same_order [OF _ st]) (simp_all add: paper_ok_def order_reserved_def is_pending_def)
  ultimately have "paper_ok env (w\<lparr>w_db := ?db\<rparr>)"
    using ok by (simp add: paper_ok_def store_ok_def accounts_ok_def ids_ok_def)
  then show ?thesis by (simp add: w' paper_ok_event) (simp add: publish_event_def)
qed

text \<open>Storing a pending order together with its reservation.\<close>

lemma reserve_books:
  assumes ok: "paper_ok env w" and new: "dict_get (db_orders (w_db w)) (order_key r) = None"
    and p: "po_status r = Pending" and rok: "order_ok env (order_row r)"
    and acc: "get_account (po_scope r) (w_db w) = Some a"
    and w1: "w1 = w\<lparr>w_db := (w_db w)\<lparr>db_orders := dict_set (order_key r) (order_row r) (db_orders (w_db w))\<rparr>\<rparr>"
    and d: "apply_account_delta env a (order_reserved r) oid w1 = (a1, w2)"
  shows "paper_ok env w2 \<and> stored (order_row r) (w_db w2) \<and> get_account (po_scope r) (w_db w2) = Some a1
    \<and> db_positions (w_db w2) = db_positions (w_db w)"
proof -
  have sok: "accounts_ok (w_db w)" "orders_ok env (db_orders (w_db w))" "positions_ok (db_positions (w_db w))"
    and fok: "funds_ok (w_db w)" and ids: "ids_ok env w"
    using ok by (simp_all add: paper_ok_def store_ok_def)
  have aok: "pa_scope a = po_scope r" "account_ok a" using get_account_ok [OF sok(1) acc] by simp_all
  have "on_grid 6 (order_reserved r)" using rok p by (simp add: order_ok_def is_pending_def order_reserved_def)
  then have s: "account_step a a1 (- order_reserved r) (order_reserved r) 0 (w_db w1) (w_db w2) \<and> w2 = w1\<lparr>w_db := w_db w2\<rparr>"
    using acc aok by (intro apply_account_delta_step [OF _ _ _ d]) (simp_all add: w1 get_account_def)
  have ord: "db_orders (w_db w2) = dict_set (order_key r) (order_row r) (db_orders (w_db w))"
    and pos: "db_positions (w_db w2) = db_positions (w_db w)" and tr: "db_trades (w_db w2) = db_trades (w_db w)"
    using s by (simp_all add: account_step_def w1)
  have cw: "reserved_weight t (order_row r) = (if t = po_scope r then order_reserved r else 0)"
    "charged_weight t (order_row r) = 0" for t
    using p by (auto simp: reserved_weight_def charged_weight_def is_pending_def order_reserved_def)
  have k: "order_key (order_row r) = order_key r" by (simp add: order_key_def)
  have "funds_ok (w_db w2)"
  proof (rule balanced_move [OF fok conjunct1 [OF s], where dM = 0 and dC = 0 and dR = "order_reserved r"])
    show "get_account (pa_scope a) (w_db w) = Some a" using acc aok by simp
  qed (simp_all add: w1 pos ord table.total_put_new [OF new] cw aok)
  moreover have "orders_ok env (db_orders (w_db w2))" using orders_ok_set [OF sok(2) rok] k by (simp add: ord)
  moreover have "accounts_ok (w_db w2)" using s sok(1) by (simp add: account_step_def accounts_ok_def w1)
  moreover have "ids_ok env w2"
    using db_only [OF conjunct2 [OF s]] by (intro ids_ok_mono [OF ids]) (simp_all add: tr w1)
  moreover have "get_account (po_scope r) (w_db w2) = Some a1" using s aok by (simp add: account_step_def)
  ultimately show ?thesis using sok(3)
    by (simp add: paper_ok_def store_ok_def pos) (simp add: stored_def get_order_def ord order_key_def)
qed

section \<open>Placing an order\<close>

text \<open>What the admission checks guarantee of an accepted order.\<close>

definition admitted :: "paper_env \<Rightarrow> string \<Rightarrow> order_request \<Rightarrow> instrument \<Rightarrow> dec \<Rightarrow> cost_contract \<Rightarrow> bool" where
  "admitted env scope rq ins incremental contract \<longleftrightarrow>
     validate_scope scope = Inr scope \<and> pe_instrument env (rq_exchange rq) (rq_symbol rq) = Some ins \<and> 0 < rq_quantity rq
     \<and> on_grid 6 incremental \<and> 0 \<le> incremental \<and> on_grid 6 (cc_total_charges contract) \<and> 0 \<le> cc_total_charges contract
     \<and> (\<forall>ty. order_type_of (str_lower (replace_dash (rq_type rq))) = Some ty \<longrightarrow> limit_price_ok ty (rq_price rq))"

lemma admit_order_ok:
  assumes env: "env_ok env" and n: "normalize_order_request payload = Inr rq" and rq: "request_ok rq"
    and scope: "validate_scope scope = Inr scope" and ins: "pe_instrument env (rq_exchange rq) (rq_symbol rq) = Some ins"
    and ad: "admit_order scope a rq ins (pe_snapshot env t) existing now = Inr (ref, incremental, contract)"
  shows "admitted env scope rq ins incremental contract \<and> on_grid 4 ref \<and> 0 < ref
    \<and> incremental + cc_total_charges contract \<le> pa_available a"
proof -
  let ?sn = "pe_snapshot env t"
  have ref: "ref = reference_price rq ins ?sn" "0 < ref" and c: "contract = estimate_contract ref (rq_quantity rq) (in_type ins) (Some (rq_exchange rq))"
    and i: "incremental = max (position_margin (Some (apply_fill_to_position scope existing rq ref ins now)) (in_type ins) ref
        - position_margin existing (in_type ins) ref) 0"
    and av: "incremental + cc_total_charges contract \<le> pa_available a"
    using ad by (auto simp: admit_order_def Let_def split: if_splits)
  have sn: "snapshot_ok ?sn" and lp: "price_ok (in_last_price ins)" using env ins by (auto simp: env_ok_def)
  have g: "on_grid 4 ref" unfolding ref(1) by (rule reference_price_grid [OF rq sn lp])
  have "on_grid 6 incremental" "0 \<le> incremental"
    unfolding i using position_margin_ok [OF g ref(2)] by (auto simp: max_def intro: on_grid_diff)
  moreover have "on_grid 6 (cc_total_charges contract)" "0 \<le> cc_total_charges contract"
    unfolding c estimate_contract_total using ref(2) by (auto intro: estimate_nonneg on_grid_mono [OF estimate_on_grid])
  ultimately show ?thesis
    using scope ins g ref av normalize_request(2) [OF n] request_limit_price [OF n rq, of ins ?sn]
    by (auto simp: admitted_def)
qed

lemma order_metadata_sums:
  assumes "po_metadata r = order_metadata att incremental contract ins n"
  shows "order_reserved r = incremental" "order_charges r = cc_total_charges contract"
  by (simp_all add: order_reserved_def order_charges_def assms order_metadata_def md_dec_set)

lemma accept_order_ok:
  assumes ok: "paper_ok env w" and ad: "admitted env scope rq ins incremental contract"
    and acc: "get_account scope (w_db w) = Some a"
    and r: "accept_order env scope a rq ins sn att incremental contract w = (res, w')"
  shows "paper_ok env w' \<and> (\<forall>r a1. res = Inr (r, a1) \<longrightarrow>
     stored r (w_db w') \<and> is_pending (po_status r) \<and> po_scope r = scope \<and> get_account scope (w_db w') = Some a1
     \<and> po_token r = in_token ins \<and> po_product r = rq_product rq \<and> order_reserved r = incremental
     \<and> db_positions (w_db w') = db_positions (w_db w))"
proof -
  let ?md = "order_metadata att incremental contract ins (lot_size_of ins)"
  obtain res1 w1 where m: "make_order env scope (in_token ins) rq (rq_price rq) (rq_trigger rq) Pending ?md w = (res1, w1)" by force
  note A = ad [unfolded admitted_def]
  have w1: "w1 = w\<lparr>w_next := Suc (w_next w)\<rparr>" by (rule make_order_inv(1) [OF m])
  have ok1: "paper_ok env w1" using w1 paper_ok_next [OF ok] by simp
  show ?thesis
  proof (cases res1)
    case (Inl e)
    then show ?thesis using r m ok1 by (auto simp: accept_order_def)
  next
    case (Inr o1)
    note O = make_order_inv(2) [OF m Inr]
    obtain res2 w2 where i: "on_db (insert_order o1) w1 = (res2, w2)" by force
    have sums: "order_reserved o1 = incremental" "order_charges o1 = cc_total_charges contract"
      by (rule order_metadata_sums, use O in blast)+
    have sc: "po_scope o1 = scope" using O A by simp
    have "limit_price_ok (po_type o1) (map_option money (rq_price rq))" using O A limit_price_money by blast
    then have rok: "order_ok env (order_row o1)"
      using O A sc sums by (simp add: order_ok_def order_row_price) (simp add: order_reserved_def order_charges_def)
    from insert_order_inv [OF i] show ?thesis
    proof
      assume "(\<exists>e. res2 = Inl e) \<and> w2 = w1"
      then show ?thesis using r m i ok1 by (auto simp: accept_order_def Inr)
    next
      assume I: "res2 = Inr (order_row o1) \<and> dict_get (db_orders (w_db w1)) (order_key o1) = None
        \<and> w2 = w1\<lparr>w_db := (w_db w1)\<lparr>db_orders := dict_set (order_key o1) (order_row o1) (db_orders (w_db w1))\<rparr>\<rparr>"
      obtain a1 w3 where d: "apply_account_delta env a incremental (po_id (order_row o1)) w2 = (a1, w3)" by force
      have R: "paper_ok env w3 \<and> stored (order_row o1) (w_db w3) \<and> get_account (po_scope o1) (w_db w3) = Some a1
         \<and> db_positions (w_db w3) = db_positions (w_db w1)"
        by (rule reserve_books [OF ok1, where a = a and oid = "po_id (order_row o1)" and ?w1.0 = w2])
          (use I O d sums rok acc sc in \<open>simp_all add: w1\<close>)
      define w4 where "w4 = publish_event (OrderEvent ''accepted'' (order_row o1)) w3"
      obtain res5 w5 where q: "persist_stop_limit_trigger_state env (order_row o1) rq sn w4 = (res5, w5)" by force
      have ok4: "paper_ok env w4" "stored (order_row o1) (w_db w4)" "is_pending (po_status (order_row o1))"
        using R O by (simp_all add: w4_def paper_ok_event is_pending_def) (simp add: publish_event_def)
      obtain r' where P: "res5 = Inr r'" "same_order (order_row o1) r'" "po_status r' = po_status (order_row o1)"
          "stored r' (w_db w5)" "paper_ok env w5" "db_accounts (w_db w5) = db_accounts (w_db w4)"
          "db_positions (w_db w5) = db_positions (w_db w4)" "order_reserved r' = order_reserved (order_row o1)"
        using persist_stop_ok [OF ok4 q] by blast
      have "(res, w') = (Inr (r', a1), w5)"
        unfolding r [symmetric] accept_order_def m Inr bind_ok_simps i conjunct1 [OF I] d Let_def prod.case
          w4_def [symmetric] q P(1) by simp
      then show ?thesis using P R O sc sums ok4
        by (simp add: w4_def publish_event_def get_account_def w1 same_order_def order_reserved_def)
    qed
  qed
qed

lemma accepted_fillable:
  assumes env: "env_ok env" and ok: "paper_ok env w" and ref: "on_grid 4 ref" "0 < ref"
    and O: "stored r (w_db w)" "is_pending (po_status r)" "po_scope r = scope" "get_account scope (w_db w) = Some a"
      "po_token r = in_token ins" "po_product r = rq_product rq"
  shows "fillable env r a rq ins (fill_price r (pe_snapshot env t) ref) (get_position scope (in_token ins) (rq_product rq) (w_db w)) w"
proof -
  have "order_ok env r" using orders_ok_get [OF _ stored_get [OF O(1)]] ok by (simp add: paper_ok_def store_ok_def)
  then have "on_grid 4 (fill_price r (pe_snapshot env t) ref) \<and> 0 < fill_price r (pe_snapshot env t) ref"
    using O(2) ref env by (intro fill_price_ok) (simp_all add: order_ok_def env_ok_def)
  then show ?thesis using O by (simp add: fillable_def)
qed

text \<open>From the admission of an order to its fill or its opening.\<close>

lemma accepted_tail_ok:
  fixes env scope a rq ins att
  defines "sn \<equiv> pe_snapshot env (in_token ins)"
  assumes env: "env_ok env" and ok: "paper_ok env w" and acc: "get_account scope (w_db w) = Some a"
    and ad: "admitted env scope rq ins incremental contract" and ref: "on_grid 4 ref" "0 < ref"
    and ex: "ex = get_position scope (in_token ins) (rq_product rq) (w_db w)"
    and r: "bind_ok (accept_order env scope a rq ins sn att incremental contract w)
             (\<lambda>(r, a1) w2. if should_fill_immediately rq sn then fill_order env r a1 rq ins (fill_price r sn ref) ex w2
                else bind_ok (open_order env r w2) (\<lambda>row w3. (Inr (ResAccepted row), w3))) = (res, w')"
  shows "paper_ok env w'"
proof -
  obtain res2 w2 where c: "accept_order env scope a rq ins sn att incremental contract w = (res2, w2)" by force
  note C = accept_order_ok [OF ok ad acc c]
  show ?thesis
  proof (cases res2)
    case (Inl e)
    then show ?thesis using r C by (simp add: c)
  next
    case (Inr ra)
    obtain o1 a1 where ra: "ra = (o1, a1)" by (cases ra)
    have O: "stored o1 (w_db w2)" "is_pending (po_status o1)" "po_scope o1 = scope" "get_account scope (w_db w2) = Some a1"
       "po_token o1 = in_token ins" "po_product o1 = rq_product rq" and ok2: "paper_ok env w2"
       and ex2: "ex = get_position scope (in_token ins) (rq_product rq) (w_db w2)"
      using C Inr ra by (simp_all add: ex get_position_def)
    show ?thesis
    proof (cases "should_fill_immediately rq sn")
      case True
      have f: "fill_order env o1 a1 rq ins (fill_price o1 sn ref) ex w2 = (res, w')"
        using r True by (simp add: c Inr ra)
      show ?thesis
        using fill_order_ok [OF _ ok2 _ f] accepted_fillable [OF env ok2 ref O, of "in_token ins"] env
        by (simp add: env_ok_def ex2 sn_def)
    next
      case False
      obtain res3 w3 where op: "open_order env o1 w2 = (res3, w3)" by force
      have "w' = w3" using r False by (cases res3) (simp_all add: c Inr ra op)
      then show ?thesis using open_order_ok [OF ok2 O(1,2) op] by simp
    qed
  qed
qed

lemma place_order_locked_ok:
  assumes env: "env_ok env" and ok: "paper_ok env w" and scope: "validate_scope scope = Inr scope"
    and pay: "payload_ok payload" and r: "place_order_locked env scope payload att w = (res, w')"
  shows "paper_ok env w'"
proof (cases "normalize_order_request payload")
  case (Inl e)
  then show ?thesis using r ok by (simp add: place_order_locked_def)
next
  case (Inr rq)
  have rq: "request_ok rq" using pay Inr by (simp add: payload_ok_def)
  define att1 where "att1 = merged_attribution att (payload_metadata payload)"
  obtain res1 w1 where e: "ensure_account env scope w = (res1, w1)" by force
  obtain a where a: "res1 = Inr a" "get_account scope (w_db w1) = Some a" "paper_ok env w1"
    using ensure_account_ok [OF env ok scope e] by blast
  show ?thesis
  proof (cases "pe_instrument env (rq_exchange rq) (rq_symbol rq)")
    case None
    have "reject_order env scope rq att1 (''Instrument not found for '' @ rq_exchange rq @ '':'' @ rq_symbol rq) w1 = (res, w')"
      using r unfolding place_order_locked_def Let_def Inr sum.case e a(1) bind_ok_simps None option.case att1_def .
    then show ?thesis by (rule reject_order_ok [OF a(3)])
  next
    case (Some ins)
    let ?sn = "pe_snapshot env (in_token ins)" and ?ex = "get_position scope (in_token ins) (rq_product rq) (w_db w1)"
    have step: "(case admit_order scope a rq ins ?sn ?ex (pe_now env) of
         Inl reason \<Rightarrow> reject_order env scope rq att1 reason w1
       | Inr (ref, incremental, contract) \<Rightarrow>
           bind_ok (accept_order env scope a rq ins ?sn att1 incremental contract w1)
             (\<lambda>(r, a1) w2. if should_fill_immediately rq ?sn then fill_order env r a1 rq ins (fill_price r ?sn ref) ?ex w2
                else bind_ok (open_order env r w2) (\<lambda>row w3. (Inr (ResAccepted row), w3)))) = (res, w')"
      using r unfolding place_order_locked_def Let_def Inr sum.case e a(1) bind_ok_simps Some option.case att1_def .
    show ?thesis
    proof (cases "admit_order scope a rq ins ?sn ?ex (pe_now env)")
      case (Inl reason)
      then show ?thesis using step reject_order_ok [OF a(3)] by simp
    next
      case adm: (Inr t)
      obtain ref incremental contract where t: "t = (ref, incremental, contract)" by (cases t)
      have A: "admitted env scope rq ins incremental contract" "on_grid 4 ref" "0 < ref"
        using admit_order_ok [OF env Inr rq scope Some adm [unfolded t]] by simp_all
      show ?thesis
        by (rule accepted_tail_ok [OF env a(3) a(2) A refl]) (use step in \<open>simp add: adm t\<close>)
    qed
  qed
qed

section \<open>Ticks\<close>

text \<open>
  A pending order is due at a snapshot when its own trigger holds there; a stop-limit order
  whose trigger was latched earlier only needs its limit.
\<close>

definition due :: "snapshot \<Rightarrow> paper_order \<Rightarrow> bool" where
  "due sn r \<longleftrightarrow> order_should_trigger (Some r) (request_from_paper_order r) sn
     \<or> order_should_trigger None (request_from_paper_order r) sn"

lemma request_type_Sl: "rq_type (request_from_paper_order r) = ''SL'' \<longleftrightarrow> po_type r = Sl"
proof -
  have "str_upper ''market'' = ''MARKET''" "str_upper ''limit'' = ''LIMIT''" "str_upper ''sl'' = ''SL''" by code_simp+
  then show ?thesis by (cases "po_type r") (simp_all add: request_from_paper_order_def)
qed

lemma due_latched:
  assumes "stop_triggered r1 = (stop_triggered r \<or> po_type r = Sl \<and> stop_limit_trigger_reached (request_from_paper_order r) sn)"
  shows "order_should_trigger (Some r1) (request_from_paper_order r) sn = due sn r"
proof (cases "po_type r = Sl")
  case True
  then have "rq_type (request_from_paper_order r) = ''SL''" by (simp add: request_type_Sl)
  then show ?thesis using True assms by (auto simp: due_def order_should_trigger_def Let_def)
next
  case False
  then have "rq_type (request_from_paper_order r) \<noteq> ''SL''" by (simp add: request_type_Sl)
  then show ?thesis by (simp add: due_def order_should_trigger_def)
qed

text \<open>The order is still there, pending.\<close>

definition waiting :: "paper_order \<Rightarrow> world \<Rightarrow> bool" where
  "waiting r w \<longleftrightarrow> (\<exists>r'. get_order (po_scope r) (po_id r) (w_db w) = Some r' \<and> is_pending (po_status r'))"

lemma tick_order_ok:
  assumes env: "env_ok env" and sn: "snapshot_ok (tk_snapshot tick)" and ok: "paper_ok env w"
    and st: "stored r (w_db w)" and p: "is_pending (po_status r)" and t: "tick_order env tick r w = (res, w')"
  shows "paper_ok env w' \<and> others_same (order_key r) w w' \<and> res = Inr ()
    \<and> (if due (tk_snapshot tick) r \<and> pe_instrument env (po_exchange r) (po_symbol r) \<noteq> None then settled r w' else waiting r w')"
proof -
  let ?sn = "tk_snapshot tick" and ?rq = "request_from_paper_order r"
  obtain res1 w1 where q: "persist_stop_limit_trigger_state env r ?rq ?sn w = (res1, w1)" by force
  obtain r1 where P: "res1 = Inr r1" "same_order r r1" "po_status r1 = po_status r" "stored r1 (w_db w1)" "paper_ok env w1"
      "others_same (order_key r) w w1"
      "stop_triggered r1 = (stop_triggered r \<or> po_type r = Sl \<and> stop_limit_trigger_reached ?rq ?sn)"
    using persist_stop_ok [OF ok st p q] by blast
  have rok: "order_ok env r1" using orders_ok_get [OF _ stored_get [OF P(4)]] P(5) by (simp add: paper_ok_def store_ok_def)
  have p1: "is_pending (po_status r1)" using P(3) p by simp
  have id: "po_scope r1 = po_scope r" "po_id r1 = po_id r" "po_exchange r1 = po_exchange r" "po_symbol r1 = po_symbol r"
    using P(2) by (simp_all add: same_order_def)
  show ?thesis
  proof (cases "due ?sn r")
    case False
    then have "w' = w1" "res = Inr ()" using t due_latched [OF P(7)] P(1) by (simp_all add: tick_order_def q Let_def)
    then show ?thesis using P False p1 by (auto simp: waiting_def stored_def id)
  next
    case True
    then have D: "order_should_trigger (Some r1) ?rq ?sn" using due_latched [OF P(7)] by simp
    obtain res2 w2 where e: "ensure_account env (po_scope r1) w1 = (res2, w2)" by force
    obtain a where a: "res2 = Inr a" "get_account (po_scope r1) (w_db w2) = Some a" "paper_ok env w2" "rest_same w1 w2"
      using ensure_account_ok [OF env P(5) _ e] rok p1 by (auto simp: order_ok_def)
    have o2: "others_same (order_key r) w w2" "stored r1 (w_db w2)"
      using P(4,6) a(4) by (simp_all add: others_same_def rest_same_def stored_def get_order_def)
    show ?thesis
    proof (cases "pe_instrument env (po_exchange r1) (po_symbol r1)")
      case None
      then have "w' = w2" "res = Inr ()" using t D a by (simp_all add: tick_order_def q Let_def P(1) e)
      then show ?thesis using None a o2 p1 by (auto simp: waiting_def stored_def id)
    next
      case (Some ins)
      let ?price = "fill_price r1 ?sn (nz (sn_last ?sn))"
      let ?ex = "get_position (po_scope r1) (po_token r1) (po_product r1) (w_db w2)"
      have "on_grid 4 (nz (sn_last ?sn))" "0 < nz (sn_last ?sn)"
        using sn nz_ok D by (simp_all add: snapshot_ok_def order_should_trigger_def Let_def split: if_splits)
      then have "on_grid 4 ?price \<and> 0 < ?price"
        using rok p1 sn by (intro fill_price_ok) (simp_all add: order_ok_def)
      then have F: "fillable env r1 a ?rq ins ?price ?ex w2"
        using o2(2) p1 a(2) rok Some P(2) by (simp add: fillable_def order_ok_def request_from_paper_order_def same_order_def)
      obtain res3 w3 where f: "fill_order env r1 a ?rq ins ?price ?ex w2 = (res3, w3)" by force
      have R: "paper_ok env w3 \<and> others_same (order_key r1) w2 w3 \<and> settled r1 w3 \<and> (\<exists>x. res3 = Inr x)"
        using fill_order_ok [OF _ a(3) F f] env by (simp add: env_ok_def)
      then have w': "w' = w3" "res = Inr ()" using t D by (auto simp: tick_order_def q Let_def P(1) e a(1) Some f)
      have "settled r w3" using R by (simp add: settled_def id)
      then show ?thesis using R w' o2(1) same_order_key [OF P(2)] others_same_trans True Some id by simp
    qed
  qed
qed

lemma waiting_frame: "others_same k w w' \<Longrightarrow> order_key r \<noteq> k \<Longrightarrow> (waiting r w' = waiting r w) \<and> (settled r w' = settled r w)"
  by (simp add: others_same_def waiting_def settled_def get_order_def order_key_def)

text \<open>
  The loop over the pending orders: it never raises, fires exactly the orders that are due,
  and leaves every other order of the store alone.
\<close>

lemma tick_orders_ok:
  assumes env: "env_ok env" and sn: "snapshot_ok (tk_snapshot tick)"
  shows "paper_ok env w \<Longrightarrow> \<forall>r \<in> set rs. stored r (w_db w) \<and> is_pending (po_status r) \<Longrightarrow> distinct (map order_key rs)
    \<Longrightarrow> tick_orders env tick rs w = (res, w')
    \<Longrightarrow> paper_ok env w' \<and> res = Inr ()
       \<and> (\<forall>k. k \<notin> order_key ` set rs \<longrightarrow> dict_get (db_orders (w_db w')) k = dict_get (db_orders (w_db w)) k)
       \<and> (\<forall>r \<in> set rs. if due (tk_snapshot tick) r \<and> pe_instrument env (po_exchange r) (po_symbol r) \<noteq> None
            then settled r w' else waiting r w')"
proof (induction rs arbitrary: w)
  case Nil
  then show ?case by simp
next
  case (Cons r rs)
  obtain res1 w1 where t: "tick_order env tick r w = (res1, w1)" by force
  have T: "paper_ok env w1" "others_same (order_key r) w w1" "res1 = Inr ()"
      "if due (tk_snapshot tick) r \<and> pe_instrument env (po_exchange r) (po_symbol r) \<noteq> None then settled r w1 else waiting r w1"
    using tick_order_ok [OF env sn Cons.prems(1) _ _ t] Cons.prems(2) by simp_all
  have "stored r' (w_db w1)" if "r' \<in> set rs" for r'
  proof -
    have "order_key r' \<noteq> order_key r" using that Cons.prems(3) by (auto simp: image_iff)
    then have "dict_get (db_orders (w_db w1)) (order_key r') = dict_get (db_orders (w_db w)) (order_key r')"
      using T(2) unfolding others_same_def by blast
    then show ?thesis using that Cons.prems(2) by (simp add: stored_def get_order_def order_key_def)
  qed
  moreover have t2: "tick_orders env tick rs w1 = (res, w')" using Cons.prems(4) by (simp add: t T(3))
  ultimately have I: "paper_ok env w' \<and> res = Inr ()
       \<and> (\<forall>k. k \<notin> order_key ` set rs \<longrightarrow> dict_get (db_orders (w_db w')) k = dict_get (db_orders (w_db w1)) k)
       \<and> (\<forall>r \<in> set rs. if due (tk_snapshot tick) r \<and> pe_instrument env (po_exchange r) (po_symbol r) \<noteq> None
            then settled r w' else waiting r w')"
    using Cons.IH [OF T(1)] Cons.prems(2,3) by simp
  have "dict_get (db_orders (w_db w')) (order_key r) = dict_get (db_orders (w_db w1)) (order_key r)"
    using I Cons.prems(3) by (cases "order_key r") simp
  then have "settled r w' = settled r w1" "waiting r w' = waiting r w1"
    by (simp_all add: settled_def waiting_def get_order_def order_key_def)
  then show ?case using I T(2,4) by (simp add: others_same_def)
qed

lemma pending_list:
  assumes "orders_ok env (db_orders db)"
  shows "\<forall>r \<in> set (list_pending_orders_for_instrument token db). stored r db \<and> is_pending (po_status r)"
    "distinct (map order_key (list_pending_orders_for_instrument token db))"
proof -
  let ?t = "db_orders db"
  have d: "distinct (map fst ?t)" and k: "\<forall>(k, r) \<in> set ?t. k = order_key r" using assms by (auto simp: orders_ok_def)
  have "map order_key (map snd ?t) = map fst ?t" using k by (induction ?t) auto
  then have "distinct (map order_key (filter P (map snd ?t)))" for P using d distinct_map_filter by metis
  then show "distinct (map order_key (list_pending_orders_for_instrument token db))"
    unfolding list_pending_orders_for_instrument_def by (simp add: distinct_map)
  show "\<forall>r \<in> set (list_pending_orders_for_instrument token db). stored r db \<and> is_pending (po_status r)"
    using d k by (auto simp: list_pending_orders_for_instrument_def stored_def get_order_def order_key_def intro: map_of_is_SomeI)
qed

text \<open>Marking to market rewrites positions without changing the margin they record.\<close>

definition recorded_in :: "paper_position \<Rightarrow> world \<Rightarrow> bool" where
  "recorded_in p w \<longleftrightarrow> (\<exists>q. dict_get (db_positions (w_db w)) (position_key p) = Some q
     \<and> position_recorded q = position_recorded p) \<and> position_ok p"

lemma mark_row:
  assumes "mark_to_market env tick p w \<noteq> w"
  shows "\<exists>q e. mark_to_market env tick p w = publish_event e (w\<lparr>w_db := (w_db w)\<lparr>db_positions :=
      dict_set (position_key p) q (db_positions (w_db w))\<rparr>\<rparr>)
    \<and> position_key q = position_key p \<and> position_recorded q = position_recorded p \<and> (position_ok p \<longrightarrow> position_ok q)"
proof -
  let ?q = "\<lambda>u l. position_row (p\<lparr>pp_unrealized := u, pp_updated_at := pe_now env,
    pp_metadata := dict_set ''last_price'' (JNum l) (pp_metadata p)\<rparr>)"
  have "position_key (?q u l) = position_key p" "position_recorded (?q u l) = position_recorded p" for u l
    by (simp_all add: position_key_def position_recorded_def md_dec_set)
  moreover have "position_ok p \<Longrightarrow> position_ok (?q u l)" for u l
    by (simp add: position_ok_def obj_num_def obj_get_def) (simp add: position_row_def)
  moreover have "mark_to_market env tick p w = publish_event (PositionEvent ''mark_to_market'' (?q u l))
      (w\<lparr>w_db := (w_db w)\<lparr>db_positions := dict_set (position_key p) (?q u l) (db_positions (w_db w))\<rparr>\<rparr>)"
    if "l = nz (sn_last (tk_snapshot tick))" "u = (if pp_net p > 0 then (l - pp_average p) * of_int (pp_net p)
       else if pp_net p < 0 then (pp_average p - l) * of_int \<bar>pp_net p\<bar> else 0)" for u l
    using assms unfolding mark_to_market_def that [symmetric] Let_def
    by (simp add: on_db_def upsert_position_def position_key_def that(1) split: if_split_asm)
  ultimately show ?thesis by blast
qed

lemma mark_to_market_ok:
  assumes ok: "paper_ok env w" and p: "recorded_in p w"
  shows "paper_ok env (mark_to_market env tick p w) \<and> (\<forall>q. recorded_in q w \<longrightarrow> recorded_in q (mark_to_market env tick p w))"
proof (cases "mark_to_market env tick p w = w")
  case True
  then show ?thesis using ok by simp
next
  case False
  from mark_row [OF False] obtain q e where m: "mark_to_market env tick p w = publish_event e (w\<lparr>w_db := (w_db w)\<lparr>db_positions :=
      dict_set (position_key p) q (db_positions (w_db w))\<rparr>\<rparr>)"
    and q: "position_key q = position_key p" "position_recorded q = position_recorded p" "position_ok q"
    using p by (auto simp: recorded_in_def)
  let ?db = "(w_db w)\<lparr>db_positions := dict_set (position_key p) q (db_positions (w_db w))\<rparr>"
  have pok: "positions_ok (db_positions (w_db w))" using ok by (simp add: paper_ok_def store_ok_def)
  have "table_sum (margin_weight s) (db_positions ?db) = table_sum (margin_weight s) (db_positions (w_db w))" for s
    using margin_weight_set [OF pok, of q s] p q by (auto simp: recorded_in_def position_key_def)
  then have "funds_ok ?db" using ok by (intro funds_ok_cong [of "w_db w" ?db]) (simp_all add: paper_ok_def)
  moreover have "positions_ok (db_positions ?db)" using positions_ok_set [OF pok q(3)] q(1) by simp
  ultimately have "paper_ok env (w\<lparr>w_db := ?db\<rparr>)"
    using ok by (simp add: paper_ok_def store_ok_def accounts_ok_def ids_ok_def)
  moreover have "recorded_in q' (w\<lparr>w_db := ?db\<rparr>)" if "recorded_in q' w" for q'
    using that p q by (auto simp: recorded_in_def)
  ultimately show ?thesis unfolding m by (simp add: paper_ok_event) (simp add: publish_event_def recorded_in_def)
qed

lemma mark_positions_ok:
  "paper_ok env w \<Longrightarrow> \<forall>p \<in> set ps. recorded_in p w \<Longrightarrow> paper_ok env (fold (mark_to_market env tick) ps w)"
  by (induction ps arbitrary: w) (use mark_to_market_ok in auto)

lemma process_tick_ok:
  assumes env: "env_ok env" and sn: "snapshot_ok (tk_snapshot tick)" and ok: "paper_ok env w"
  shows "paper_ok env (snd (process_tick env tick w))"
proof (cases "tk_token tick \<le> 0")
  case True
  then show ?thesis using ok by (simp add: process_tick_def)
next
  case False
  let ?rs = "list_pending_orders_for_instrument (tk_token tick) (w_db w)"
  obtain res w1 where t: "tick_orders env tick ?rs w = (res, w1)" by force
  have oks: "orders_ok env (db_orders (w_db w))" using ok by (simp add: paper_ok_def store_ok_def)
  have ok1: "paper_ok env w1"
    using tick_orders_ok [OF env sn ok pending_list [OF oks, of "tk_token tick"] t] by simp
  then have "\<forall>p \<in> set (list_open_positions_for_instrument (tk_token tick) (w_db w1)). recorded_in p w1"
    by (auto simp: list_open_positions_for_instrument_def recorded_in_def paper_ok_def store_ok_def positions_ok_def
        intro!: exI [of _ "_ :: paper_position"] map_of_is_SomeI)
  then show ?thesis using False ok1 mark_positions_ok [OF ok1] by (cases res) (simp_all add: process_tick_def t)
qed

section \<open>Baskets\<close>

lemma place_each_ok:
  assumes env: "env_ok env" and scope: "validate_scope scope = Inr scope"
  shows "paper_ok env w \<Longrightarrow> \<forall>p \<in> set raws. payload_ok p \<Longrightarrow> paper_ok env (snd (place_each env scope att raws w))"
proof (induction raws arbitrary: w)
  case Nil
  then show ?case by simp
next
  case (Cons raw raws)
  obtain res w1 where p: "place_order_locked env scope raw (merged_attribution att (payload_metadata raw)) w = (res, w1)" by force
  have ok1: "paper_ok env w1" using place_order_locked_ok [OF env Cons.prems(1) scope _ p] Cons.prems(2) by simp
  obtain res2 w2 where q: "place_each env scope att raws w1 = (res2, w2)" by force
  have "paper_ok env w2" using Cons.IH [OF ok1] Cons.prems(2) by (simp add: q)
  then show ?case using ok1 by (cases res; cases res2) (simp_all add: p q)
qed

lemma fill_order_uow_ok:
  assumes env: "inj (pe_uuid env)" and ok: "paper_ok env w" and f: "fillable env r a rq ins price existing w"
    and res: "fill_order_uow env r a rq ins price existing w = (res, w')"
  shows "paper_ok env w' \<and> (\<forall>x a'. res = Inr (x, a') \<longrightarrow> get_account (po_scope r) (w_db w') = Some a')"
proof -
  define np where "np = (apply_fill_to_position (po_scope r) existing rq price ins (pe_now env))\<lparr>pp_scope := po_scope r\<rparr>"
  define m where "m = position_margin (Some np) (in_type ins) price"
  define old where "old = position_margin_in_use existing (in_type ins) price"
  note nums = fill_numbers [OF ok f np_def]
  note F = f [unfolded fillable_def]
  have fo: "fill_order_uow env r a rq ins price existing w =
     (if pa_available a - (m - (old + order_reserved r)) - order_charges r < 0 then
           bind_ok (build_rejected_result env (po_scope r) rq (po_metadata r) fill_shortfall w) (\<lambda>res w1. (Inr (res, a), w1))
         else
           let (a1, w1) = book_funds env a (po_id r) (m - (old + order_reserved r)) (order_charges r)
                 (pp_realized np - old_realized existing) w
           in bind_ok (book_fill env r price np m w1) (\<lambda>res w2. (Inr (res, a1), w2)))"
    unfolding fill_order_uow_eq Let_def np_def m_def old_def order_reserved_def order_charges_def old_realized_def ..
  show ?thesis
  proof (cases "pa_available a - (m - (old + order_reserved r)) - order_charges r < 0")
    case True
    obtain res1 w1 where b: "build_rejected_result env (po_scope r) rq (po_metadata r) fill_shortfall w = (res1, w1)" by force
    have "w1 = w\<lparr>w_next := Suc (w_next w)\<rparr>" using build_rejected_world b by (metis snd_conv)
    moreover have "get_account (po_scope r) (w_db w) = Some a" using F by simp
    ultimately show ?thesis using res True paper_ok_next [OF ok] by (cases res1) (auto simp: fo b)
  next
    case False
    obtain a1 w1 where b: "book_funds env a (po_id r) (m - (old + order_reserved r)) (order_charges r)
                 (pp_realized np - old_realized existing) w = (a1, w1)" by force
    obtain res2 w2 where f2: "book_fill env r price np m w1 = (res2, w2)" by force
    have "paper_ok env w2 \<and> others_same (order_key r) w w2 \<and> get_account (po_scope r) (w_db w2) = Some a1
      \<and> (\<exists>c t p. res2 = Inr (ResFilled c t p)) \<and> settled r w2"
      by (rule fill_books [OF env ok _ _ _ m_def _ _ nums(1) _ nums(3) b f2])
        (use F nums in \<open>simp_all add: m_def old_def\<close>)
    then show ?thesis using res False by (auto simp: fo b f2)
  qed
qed

lemma place_order_locked_uow_ok:
  assumes env: "env_ok env" and ok: "paper_ok env w" and scope: "validate_scope scope = Inr scope"
    and n: "normalize_order_request payload = Inr rq" and rq: "request_ok rq"
    and ins: "pe_instrument env (rq_exchange rq) (rq_symbol rq) = Some ins" and acc: "get_account scope (w_db w) = Some a"
    and r: "place_order_locked_uow env scope a rq ins (pe_snapshot env (in_token ins)) att w = (res, w')"
  shows "paper_ok env w' \<and> (\<forall>x a'. res = Inr (x, a') \<longrightarrow> get_account scope (w_db w') = Some a')"
proof -
  let ?sn = "pe_snapshot env (in_token ins)" and ?ex = "get_position scope (in_token ins) (rq_product rq) (w_db w)"
  show ?thesis
  proof (cases "admit_order scope a rq ins ?sn ?ex (pe_now env)")
    case (Inl reason)
    obtain res1 w1 where b: "build_rejected_result env scope rq att reason w = (res1, w1)" by force
    have "w1 = w\<lparr>w_next := Suc (w_next w)\<rparr>" using build_rejected_world b by (metis snd_conv)
    then show ?thesis using r Inl acc paper_ok_next [OF ok] by (cases res1) (auto simp: place_order_locked_uow_eq b)
  next
    case (Inr t)
    obtain ref incremental contract where t: "t = (ref, incremental, contract)" by (cases t)
    have A: "admitted env scope rq ins incremental contract" "on_grid 4 ref" "0 < ref"
      using admit_order_ok [OF env n rq scope ins Inr [unfolded t]] by simp_all
    obtain res2 w2 where c: "accept_order env scope a rq ins ?sn att incremental contract w = (res2, w2)" by force
    note C = accept_order_ok [OF ok A(1) acc c]
    show ?thesis
    proof (cases res2)
      case (Inl e)
      then show ?thesis using r C by (auto simp: place_order_locked_uow_eq Inr t c)
    next
      case acpt: (Inr ra)
      obtain o1 a1 where ra: "ra = (o1, a1)" by (cases ra)
      have O: "stored o1 (w_db w2)" "is_pending (po_status o1)" "po_scope o1 = scope" "get_account scope (w_db w2) = Some a1"
         "po_token o1 = in_token ins" "po_product o1 = rq_product rq" and ok2: "paper_ok env w2"
         and ex2: "?ex = get_position scope (in_token ins) (rq_product rq) (w_db w2)"
        using C acpt ra by (simp_all add: get_position_def)
      show ?thesis
      proof (cases "should_fill_immediately rq ?sn")
        case True
        have f: "fill_order_uow env o1 a1 rq ins (fill_price o1 ?sn ref) ?ex w2 = (res, w')"
          using r True by (simp add: place_order_locked_uow_eq Inr t c acpt ra)
        show ?thesis
          using fill_order_uow_ok [OF _ ok2 _ f] accepted_fillable [OF env ok2 A(2,3) O, of "in_token ins"] env O(3)
          by (simp add: env_ok_def ex2)
      next
        case False
        obtain res3 w3 where op: "open_order env o1 w2 = (res3, w3)" by force
        have "w' = w3 \<and> (\<forall>x a'. res = Inr (x, a') \<longrightarrow> a' = a1)"
          using r False by (cases res3) (auto simp: place_order_locked_uow_eq Inr t c acpt ra op)
        then show ?thesis using open_order_ok [OF ok2 O(1,2) op] O(4) by (auto simp: get_account_def)
      qed
    qed
  qed
qed

definition prepared_ok :: "paper_env \<Rightarrow> prepared_order \<Rightarrow> bool" where
  "prepared_ok env p = (case p of (rq, ins, sn, att) \<Rightarrow>
     (\<exists>payload. normalize_order_request payload = Inr rq) \<and> request_ok rq
     \<and> pe_instrument env (rq_exchange rq) (rq_symbol rq) = Some ins \<and> sn = pe_snapshot env (in_token ins))"

lemma prepare_orders_ok:
  assumes "\<forall>p \<in> set raws. payload_ok p"
  shows "w_db (snd (prepare_orders env scope att raws w)) = w_db w
    \<and> w_events (snd (prepare_orders env scope att raws w)) = w_events w
    \<and> w_next w \<le> w_next (snd (prepare_orders env scope att raws w))
    \<and> (\<forall>ps. fst (prepare_orders env scope att raws w) = Inr (Inr ps) \<longrightarrow> length ps = length raws \<and> (\<forall>p \<in> set ps. prepared_ok env p))"
  using assms
proof (induction raws)
  case Nil
  then show ?case by simp
next
  case (Cons raw raws)
  note IH = Cons.IH
  show ?case
  proof (cases "normalize_order_request raw")
    case (Inl e)
    then show ?thesis by simp
  next
    case (Inr rq)
    show ?thesis
    proof (cases "pe_instrument env (rq_exchange rq) (rq_symbol rq)")
      case None
      obtain res1 w1 where b: "build_rejected_result env scope rq att
          (''Instrument not found for '' @ rq_exchange rq @ '':'' @ rq_symbol rq) w = (res1, w1)" by force
      have "w1 = w\<lparr>w_next := Suc (w_next w)\<rparr>" using build_rejected_world b by (metis snd_conv)
      then show ?thesis using b by (cases res1) (simp_all add: Inr None)
    next
      case (Some ins)
      have rq: "request_ok rq" using Cons.prems Inr by (simp add: payload_ok_def)
      obtain res1 w1 where p: "prepare_orders env scope att raws w = (res1, w1)" by force
      show ?thesis using IH Cons.prems rq
        by (cases res1) (auto simp: Inr Some p prepared_ok_def intro: exI [of _ raw] split: sum.splits)
    qed
  qed
qed

lemma run_prepared_ok:
  assumes env: "env_ok env" and scope: "validate_scope scope = Inr scope"
  shows "paper_ok env w \<Longrightarrow> get_account scope (w_db w) = Some a \<Longrightarrow> \<forall>p \<in> set ps. prepared_ok env p
    \<Longrightarrow> paper_ok env (snd (run_prepared env scope ps a w))"
proof (induction ps arbitrary: a w)
  case Nil
  then show ?case by simp
next
  case (Cons p ps)
  obtain rq ins sn att where p: "p = (rq, ins, sn, att)" by (cases p)
  obtain payload where P: "normalize_order_request payload = Inr rq" "request_ok rq"
      "pe_instrument env (rq_exchange rq) (rq_symbol rq) = Some ins" "sn = pe_snapshot env (in_token ins)"
    using Cons.prems(3) by (auto simp: p prepared_ok_def)
  obtain res w1 where r: "place_order_locked_uow env scope a rq ins sn att w = (res, w1)" by force
  have R: "paper_ok env w1 \<and> (\<forall>x a'. res = Inr (x, a') \<longrightarrow> get_account scope (w_db w1) = Some a')"
    using place_order_locked_uow_ok [OF env Cons.prems(1) scope P(1-3) Cons.prems(2)] r P(4) by blast
  show ?case
  proof (cases res)
    case (Inl e)
    then show ?thesis using R by (simp add: p r)
  next
    case (Inr xa)
    obtain x a1 where xa: "xa = (x, a1)" by (cases xa)
    obtain res2 w2 where q: "run_prepared env scope ps a1 w1 = (res2, w2)" by force
    have "paper_ok env w2" using Cons.IH [of w1 a1] R Cons.prems(3) by (simp add: Inr xa q)
    then show ?thesis using R by (cases res2) (simp_all add: p r Inr xa q split: sum.splits)
  qed
qed

lemma paper_ok_db: "paper_ok env w \<Longrightarrow> w_db w' = w_db w \<Longrightarrow> w_next w \<le> w_next w' \<Longrightarrow> paper_ok env w'"
  using ids_ok_mono [of env w w'] by (simp add: paper_ok_def)

text \<open>Identifiers are only ever consumed, so a rolled-back basket leaves the counter ahead of the store.\<close>

lemma bind_next:
  assumes "w_next w \<le> w_next (snd r)" "\<And>x w1. r = (Inr x, w1) \<Longrightarrow> w_next w1 \<le> w_next (snd (f x w1))"
  shows "w_next w \<le> w_next (snd (bind_ok r f))"
proof -
  obtain y w1 where r: "r = (y, w1)" by (cases r)
  show ?thesis
  proof (cases y)
    case (Inl e)
    then show ?thesis using assms(1) by (simp add: r)
  next
    case (Inr x)
    then show ?thesis using assms(1) assms(2) [of x w1] by (simp add: r)
  qed
qed

lemma on_db_next [simp]: "w_next (snd (on_db f w)) = w_next w"
  by (simp add: on_db_def split: prod.splits)

lemma publish_next [simp]: "w_next (publish_event e w) = w_next w"
  by (simp add: publish_event_def)

lemma delta_next [simp]:
  "w_next (snd (apply_account_delta env a d oid w)) = w_next w"
  "w_next (snd (apply_cash_delta env a d ty oid notes w)) = w_next w"
  by (simp_all add: apply_account_delta_def apply_cash_delta_def on_db_def split: prod.splits)

lemma book_funds_next [simp]: "w_next (snd (book_funds env a oid adj c rd w)) = w_next w"
proof -
  obtain a1 w1 where 1: "apply_account_delta env a adj oid w = (a1, w1)" by force
  obtain a2 w2 where 2: "apply_cash_delta env a1 (- c) Debit oid ''paper_trade_charges'' w1 = (a2, w2)" by force
  obtain a3 w3 where 3: "apply_cash_delta env a2 rd (if rd > 0 then Credit else Debit) oid ''paper_realized_pnl'' w2 = (a3, w3)" by force
  have "w_next w1 = w_next w" using delta_next(1) [of env a adj oid w] 1 by simp
  moreover have "w_next w2 = w_next w1" using delta_next(2) [of env a1 "- c" Debit oid "''paper_trade_charges''" w1] 2 by simp
  moreover have "w_next w3 = w_next w2"
    using delta_next(2) [of env a2 rd "if rd > 0 then Credit else Debit" oid "''paper_realized_pnl''" w2] 3 by simp
  ultimately show ?thesis by (simp add: book_funds_def 1 2 3)
qed

lemma make_order_next: "w_next w \<le> w_next (snd (make_order env scope token rq price trigger status md w))"
proof -
  obtain res w1 where m: "make_order env scope token rq price trigger status md w = (res, w1)" by force
  show ?thesis using make_order_inv(1) [OF m] by (simp add: m)
qed

lemma book_fill_next: "w_next w \<le> w_next (snd (book_fill env r price np m w))"
proof -
  have l: "w_next v \<le> w_next (record_lots env r t price v)" for v t
    using record_lots_frame [of v env r t price] by (simp add: only_lots_def)
  show ?thesis unfolding book_fill_def Let_def new_id_def prod.case
    by (intro bind_next) (use l in \<open>auto simp: case_prod_beta intro: le_SucI\<close>)
qed

lemma build_rejected_next: "w_next w \<le> w_next (snd (build_rejected_result env scope rq att reason w))"
  by (simp add: build_rejected_world)

lemma fill_order_uow_next: "w_next w \<le> w_next (snd (fill_order_uow env r a rq ins price existing w))"
proof -
  have "w_next w \<le> w_next (snd (bind_ok (build_rejected_result env (po_scope r) rq (po_metadata r) fill_shortfall w)
      (\<lambda>res w1. (Inr (res, a), w1))))"
    by (rule bind_next [OF build_rejected_next]) simp
  moreover have "w_next w \<le> w_next (snd (case book_funds env a oid adj c rd w of (a1, w1) \<Rightarrow>
      bind_ok (book_fill env r price np m w1) (\<lambda>res w2. (Inr (res, a1), w2))))" for oid adj c rd np m
  proof -
    obtain a1 w1 where b: "book_funds env a oid adj c rd w = (a1, w1)" by force
    then have "w_next w = w_next w1" using book_funds_next [of env a oid adj c rd w] by simp
    moreover have "w_next w1 \<le> w_next (snd (bind_ok (book_fill env r price np m w1) (\<lambda>res w2. (Inr (res, a1), w2))))"
      by (rule bind_next [OF book_fill_next]) simp
    ultimately show ?thesis by (simp add: b)
  qed
  ultimately show ?thesis unfolding fill_order_uow_eq Let_def by simp
qed

lemma accept_order_next: "w_next w \<le> w_next (snd (accept_order env scope a rq ins sn att incremental contract w))"
  unfolding accept_order_def
proof (intro bind_next make_order_next)
  fix row :: paper_order and w2 :: world
  let ?d = "apply_account_delta env a incremental (po_id row) w2"
  have "w_next v \<le> w_next (snd (persist_stop_limit_trigger_state env row rq sn v))" for v
    by (simp add: persist_stop_limit_trigger_state_def)
  then have "w_next v \<le> w_next (snd (bind_ok (persist_stop_limit_trigger_state env row rq sn v) (\<lambda>row' w5. (Inr (row', a1), w5))))" for v a1
    by (rule bind_next) simp
  from this [of "publish_event (OrderEvent ''accepted'' row) (snd ?d)" "fst ?d"]
  show "w_next w2 \<le> w_next (snd (let (a1, w3) = ?d; w4 = publish_event (OrderEvent ''accepted'' row) w3
      in bind_ok (persist_stop_limit_trigger_state env row rq sn w4) (\<lambda>row' w5. (Inr (row', a1), w5))))"
    by (simp add: Let_def case_prod_beta)
qed simp

lemma open_order_next: "w_next w \<le> w_next (snd (open_order env r w))"
  unfolding open_order_def by (rule bind_next) simp_all

lemma place_order_locked_uow_next: "w_next w \<le> w_next (snd (place_order_locked_uow env scope a rq ins sn att w))"
proof -
  have rej: "w_next w \<le> w_next (snd (bind_ok (build_rejected_result env scope rq att reason w) (\<lambda>res w1. (Inr (res, a), w1))))" for reason
    by (rule bind_next [OF build_rejected_next]) simp
  have op: "w_next w1 \<le> w_next (snd (bind_ok (open_order env r w1) (\<lambda>row w2. (Inr (ResAccepted row, a1), w2))))" for r a1 w1
    by (rule bind_next [OF open_order_next]) simp
  have "w_next w \<le> w_next (snd (bind_ok (accept_order env scope a rq ins sn att incremental contract w)
     (\<lambda>(r, a1) w1. if \<not> should_fill_immediately rq sn
        then bind_ok (open_order env r w1) (\<lambda>row w2. (Inr (ResAccepted row, a1), w2))
        else fill_order_uow env r a1 rq ins (fill_price r sn ref) ex w1)))" for incremental contract ref ex
    by (rule bind_next [OF accept_order_next]) (use op fill_order_uow_next in \<open>auto split: prod.splits\<close>)
  with rej show ?thesis unfolding place_order_locked_uow_eq Let_def by (auto split: sum.splits prod.splits)
qed

lemma run_prepared_next: "w_next w \<le> w_next (snd (run_prepared env scope ps a w))"
proof (induction ps arbitrary: a w)
  case Nil
  then show ?case by simp
next
  case (Cons p ps)
  obtain rq ins sn att where p: "p = (rq, ins, sn, att)" by (cases p)
  have "w_next w2 \<le> w_next (snd (bind_ok (run_prepared env scope ps a1 w2) (\<lambda>rest w3. case rest of
      Inl bad \<Rightarrow> (Inr (Inl bad), w3) | Inr rs \<Rightarrow> (Inr (Inr (res # rs)), w3))))" for a1 w2 res
    by (rule bind_next [OF Cons.IH]) (simp split: sum.splits)
  then show ?case unfolding p run_prepared.simps
    by (intro bind_next place_order_locked_uow_next) (auto split: prod.splits)
qed

lemma ensure_account_next: "w_next w \<le> w_next (snd (ensure_account env scope w))"
  by (simp add: ensure_account_def on_db_def split: option.splits sum.splits prod.splits)

lemma place_basket_atomic_ok:
  assumes env: "env_ok env" and ok: "paper_ok env w" and scope: "validate_scope scope = Inr scope"
    and pay: "\<forall>p \<in> set orders. payload_ok p"
  shows "paper_ok env (snd (place_basket_all_or_none_atomic env scope orders att w))"
proof -
  obtain prep w1 where p: "prepare_orders env scope att orders w = (prep, w1)" by force
  have P: "w_db w1 = w_db w" "w_events w1 = w_events w" "w_next w \<le> w_next w1"
      "\<And>ps. prep = Inr (Inr ps) \<Longrightarrow> \<forall>q \<in> set ps. prepared_ok env q"
    using prepare_orders_ok [OF pay, of env scope att w] by (simp_all add: p)
  have ok1: "paper_ok env w1" using paper_ok_db [OF ok P(1,3)] .
  show ?thesis
  proof (cases "\<exists>ps. prep = Inr (Inr ps)")
    case False
    then show ?thesis using ok1
      by (cases prep) (auto simp: place_basket_all_or_none_atomic_def p split: sum.splits)
  next
    case True
    then obtain ps where ps: "prep = Inr (Inr ps)" by blast
    let ?staged = "w1\<lparr>w_events := []\<rparr>"
    have oks: "paper_ok env ?staged" by (rule paper_ok_db [OF ok1]) simp_all
    obtain res2 w2 where e: "ensure_account env scope ?staged = (res2, w2)" by force
    obtain a where a: "res2 = Inr a" "get_account scope (w_db w2) = Some a" "paper_ok env w2"
      using ensure_account_ok [OF env oks scope e] by blast
    obtain res3 w3 where r: "run_prepared env scope ps a w2 = (res3, w3)" by force
    have ok3: "paper_ok env w3" using run_prepared_ok [OF env scope a(3,2) P(4) [OF ps]] by (simp add: r)
    have n: "w_next w1 \<le> w_next w3"
      using ensure_account_next [of ?staged env scope] run_prepared_next [of w2 env scope ps a] by (simp add: e r)
    have "paper_ok env (w3\<lparr>w_db := w_db w1, w_events := w_events w1\<rparr>)" by (rule paper_ok_db [OF ok1]) (simp_all add: n)
    moreover have "paper_ok env (w3\<lparr>w_events := w_events w1 @ w_events w3\<rparr>)" by (rule paper_ok_db [OF ok3]) simp_all
    ultimately show ?thesis
      by (auto simp: place_basket_all_or_none_atomic_def p ps Let_def e a(1) r split: sum.splits)
  qed
qed

lemma place_basket_locked_ok:
  assumes "env_ok env" "paper_ok env w" "validate_scope scope = Inr scope" "\<forall>p \<in> set (basket_orders payload). payload_ok p"
  shows "paper_ok env (snd (place_basket_locked env scope payload att w))"
proof -
  let ?att = "merged_attribution att (payload_metadata payload)"
  obtain res w1 where p: "place_each env scope ?att (basket_orders payload) w = (res, w1)" by force
  have "paper_ok env w1" using place_each_ok [OF assms(1,3,2,4), of ?att] by (simp add: p)
  then show ?thesis using place_basket_atomic_ok [OF assms, of ?att]
    by (cases res) (simp_all add: place_basket_locked_def Let_def p)
qed

end
