(* ===== verification/PaperTheorems.thy ===== *)
theory PaperTheorems
  imports PaperHandlers
begin

text \<open>
  The properties of the paper-trading runtime: the books of every account balance after every
  handler, ticks fire exactly the orders that are due, an atomic basket is all or nothing,
  and the arithmetic of fills, lots, admissions and resets.
\<close>

section \<open>A concrete market\<close>

text \<open>One instrument at 100.5, an empty store: the inputs of the concrete instances below.\<close>

definition demo_instrument :: instrument where
  "demo_instrument = \<lparr>in_token = 7, in_type = Some ''EQ'', in_lot_size = Some 1, in_last_price = Some (201 / 2)\<rparr>"

definition demo_snapshot :: snapshot where
  "demo_snapshot = \<lparr>sn_last = Some (201 / 2), sn_buy = [], sn_sell = []\<rparr>"

definition demo_env :: paper_env where
  "demo_env = \<lparr>pe_uuid = (\<lambda>n. replicate n CHR ''x''),
     pe_instrument = (\<lambda>e s. if s = ''ABC'' then Some demo_instrument else None),
     pe_snapshot = (\<lambda>t. demo_snapshot), pe_now = 1000, pe_default_balance = 100000\<rparr>"

definition demo_world :: world where
  "demo_world = \<lparr>w_db = empty_store, w_next = 0, w_events = []\<rparr>"

definition demo_payload :: "string \<Rightarrow> rat \<Rightarrow> jobj" where
  "demo_payload ty price = [(''exchange'', JStr ''NSE''), (''tradingsymbol'', JStr ''ABC''),
     (''transaction_type'', JStr ''BUY''), (''product'', JStr ''CNC''), (''order_type'', JStr ty),
     (''quantity'', JInt 10), (''price'', JNum price)]"

lemma demo_env_ok: "env_ok demo_env"
  by (auto simp: env_ok_def demo_env_def demo_snapshot_def demo_instrument_def snapshot_ok_def price_ok_def on_grid_def inj_def
      split: if_splits)

lemma empty_paper_ok: "paper_ok env \<lparr>w_db = empty_store, w_next = n, w_events = es\<rparr>"
  by (simp add: paper_ok_def store_ok_def funds_ok_def balanced_def ids_ok_def accounts_ok_def orders_ok_def positions_ok_def
      empty_store_def get_account_def table_sum_def ledger_total_def)

lemma demo_scope: "validate_scope ''acc'' = Inr ''acc''"
  by (simp add: validate_scope_def str_strip_def is_space_def)

lemma demo_normalized:
  "normalize_order_request (demo_payload ''MARKET'' 100) = Inr
     \<lparr>rq_exchange = ''NSE'', rq_symbol = ''ABC'', rq_side = ''BUY'', rq_product = ''CNC'', rq_type = ''MARKET'',
      rq_quantity = 10, rq_price = Some 100, rq_trigger = None\<rparr>"
  "normalize_order_request (demo_payload ''LIMIT'' 100) = Inr
     \<lparr>rq_exchange = ''NSE'', rq_symbol = ''ABC'', rq_side = ''BUY'', rq_product = ''CNC'', rq_type = ''LIMIT'',
      rq_quantity = 10, rq_price = Some 100, rq_trigger = None\<rparr>"
  by code_simp+

lemma demo_payload_ok: "payload_ok (demo_payload ''MARKET'' 100)" "payload_ok (demo_payload ''LIMIT'' 100)"
  by (simp_all add: payload_ok_def demo_normalized request_ok_def on_grid_def)

lemma demo_world_ok: "paper_ok demo_env demo_world"
  unfolding demo_world_def by (rule empty_paper_ok)

definition demo_open :: world where
  "demo_open = snd (place_order_locked demo_env ''acc'' (demo_payload ''LIMIT'' 100) [] demo_world)"

lemma demo_open_value:
  "map (\<lambda>(k, r). (k, po_status r, po_token r, order_reserved r)) (db_orders (w_db demo_open))
     = [((''acc'', ''PAPER-''), Open, 7, 1000)]"
  by code_simp

section \<open>The books\<close>

lemma blocked_nonneg:
  assumes ok: "paper_ok env w" and acc: "get_account s (w_db w) = Some a"
  shows "0 \<le> pa_blocked a"
proof -
  have "0 \<le> table_sum (margin_weight s) (db_positions (w_db w))"
    using ok by (intro table_sum_nonneg)
      (auto simp: paper_ok_def store_ok_def positions_ok_def margin_weight_def dest: position_recorded_ok)
  moreover have "0 \<le> table_sum (reserved_weight s) (db_orders (w_db w))"
    using ok by (intro table_sum_nonneg) (auto simp: paper_ok_def store_ok_def orders_ok_def reserved_weight_def order_ok_def)
  moreover have "balanced s (w_db w)" using ok by (simp add: paper_ok_def funds_ok_def)
  ultimately show ?thesis using acc by (simp add: balanced_def)
qed

text \<open>
  C7. Placing an order keeps the books of every account balanced, whatever it returns (a
  rejection, an open order, a fill, an exception): blocked funds are the margin recorded on
  the open positions plus the margin reserved by the pending orders, available plus blocked
  is the starting balance plus the realized result minus the charges of the filled orders,
  and the ledger replays to the available funds. Blocked funds are never negative. This is for
  an account scope without surrounding blanks, prices of at most four decimals in the order and in
  the market data, identifiers that do not repeat and a starting balance of at most six decimals.
\<close>

theorem place_order_keeps_books:
  assumes "env_ok env" "paper_ok env w" "validate_scope scope = Inr scope" "payload_ok payload"
    and "place_order_locked env scope payload att w = (res, w')"
  shows "paper_ok env w' \<and> (\<forall>s a. get_account s (w_db w') = Some a \<longrightarrow> 0 \<le> pa_blocked a)"
  using place_order_locked_ok [OF assms] blocked_nonneg by blast

theorem place_order_keeps_books_witness:
  "\<exists>res w'. place_order_locked demo_env ''acc'' (demo_payload ''MARKET'' 100) [] demo_world = (res, w')
     \<and> paper_ok demo_env w' \<and> (\<forall>s a. get_account s (w_db w') = Some a \<longrightarrow> 0 \<le> pa_blocked a)"
proof -
  obtain res w' where r: "place_order_locked demo_env ''acc'' (demo_payload ''MARKET'' 100) [] demo_world = (res, w')" by force
  show ?thesis using place_order_keeps_books [OF demo_env_ok demo_world_ok demo_scope demo_payload_ok(1) r] r by blast
qed

text \<open>
  A scope with a blank in front: the account is looked up under the name as given, is not found,
  and the fresh account is stored under the stripped name, in place of the one that is there. The
  funds are back at the starting balance while the open order still reserves its margin.
\<close>

lemma padded_scope_resets_account:
  "map_option (\<lambda>a. 0 < pa_blocked a) (get_account ''acc'' (w_db demo_open)) = Some True"
  "map_option (\<lambda>a. (pa_available a = pe_default_balance demo_env, pa_blocked a))
     (get_account ''acc'' (w_db (snd (ensure_account demo_env '' acc'' demo_open)))) = Some (True, 0)"
  "length (filter (\<lambda>r. is_pending (po_status r)) (map snd (db_orders (w_db (snd (ensure_account demo_env '' acc'' demo_open)))))) = 1"
  by code_simp+

text \<open>
  A basket, atomic or not, keeps the books of every account balanced, whatever it
  returns; a rolled-back basket included.
\<close>

theorem place_basket_keeps_books:
  assumes "env_ok env" "paper_ok env w" "validate_scope scope = Inr scope" "\<forall>p \<in> set (basket_orders payload). payload_ok p"
  shows "paper_ok env (snd (place_basket_locked env scope payload att w))"
  using place_basket_locked_ok [OF assms] .

theorem place_basket_keeps_books_witness:
  "paper_ok demo_env (snd (place_basket_locked demo_env ''acc''
     [(''orders'', JList [JObj (demo_payload ''MARKET'' 100), JObj (demo_payload ''LIMIT'' 100)]), (''all_or_none'', JBool True)]
     [] demo_world))"
proof -
  let ?p = "[(''orders'', JList [JObj (demo_payload ''MARKET'' 100), JObj (demo_payload ''LIMIT'' 100)]), (''all_or_none'', JBool True)]"
  have "\<forall>p \<in> set (basket_orders ?p). payload_ok p" using demo_payload_ok by (simp add: basket_orders_def obj_get_def)
  then show ?thesis by (rule place_basket_keeps_books [OF demo_env_ok demo_world_ok demo_scope])
qed

text \<open>
  A market tick keeps the books of every account balanced: the pending orders it fires,
  the reservations it releases, the positions it marks to market.
\<close>

theorem process_tick_keeps_books:
  assumes "env_ok env" "snapshot_ok (tk_snapshot tick)" "paper_ok env w"
  shows "paper_ok env (snd (process_tick env tick w))"
  using process_tick_ok [OF assms] .

definition demo_tick :: "rat \<Rightarrow> paper_tick" where
  "demo_tick x = \<lparr>tk_token = 7, tk_snapshot = \<lparr>sn_last = Some x, sn_buy = [], sn_sell = []\<rparr>\<rparr>"

lemma demo_tick_ok: "snapshot_ok (tk_snapshot (demo_tick 99))"
  by (simp add: demo_tick_def snapshot_ok_def price_ok_def on_grid_def)

lemma demo_open_ok: "paper_ok demo_env demo_open"
proof -
  obtain res w' where r: "place_order_locked demo_env ''acc'' (demo_payload ''LIMIT'' 100) [] demo_world = (res, w')" by force
  show ?thesis
    using place_order_locked_ok [OF demo_env_ok demo_world_ok demo_scope demo_payload_ok(2) r] by (simp add: demo_open_def r)
qed

theorem process_tick_keeps_books_witness: "paper_ok demo_env (snd (process_tick demo_env (demo_tick 99) demo_open))"
  by (rule process_tick_keeps_books [OF demo_env_ok demo_tick_ok demo_open_ok])

section \<open>Ticks\<close>

lemma mark_orders: "db_orders (w_db (mark_to_market env tick p w)) = db_orders (w_db w)"
  by (simp add: mark_to_market_def Let_def on_db_def upsert_position_def publish_event_def)

lemma fold_mark_orders: "db_orders (w_db (fold (mark_to_market env tick) ps w)) = db_orders (w_db w)"
  by (induction ps arbitrary: w) (simp_all add: mark_orders)

text \<open>
  C27. A tick whose prices have at most four decimals never raises on a balanced store, and of the
  pending orders whose instrument is still in the catalogue it settles (fills or, when the account
  cannot pay, rejects) exactly those of its instrument that are due at its prices; every other one
  is still pending. (An order whose instrument left the catalogue is skipped.)
\<close>

theorem process_tick_settles_due_orders:
  assumes "env_ok env" "snapshot_ok (tk_snapshot tick)" "paper_ok env w" "0 < tk_token tick"
    and r: "get_order s oid (w_db w) = Some r" "is_pending (po_status r)"
    and ins: "pe_instrument env (po_exchange r) (po_symbol r) \<noteq> None"
    and t: "process_tick env tick w = (res, w')"
  shows "res = Inr () \<and> (if po_token r = tk_token tick \<and> due (tk_snapshot tick) r then settled r w' else waiting r w')"
proof -
  let ?rs = "list_pending_orders_for_instrument (tk_token tick) (w_db w)"
  obtain res1 w1 where q: "tick_orders env tick ?rs w = (res1, w1)" by force
  have oks: "orders_ok env (db_orders (w_db w))" using assms(3) by (simp add: paper_ok_def store_ok_def)
  note T = tick_orders_ok [OF assms(1-3) pending_list [OF oks] q]
  have k: "order_key r = (s, oid)" using orders_ok_get [OF oks, of "(s, oid)"] r(1) by (simp add: get_order_def)
  have w': "res = Inr ()" "db_orders (w_db w') = db_orders (w_db w1)"
    using t T assms(4) by (auto simp: process_tick_def q fold_mark_orders)
  have same: "settled r w' = settled r w1" "waiting r w' = waiting r w1"
    by (simp_all add: settled_def waiting_def get_order_def w')
  have mem: "(s, oid) \<in> order_key ` set ?rs \<longleftrightarrow> r \<in> set ?rs"
    using pending_list(1) [OF oks, of "tk_token tick"] r k by (fastforce simp: stored_def get_order_def order_key_def)
  have inn: "r \<in> set ?rs \<longleftrightarrow> po_token r = tk_token tick"
    using r map_of_SomeD [of "db_orders (w_db w)" "(s, oid)" r]
    by (force simp: list_pending_orders_for_instrument_def get_order_def)
  show ?thesis
  proof (cases "po_token r = tk_token tick")
    case True
    then show ?thesis using T inn ins same w' by auto
  next
    case False
    then have "dict_get (db_orders (w_db w1)) (s, oid) = Some r" using T mem inn r(1) by (simp add: get_order_def)
    then show ?thesis using False r(2) k same w' by (simp add: waiting_def get_order_def order_key_def)
  qed
qed

definition demo_order :: paper_order where
  "demo_order = hd (map snd (db_orders (w_db demo_open)))"

lemma demo_order_value:
  "get_order ''acc'' ''PAPER-'' (w_db demo_open) = Some demo_order" "is_pending (po_status demo_order)"
  "pe_instrument demo_env (po_exchange demo_order) (po_symbol demo_order) \<noteq> None"
  "po_token demo_order = 7" "due (tk_snapshot (demo_tick 99)) demo_order"
  by code_simp+

theorem process_tick_settles_due_orders_witness:
  "\<exists>w'. process_tick demo_env (demo_tick 99) demo_open = (Inr (), w') \<and> settled demo_order w'"
proof -
  obtain res w' where t: "process_tick demo_env (demo_tick 99) demo_open = (res, w')" by force
  have "0 < tk_token (demo_tick 99)" "tk_token (demo_tick 99) = 7" by (simp_all add: demo_tick_def)
  then show ?thesis
    using process_tick_settles_due_orders [OF demo_env_ok demo_tick_ok demo_open_ok _ demo_order_value(1-3) t] demo_order_value(4,5) t
    by auto
qed

section \<open>Atomic baskets\<close>

lemma prepare_orders_frame:
  "w_db (snd (prepare_orders env scope att raws w)) = w_db w \<and> w_events (snd (prepare_orders env scope att raws w)) = w_events w
   \<and> (\<forall>ps. fst (prepare_orders env scope att raws w) = Inr (Inr ps) \<longrightarrow> length ps = length raws)"
proof (induction raws)
  case Nil
  then show ?case by simp
next
  case (Cons raw raws)
  obtain res1 w1 where p: "prepare_orders env scope att raws w = (res1, w1)" by force
  have b: "w_db (snd (bind_ok (build_rejected_result env scope rq att reason w) (\<lambda>res w1. (Inr (Inl res :: order_result + prepared_order list), w1)))) = w_db w
    \<and> w_events (snd (bind_ok (build_rejected_result env scope rq att reason w) (\<lambda>res w1. (Inr (Inl res :: order_result + prepared_order list), w1)))) = w_events w
    \<and> fst (bind_ok (build_rejected_result env scope rq att reason w) (\<lambda>res w1. (Inr (Inl res), w1))) \<noteq> Inr (Inr (ps :: prepared_order list))" for rq reason ps
    using build_rejected_world [of env scope rq att reason w]
    by (cases "build_rejected_result env scope rq att reason w"; cases "fst (build_rejected_result env scope rq att reason w)") auto
  show ?case using Cons.IH b
    by (cases res1) (auto simp: p split: sum.splits option.splits)
qed

lemma run_prepared_results:
  "fst (run_prepared env scope ps a w) = Inr (Inr rs) \<Longrightarrow> length rs = length ps \<and> (\<forall>x \<in> set rs. \<not> rejected_result x)"
proof (induction ps arbitrary: a w rs)
  case Nil
  then show ?case by simp
next
  case (Cons p ps)
  obtain rq ins sn att where p: "p = (rq, ins, sn, att)" by (cases p)
  obtain res w1 where r: "place_order_locked_uow env scope a rq ins sn att w = (res, w1)" by force
  then obtain x a1 where x: "res = Inr (x, a1)" "\<not> rejected_result x"
    using Cons.prems by (cases res) (auto simp: p split: if_splits)
  obtain res2 w2 where q: "run_prepared env scope ps a1 w1 = (res2, w2)" by force
  then obtain rs2 where "res2 = Inr (Inr rs2)" "rs = x # rs2"
    using Cons.prems x r by (cases res2) (auto simp: p split: sum.splits)
  then show ?case using Cons.IH [of a1 w1 rs2] q x by simp
qed

text \<open>
  C6. An atomic basket is all or nothing: either it reports success with one result per
  order, none of them a rejection, or it fails or raises and leaves the database and the
  published events exactly as they were.
\<close>

theorem atomic_basket_all_or_nothing:
  "case place_basket_all_or_none_atomic env scope orders att w of (res, w') \<Rightarrow>
     (\<exists>rs. res = Inr \<lparr>br_status = ''success'', br_results = rs, br_errors = []\<rparr> \<and> length rs = length orders
        \<and> list_all (\<lambda>x. \<not> rejected_result x) rs)
     \<or> (w_db w' = w_db w \<and> w_events w' = w_events w \<and> (case res of Inl _ \<Rightarrow> True | Inr b \<Rightarrow> br_status b = ''failed'' \<and> br_results b = []))"
proof -
  obtain prep w1 where p: "prepare_orders env scope att orders w = (prep, w1)" by force
  have P: "w_db w1 = w_db w" "w_events w1 = w_events w" "\<And>ps. prep = Inr (Inr ps) \<Longrightarrow> length ps = length orders"
    using prepare_orders_frame [of env scope att orders w] by (simp_all add: p)
  show ?thesis
  proof (cases "\<exists>ps. prep = Inr (Inr ps)")
    case False
    then have "(\<exists>e. prep = Inl e) \<or> (\<exists>x. prep = Inr (Inl x))" by (metis sum.exhaust)
    then show ?thesis using P by (auto simp: place_basket_all_or_none_atomic_def p failed_basket_def)
  next
    case True
    then obtain ps where ps: "prep = Inr (Inr ps)" by blast
    obtain out w2 where b: "bind_ok (ensure_account env scope (w1\<lparr>w_events := []\<rparr>)) (\<lambda>a w2. run_prepared env scope ps a w2) = (out, w2)" by force
    have "length rs = length ps \<and> (\<forall>x \<in> set rs. \<not> rejected_result x)" if out: "out = Inr (Inr rs)" for rs
    proof -
      obtain a1 v where "ensure_account env scope (w1\<lparr>w_events := []\<rparr>) = (Inr a1, v)" "run_prepared env scope ps a1 v = (out, w2)"
        using b out by (auto simp: bind_ok_def split: prod.splits sum.splits)
      then show ?thesis using run_prepared_results [of env scope ps a1 v rs] out by simp
    qed
    then show ?thesis using P ps
      by (cases out) (auto simp: place_basket_all_or_none_atomic_def p Let_def b failed_basket_def list_all_iff split: sum.splits)
  qed
qed

section \<open>The two fill paths\<close>

lemma fill_paths_agree:
  assumes "fill_order_uow env r a rq ins price ex w = (Inr (res, a'), w')" "\<not> rejected_result res"
  shows "fill_order env r a rq ins price ex w = (Inr res, w')"
proof -
  have rej: "bind_ok (build_rejected_result env s rq md reason w) (\<lambda>res w1. (Inr (res, a), w1)) \<noteq> (Inr (res, a'), w')" for s md reason
    using assms(2) by (auto simp: build_rejected_result_def rejected_result_def bind_ok_def split: prod.splits sum.splits)
  have "bind_ok (book_fill env r price np m w1) (\<lambda>res w2. (Inr (res, a1), w2)) = (Inr (res, a'), w')
     \<Longrightarrow> book_fill env r price np m w1 = (Inr res, w')" for np m w1 a1
    by (auto simp: bind_ok_def split: prod.splits sum.splits)
  then show ?thesis
    using assms(1) rej unfolding fill_order_uow_eq fill_order_def Let_def
    by (simp split: if_splits prod.splits)
qed

text \<open>
  C28. The unit-of-work copy of the order path, which is separate code down to its cash, margin,
  lot and trigger helpers, agrees with the plain one: an order of an atomic basket that is not
  rejected has the result and the effect, on the database and on the events, of placing it alone.
\<close>

theorem basket_order_agrees_with_place_order:
  assumes n: "normalize_order_request payload = Inr rq" and ins: "pe_instrument env (rq_exchange rq) (rq_symbol rq) = Some ins"
    and acc: "get_account scope (w_db w) = Some a"
    and u: "place_order_locked_uow env scope a rq ins (pe_snapshot env (in_token ins))
       (merged_attribution att (payload_metadata payload)) w = (Inr (res, a'), w')"
    and ok: "\<not> rejected_result res"
  shows "place_order_locked env scope payload att w = (Inr res, w')"
proof -
  let ?sn = "pe_snapshot env (in_token ins)" and ?ex = "get_position scope (in_token ins) (rq_product rq) (w_db w)"
  have e: "ensure_account env scope w = (Inr a, w)" using acc by (simp add: ensure_account_def)
  obtain t where adm: "admit_order scope a rq ins ?sn ?ex (pe_now env) = Inr t"
    using u ok by (cases "admit_order scope a rq ins ?sn ?ex (pe_now env)")
      (auto simp: place_order_locked_uow_eq Let_def build_rejected_result_def rejected_result_def bind_ok_def split: prod.splits sum.splits)
  obtain ref incremental contract where t: "t = (ref, incremental, contract)" by (cases t)
  let ?att = "merged_attribution att (payload_metadata payload)"
  obtain res1 w1 where c: "accept_order env scope a rq ins ?sn ?att incremental contract w = (res1, w1)" by force
  obtain o1 a1 where o1: "res1 = Inr (o1, a1)" using u by (cases res1) (auto simp: place_order_locked_uow_eq adm t c)
  show ?thesis
  proof (cases "should_fill_immediately rq ?sn")
    case True
    then have "fill_order_uow env o1 a1 rq ins (fill_price o1 ?sn ref) ?ex w1 = (Inr (res, a'), w')"
      using u by (simp add: place_order_locked_uow_eq adm t c o1)
    then have "fill_order env o1 a1 rq ins (fill_price o1 ?sn ref) ?ex w1 = (Inr res, w')" using fill_paths_agree ok by blast
    then show ?thesis using True by (simp add: place_order_locked_def n e ins adm t c o1)
  next
    case False
    then have "bind_ok (open_order env o1 w1) (\<lambda>row w2. (Inr (ResAccepted row, a1), w2)) = (Inr (res, a'), w')"
      using u by (simp add: place_order_locked_uow_eq adm t c o1)
    then have "bind_ok (open_order env o1 w1) (\<lambda>row w2. (Inr (ResAccepted row), w2)) = (Inr res, w')"
      by (auto simp: bind_ok_def split: prod.splits sum.splits)
    then show ?thesis using False by (simp add: place_order_locked_def n e ins adm t c o1)
  qed
qed

definition demo_request :: order_request where
  "demo_request = \<lparr>rq_exchange = ''NSE'', rq_symbol = ''ABC'', rq_side = ''BUY'', rq_product = ''CNC'', rq_type = ''MARKET'',
      rq_quantity = 10, rq_price = Some 100, rq_trigger = None\<rparr>"

definition demo_account :: paper_account where
  "demo_account = snd (hd (db_accounts (w_db demo_open)))"

lemma demo_basket_order:
  "case fst (place_order_locked_uow demo_env ''acc'' demo_account demo_request demo_instrument demo_snapshot
       (merged_attribution [] (payload_metadata (demo_payload ''MARKET'' 100))) demo_open) of
     Inl _ \<Rightarrow> False | Inr (res, a') \<Rightarrow> \<not> rejected_result res"
  by code_simp

lemma demo_account_value: "get_account ''acc'' (w_db demo_open) = Some demo_account"
  by code_simp

theorem basket_order_agrees_with_place_order_witness:
  "\<exists>res w'. \<not> rejected_result res
     \<and> place_order_locked demo_env ''acc'' (demo_payload ''MARKET'' 100) [] demo_open = (Inr res, w')"
proof -
  let ?u = "place_order_locked_uow demo_env ''acc'' demo_account demo_request demo_instrument demo_snapshot
       (merged_attribution [] (payload_metadata (demo_payload ''MARKET'' 100))) demo_open"
  obtain res a' w' where u: "?u = (Inr (res, a'), w')" "\<not> rejected_result res"
    using demo_basket_order by (cases "?u"; cases "fst ?u") auto
  have "place_order_locked demo_env ''acc'' (demo_payload ''MARKET'' 100) [] demo_open = (Inr res, w')"
    by (rule basket_order_agrees_with_place_order [OF _ _ demo_account_value _ u(2), of _ demo_request _ demo_instrument])
      (use u(1) in \<open>simp_all add: demo_normalized demo_request_def demo_env_def\<close>)
  then show ?thesis using u(2) by blast
qed

end
