(* ===== verification/PaperPositions.thy ===== *)
theory PaperPositions
  imports PaperTheorems
begin

text \<open>
  The arithmetic of the paper runtime below the books: what a fill does to a position, which
  lots a sale consumes, when an order is admitted, and what a reset leaves.
\<close>

section \<open>Fills and positions\<close>

text \<open>The value of a position marked at a price: its realized result and the open gain.\<close>

definition marked_value :: "paper_position option \<Rightarrow> dec \<Rightarrow> dec" where
  "marked_value pos price = (case pos of None \<Rightarrow> 0 | Some p \<Rightarrow> pp_realized p + (price - pp_average p) * of_int (pp_net p))"

definition net_of :: "paper_position option \<Rightarrow> int" where
  "net_of pos = (case pos of None \<Rightarrow> 0 | Some p \<Rightarrow> pp_net p)"

definition signed_quantity :: "order_request \<Rightarrow> int" where
  "signed_quantity rq = (if rq_side rq = ''BUY'' then rq_quantity rq else - rq_quantity rq)"

lemma fill_net: "pp_net (apply_fill_to_position scope pos rq price ins now) = net_of pos + signed_quantity rq"
  by (simp add: apply_fill_to_position_def Let_def net_of_def signed_quantity_def)

lemma fill_unrealized:
  "pp_unrealized (apply_fill_to_position scope pos rq price ins now) =
     (price - pp_average (apply_fill_to_position scope pos rq price ins now)) * of_int (net_of pos + signed_quantity rq)"
proof -
  let ?p = "apply_fill_to_position scope pos rq price ins now" and ?n = "net_of pos + signed_quantity rq"
  have u: "pp_unrealized ?p = (if ?n > 0 then (price - pp_average ?p) * of_int ?n
      else if ?n < 0 then (pp_average ?p - price) * of_int \<bar>?n\<bar> else 0)"
    unfolding apply_fill_to_position_def Let_def net_of_def signed_quantity_def by simp
  consider "?n > 0" | "?n = 0" | "?n < 0" by linarith
  then show ?thesis
  proof cases
    case 3
    then have "rat_of_int \<bar>?n\<bar> = - of_int ?n" by simp
    then show ?thesis using 3 unfolding u by (simp only: if_False if_True) (simp add: algebra_simps)
  qed (simp_all add: u)
qed

text \<open>The average price of an extended position is the weighted one.\<close>

lemma fill_extends_average:
  assumes "0 < rq_quantity rq" "0 < pp_net p * signed_quantity rq"
  shows "pp_average (apply_fill_to_position scope (Some p) rq price ins now) * of_int (pp_net p + signed_quantity rq)
    = pp_average p * of_int (pp_net p) + price * of_int (signed_quantity rq)"
    "pp_realized (apply_fill_to_position scope (Some p) rq price ins now) = pp_realized p"
proof -
  let ?n = "pp_net p" and ?s = "signed_quantity rq"
  have c: "(?n > 0 \<and> rq_side rq = ''BUY'') \<or> (?n < 0 \<and> rq_side rq \<noteq> ''BUY'')"
    using assms by (auto simp: signed_quantity_def zero_less_mult_iff split: if_splits)
  have av: "pp_average (apply_fill_to_position scope (Some p) rq price ins now) =
      (pp_average p * of_int \<bar>?n\<bar> + price * of_int (rq_quantity rq)) / of_int \<bar>?n + ?s\<bar>"
    using c by (auto simp: apply_fill_to_position_def Let_def signed_quantity_def)
  have "(of_int \<bar>?n + ?s\<bar> :: rat) \<noteq> 0" using c assms(1) by (auto simp: signed_quantity_def)
  then have m: "pp_average (apply_fill_to_position scope (Some p) rq price ins now) * of_int \<bar>?n + ?s\<bar> =
      pp_average p * of_int \<bar>?n\<bar> + price * of_int (rq_quantity rq)"
    unfolding av by simp
  show "pp_average (apply_fill_to_position scope (Some p) rq price ins now) * of_int (?n + ?s)
    = pp_average p * of_int ?n + price * of_int ?s"
    using c
  proof
    assume "?n > 0 \<and> rq_side rq = ''BUY''"
    then show ?thesis using m assms(1) by (simp add: signed_quantity_def)
  next
    assume n: "?n < 0 \<and> rq_side rq \<noteq> ''BUY''"
    then have "\<bar>?n\<bar> = - ?n" "\<bar>?n + ?s\<bar> = - (?n + ?s)" using assms(1) by (simp_all add: signed_quantity_def)
    then show ?thesis using m n by (simp add: signed_quantity_def algebra_simps)
  qed
  show "pp_realized (apply_fill_to_position scope (Some p) rq price ins now) = pp_realized p"
    using c by (auto simp: apply_fill_to_position_def Let_def)
qed

text \<open>The cost basis: realized result minus the cost of what is held moves by the cash paid.\<close>

lemma fill_cost_basis:
  assumes "0 < rq_quantity rq"
  shows "pp_realized (apply_fill_to_position scope (Some p) rq price ins now)
      - pp_average (apply_fill_to_position scope (Some p) rq price ins now) * of_int (pp_net p + signed_quantity rq)
    = pp_realized p - pp_average p * of_int (pp_net p) - price * of_int (signed_quantity rq)"
proof -
  let ?q = "rq_quantity rq" and ?n = "pp_net p" and ?s = "signed_quantity rq"
  consider "0 < ?n * ?s" | "?n = 0" | "?n * ?s < 0" "?q < \<bar>?n\<bar>" | "?n * ?s < 0" "?q = \<bar>?n\<bar>" | "?n * ?s < 0" "\<bar>?n\<bar> < ?q"
    using assms by (fastforce simp: signed_quantity_def zero_less_mult_iff mult_less_0_iff split: if_splits)
  then show ?thesis
  proof cases
    case 1
    show ?thesis using fill_extends_average [OF assms 1, of scope price ins now] by simp
  next
    case 2
    then show ?thesis using assms by (simp add: apply_fill_to_position_def Let_def signed_quantity_def)
  next
    case 3
    then show ?thesis using assms
      by (auto simp: apply_fill_to_position_def Let_def signed_quantity_def min_def mult_less_0_iff algebra_simps split: if_splits)
  next
    case 4
    then show ?thesis using assms
      by (auto simp: apply_fill_to_position_def Let_def signed_quantity_def mult_less_0_iff algebra_simps split: if_splits)
  next
    case 5
    then show ?thesis using assms
      by (auto simp: apply_fill_to_position_def Let_def signed_quantity_def min_def mult_less_0_iff algebra_simps split: if_splits)
  qed
qed

text \<open>
  C29. Filling at a price moves no value at that price: the realized result plus the
  unrealized one after the fill is the value of the old position marked at the fill price,
  whether the fill opens, extends, reduces, closes or flips the position; the net quantity
  moves by the signed quantity, and stays the bought minus the sold quantity.
\<close>

theorem fill_preserves_marked_value:
  assumes "0 < rq_quantity rq"
  shows "let p' = apply_fill_to_position scope pos rq price ins now in
     pp_realized p' + pp_unrealized p' = marked_value pos price
     \<and> pp_unrealized p' = (price - pp_average p') * of_int (pp_net p')
     \<and> pp_net p' = net_of pos + signed_quantity rq
     \<and> pp_buy_qty p' - pp_sell_qty p' - pp_net p' = (case pos of None \<Rightarrow> 0 | Some p \<Rightarrow> pp_buy_qty p - pp_sell_qty p - pp_net p)"
proof -
  let ?p = "apply_fill_to_position scope pos rq price ins now"
  have "pp_realized ?p + pp_unrealized ?p = marked_value pos price"
  proof (cases pos)
    case None
    then show ?thesis using assms by (simp add: apply_fill_to_position_def Let_def marked_value_def)
  next
    case (Some p)
    show ?thesis using fill_cost_basis [OF assms, of scope p price ins now]
      unfolding fill_unrealized by (simp add: Some net_of_def marked_value_def algebra_simps)
  qed
  moreover have "pp_buy_qty ?p - pp_sell_qty ?p - pp_net ?p = (case pos of None \<Rightarrow> 0 | Some p \<Rightarrow> pp_buy_qty p - pp_sell_qty p - pp_net p)"
    by (auto simp: apply_fill_to_position_def Let_def split: option.splits)
  ultimately show ?thesis by (simp add: Let_def fill_net fill_unrealized)
qed

definition demo_short :: paper_position where
  "demo_short = \<lparr>pp_scope = ''acc'', pp_token = 7, pp_product = ''CNC'', pp_exchange = ''NSE'', pp_symbol = ''ABC'',
     pp_net = -4, pp_average = 90, pp_buy_qty = 0, pp_sell_qty = 4, pp_buy_value = 0, pp_sell_value = 360, pp_realized = 5,
     pp_unrealized = 0, pp_updated_at = 0, pp_metadata = []\<rparr>"

theorem fill_preserves_marked_value_witness:
  "let p' = apply_fill_to_position ''acc'' (Some demo_short) demo_request (201 / 2) demo_instrument 0 in
     pp_realized p' + pp_unrealized p' = - 37 \<and> pp_net p' = 6"
proof -
  have q: "0 < rq_quantity demo_request" "signed_quantity demo_request = 10" by (simp_all add: demo_request_def signed_quantity_def)
  have "marked_value (Some demo_short) (201 / 2) = - 37" "net_of (Some demo_short) = -4"
    by (simp_all add: marked_value_def net_of_def demo_short_def)
  moreover note fill_preserves_marked_value [OF q(1), of "''acc''" "Some demo_short" "201 / 2" demo_instrument 0, unfolded Let_def]
  ultimately show ?thesis unfolding Let_def q(2) by linarith
qed

section \<open>Lots\<close>

text \<open>
  Lots are consumed first in, first out: the quantity a sale takes from the lot at a place of
  the list is what the earlier ones leave of it.
\<close>

abbreviation lot_key :: "paper_lot \<Rightarrow> string \<times> string" where
  "lot_key l \<equiv> (pl_scope l, pl_id l)"

definition remaining_at :: "paper_store \<Rightarrow> paper_lot \<Rightarrow> int option" where
  "remaining_at db l = map_option pl_remaining (dict_get (db_lots db) (lot_key l))"

definition taken :: "int \<Rightarrow> paper_lot list \<Rightarrow> nat \<Rightarrow> int" where
  "taken q ls i = min (pl_remaining (ls ! i)) (max 0 (q - sum_list (map pl_remaining (take i ls))))"

lemma consume_lots_done: "q \<le> 0 \<Longrightarrow> consume_lots now ls q db = db"
  by (cases ls) simp_all

lemma consume_lots_other:
  "k \<notin> lot_key ` set ls \<Longrightarrow> dict_get (db_lots (consume_lots now ls q db)) k = dict_get (db_lots db) k"
  by (induction ls arbitrary: q db) (auto simp: Let_def upsert_position_lot_def)

lemma taken_Suc: "taken q (l # ls) (Suc i) = taken (q - pl_remaining l) ls i"
  by (simp add: taken_def algebra_simps)

lemma taken_nonneg: "0 < pl_remaining (ls ! i) \<Longrightarrow> 0 \<le> taken q ls i \<and> taken q ls i \<le> pl_remaining (ls ! i)"
  by (simp add: taken_def)

lemma taken_zero: "q \<le> 0 \<Longrightarrow> \<forall>l \<in> set ls. 0 < pl_remaining l \<Longrightarrow> i < length ls \<Longrightarrow> taken q ls i = 0"
proof -
  assume a: "q \<le> 0" "\<forall>l \<in> set ls. 0 < pl_remaining l" "i < length ls"
  have "0 \<le> sum_list (map pl_remaining (take i ls))"
    using a(2) by (intro sum_list_map_nonneg) (auto dest: in_set_takeD intro: less_imp_le)
  moreover have "0 < pl_remaining (ls ! i)" using a by simp
  ultimately show ?thesis using a(1) by (simp add: taken_def)
qed

lemma consume_lots_fifo:
  assumes "distinct (map lot_key ls)" "\<forall>l \<in> set ls. 0 < pl_remaining l \<and> dict_get (db_lots db) (lot_key l) = Some l" "i < length ls"
  shows "remaining_at (consume_lots now ls q db) (ls ! i) = Some (pl_remaining (ls ! i) - taken q ls i)"
  using assms
proof (induction ls arbitrary: q db i)
  case Nil
  then show ?case by simp
next
  case (Cons l ls)
  show ?case
  proof (cases "q \<le> 0")
    case True
    have "taken q (l # ls) i = 0" using True Cons.prems by (intro taken_zero) auto
    moreover have "dict_get (db_lots db) (lot_key ((l # ls) ! i)) = Some ((l # ls) ! i)"
      using Cons.prems(2,3) nth_mem by blast
    ultimately show ?thesis using True by (simp add: consume_lots_done remaining_at_def)
  next
    case False
    let ?c = "min (pl_remaining l) q"
    let ?l = "lot_row (l\<lparr>pl_remaining := pl_remaining l - ?c,
      pl_closed_at := (if pl_remaining l - ?c = 0 then Some now else pl_closed_at l)\<rparr>)"
    let ?db = "db\<lparr>db_lots := dict_set (lot_key l) ?l (db_lots db)\<rparr>"
    have pos: "0 < pl_remaining l" using Cons.prems(2) by simp
    have step: "consume_lots now (l # ls) q db = consume_lots now ls (q - ?c) ?db"
      using False pos by (simp add: Let_def upsert_position_lot_def)
    have new: "lot_key l \<notin> lot_key ` set ls" using Cons.prems(1) by simp
    have st: "\<forall>l' \<in> set ls. 0 < pl_remaining l' \<and> dict_get (db_lots ?db) (lot_key l') = Some l'"
      using Cons.prems(2) new by (auto simp: image_iff)
    show ?thesis
    proof (cases i)
      case 0
      have "dict_get (db_lots (consume_lots now ls (q - ?c) ?db)) (lot_key l) = Some ?l"
        using consume_lots_other [OF new, of now "q - ?c" ?db] by simp
      then have "remaining_at (consume_lots now ls (q - ?c) ?db) l = Some (pl_remaining l - ?c)" by (simp add: remaining_at_def)
      then show ?thesis unfolding 0 step nth_Cons_0 using False by (simp add: taken_def max_def)
    next
      case (Suc j)
      have IH: "remaining_at (consume_lots now ls (q - ?c) ?db) (ls ! j) = Some (pl_remaining (ls ! j) - taken (q - ?c) ls j)"
        using Cons.IH [OF _ st, of j "q - ?c"] Cons.prems(1,3) Suc by simp
      have "taken (q - ?c) ls j = taken (q - pl_remaining l) ls j"
      proof (cases "pl_remaining l \<le> q")
        case False
        then have "taken (q - ?c) ls j = 0" "taken (q - pl_remaining l) ls j = 0"
          using Cons.prems(2,3) Suc by (simp_all add: taken_zero)
        then show ?thesis by simp
      qed (simp add: min_def)
      then show ?thesis unfolding step Suc taken_Suc using IH by simp
    qed
  qed
qed

definition lots_ok :: "paper_store \<Rightarrow> bool" where
  "lots_ok db \<longleftrightarrow> distinct (map fst (db_lots db)) \<and> (\<forall>(k, l) \<in> set (db_lots db). k = lot_key l)"

lemma open_lots_stored:
  assumes "lots_ok db"
  shows "distinct (map lot_key (list_open_position_lots scope token product db))"
    "\<forall>l \<in> set (list_open_position_lots scope token product db). 0 < pl_remaining l \<and> dict_get (db_lots db) (lot_key l) = Some l"
proof -
  let ?t = "db_lots db"
  have d: "distinct (map fst ?t)" and k: "\<forall>(k, l) \<in> set ?t. k = lot_key l" using assms by (auto simp: lots_ok_def)
  have "map lot_key (map snd ?t) = map fst ?t" using k by (induction ?t) auto
  then have "distinct (map lot_key (filter P (map snd ?t)))" for P using d distinct_map_filter by metis
  then show "distinct (map lot_key (list_open_position_lots scope token product db))"
    unfolding list_open_position_lots_def by (simp add: distinct_map)
  show "\<forall>l \<in> set (list_open_position_lots scope token product db). 0 < pl_remaining l \<and> dict_get (db_lots db) (lot_key l) = Some l"
    using d k by (auto simp: list_open_position_lots_def intro: map_of_is_SomeI)
qed

lemma ordered_lots_sub:
  assumes "distinct (map lot_key lots)"
  shows "set (ordered_lots_for_consumption lots pref strict) \<subseteq> set lots"
    "distinct (map lot_key (ordered_lots_for_consumption lots pref strict))"
  using assms by (auto simp: ordered_lots_for_consumption_def Let_def distinct_map inj_on_def)

text \<open>
  A sale consumes the open lots of its instrument in the order of preference, each
  group first in first out: from every eligible lot it takes what the earlier ones leave of
  the quantity, never more than the lot holds, and it touches no other lot.
\<close>

theorem consume_position_lots_fifo:
  fixes env scope token product q pref strict w
  defines "eligible \<equiv> ordered_lots_for_consumption (list_open_position_lots scope (Some token) (Some product) (w_db w)) pref strict"
    and "w' \<equiv> consume_position_lots env scope token product q pref strict w"
  assumes "lots_ok (w_db w)"
  shows "(\<forall>i < length eligible. remaining_at (w_db w') (eligible ! i) = Some (pl_remaining (eligible ! i) - taken q eligible i)
       \<and> 0 \<le> taken q eligible i \<and> taken q eligible i \<le> pl_remaining (eligible ! i))
     \<and> (\<forall>k. k \<notin> lot_key ` set eligible \<longrightarrow> dict_get (db_lots (w_db w')) k = dict_get (db_lots (w_db w)) k)"
proof -
  note O = open_lots_stored [OF assms(3), of scope "Some token" "Some product"]
  note S = ordered_lots_sub [OF O(1), of pref strict, folded eligible_def]
  have st: "\<forall>l \<in> set eligible. 0 < pl_remaining l \<and> dict_get (db_lots (w_db w)) (lot_key l) = Some l" using O(2) S(1) by blast
  have w': "w_db w' = consume_lots (pe_now env) eligible q (w_db w)"
    by (simp add: w'_def consume_position_lots_def eligible_def Let_def consume_lots_done max_def)
  show ?thesis
    using consume_lots_fifo [OF S(2) st] consume_lots_other taken_nonneg st nth_mem by (fastforce simp: w')
qed

definition demo_lot :: "string \<Rightarrow> int \<Rightarrow> paper_lot" where
  "demo_lot lid t = \<lparr>pl_scope = ''acc'', pl_id = lid, pl_token = 7, pl_product = ''CNC'', pl_trade_id = ''t'', pl_order_id = ''o'',
     pl_open = 10, pl_remaining = 10, pl_entry_price = 100, pl_opened_at = t, pl_closed_at = None, pl_metadata = []\<rparr>"

definition demo_lots :: world where
  "demo_lots = demo_world\<lparr>w_db := empty_store\<lparr>db_lots := [((''acc'', ''b''), demo_lot ''b'' 2), ((''acc'', ''a''), demo_lot ''a'' 1)]\<rparr>\<rparr>"

lemma demo_eligible:
  "ordered_lots_for_consumption (list_open_position_lots ''acc'' (Some 7) (Some ''CNC'') (w_db demo_lots)) None False = [demo_lot ''a'' 1, demo_lot ''b'' 2]"
  by code_simp

theorem consume_position_lots_fifo_witness:
  "remaining_at (w_db (consume_position_lots demo_env ''acc'' 7 ''CNC'' 15 None False demo_lots)) (demo_lot ''a'' 1) = Some 0
   \<and> remaining_at (w_db (consume_position_lots demo_env ''acc'' 7 ''CNC'' 15 None False demo_lots)) (demo_lot ''b'' 2) = Some 5"
proof -
  have "lots_ok (w_db demo_lots)" by (simp add: lots_ok_def demo_lots_def demo_lot_def empty_store_def)
  note F = consume_position_lots_fifo [OF this, of "''acc''" 7 "''CNC''" None False demo_env 15, unfolded demo_eligible]
  have "taken 15 [demo_lot ''a'' 1, demo_lot ''b'' 2] 0 = 10" "taken 15 [demo_lot ''a'' 1, demo_lot ''b'' 2] (Suc 0) = 5"
    by (simp_all add: taken_def demo_lot_def)
  then show ?thesis using F by (force simp: demo_lot_def dest: spec [of _ "0::nat"] spec [of _ "Suc 0"])
qed

text \<open>The open quantity of an instrument's lots.\<close>

definition open_quantity :: "paper_store \<Rightarrow> string \<Rightarrow> int \<Rightarrow> string \<Rightarrow> int" where
  "open_quantity db scope token product = sum_list (map pl_remaining (list_open_position_lots scope (Some token) (Some product) db))"

definition demo_sell :: jobj where
  "demo_sell = dict_set ''transaction_type'' (JStr ''SELL'') (demo_payload ''MARKET'' 100)"

definition lot_report :: "world \<Rightarrow> int option \<times> int" where
  "lot_report w = (map_option pp_net (get_position ''acc'' 7 ''CNC'' (w_db w)), open_quantity (w_db w) ''acc'' 7 ''CNC'')"

definition demo_shorted :: world where
  "demo_shorted = snd (place_order_locked demo_env ''acc'' demo_sell [] demo_world)"

text \<open>
  A buy opens a lot for its whole quantity whatever position it trades against: a
  short sale of ten followed by its cover leaves a flat position and an open lot of ten.
\<close>

theorem cover_leaves_open_lot:
  "lot_report demo_shorted = (Some (-10), 0)
   \<and> lot_report (snd (place_order_locked demo_env ''acc'' (demo_payload ''MARKET'' 100) [] demo_shorted)) = (Some 0, 10)"
  by (rule conjI; code_simp)

section \<open>Admission\<close>

text \<open>
  An order is admitted exactly when it has a positive reference price, its quantity is
  a whole number of lots, and the available funds cover the margin it adds at that price
  plus its charges; each refusal carries its own reason, tested in this order.
\<close>

theorem admission_decision:
  fixes scope a rq ins sn existing now
  defines "ref \<equiv> reference_price rq ins sn"
    and "margin \<equiv> max (position_margin (Some (apply_fill_to_position scope existing rq (reference_price rq ins sn) ins now))
        (in_type ins) (reference_price rq ins sn) - position_margin existing (in_type ins) (reference_price rq ins sn)) 0"
    and "charges \<equiv> estimate (reference_price rq ins sn) (rq_quantity rq) (in_type ins) (Some (rq_exchange rq))"
  shows "case admit_order scope a rq ins sn existing now of
      Inr (r, m, c) \<Rightarrow> r = ref \<and> m = margin \<and> cc_total_charges c = charges
        \<and> 0 < ref \<and> (lot_size_of ins \<le> 1 \<or> lot_size_of ins dvd rq_quantity rq) \<and> margin + charges \<le> pa_available a \<and> 0 \<le> margin \<and> 0 \<le> charges
    | Inl reason \<Rightarrow>
        ref \<le> 0 \<and> reason = ''No reference price available for paper execution''
        \<or> 0 < ref \<and> 1 < lot_size_of ins \<and> \<not> lot_size_of ins dvd rq_quantity rq
            \<and> reason = ''Quantity must be a multiple of lot size '' @ int_str (lot_size_of ins)
        \<or> 0 < ref \<and> (lot_size_of ins \<le> 1 \<or> lot_size_of ins dvd rq_quantity rq) \<and> pa_available a < margin + charges
            \<and> reason = ''Insufficient paper funds or margin''"
proof -
  have t: "cc_total_charges (estimate_contract ref (rq_quantity rq) (in_type ins) (Some (rq_exchange rq))) = charges"
    unfolding ref_def charges_def by (rule estimate_contract_total)
  have c: "0 < ref \<Longrightarrow> 0 \<le> charges" unfolding charges_def ref_def by (rule estimate_nonneg) simp
  have m: "0 \<le> margin" by (simp add: margin_def)
  let ?n = "lot_size_of ins" and ?q = "rq_quantity rq"
  have ad: "admit_order scope a rq ins sn existing now =
      (if ref \<le> 0 then Inl ''No reference price available for paper execution''
       else if ?n > 1 \<and> ?q mod ?n \<noteq> 0 then Inl (''Quantity must be a multiple of lot size '' @ int_str ?n)
       else if pa_available a < margin + charges then Inl ''Insufficient paper funds or margin''
       else Inr (ref, margin, estimate_contract ref ?q (in_type ins) (Some (rq_exchange rq))))"
    unfolding admit_order_def Let_def margin_def ref_def charges_def estimate_contract_total ..
  have d: "?n dvd ?q \<longleftrightarrow> ?q mod ?n = 0" by (rule dvd_eq_mod_eq_0)
  show ?thesis unfolding ad d using t c m
    by (cases "ref \<le> 0"; cases "?n > 1 \<and> ?q mod ?n \<noteq> 0"; cases "pa_available a < margin + charges") auto
qed

section \<open>Requests and stored orders\<close>

lemma side_upper:
  assumes "side_of (str_lower (str_upper s)) = Some sd" "replace_dash (str_upper s) = str_upper s"
  shows "str_upper (side_value sd) = str_upper s"
proof -
  have up: "str_upper ''buy'' = ''BUY''" "str_upper ''sell'' = ''SELL''" by code_simp+
  have "str_lower (replace_dash (str_upper s)) = side_value sd"
    using assms by (simp add: side_of_def split: if_splits)
  moreover have "\<forall>d \<in> set (side_value sd). 97 \<le> (of_char d :: nat) \<and> of_char d \<le> (122 :: nat)" by (cases sd) simp_all
  ultimately show ?thesis using lower_upper_string [of s "side_value sd"] by simp
qed

lemma lower_no_dash: "CHR ''-'' \<notin> set (str_lower s) \<Longrightarrow> replace_dash s = s"
proof (induction s)
  case Nil
  then show ?case by (simp add: replace_dash_def)
next
  case (Cons c s)
  have "c \<noteq> CHR ''-''" using Cons.prems by (auto simp: str_lower_def char_lower_def)
  then show ?case using Cons by (simp add: replace_dash_def str_lower_def)
qed

lemma order_type_value_inv: "order_type_of s = Some ty \<Longrightarrow> s = order_type_value ty"
  by (auto simp: order_type_of_def split: if_splits)

lemma lower_underscore:
  assumes "char_lower (if c = CHR ''-'' then CHR ''_'' else c) = CHR ''_''"
  shows "c = CHR ''-'' \<or> c = CHR ''_''"
proof (cases "c = CHR ''-''")
  case False
  then have "(of_char (char_lower c) :: nat) = 95" using assms by simp
  then have "(of_char c :: nat) = of_char (CHR ''_'')" by (simp add: of_char_lower Let_def split: if_splits)
  then show ?thesis unfolding of_char_eq_iff by simp
qed simp

lemma stop_market_type:
  assumes "str_lower (replace_dash (str_upper u)) = ''sl_m''"
  shows "str_upper u = ''SL-M'' \<or> str_upper u = ''SL_M''"
proof -
  have "length (str_lower (replace_dash (str_upper u))) = 4" unfolding assms by simp
  then have "length u = 4" by (simp add: str_lower_def replace_dash_def str_upper_def)
  then obtain a b c d where u: "u = [a, b, c, d]" by (auto simp: numeral_eq_Suc length_Suc_conv)
  have up: "char_upper CHR ''s'' = CHR ''S''" "char_upper CHR ''l'' = CHR ''L''" "char_upper CHR ''m'' = CHR ''M''" by code_simp+
  have eq: "char_lower (if char_upper a = CHR ''-'' then CHR ''_'' else char_upper a) = CHR ''s''"
    "char_lower (if char_upper b = CHR ''-'' then CHR ''_'' else char_upper b) = CHR ''l''"
    "char_lower (if char_upper c = CHR ''-'' then CHR ''_'' else char_upper c) = CHR ''_''"
    "char_lower (if char_upper d = CHR ''-'' then CHR ''_'' else char_upper d) = CHR ''m''"
    using assms by (simp_all add: u str_lower_def replace_dash_def str_upper_def)
  have "char_upper a = CHR ''S''" "char_upper b = CHR ''L''" "char_upper d = CHR ''M''"
    using lower_upper_letter [OF eq(1)] lower_upper_letter [OF eq(2)] lower_upper_letter [OF eq(4)] up by simp_all
  then show ?thesis using lower_underscore [OF eq(3)] by (simp add: u str_upper_def)
qed

lemma money_option: "(\<And>x. p = Some x \<Longrightarrow> on_grid 4 x) \<Longrightarrow> map_option money p = p"
  by (cases p) (simp_all add: money_exact on_grid_mono [where n = 4])

lemma stored_type:
  assumes "str_lower (replace_dash (str_upper u)) = order_type_value ty"
  shows "(if ty = SlM then ''SL-M'' else str_upper (order_type_value ty))
      = (if str_upper u = ''SL_M'' then ''SL-M'' else str_upper u)"
proof (cases ty)
  case SlM
  then show ?thesis using assms stop_market_type [of u] by auto
next
  case Market
  then have "str_upper u = str_upper ''market''" using assms by (intro lower_upper_string) simp_all
  moreover have "str_upper ''market'' \<noteq> ''SL_M''" by code_simp
  ultimately show ?thesis using Market by simp
next
  case Limit
  then have "str_upper u = str_upper ''limit''" using assms by (intro lower_upper_string) simp_all
  moreover have "str_upper ''limit'' \<noteq> ''SL_M''" by code_simp
  ultimately show ?thesis using Limit by simp
next
  case Sl
  then have "str_upper u = str_upper ''sl''" using assms by (intro lower_upper_string) simp_all
  moreover have "str_upper ''sl'' \<noteq> ''SL_M''" by code_simp
  ultimately show ?thesis using Sl by simp
qed

text \<open>
  The request rebuilt from a stored order is the request it was placed with: the tick
  handler decides on the same side, type, product, quantity and prices as the placing one.
  The type \<open>SL_M\<close>, which the order model accepts, is read back in its canonical spelling.
\<close>

theorem stored_order_gives_request_back:
  assumes n: "normalize_order_request payload = Inr rq" and "request_ok rq"
    and m: "make_order env scope token rq (rq_price rq) (rq_trigger rq) Pending md w = (Inr r, w1)"
  shows "request_from_paper_order (order_row r) = rq\<lparr>rq_type := (if rq_type rq = ''SL_M'' then ''SL-M'' else rq_type rq)\<rparr>"
proof -
  note O = make_order_inv(2) [OF m refl]
  obtain u v where u: "rq_type rq = str_upper u" and v: "rq_side rq = str_upper v"
    using n by (auto simp: normalize_order_request_def Let_def opt_price_def split: if_splits option.splits sum.splits prod.splits)
  have sd: "side_of (str_lower (rq_side rq)) = Some (po_side r)" and tr: "po_trigger r = rq_trigger rq"
    using m by (auto simp: make_order_def new_id_def split: sum.splits option.splits prod.splits)
  have "CHR ''-'' \<notin> set (str_lower (rq_side rq))" using sd by (auto simp: side_of_def split: if_splits)
  then have side: "str_upper (side_value (po_side r)) = rq_side rq"
    using side_upper [of v "po_side r"] sd by (simp add: v lower_no_dash)
  have prices: "map_option money (po_price r) = rq_price rq" "map_option money (po_trigger r) = rq_trigger rq"
    using O tr assms(2) money_option by (simp_all add: request_ok_def)
  have ty: "(if po_type r = SlM then ''SL-M'' else str_upper (order_type_value (po_type r)))
      = (if rq_type rq = ''SL_M'' then ''SL-M'' else rq_type rq)"
    using O stored_type [of u "po_type r"] order_type_value_inv by (simp add: u)
  show ?thesis
    by (rule order_request.equality) (use O side prices ty tr in \<open>auto simp: request_from_paper_order_def order_row_def split: if_splits\<close>)
qed

theorem stored_order_gives_request_back_witness:
  "\<exists>r w1. make_order demo_env ''acc'' 7 demo_request (Some 100) None Pending [] demo_world = (Inr r, w1)
     \<and> request_from_paper_order (order_row r) = demo_request"
proof -
  have "case fst (make_order demo_env ''acc'' 7 demo_request (Some 100) None Pending [] demo_world) of Inl _ \<Rightarrow> False | Inr _ \<Rightarrow> True"
    by code_simp
  then obtain r w1 where m: "make_order demo_env ''acc'' 7 demo_request (Some 100) None Pending [] demo_world = (Inr r, w1)"
    by (cases "make_order demo_env ''acc'' 7 demo_request (Some 100) None Pending [] demo_world") (auto split: sum.splits)
  have "normalize_order_request (demo_payload ''MARKET'' 100) = Inr demo_request" "request_ok demo_request"
    by (simp_all add: demo_normalized demo_request_def request_ok_def on_grid_def)
  from stored_order_gives_request_back [OF this, of demo_env "''acc''" 7 "[]" demo_world r w1] m
  show ?thesis by (simp add: demo_request_def)
qed

section \<open>Resets\<close>

lemma table_sum_filter: "\<forall>r \<in> set t. \<not> P r \<longrightarrow> f (snd r) = 0 \<Longrightarrow> table_sum f (filter P t) = table_sum f t"
  by (induction t) (auto simp: table_sum_def)

lemma clear_sums:
  assumes "s \<noteq> scope"
  shows "table_sum (reserved_weight s) (db_orders (clear_account_scope scope db)) = table_sum (reserved_weight s) (db_orders db)"
    "table_sum (charged_weight s) (db_orders (clear_account_scope scope db)) = table_sum (charged_weight s) (db_orders db)"
    "table_sum (margin_weight s) (db_positions (clear_account_scope scope db)) = table_sum (margin_weight s) (db_positions db)"
    "ledger_total s (clear_account_scope scope db) = ledger_total s db"
  using assms
  by (auto simp: clear_account_scope_def reserved_weight_def charged_weight_def margin_weight_def ledger_total_def
      intro!: table_sum_filter arg_cong [where f = sum_list] arg_cong [where f = "map _"] filter_cong)

lemma table_sum_zero: "\<forall>r \<in> set t. f (snd r) = 0 \<Longrightarrow> table_sum f t = 0"
  by (induction t) (auto simp: table_sum_def)

lemma cleared_sums:
  "table_sum (reserved_weight s) (db_orders (clear_account_scope s db)) = 0"
  "table_sum (charged_weight s) (db_orders (clear_account_scope s db)) = 0"
  "table_sum (margin_weight s) (db_positions (clear_account_scope s db)) = 0"
  "ledger_total s (clear_account_scope s db) = 0"
  by (auto simp: clear_account_scope_def reserved_weight_def charged_weight_def margin_weight_def ledger_total_def
      intro!: table_sum_zero)

text \<open>
  A reset leaves the account with the given balance, all of it available, nothing
  blocked and no order, trade, position, lot or ledger entry; the books of every account,
  the others included, balance as before.
\<close>

theorem reset_account_clears:
  assumes ok: "paper_ok env w" and scope: "validate_scope scope = Inr scope" and b: "on_grid 6 balance"
    and r: "reset_account env scope (Some balance) w = (res, w')"
  shows "paper_ok env w'
    \<and> (\<exists>a. get_account scope (w_db w') = Some a \<and> pa_starting a = balance \<and> pa_available a = balance \<and> pa_blocked a = 0 \<and> pa_realized a = 0)
    \<and> list_orders scope None None None None n (w_db w') = [] \<and> list_trades scope None None n (w_db w') = [] \<and> list_positions scope None None False (w_db w') = []
    \<and> list_fund_ledger scope n (w_db w') = [] \<and> list_open_position_lots scope None None (w_db w') = []
    \<and> (\<forall>s. s \<noteq> scope \<longrightarrow> get_account s (w_db w') = get_account s (w_db w))"
proof -
  let ?db = "clear_account_scope scope (w_db w)" and ?a = "fresh_account scope balance (pe_now env)"
  have aok: "account_ok ?a" using b by (simp add: account_ok_def fresh_account_def)
  obtain a where w': "w' = w\<lparr>w_db := ?db\<lparr>db_accounts := dict_set scope a (db_accounts (w_db w))\<rparr>\<rparr>"
    and a: "pa_scope a = scope" "pa_starting a = balance" "pa_available a = balance" "pa_blocked a = 0" "pa_realized a = 0"
    using r scope money_exact [OF b] money_exact [OF on_grid_0]
    by (auto simp: reset_account_def on_db_def upsert_account_def account_row_def fresh_account_def clear_account_scope_def
        Let_def split: option.splits)
  have a2: "account_ok a" using a b by (simp add: account_ok_def)
  have sok: "accounts_ok (w_db w)" "orders_ok env (db_orders (w_db w))" "positions_ok (db_positions (w_db w))"
    using ok by (simp_all add: paper_ok_def store_ok_def)
  have "balanced s (w_db w')" for s
  proof (cases "s = scope")
    case True
    then show ?thesis using a cleared_sums [of scope "w_db w"]
      by (simp add: w' balanced_def get_account_def ledger_total_def)
  next
    case False
    have "balanced s (w_db w)" using ok by (simp add: paper_ok_def funds_ok_def)
    then show ?thesis using False clear_sums [OF False, of "w_db w"]
      by (simp add: w' balanced_def get_account_def ledger_total_def split: option.splits)
  qed
  moreover have "accounts_ok (w_db w')"
    using accounts_ok_set [OF sok(1) a2] by (simp add: w' accounts_ok_def a)
  moreover have "orders_ok env (db_orders (w_db w'))" "positions_ok (db_positions (w_db w'))" "ids_ok env w'"
    using sok(2,3) ok by (auto simp: w' clear_account_scope_def orders_ok_def positions_ok_def paper_ok_def ids_ok_def distinct_map_filter)
  ultimately have "paper_ok env w'" by (simp add: paper_ok_def store_ok_def funds_ok_def)
  moreover have "list_orders scope None None None None n (w_db w') = []" "list_trades scope None None n (w_db w') = []" "list_positions scope None None False (w_db w') = []"
      "list_fund_ledger scope n (w_db w') = []" "list_open_position_lots scope None None (w_db w') = []"
    by (auto simp: w' clear_account_scope_def list_orders_def list_trades_def list_positions_def list_fund_ledger_def
        list_open_position_lots_def filter_empty_conv)
  ultimately show ?thesis using a by (simp add: w' get_account_def)
qed

theorem reset_account_clears_witness:
  "\<exists>res w'. reset_account demo_env ''acc'' (Some 5000) demo_open = (res, w') \<and> paper_ok demo_env w'
     \<and> list_orders ''acc'' None None None None 10 (w_db w') = []"
proof -
  obtain res w' where r: "reset_account demo_env ''acc'' (Some 5000) demo_open = (res, w')" by force
  have "on_grid 6 5000" by (simp add: on_grid_def)
  then show ?thesis using reset_account_clears [OF demo_open_ok demo_scope _ r, of 10] r by blast
qed

end
