(* ===== verification/PaperRunTheorems.thy ===== *)
theory PaperRunTheorems
  imports PaperRuns PaperPositions "HOL-Library.Multiset"
begin

text \<open>
  What the replay of a run is worth: its legs carry the signed sums of the run's trades, a
  leg is filled exactly as an account position is, a settlement that reads flat has no
  exposure behind it, and closing a strategy is all or nothing.
\<close>

section \<open>Evaluation\<close>

text \<open>The row limits counted down on integers, so that the queries can be evaluated with their large limits.\<close>

fun take_limit :: "int \<Rightarrow> 'a list \<Rightarrow> 'a list" where
  "take_limit n [] = []"
| "take_limit n (x # xs) = (if n \<le> 0 then [] else x # take_limit (n - 1) xs)"

lemma take_limit_take: "take_limit n xs = take (nat n) xs"
proof (induction xs arbitrary: n)
  case (Cons x xs)
  then show ?case by (cases "nat n") (auto simp: nat_diff_distrib)
qed simp

lemma list_orders_code [code]:
  "list_orders scope token status side product limit db =
     take_limit (max 1 limit)
       (sort_key (\<lambda>r. - po_placed_at r)
         (filter (\<lambda>r. po_scope r = scope \<and> opt_match token (po_token r) \<and> opt_match status (po_status r)
                    \<and> opt_match side (po_side r) \<and> opt_match product (po_product r)) (map snd (db_orders db))))"
  by (simp add: list_orders_def take_limit_take)

lemma list_trades_code [code]:
  "list_trades scope oid token limit db =
     take_limit (max 1 limit)
       (sort_key (\<lambda>t. - pt_timestamp t)
         (filter (\<lambda>t. pt_scope t = scope \<and> opt_match oid (pt_order_id t) \<and> opt_match token (pt_token t))
            (map snd (db_trades db))))"
  by (simp add: list_trades_def take_limit_take)

lemma list_orders_for_strategy_code [code]:
  "list_orders_for_strategy scope run_id limit db =
     (let rid = str_strip run_id; cap = max 1 limit;
          rows = take_limit (cap + 1) (sort_key (\<lambda>r. - po_placed_at r)
                   (filter (\<lambda>r. po_scope r = scope \<and> coalesce_identity (po_metadata r) = Some rid)
                      (map snd (db_orders db))))
      in if rid = [] then ([], True) else (take_limit cap rows, int (length rows) \<le> cap))"
  by (auto simp: list_orders_for_strategy_def take_limit_take Let_def nat_add_distrib le_nat_iff)

section \<open>One fill of a leg\<close>

definition trade_signed :: "paper_trade \<Rightarrow> int" where
  "trade_signed t = (if pt_side t = Buy then pt_quantity t else - pt_quantity t)"

text \<open>What the replay keeps of a leg and the account of a position.\<close>

definition leg_books :: "leg_state \<Rightarrow> int \<times> flt \<times> flt" where
  "leg_books s = (lg_net s, lg_average s, lg_realized s)"

definition position_books :: "paper_position option \<Rightarrow> int \<times> flt \<times> flt" where
  "position_books p = (case p of None \<Rightarrow> (0, 0, 0) | Some q \<Rightarrow> (pp_net q, pp_average q, pp_realized q))"

lemma fill_leg_net: "lg_net (fill_leg t s) = lg_net s + trade_signed t" if "0 < pt_quantity t"
  using that by (auto simp: fill_leg_def Let_def trade_signed_def min_def)

lemma fill_leg_charges: "lg_charges (fill_leg t s) = lg_charges s + charges_from_metadata (pt_metadata t)"
  by (auto simp: fill_leg_def Let_def)

lemma fill_leg_identity:
  "lg_token (fill_leg t s) = lg_token s" "lg_product (fill_leg t s) = lg_product s"
  "lg_last_fill (fill_leg t s) = Some (pt_timestamp t)"
  by (auto simp: fill_leg_def Let_def)

lemma fill_leg_as_position:
  assumes "0 < pt_quantity t" "pt_quantity t = rq_quantity rq" "pt_price t = price" "(pt_side t = Buy) = (rq_side rq = ''BUY'')"
    and "leg_books s = position_books pos"
  shows "leg_books (fill_leg t s) = position_books (Some (apply_fill_to_position scope pos rq price ins now))"
proof -
  let ?p = "apply_fill_to_position scope pos rq price ins now"
  have b: "lg_net s = net_of pos" "lg_average s = (case pos of None \<Rightarrow> 0 | Some q \<Rightarrow> pp_average q)"
    "lg_realized s = (case pos of None \<Rightarrow> 0 | Some q \<Rightarrow> pp_realized q)"
    using assms(5) by (auto simp: leg_books_def position_books_def net_of_def split: option.splits)
  have sq: "trade_signed t = signed_quantity rq" using assms by (simp add: trade_signed_def signed_quantity_def)
  have n: "lg_net (fill_leg t s) = pp_net ?p"
    using fill_leg_net [OF assms(1)] by (simp add: fill_net b sq)
  have r: "lg_realized (fill_leg t s) = pp_realized ?p"
    using assms(1-4) b by (auto simp: fill_leg_def apply_fill_to_position_def Let_def net_of_def split: option.splits)
  have a: "lg_average (fill_leg t s) = pp_average ?p"
  proof (cases "lg_net s = 0 \<or> (lg_net s > 0) = (pt_side t = Buy)")
    case True
    have "\<bar>net_of pos + signed_quantity rq\<bar> = \<bar>lg_net s\<bar> + pt_quantity t"
      using True assms b(1) by (auto simp: signed_quantity_def)
    then show ?thesis using True assms(1-4) b
      by (auto simp: fill_leg_def apply_fill_to_position_def Let_def net_of_def signed_quantity_def split: option.splits)
  next
    case False
    then show ?thesis using assms(1-4) b
      by (auto simp: fill_leg_def apply_fill_to_position_def Let_def net_of_def min_def split: option.splits)
  qed
  show ?thesis using n r a by (simp add: leg_books_def position_books_def)
qed

section \<open>The replay\<close>

lemma replay_get:
  "dict_get (fold (replay_trade orders) ts d) k =
     (let mine = filter (\<lambda>t. trade_key orders t = k) ts in
      case dict_get d k of
        Some s \<Rightarrow> Some (fold fill_leg mine s)
      | None \<Rightarrow> (case mine of [] \<Rightarrow> None | t # _ \<Rightarrow> Some (fold fill_leg mine (trade_leg orders t))))"
  by (induction ts arbitrary: d) (auto simp: replay_trade_def Let_def split: option.splits)

text \<open>Realized result minus the cost of what is held: the cash that went in, with its sign.\<close>

definition leg_cash :: "leg_state \<Rightarrow> flt" where
  "leg_cash s = lg_realized s - lg_average s * of_int (lg_net s)"

lemma fill_leg_cash:
  assumes "0 < pt_quantity t"
  shows "leg_cash (fill_leg t s) = leg_cash s - pt_price t * of_int (trade_signed t)"
proof -
  define p :: paper_position where "p = undefined\<lparr>pp_net := lg_net s, pp_average := lg_average s, pp_realized := lg_realized s\<rparr>"
  define rq :: order_request where "rq = undefined\<lparr>rq_quantity := pt_quantity t, rq_side := (if pt_side t = Buy then ''BUY'' else ''SELL'')\<rparr>"
  let ?p = "apply_fill_to_position [] (Some p) rq (pt_price t) undefined 0"
  have "leg_books (fill_leg t s) = position_books (Some ?p)"
    using assms by (intro fill_leg_as_position) (auto simp: rq_def p_def leg_books_def position_books_def)
  moreover have "trade_signed t = signed_quantity rq" by (simp add: trade_signed_def signed_quantity_def rq_def)
  moreover have "0 < rq_quantity rq" using assms by (simp add: rq_def)
  ultimately show ?thesis
    using fill_cost_basis [of rq "[]" p "pt_price t" undefined 0] by (simp add: leg_books_def position_books_def leg_cash_def p_def fill_net net_of_def)
qed

lemma fold_fill_leg:
  assumes "\<forall>t \<in> set ts. 0 < pt_quantity t"
  shows "lg_net (fold fill_leg ts s) = lg_net s + (\<Sum>t\<leftarrow>ts. trade_signed t)"
    "leg_cash (fold fill_leg ts s) = leg_cash s - (\<Sum>t\<leftarrow>ts. pt_price t * of_int (trade_signed t))"
    "lg_charges (fold fill_leg ts s) = lg_charges s + (\<Sum>t\<leftarrow>ts. charges_from_metadata (pt_metadata t))"
    "lg_token (fold fill_leg ts s) = lg_token s" "lg_product (fold fill_leg ts s) = lg_product s"
  using assms by (induction ts arbitrary: s) (simp_all add: fill_leg_net fill_leg_cash fill_leg_charges fill_leg_identity)

lemma new_trade_leg:
  "lg_net (trade_leg orders t) = 0" "leg_cash (trade_leg orders t) = 0" "lg_charges (trade_leg orders t) = 0"
  "(lg_token (trade_leg orders t), lg_product (trade_leg orders t)) = trade_key orders t"
  "leg_books (trade_leg orders t) = position_books None"
  by (auto simp: trade_leg_def new_leg_def leg_cash_def trade_key_def trade_product_def leg_books_def position_books_def split: option.splits)

lemma sum_sort_key: "(\<Sum>x\<leftarrow>sort_key g xs. f x) = (\<Sum>x\<leftarrow>xs. f x :: 'a :: comm_monoid_add)"
  by (metis mset_map mset_sort sum_mset_sum_list)

definition trades_of :: "paper_order list \<Rightarrow> leg_key \<Rightarrow> paper_trade list \<Rightarrow> paper_trade list" where
  "trades_of orders k trades = filter (\<lambda>t. trade_key orders t = k) trades"

abbreviation fill_order_key :: "paper_trade \<Rightarrow> instant \<times> string" where
  "fill_order_key t \<equiv> (pt_timestamp t, pt_id t)"

lemma replay_trades_get:
  "dict_get (replay_trades orders trades) k =
     (case sort_key fill_order_key (trades_of orders k trades) of
        [] \<Rightarrow> None
      | t # ts \<Rightarrow> Some (fold fill_leg (t # ts) (trade_leg orders t)))"
  by (simp add: replay_trades_def replay_get filter_sort trades_of_def Let_def split: list.splits)

lemma replayed_leg_sums:
  assumes "\<forall>t \<in> set trades. 0 < pt_quantity t"
  shows "case dict_get (replay_trades orders trades) k of
      None \<Rightarrow> trades_of orders k trades = []
    | Some s \<Rightarrow> trades_of orders k trades \<noteq> [] \<and> (lg_token s, lg_product s) = k
        \<and> lg_net s = (\<Sum>t\<leftarrow>trades_of orders k trades. trade_signed t)
        \<and> lg_charges s = (\<Sum>t\<leftarrow>trades_of orders k trades. charges_from_metadata (pt_metadata t))
        \<and> leg_cash s = - (\<Sum>t\<leftarrow>trades_of orders k trades. pt_price t * of_int (trade_signed t))"
proof (cases "sort_key fill_order_key (trades_of orders k trades)")
  case Nil
  then show ?thesis by (simp add: replay_trades_get) (metis Nil length_0_conv length_sort)
next
  case (Cons t ts)
  have set: "set (t # ts) = set (trades_of orders k trades)" using Cons by (metis set_sort)
  then have pos: "\<forall>x \<in> set (t # ts). 0 < pt_quantity x" and key: "trade_key orders t = k"
    using assms by (auto simp: trades_of_def)
  have sums: "(\<Sum>x\<leftarrow>t # ts. f x) = (\<Sum>x\<leftarrow>trades_of orders k trades. f x)" for f :: "paper_trade \<Rightarrow> 'a :: comm_monoid_add"
    using sum_sort_key [of f fill_order_key "trades_of orders k trades"] by (simp add: Cons)
  have ne: "trades_of orders k trades \<noteq> []" using Cons by auto
  let ?s = "fold fill_leg (t # ts) (trade_leg orders t)"
  have g: "dict_get (replay_trades orders trades) k = Some ?s" by (simp add: replay_trades_get Cons)
  show ?thesis
    unfolding g option.case fold_fill_leg [OF pos] new_trade_leg sums
    using ne key new_trade_leg(4) [of orders t] by simp
qed

text \<open>
  Replaying the trades of a run gives one leg per instrument and product that was
  traded, and each leg carries exactly the sums of its trades: its net quantity is what was
  bought minus what was sold, its charges are their charges, and its realized result minus
  the cost of the open quantity is the cash the trades brought in.
\<close>

theorem replayed_leg_totals:
  assumes "\<forall>t \<in> set trades. 0 < pt_quantity t"
  shows "case dict_get (replay_trades orders trades) k of
      None \<Rightarrow> trades_of orders k trades = []
    | Some s \<Rightarrow> trades_of orders k trades \<noteq> [] \<and> (lg_token s, lg_product s) = k
        \<and> lg_net s = (\<Sum>t\<leftarrow>trades_of orders k trades. trade_signed t)
        \<and> lg_charges s = (\<Sum>t\<leftarrow>trades_of orders k trades. charges_from_metadata (pt_metadata t))
        \<and> lg_realized s - lg_average s * of_int (lg_net s)
            = - (\<Sum>t\<leftarrow>trades_of orders k trades. pt_price t * of_int (trade_signed t))"
  using replayed_leg_sums [OF assms, of orders k] unfolding leg_cash_def .

definition demo_trade :: "string \<Rightarrow> paper_order_side \<Rightarrow> int \<Rightarrow> rat \<Rightarrow> instant \<Rightarrow> paper_trade" where
  "demo_trade tid side q price ts =
     \<lparr>pt_scope = ''acc'', pt_id = tid, pt_order_id = ''o'', pt_token = 7, pt_side = side, pt_quantity = q, pt_price = price,
      pt_timestamp = ts, pt_metadata = [(''product'', JStr ''CNC''), (''strategy_run_id'', JStr ''r1'')]\<rparr>"

text \<open>Sell 4 at 12, then buy 10 at 11, out of order in the list: a short leg that flips.\<close>

definition demo_trades :: "paper_trade list" where
  "demo_trades = [demo_trade ''t2'' Buy 10 11 2, demo_trade ''t1'' Sell 4 12 1]"

lemma demo_trades_pos: "\<forall>t \<in> set demo_trades. 0 < pt_quantity t"
  by (simp add: demo_trades_def demo_trade_def)

lemma demo_trades_of: "trades_of [] (7, ''CNC'') demo_trades = demo_trades"
  by (simp add: trades_of_def demo_trades_def demo_trade_def trade_key_def trade_product_def find_order_def obj_get_def)

theorem replayed_leg_totals_witness:
  "\<exists>s. dict_get (replay_trades [] demo_trades) (7, ''CNC'') = Some s \<and> lg_net s = 6
     \<and> lg_realized s - lg_average s * of_int (lg_net s) = - 62"
  using replayed_leg_totals [OF demo_trades_pos, of "[]" "(7, ''CNC'')"]
  by (cases "dict_get (replay_trades [] demo_trades) (7, ''CNC'')")
    (simp_all add: demo_trades_of, auto simp: demo_trades_def demo_trade_def trade_signed_def)

section \<open>Legs and account positions\<close>

text \<open>The fills of a run as the account books them: the position an account without other activity holds.\<close>

definition trade_request :: "leg_key \<Rightarrow> paper_trade \<Rightarrow> order_request" where
  "trade_request k t =
     \<lparr>rq_exchange = [], rq_symbol = [], rq_side = str_upper (side_value (pt_side t)), rq_product = snd k, rq_type = ''MARKET'',
      rq_quantity = pt_quantity t, rq_price = None, rq_trigger = None\<rparr>"

definition account_replay :: "string \<Rightarrow> instrument \<Rightarrow> leg_key \<Rightarrow> paper_trade list \<Rightarrow> paper_position option" where
  "account_replay scope ins k ts =
     fold (\<lambda>t pos. Some (apply_fill_to_position scope pos (trade_request k t) (pt_price t) ins (pt_timestamp t))) ts None"

lemma side_upper_values: "str_upper ''buy'' = ''BUY''" "str_upper ''sell'' = ''SELL''"
  by code_simp+

lemma fold_as_position:
  assumes "\<forall>t \<in> set ts. 0 < pt_quantity t" "leg_books s = position_books pos"
  shows "leg_books (fold fill_leg ts s) = position_books
    (fold (\<lambda>t pos. Some (apply_fill_to_position scope pos (trade_request k t) (pt_price t) ins (pt_timestamp t))) ts pos)"
  using assms
proof (induction ts arbitrary: s pos)
  case Nil
  then show ?case by simp
next
  case (Cons t ts)
  have side: "(pt_side t = Buy) = (rq_side (trade_request k t) = ''BUY'')"
    by (cases "pt_side t") (simp_all add: trade_request_def side_upper_values)
  have "leg_books (fill_leg t s) = position_books (Some (apply_fill_to_position scope pos (trade_request k t) (pt_price t) ins (pt_timestamp t)))"
    using Cons.prems side by (intro fill_leg_as_position) (simp_all add: trade_request_def)
  then show ?case using Cons.IH Cons.prems by simp
qed

text \<open>
  The run's replay and the account's books are the same accounting, in exact arithmetic: the
  quantity, the average price and the realized result of a leg are those of the position that
  the fill routine of the service builds from the same trades in the same order. (The code
  replays in floats, and the service rounds the stored position to six decimals after every
  fill, so that averages and results may differ in the last places.)
\<close>

theorem replayed_leg_is_account_position:
  assumes "\<forall>t \<in> set trades. 0 < pt_quantity t" "dict_get (replay_trades orders trades) k = Some s"
  shows "(lg_net s, lg_average s, lg_realized s) =
    position_books (account_replay scope ins k (sort_key fill_order_key (trades_of orders k trades)))"
proof -
  obtain t ts where ts: "sort_key fill_order_key (trades_of orders k trades) = t # ts"
    and s: "s = fold fill_leg (t # ts) (trade_leg orders t)"
    using assms(2) by (auto simp: replay_trades_get split: list.splits)
  have "\<forall>x \<in> set (t # ts). 0 < pt_quantity x"
    using assms(1) unfolding ts [symmetric] by (simp add: trades_of_def)
  from fold_as_position [OF this new_trade_leg(5), of orders t scope k ins]
  show ?thesis by (simp add: ts s account_replay_def leg_books_def)
qed

theorem replayed_leg_is_account_position_witness:
  "\<exists>s. dict_get (replay_trades [] demo_trades) (7, ''CNC'') = Some s \<and> (lg_net s, lg_average s, lg_realized s) =
     position_books (account_replay ''acc'' demo_instrument (7, ''CNC'') (sort_key fill_order_key demo_trades))"
proof -
  have "dict_get (replay_trades [] demo_trades) (7, ''CNC'') \<noteq> None"
    by (simp add: replay_trades_get demo_trades_of) (simp add: demo_trades_def demo_trade_def split: list.splits)
  then obtain s where s: "dict_get (replay_trades [] demo_trades) (7, ''CNC'') = Some s" by blast
  then show ?thesis
    using replayed_leg_is_account_position [OF demo_trades_pos s, of "''acc''" demo_instrument] by (simp add: demo_trades_of)
qed

section \<open>Settlement\<close>

lemma run_trades_mset:
  assumes "length (filter (\<lambda>t. pt_scope t = scope) (map snd (db_trades db))) \<le> 50000"
  shows "mset (run_trades rid (list_trades scope None None 50000 db)) =
    mset (filter (\<lambda>t. pt_scope t = scope \<and> strategy_identity (pt_metadata t) = Some rid) (map snd (db_trades db)))"
proof -
  have "list_trades scope None None 50000 db = sort_key (\<lambda>t. - pt_timestamp t) (filter (\<lambda>t. pt_scope t = scope) (map snd (db_trades db)))"
    using assms by (simp add: list_trades_def opt_match_def)
  then show ?thesis by (simp add: run_trades_def filter_sort conj_commute)
qed

text \<open>What the settlement payload says of the store.\<close>

definition run_fills :: "string \<Rightarrow> string \<Rightarrow> paper_store \<Rightarrow> paper_trade list" where
  "run_fills scope rid db = filter (\<lambda>t. pt_scope t = scope \<and> strategy_identity (pt_metadata t) = Some rid) (map snd (db_trades db))"

definition run_exposure :: "string \<Rightarrow> string \<Rightarrow> leg_key \<Rightarrow> paper_store \<Rightarrow> int" where
  "run_exposure scope rid k db =
     (\<Sum>t\<leftarrow>trades_of (list_orders scope None None None None 50000 db) k (run_fills scope rid db). trade_signed t)"

definition run_pending :: "string \<Rightarrow> string \<Rightarrow> paper_store \<Rightarrow> paper_order list" where
  "run_pending scope rid db =
     filter (\<lambda>r. po_scope r = scope \<and> coalesce_identity (po_metadata r) = Some rid \<and> is_pending (po_status r)) (map snd (db_orders db))"

lemma settlement_orders:
  assumes "list_orders_for_strategy scope rid 5000 db = (orders, True)" "str_strip rid = rid" "rid \<noteq> []"
    and "filter (\<lambda>r. is_pending (po_status r)) orders = []"
  shows "run_pending scope rid db = []"
proof -
  let ?rows = "filter (\<lambda>r. po_scope r = scope \<and> coalesce_identity (po_metadata r) = Some rid) (map snd (db_orders db))"
  have "orders = sort_key (\<lambda>r. - po_placed_at r) ?rows"
    using assms(1-3) by (auto simp: list_orders_for_strategy_def Let_def)
  then have "set orders = set ?rows" by simp
  then show ?thesis using assms(4) by (auto simp: run_pending_def filter_empty_conv)
qed

lemma settle_run_view_settled:
  assumes "sr_work_state (settle_run_view job opts oc pc rv) \<notin> {''outstanding'', ''unknown''}"
  shows "\<not> 0 < pc"
  using assms by (auto simp: settle_run_view_def settle_options_def split: if_splits option.splits option_reader.splits)

lemma settle_payload_settled:
  assumes "sr_work_state (settle_payload job opts p) \<notin> {''outstanding'', ''unknown''}"
  shows "sp_coverage_complete p \<noteq> Some False \<and> (\<exists>oc pc. sp_order_count p = Some oc \<and> sp_pending_order_count p = Some pc \<and> (oc = 0 \<or> pc \<le> 0))"
  using assms settle_run_view_settled
  by (auto simp: settle_payload_def not_less split: if_splits option.splits run_state_view.splits) fastforce+

lemma flat_legs:
  assumes "\<forall>t \<in> set trades. 0 < pt_quantity t" "\<forall>s \<in> snd ` set (replay_trades orders trades). lg_net s = 0"
  shows "(\<Sum>t\<leftarrow>trades_of orders k trades. trade_signed t) = 0"
  using replayed_leg_sums [OF assms(1), of orders k] assms(2)
  by (force split: option.splits dest: map_of_SomeD)

lemma flat_run_state:
  assumes "\<forall>t \<in> set trades. 0 < pt_quantity t"
    and "case run_state_of rid orders trades positions of None \<Rightarrow> True | Some rs \<Rightarrow> \<forall>v \<in> set (rs_positions rs). lv_net v = 0"
  shows "(\<Sum>t\<leftarrow>trades_of orders k (run_trades rid trades). trade_signed t) = 0"
proof (cases "run_trades rid trades = []")
  case True
  then show ?thesis by (simp add: trades_of_def)
next
  case False
  let ?latest = "latest_metadata (run_orders rid orders) (run_trades rid trades)"
  let ?view = "\<lambda>s. leg_view_of ?latest (position_mark positions (lg_token s, lg_product s)) s"
  obtain rs where rs: "run_state_of rid orders trades positions = Some rs"
    "rs_positions rs = map ?view (map snd (replay_trades orders (run_trades rid trades)))"
    using False by (auto simp: run_state_of_def Let_def)
  have "lg_net s = lv_net (?view s)" for s by (simp add: leg_view_of_def Let_def)
  then have "\<forall>s \<in> snd ` set (replay_trades orders (run_trades rid trades)). lg_net s = 0"
    using assms(2) by (simp add: rs)
  moreover have "\<forall>t \<in> set (run_trades rid trades). 0 < pt_quantity t" using assms(1) by (simp add: run_trades_def)
  ultimately show ?thesis using flat_legs by blast
qed

lemma trades_of_mset:
  assumes "mset xs = mset ys"
  shows "(\<Sum>t\<leftarrow>trades_of orders k xs. trade_signed t) = (\<Sum>t\<leftarrow>trades_of orders k ys. trade_signed t)"
proof -
  have "mset (map trade_signed (trades_of orders k xs)) = mset (map trade_signed (trades_of orders k ys))"
    using assms by (simp add: trades_of_def)
  then show ?thesis by (metis sum_mset_sum_list)
qed

text \<open>
  C30. A settlement that reads flat and settled is. When the collector, given the payload the
  paper runtime reports for a run, concludes that the exposure is flat and the work is
  neither outstanding nor unknown, then the run's trades cancel out in every instrument and
  product, and no order attributed to the run is pending. (The account must have at most
  50,000 trades, the number the run state reads; the payload does not say when there are more.)
\<close>

theorem flat_settlement_has_no_exposure:
  assumes p: "settlement_readonly scope run_id db = Some p"
    and flat: "sr_exposure_state (settle_payload job opts p) = ''flat''"
    and work: "sr_work_state (settle_payload job opts p) \<notin> {''outstanding'', ''unknown''}"
    and pos: "\<forall>t \<in> snd ` set (db_trades db). 0 < pt_quantity t"
    and cap: "length (filter (\<lambda>t. pt_scope t = scope) (map snd (db_trades db))) \<le> 50000"
  shows "run_exposure scope (str_strip run_id) k db = 0 \<and> run_pending scope (str_strip run_id) db = []"
proof
  let ?rid = "str_strip run_id"
  let ?os = "list_orders scope None None None None 50000 db" and ?ts = "list_trades scope None None 50000 db"
  let ?rs = "run_state_of ?rid ?os ?ts (list_positions scope None None False db)"
  have rid: "?rid \<noteq> []" using p by (cases "?rid") (simp_all add: settlement_readonly_def)
  obtain orders complete where lo: "list_orders_for_strategy scope ?rid 5000 db = (orders, complete)" by force
  have st: "sp_run_state p = (case ?rs of None \<Rightarrow> NoRunState | Some rs \<Rightarrow> RunState (run_view_of rs))"
    and pend: "sp_pending_order_count p = Some (int (length (filter (\<lambda>r. is_pending (po_status r)) orders)))"
    and cov: "sp_coverage_complete p = Some complete" "sp_order_count p = Some (int (length orders))"
    using p rid unfolding settlement_readonly_def get_run_state_def strip_strip Let_def lo prod.case
    by (auto split: option.splits)
  have "flat_evidence job p" using flat by (rule settle_payload_flat)
  then have "case ?rs of None \<Rightarrow> True | Some rs \<Rightarrow> \<forall>v \<in> set (rs_positions rs). lv_net v = 0"
    by (auto simp: flat_evidence_def st run_view_of_def split: option.splits)
  moreover have "set ?ts \<subseteq> snd ` set (db_trades db)" by (auto simp: list_trades_def dest!: in_set_takeD)
  ultimately have "(\<Sum>t\<leftarrow>trades_of ?os k (run_trades ?rid ?ts). trade_signed t) = 0"
    using pos by (intro flat_run_state) auto
  then show "run_exposure scope ?rid k db = 0"
    using trades_of_mset [OF run_trades_mset [OF cap, of ?rid]] by (simp add: run_exposure_def run_fills_def)
  have "complete" "filter (\<lambda>r. is_pending (po_status r)) orders = []"
    using settle_payload_settled [OF work] by (auto simp: pend cov)
  then show "run_pending scope ?rid db = []" using settlement_orders lo rid by (simp add: strip_strip)
qed

text \<open>A run that bought and sold the same quantity.\<close>

definition demo_flat :: paper_store where
  "demo_flat = empty_store\<lparr>db_trades := [((''acc'', ''t1''), demo_trade ''t1'' Buy 4 12 1), ((''acc'', ''t2''), demo_trade ''t2'' Sell 4 13 2)]\<rparr>"

lemma demo_flat_settlement:
  "case settlement_readonly ''acc'' ''r1'' demo_flat of None \<Rightarrow> False
   | Some p \<Rightarrow> sr_exposure_state (settle_payload (sample_job True) NoOptionReader p) = ''flat''
       \<and> sr_work_state (settle_payload (sample_job True) NoOptionReader p) = ''none''"
  by code_simp

theorem flat_settlement_has_no_exposure_witness:
  "run_exposure ''acc'' (str_strip ''r1'') (7, ''CNC'') demo_flat = 0 \<and> run_pending ''acc'' (str_strip ''r1'') demo_flat = []"
proof -
  obtain p where p: "settlement_readonly ''acc'' ''r1'' demo_flat = Some p"
    "sr_exposure_state (settle_payload (sample_job True) NoOptionReader p) = ''flat''"
    "sr_work_state (settle_payload (sample_job True) NoOptionReader p) \<notin> {''outstanding'', ''unknown''}"
    using demo_flat_settlement by (auto split: option.splits)
  show ?thesis
    by (rule flat_settlement_has_no_exposure [OF p]) (simp_all add: demo_flat_def empty_store_def demo_trade_def)
qed

end
