(* ===== verification/PaperExit.thy ===== *)
theory PaperExit
  imports PaperRunTheorems
begin

text \<open>
  Closing a strategy: what an atomic basket of market orders does to the positions of the
  account, and from it what a strategy exit does.
\<close>

section \<open>What leaves the positions alone\<close>

abbreviation held :: "world \<Rightarrow> (string \<times> int \<times> string, paper_position) dict" where
  "held w \<equiv> db_positions (w_db w)"

lemma bind_held:
  assumes "held (snd r) = ps" "\<And>x w. held w = ps \<Longrightarrow> held (snd (f x w)) = ps"
  shows "held (snd (bind_ok r f)) = ps"
  using assms by (cases r; cases "fst r") auto

lemma statements_held [simp]:
  "held (snd (on_db (insert_order r) w)) = held w" "held (snd (on_db (update_order r) w)) = held w"
  "held (snd (on_db (insert_trade t) w)) = held w" "held (snd (on_db (upsert_account a) w)) = held w"
  "held (snd (on_db (append_fund_ledger_entry e) w)) = held w" "held (publish_event ev w) = held w"
  "held (snd (make_order env scope token rq price trigger status md w)) = held w"
  by (auto simp: on_db_def insert_order_def update_order_def insert_trade_def upsert_account_def append_fund_ledger_entry_def
      publish_event_def make_order_def new_id_def Let_def split: option.splits sum.splits)

lemma funds_held [simp]:
  "held (snd (apply_account_delta env a delta ref w)) = held w" "held (snd (apply_cash_delta env a delta ty ref notes w)) = held w"
  by (simp_all add: apply_account_delta_def apply_cash_delta_def Let_def case_prod_beta)

lemma book_funds_held [simp]: "held (snd (book_funds env a oid adj c rd w)) = held w"
  by (simp add: book_funds_def Let_def case_prod_beta)

lemma persist_held [simp]: "held (snd (persist_stop_limit_trigger_state env r rq sn w)) = held w"
  by (simp add: persist_stop_limit_trigger_state_def)

lemma ensure_account_held: "held (snd (ensure_account env scope w)) = held w"
  by (auto simp: ensure_account_def case_prod_beta split: option.splits sum.splits)

lemma accept_order_held: "held (snd (accept_order env scope a rq ins sn att inc con w)) = held w"
  unfolding accept_order_def
proof (intro bind_held)
  fix row :: paper_order and w2 :: world
  assume h: "held w2 = held w"
  show "held (snd (let (a1, w3) = apply_account_delta env a inc (po_id row) w2; w4 = publish_event (OrderEvent ''accepted'' row) w3
      in bind_ok (persist_stop_limit_trigger_state env row rq sn w4) (\<lambda>row' w5. (Inr (row', a1), w5)))) = held w"
    unfolding Let_def case_prod_beta by (rule bind_held) (simp_all add: h)
qed simp_all

lemma bind_ok_Inr: "bind_ok m f = (Inr y, w') \<longleftrightarrow> (\<exists>x w1. m = (Inr x, w1) \<and> f x w1 = (Inr y, w'))"
  by (cases m; cases "fst m") auto

lemma case_sum_eq:
  "(case x of Inl a \<Rightarrow> f a | Inr b \<Rightarrow> g b) = y \<longleftrightarrow> (\<exists>a. x = Inl a \<and> f a = y) \<or> (\<exists>b. x = Inr b \<and> g b = y)"
  by (cases x) auto

lemma accept_order_scope:
  assumes "accept_order env scope a rq ins sn att inc con w = (Inr (r, a1), w')" "validate_scope scope = Inr scope"
  shows "po_scope r = scope"
proof -
  obtain o1 w1 where m: "make_order env scope (in_token ins) rq (rq_price rq) (rq_trigger rq) Pending
      (order_metadata att inc con ins (lot_size_of ins)) w = (Inr o1, w1)"
    and rest: "bind_ok (on_db (insert_order o1) w1) (\<lambda>row w2. let (a1, w3) = apply_account_delta env a inc (po_id row) w2;
         w4 = publish_event (OrderEvent ''accepted'' row) w3
       in bind_ok (persist_stop_limit_trigger_state env row rq sn w4) (\<lambda>row' w5. (Inr (row', a1), w5))) = (Inr (r, a1), w')"
    using assms(1) by (auto simp: accept_order_def bind_ok_Inr)
  have s: "po_scope o1 = scope" using make_order_inv(2) [OF m refl] assms(2) by simp
  obtain w2 where i: "on_db (insert_order o1) w1 = (Inr (order_row o1), w2)"
    using rest insert_order_inv [of o1 w1] by (force simp: bind_ok_Inr)
  have "persist_stop_limit_trigger_state env row rq sn v = (Inr row', v') \<Longrightarrow> po_scope row' = po_scope row" for row row' v v'
    by (auto simp: persist_stop_limit_trigger_state_def on_db_def update_order_def Let_def split: if_splits option.splits prod.splits)
  then show ?thesis using rest s by (auto simp: i bind_ok_Inr Let_def case_prod_beta)
qed

section \<open>What a market order does to the positions\<close>

lemma insert_trade_positions: "db_positions (snd (insert_trade t db)) = db_positions db"
  by (simp add: insert_trade_def)

lemma book_fill_held:
  assumes "book_fill env r price np m w = (Inr res, w')"
  shows "held w' = dict_set (position_key np) (filled_position r price np m) (held w)"
proof -
  have lots: "held (record_lots env r tr price v) = held v" for tr v
    using record_lots_frame [of v env r tr price] by (auto simp: only_lots_def)
  obtain c w1 where u: "on_db (update_order (r\<lparr>po_status := FilledStatus, po_filled := po_quantity r, po_pending := 0,
      po_average := Some price, po_updated_at := pe_now env, po_completed_at := Some (pe_now env)\<rparr>)) w = (Inr c, w1)"
    and rest: "book_fill env r price np m w = (Inr res, w')"
    using assms by (auto simp: book_fill_def bind_ok_Inr)
  have h1: "held w1 = held w" using statements_held(2) u by (metis snd_conv)
  have n: "held (snd (new_id p env v)) = held v" for p v by (simp add: new_id_def)
  from rest show ?thesis
    unfolding book_fill_def u bind_ok_simps Let_def case_prod_beta bind_ok_Inr
    using lots h1 n
    by (auto simp: on_db_def upsert_position_def filled_position_def position_key_def insert_trade_positions Let_def case_prod_beta)
qed

lemma build_rejected_results: "build_rejected_result env scope rq md reason w = (Inr res, w') \<Longrightarrow> rejected_result res"
  by (auto simp: build_rejected_result_def rejected_result_def bind_ok_Inr)

definition net_at :: "string \<Rightarrow> int \<Rightarrow> string \<Rightarrow> world \<Rightarrow> int" where
  "net_at scope token product w = net_of (get_position scope token product (w_db w))"

lemma net_at_cong: "held w = held w' \<Longrightarrow> net_at scope token product w = net_at scope token product w'"
  by (simp add: net_at_def get_position_def)

lemma fill_order_uow_net:
  assumes "fill_order_uow env r a rq ins price (get_position scope (in_token ins) (rq_product rq) (w_db w0)) w = (Inr (res, a'), w')"
    and "\<not> rejected_result res" "po_scope r = scope" "held w = held w0"
  shows "net_at scope token product w' = net_at scope token product w0
     + (if (token, product) = (in_token ins, rq_product rq) then signed_quantity rq else 0)"
proof -
  let ?ex = "get_position scope (in_token ins) (rq_product rq) (w_db w0)"
  let ?np = "(apply_fill_to_position (po_scope r) ?ex rq price ins (pe_now env))\<lparr>pp_scope := po_scope r\<rparr>"
  obtain m w1 where b: "book_fill env r price ?np m w1 = (Inr res, w')" and h: "held w1 = held w"
    using assms(1,2) unfolding fill_order_uow_eq Let_def case_prod_beta
    by (auto simp: bind_ok_Inr split: if_splits dest: build_rejected_results)
  have "held w' = dict_set (position_key ?np) (filled_position r price ?np m) (held w0)"
    using book_fill_held [OF b] h assms(4) by simp
  moreover have "position_key ?np = (scope, in_token ins, rq_product rq)" by (simp add: position_key_def assms(3))
  moreover have "pp_net (filled_position r price ?np m) = net_of ?ex + signed_quantity rq"
    by (simp add: filled_position_def fill_net)
  ultimately show ?thesis by (auto simp: net_at_def get_position_def net_of_def)
qed

lemma uow_market_net:
  assumes "place_order_locked_uow env scope a rq ins sn att w = (Inr (res, a'), w')" "\<not> rejected_result res"
    and "validate_scope scope = Inr scope" "rq_type rq = ''MARKET''"
  shows "net_at scope token product w' = net_at scope token product w
     + (if (token, product) = (in_token ins, rq_product rq) then signed_quantity rq else 0)"
proof -
  let ?ex = "get_position scope (in_token ins) (rq_product rq) (w_db w)"
  obtain ref inc con where adm: "admit_order scope a rq ins sn ?ex (pe_now env) = Inr (ref, inc, con)"
    using assms(1,2)
    by (cases "admit_order scope a rq ins sn ?ex (pe_now env)") (auto simp: place_order_locked_uow_eq Let_def bind_ok_Inr dest: build_rejected_results)
  have "should_fill_immediately rq sn" by (simp add: should_fill_immediately_def assms(4))
  then obtain r a1 w1 where acc: "accept_order env scope a rq ins sn att inc con w = (Inr (r, a1), w1)"
    and f: "fill_order_uow env r a1 rq ins (fill_price r sn ref) ?ex w1 = (Inr (res, a'), w')"
    using assms(1) by (auto simp: place_order_locked_uow_eq Let_def adm bind_ok_Inr)
  have "held w1 = held w" using accept_order_held acc by (metis snd_conv)
  then show ?thesis using fill_order_uow_net [OF f assms(2) accept_order_scope [OF acc assms(3)]] by blast
qed

text \<open>How far the prepared orders move the position of an instrument and product.\<close>

definition prepared_move :: "int \<Rightarrow> string \<Rightarrow> prepared_order \<Rightarrow> int" where
  "prepared_move token product p =
     (case p of (rq, ins, sn, att) \<Rightarrow> if (token, product) = (in_token ins, rq_product rq) then signed_quantity rq else 0)"

lemma run_prepared_net:
  assumes "run_prepared env scope ps a w = (Inr (Inr rs), w')" "validate_scope scope = Inr scope"
    and "\<forall>(rq, ins, sn, att) \<in> set ps. rq_type rq = ''MARKET''"
  shows "net_at scope token product w' = net_at scope token product w + (\<Sum>p\<leftarrow>ps. prepared_move token product p)"
  using assms
proof (induction ps arbitrary: a w rs)
  case Nil
  then show ?case by simp
next
  case (Cons p ps)
  obtain rq ins sn att where p: "p = (rq, ins, sn, att)" by (cases p)
  obtain res a1 w1 where r: "place_order_locked_uow env scope a rq ins sn att w = (Inr (res, a1), w1)"
    and nr: "\<not> rejected_result res"
    using Cons.prems(1) by (auto simp: p bind_ok_Inr split: if_splits)
  obtain rs2 where q: "run_prepared env scope ps a1 w1 = (Inr (Inr rs2), w')"
    using Cons.prems(1) nr by (auto simp: p r bind_ok_Inr case_sum_eq)
  have "rq_type rq = ''MARKET''" using Cons.prems(3) by (simp add: p)
  from uow_market_net [OF r nr assms(2) this, of token product] Cons.IH [OF q assms(2)] Cons.prems(3)
  show ?case by (simp add: p prepared_move_def)
qed

lemma prepare_orders_each:
  "prepare_orders env scope att raws w = (Inr (Inr ps), w') \<Longrightarrow>
   list_all2 (\<lambda>raw (rq, ins, sn, md). normalize_order_request raw = Inr rq \<and> pe_instrument env (rq_exchange rq) (rq_symbol rq) = Some ins) raws ps"
proof (induction raws arbitrary: ps w')
  case Nil
  then show ?case by simp
next
  case (Cons raw raws)
  then obtain rq where n: "normalize_order_request raw = Inr rq" by (cases "normalize_order_request raw") auto
  obtain ins where i: "pe_instrument env (rq_exchange rq) (rq_symbol rq) = Some ins"
    using Cons.prems n by (cases "pe_instrument env (rq_exchange rq) (rq_symbol rq)") (auto simp: bind_ok_Inr)
  from Cons n i show ?case by (auto simp: bind_ok_Inr case_sum_eq)
qed

lemma atomic_basket_net:
  assumes "place_basket_all_or_none_atomic env scope orders att w = (Inr b, w')" "br_status b = ''success''"
    and "validate_scope scope = Inr scope"
    and market: "\<forall>raw rq. raw \<in> set orders \<longrightarrow> normalize_order_request raw = Inr rq \<longrightarrow> rq_type rq = ''MARKET''"
  shows "\<exists>ps. list_all2 (\<lambda>raw (rq, ins, sn, md). normalize_order_request raw = Inr rq \<and> pe_instrument env (rq_exchange rq) (rq_symbol rq) = Some ins) orders ps
     \<and> (\<forall>token product. net_at scope token product w' = net_at scope token product w + (\<Sum>p\<leftarrow>ps. prepared_move token product p))"
proof -
  obtain ps w1 where p: "prepare_orders env scope att orders w = (Inr (Inr ps), w1)"
    using assms(1,2) by (auto simp: place_basket_all_or_none_atomic_def bind_ok_Inr failed_basket_def case_sum_eq)
  have h1: "held w1 = held w" using prepare_orders_frame [of env scope att orders w] by (simp add: p)
  note each = prepare_orders_each [OF p]
  then have m: "\<forall>(rq, ins, sn, md) \<in> set ps. rq_type rq = ''MARKET''"
    using market by (auto simp: list_all2_conv_all_nth in_set_conv_nth) fastforce
  obtain a v rs w2 where e: "ensure_account env scope (w1\<lparr>w_events := []\<rparr>) = (Inr a, v)"
    and r: "run_prepared env scope ps a v = (Inr (Inr rs), w2)" and w': "held w' = held w2"
    using assms(1,2)
    by (auto simp: place_basket_all_or_none_atomic_def p Let_def bind_ok_Inr failed_basket_def case_sum_eq split: prod.splits)
  have "held v = held w" using ensure_account_held [of env scope "w1\<lparr>w_events := []\<rparr>"] h1 by (simp add: e)
  then have "net_at scope token product w' = net_at scope token product w + (\<Sum>p\<leftarrow>ps. prepared_move token product p)" for token product
    using run_prepared_net [OF r assms(3) m] net_at_cong [OF w'] net_at_cong by metis
  with each show ?thesis by blast
qed

section \<open>Closing a strategy\<close>

lemma market_upper: "str_upper ''MARKET'' = ''MARKET''" "str_upper ''BUY'' = ''BUY''" "str_upper ''SELL'' = ''SELL''"
  by code_simp+

lemma exit_order_fields:
  "obj_get (exit_order sid algo tag x) ''exchange'' = opt_json (xp_exchange x)"
  "obj_get (exit_order sid algo tag x) ''tradingsymbol'' = opt_json (xp_symbol x)"
  "obj_get (exit_order sid algo tag x) ''product'' = JStr (xp_product x)"
  "obj_get (exit_order sid algo tag x) ''transaction_type'' = JStr (if xp_net x < 0 then ''BUY'' else ''SELL'')"
  "obj_get (exit_order sid algo tag x) ''order_type'' = JStr ''MARKET''"
  "obj_get (exit_order sid algo tag x) ''quantity'' = JInt \<bar>xp_net x\<bar>"
  "obj_get (exit_order sid algo tag x) ''price'' = JNull" "obj_get (exit_order sid algo tag x) ''trigger_price'' = JNull"
  by (simp_all add: exit_order_def obj_get_def)

lemma exit_order_request:
  assumes "normalize_order_request (exit_order sid algo tag x) = Inr rq"
  shows "rq_type rq = ''MARKET''" "rq_price rq = None" "rq_trigger rq = None" "rq_product rq = str_upper (xp_product x)"
    "signed_quantity rq = - xp_net x"
    "\<exists>e s. xp_exchange x = Some e \<and> xp_symbol x = Some s \<and> rq_exchange rq = str_upper e \<and> rq_symbol rq = str_upper (str_strip s)"
proof -
  note n = assms [unfolded normalize_order_request_def exit_order_fields Let_def]
  have ne: "filter (\<lambda>f. \<not> jpresent (obj_get (exit_order sid algo tag x) f)) required_fields = []"
    using n by (auto split: if_splits)
  then have "xp_exchange x \<noteq> None \<and> xp_symbol x \<noteq> None"
    by (auto simp: required_fields_def exit_order_fields opt_json_def jpresent_def split: if_splits option.splits)
  with n show "rq_type rq = ''MARKET''" "rq_price rq = None" "rq_trigger rq = None" "rq_product rq = str_upper (xp_product x)"
    "signed_quantity rq = - xp_net x"
    "\<exists>e s. xp_exchange x = Some e \<and> xp_symbol x = Some s \<and> rq_exchange rq = str_upper e \<and> rq_symbol rq = str_upper (str_strip s)"
    by (auto simp: opt_json_def opt_price_def signed_quantity_def market_upper split: if_splits)
qed

text \<open>The position an exit order goes to: its instrument in the catalogue and its product.\<close>

definition exit_key :: "paper_env \<Rightarrow> exit_position \<Rightarrow> leg_key option" where
  "exit_key env x =
     (case (xp_exchange x, xp_symbol x) of
        (Some e, Some s) \<Rightarrow> map_option (\<lambda>ins. (in_token ins, str_upper (xp_product x)))
           (pe_instrument env (str_upper e) (str_upper (str_strip s)))
      | _ \<Rightarrow> None)"

definition exit_move :: "paper_env \<Rightarrow> int \<Rightarrow> string \<Rightarrow> exit_position \<Rightarrow> int" where
  "exit_move env token product x = (if exit_key env x = Some (token, product) then - xp_net x else 0)"

definition open_legs :: "string \<Rightarrow> string \<Rightarrow> paper_store \<Rightarrow> leg_view list" where
  "open_legs scope sid db =
     (case get_run_state scope sid db of
        Inr (Some r) \<Rightarrow> filter (\<lambda>v. lv_net v \<noteq> 0) (rs_positions r)
      | _ \<Rightarrow> [])"

definition exit_plan :: "string \<Rightarrow> string \<Rightarrow> paper_store \<Rightarrow> exit_position list" where
  "exit_plan scope sid db = exit_positions scope sid (open_legs scope sid db) (legacy_positions scope sid db) db"

definition exited :: "paper_error + exit_result \<Rightarrow> bool" where
  "exited res = (case res of Inr (ExitBasket b) \<Rightarrow> br_status b = ''success'' | _ \<Rightarrow> False)"

lemma exit_moves:
  assumes "list_all2 (\<lambda>raw (rq, ins, sn, md). normalize_order_request raw = Inr rq \<and> pe_instrument env (rq_exchange rq) (rq_symbol rq) = Some ins)
      (map (exit_order sid algo tag) xs) ps"
  shows "(\<Sum>p\<leftarrow>ps. prepared_move token product p) = (\<Sum>x\<leftarrow>xs. exit_move env token product x)"
  using assms
proof (induction xs arbitrary: ps)
  case Nil
  then show ?case by simp
next
  case (Cons x xs)
  obtain rq ins sn md qs where ps: "ps = (rq, ins, sn, md) # qs" and n: "normalize_order_request (exit_order sid algo tag x) = Inr rq"
    and i: "pe_instrument env (rq_exchange rq) (rq_symbol rq) = Some ins"
    and rest: "list_all2 (\<lambda>raw (rq, ins, sn, md). normalize_order_request raw = Inr rq \<and> pe_instrument env (rq_exchange rq) (rq_symbol rq) = Some ins)
      (map (exit_order sid algo tag) xs) qs"
    using Cons.prems by (auto simp: list_all2_Cons1)
  have "prepared_move token product (rq, ins, sn, md) = exit_move env token product x"
    using exit_order_request [OF n] i by (auto simp: prepared_move_def exit_move_def exit_key_def)
  with Cons.IH [OF rest] show ?case by (simp add: ps)
qed

text \<open>An exit either does nothing or places the atomic basket of its plan.\<close>

lemma exit_strategy_cases:
  assumes "exit_strategy env scope strategy_id w = (res, w')"
  obtains "w' = w" "\<not> exited res"
  | sid algo tag att b where "sid = str_strip strategy_id"
      "place_basket_all_or_none_atomic env scope (map (exit_order sid algo tag) (exit_plan scope sid (w_db w))) att w = (b, w')"
      "res = (case b of Inl e \<Rightarrow> Inl e | Inr r \<Rightarrow> Inr (ExitBasket r))"
proof -
  let ?sid = "str_strip strategy_id"
  have basket: "place_basket_locked env scope (fst (exit_basket ?sid rs xs)) (snd (exit_basket ?sid rs xs)) w
     = place_basket_all_or_none_atomic env scope (map (exit_order ?sid algo tag) xs)
         (merged_attribution (snd (exit_basket ?sid rs xs)) (payload_metadata (fst (exit_basket ?sid rs xs)))) w"
    if "algo = (case rs of None \<Rightarrow> None | Some r \<Rightarrow> rs_algo_instance_id r)" "tag = (case rs of None \<Rightarrow> None | Some r \<Rightarrow> rs_strategy_tag r)"
    for rs xs algo tag
    using that by (simp add: place_basket_locked_def exit_basket_def basket_orders_def obj_get_def Let_def comp_def)
  show thesis
  proof (cases "?sid = [] \<or> starts_with ?sid ''manual:'' \<or> starts_with ?sid ''unsupported:''")
    case True
    then show ?thesis using assms that(1) by (auto simp: exit_strategy_def Let_def exited_def split: if_splits)
  next
    case False
    obtain rs where rs: "get_run_state scope ?sid (w_db w) = Inr rs"
      using False by (auto simp: get_run_state_def strip_strip Let_def)
    have legs: "open_legs scope ?sid (w_db w) = (case rs of None \<Rightarrow> [] | Some r \<Rightarrow> filter (\<lambda>v. lv_net v \<noteq> 0) (rs_positions r))"
      by (simp add: open_legs_def rs split: option.splits)
    let ?xs = "exit_plan scope ?sid (w_db w)"
    consider "w' = w" "\<not> exited res"
      | "bind_ok (place_basket_locked env scope (fst (exit_basket ?sid rs ?xs)) (snd (exit_basket ?sid rs ?xs)) w)
           (\<lambda>b w1. (Inr (ExitBasket b), w1)) = (res, w')"
      using assms False unfolding exit_strategy_def Let_def rs exit_plan_def legs
      by (auto simp: exited_def case_prod_beta split: if_splits)
    then show ?thesis
    proof cases
      case 2
      let ?att = "merged_attribution (snd (exit_basket ?sid rs ?xs)) (payload_metadata (fst (exit_basket ?sid rs ?xs)))"
      let ?algo = "case rs of None \<Rightarrow> None | Some r \<Rightarrow> rs_algo_instance_id r" and ?tag = "case rs of None \<Rightarrow> None | Some r \<Rightarrow> rs_strategy_tag r"
      obtain b w1 where b: "place_basket_all_or_none_atomic env scope (map (exit_order ?sid ?algo ?tag) ?xs) ?att w = (b, w1)" by force
      show ?thesis
        by (rule that(2) [OF refl, of ?algo ?tag ?att b]) (use 2 b in \<open>cases b; simp add: basket [OF refl refl]\<close>)+
    qed (rule that(1))
  qed
qed

lemma atomic_basket_rollback:
  assumes "place_basket_all_or_none_atomic env scope orders att w = (b, w')" "\<forall>r. b = Inr r \<longrightarrow> br_status r \<noteq> ''success''"
  shows "w_db w' = w_db w \<and> w_events w' = w_events w"
proof -
  obtain prep w1 where p: "prepare_orders env scope att orders w = (prep, w1)" by force
  have "w_db w1 = w_db w" "w_events w1 = w_events w" using prepare_orders_frame [of env scope att orders w] by (simp_all add: p)
  then show ?thesis using assms
    by (cases prep) (auto simp: place_basket_all_or_none_atomic_def p Let_def case_sum_eq case_prod_beta)
qed

text \<open>
  C31. Closing a strategy is all or nothing and closes exactly what it planned. When it
  succeeds, every position of the account moves by minus the quantity the plan holds in it,
  so a leg that the account holds alone goes to zero, and no other position moves; in every
  other case (nothing to close, a blocked strategy, a failed basket, an exception) the
  database and the published events are as they were. The books stay balanced either way.
\<close>

theorem exit_strategy_closes_plan:
  assumes env: "env_ok env" and ok: "paper_ok env w" and scope: "validate_scope scope = Inr scope"
    and x: "exit_strategy env scope strategy_id w = (res, w')"
  shows "paper_ok env w' \<and>
    (if exited res
     then net_at scope token product w' = net_at scope token product w
            + (\<Sum>x\<leftarrow>exit_plan scope (str_strip strategy_id) (w_db w). exit_move env token product x)
     else w_db w' = w_db w \<and> w_events w' = w_events w)"
  using x
proof (cases rule: exit_strategy_cases)
  case 1
  then show ?thesis using ok by simp
next
  case (2 sid algo tag att b)
  let ?xs = "exit_plan scope sid (w_db w)" and ?os = "map (exit_order sid algo tag) (exit_plan scope sid (w_db w))"
  have "\<forall>p \<in> set ?os. payload_ok p" by (auto simp: payload_ok_def request_ok_def exit_order_request split: sum.splits)
  from place_basket_atomic_ok [OF env ok scope this, of att] have ok': "paper_ok env w'" unfolding 2(2) by simp
  show ?thesis
  proof (cases "exited res")
    case True
    then obtain r where r: "b = Inr r" "br_status r = ''success''" by (cases b) (simp_all add: 2 exited_def)
    have "\<forall>raw rq. raw \<in> set ?os \<longrightarrow> normalize_order_request raw = Inr rq \<longrightarrow> rq_type rq = ''MARKET''"
      using exit_order_request(1) by auto
    from atomic_basket_net [OF 2(2) [unfolded r(1)] r(2) scope this] exit_moves
    show ?thesis using True ok' 2(1) by auto
  next
    case False
    then have "\<forall>r. b = Inr r \<longrightarrow> br_status r \<noteq> ''success''" by (cases b) (simp_all add: 2(3) exited_def)
    then show ?thesis using False ok' atomic_basket_rollback [OF 2(2)] by simp
  qed
qed

definition demo_run_payload :: jobj where
  "demo_run_payload = demo_payload ''MARKET'' 100 @ [(''metadata'', JObj [(''strategy_run_id'', JStr ''r1'')])]"

definition demo_run :: world where
  "demo_run = snd (place_order_locked demo_env ''acc'' demo_run_payload [] demo_world)"

lemma demo_plan_value:
  "map (\<lambda>x. (exit_key demo_env x, xp_net x)) (exit_plan ''acc'' ''r1'' (w_db demo_run)) = [(Some (7, ''CNC''), 10)]"
  by code_simp

lemma demo_run_ok: "paper_ok demo_env demo_run"
proof -
  have pay: "payload_ok demo_run_payload"
  proof -
    have "case normalize_order_request demo_run_payload of Inl _ \<Rightarrow> True | Inr rq \<Rightarrow> rq_price rq = Some 100 \<and> rq_trigger rq = None"
      by code_simp
    then show ?thesis by (auto simp: payload_ok_def request_ok_def on_grid_def split: sum.splits)
  qed
  obtain res w' where r: "place_order_locked demo_env ''acc'' demo_run_payload [] demo_world = (res, w')" by force
  show ?thesis using place_order_locked_ok [OF demo_env_ok demo_world_ok demo_scope pay r] by (simp add: demo_run_def r)
qed

theorem exit_strategy_closes_plan_witness:
  "\<exists>res w'. exit_strategy demo_env ''acc'' ''r1'' demo_run = (res, w') \<and> paper_ok demo_env w'
     \<and> (if exited res then net_at ''acc'' 7 ''CNC'' w' = net_at ''acc'' 7 ''CNC'' demo_run - 10
        else w_db w' = w_db demo_run \<and> w_events w' = w_events demo_run)"
proof -
  obtain res w' where x: "exit_strategy demo_env ''acc'' ''r1'' demo_run = (res, w')" by force
  have s: "str_strip ''r1'' = ''r1''" by code_simp
  have "(\<Sum>x\<leftarrow>exit_plan ''acc'' ''r1'' (w_db demo_run). exit_move demo_env 7 ''CNC'' x)
      = (\<Sum>(k, n)\<leftarrow>map (\<lambda>x. (exit_key demo_env x, xp_net x)) (exit_plan ''acc'' ''r1'' (w_db demo_run)). if k = Some (7, ''CNC'') then - n else 0)"
    by (simp add: exit_move_def comp_def)
  also have "\<dots> = - 10" by (simp only: demo_plan_value) simp
  finally show ?thesis
    using exit_strategy_closes_plan [OF demo_env_ok demo_run_ok demo_scope x, of 7 "''CNC''"] x by (simp add: s)
qed

end
