(* ===== verification/StrategyModel.thy ===== *)
theory StrategyModel
  imports Reconciliation
begin

text \<open>
  The hosted strategies: the validation and snapshot helpers of \<open>strategies/service.py\<close>, the
  account scopes of \<open>algo_runtime/account_scope.py\<close> and the rows of \<open>strategies/models.py\<close>.

  The JSON-schema library, the hash and the identifier generator are fields of the
  environment: the library says of a schema whether it is well formed and of parameters
  whether they satisfy it, in each case with the message of the first error. A string is a
  list of 8-bit characters; those above 127 take two bytes in UTF-8.
\<close>

section \<open>Errors and environment\<close>

datatype strategy_error =
    StrategyConflict string
  | StrategyFenceError
  | StrategyNotFound
  | StrategyIdentityError
  | StrategyIdempotencyConflict
  | StrategyDisabled
  | ValidationError string

record strategy_env =
  se_uuid :: "nat \<Rightarrow> string"
  se_sha256 :: "string \<Rightarrow> string"
  se_check_schema :: "jobj \<Rightarrow> string option"
  se_param_error :: "jobj \<Rightarrow> jobj \<Rightarrow> string option"

definition allowed_execution_modes :: "string list" where
  "allowed_execution_modes = [''paper'', ''dry_run'']"

definition allowed_job_kinds :: "string list" where
  "allowed_job_kinds = [''continuous'', ''finite'']"

definition allowed_stale_exit_policies :: "string list" where
  "allowed_stale_exit_policies = [''none'', ''exit_on_worker_stale'']"

definition allowed_schedule_kinds :: "string list" where
  "allowed_schedule_kinds = [''daily'', ''weekly'']"

definition child_base_actions :: "string list" where
  "child_base_actions = [''runs:read'', ''runs:log'', ''runs:progress'']"

definition child_order_actions :: "string list" where
  "child_order_actions = [''intents:submit'', ''runs:exit'', ''risk:update'']"

definition child_notify_actions :: "string list" where
  "child_notify_actions = [''notifications:publish'']"

definition child_forbidden_actions :: "string list" where
  "child_forbidden_actions = [''heartbeat'']"

definition forbidden_schema_keys :: "string list" where
  "forbidden_schema_keys = [''$id'', ''$dynamicRef'', ''$dynamicAnchor'', ''$recursiveRef'', ''$recursiveAnchor'']"

definition template_id_for :: "string \<Rightarrow> string" where
  "template_id_for sid = ''hosted:'' @ sid"

section \<open>Names, sources and schemas\<close>

definition utf8_len :: "string \<Rightarrow> int" where
  "utf8_len s = sum_list (map (\<lambda>c. if (of_char c :: nat) < 128 then 1 else 2) s)"

definition validate_name :: "string \<Rightarrow> strategy_error + string" where
  "validate_name name =
     (let cleaned = str_strip name in
      if cleaned = [] then Inl (ValidationError ''name is required'')
      else if length cleaned > 120 then Inl (ValidationError ''name must be at most 120 characters'')
      else Inr cleaned)"

definition validate_source :: "strategy_env \<Rightarrow> string \<Rightarrow> strategy_error + string \<times> string" where
  "validate_source env source =
     (if str_strip source = [] then Inl (ValidationError ''source is required'')
      else if utf8_len source > 256 * 1024 then Inl (ValidationError ''source exceeds 262144 bytes'')
      else Inr (source, se_sha256 env source))"

text \<open>The constructs of a schema that change resolution, by path, and its remote references.\<close>

definition remote_ref :: "string \<Rightarrow> jval \<Rightarrow> bool" where
  "remote_ref k v = (k = ''$ref'' \<and> (case v of JStr s \<Rightarrow> \<not> starts_with s ''#'' | _ \<Rightarrow> False))"

lemma dsize_member: "(k, v) \<in> set d \<Longrightarrow> jsize v \<le> dsize d"
  by (induction d) auto

lemma enumerate_size: "(i, v) \<in> set (enumerate 0 xs) \<Longrightarrow> jsize v < jsize (JList xs)"
  by (intro jsize_member_less) (auto simp: in_set_enumerate_eq)

function (sequential) scan_schema :: "string \<Rightarrow> jval \<Rightarrow> string list \<times> string list" where
  "scan_schema path (JObj kvs) =
     (let found = map (\<lambda>(k, v).
            let key_path = (if path = [] then k else path @ ''/'' @ k)
            in if k \<in> set forbidden_schema_keys then ([key_path], [])
               else if remote_ref k v then ([], [py_str v])
               else scan_schema key_path v) kvs
      in (concat (map fst found), concat (map snd found)))"
| "scan_schema path (JList xs) =
     (let found = map (\<lambda>(i, v). scan_schema (path @ ''/'' @ nat_str i) v) (enumerate 0 xs)
      in (concat (map fst found), concat (map snd found)))"
| "scan_schema path v = ([], [])"
  by pat_completeness auto

termination scan_schema
  by (relation "measure (jsize \<circ> snd)")
    (auto simp: less_Suc_eq_le dest: dsize_member enumerate_size simp del: jsize.simps(1))

definition validate_parameters_schema :: "strategy_env \<Rightarrow> jval \<Rightarrow> strategy_error + jobj" where
  "validate_parameters_schema env schema =
     (let checked = (\<lambda>d.
            let (forbidden, remote) = scan_schema [] (JObj d)
            in if int (length (json_dumps (JObj d))) > 64 * 1024
                 then Inl (ValidationError ''parameters_schema exceeds 65536 bytes'')
               else if forbidden \<noteq> []
                 then Inl (ValidationError (''parameters_schema may not use resolution-changing or remote constructs: ''
                             @ join '', '' (sort (dedup forbidden))))
               else if remote \<noteq> []
                 then Inl (ValidationError (''parameters_schema may not use remote $ref: '' @ join '', '' (sort (dedup remote))))
               else (case se_check_schema env d of
                   Some msg \<Rightarrow> Inl (ValidationError (''invalid parameters_schema: '' @ msg))
                 | None \<Rightarrow> Inr d))
      in case schema of
           JNull \<Rightarrow> checked []
         | JObj d \<Rightarrow> checked d
         | _ \<Rightarrow> Inl (ValidationError ''parameters_schema must be a JSON object''))"

definition validate_parameters :: "strategy_env \<Rightarrow> jobj \<Rightarrow> jobj \<Rightarrow> strategy_error + jobj" where
  "validate_parameters env schema params =
     (if int (length (json_dumps (JObj params))) > 64 * 1024
        then Inl (ValidationError ''parameters exceed 65536 bytes'')
      else (case validate_parameters_schema env (JObj schema) of
          Inl e \<Rightarrow> Inl e
        | Inr normalized \<Rightarrow>
            if normalized = [] then Inr params
            else (case se_param_error env normalized params of
                Some msg \<Rightarrow> Inl (ValidationError msg)
              | None \<Rightarrow> Inr params)))"

section \<open>Child token actions\<close>

definition validate_child_token_actions :: "string list \<Rightarrow> strategy_error + string list" where
  "validate_child_token_actions actions =
     (let requested = dedup (filter (\<lambda>a. a \<noteq> []) (map str_strip actions));
          forbidden = filter (\<lambda>a. a \<in> set child_forbidden_actions) requested;
          unknown = filter (\<lambda>a. a \<notin> set (child_base_actions @ child_order_actions @ child_notify_actions)) requested
      in if forbidden \<noteq> []
           then Inl (ValidationError (''a child run token may not hold lifecycle actions: '' @ join '', '' (sort forbidden)
                       @ '' (heartbeat/claim/release belong to the supervisor)''))
         else if unknown \<noteq> []
           then Inl (ValidationError (''unsupported child token actions: '' @ join '', '' (sort unknown)))
         else Inr (sort requested))"

definition child_run_token_actions :: "bool \<Rightarrow> bool \<Rightarrow> string list \<Rightarrow> strategy_error + string list" where
  "child_run_token_actions order_capable notify extra =
     validate_child_token_actions
       (child_base_actions @ (if order_capable then child_order_actions else [])
        @ (if notify then child_notify_actions else []) @ extra)"

definition capability_actions :: "(string, bool) dict \<Rightarrow> strategy_error + string list" where
  "capability_actions caps =
     child_run_token_actions (dict_get caps ''trade'' = Some True) (dict_get caps ''notify'' = Some True) []"

section \<open>Account scopes\<close>

record parsed_scope =
  ps_normalized :: string
  ps_paper :: bool

definition ends_with :: "string \<Rightarrow> string \<Rightarrow> bool" where
  "ends_with s suffix = starts_with (rev s) (rev suffix)"

definition is_paper_identifier :: "string \<Rightarrow> bool" where
  "is_paper_identifier s =
     (s = ''paper'' \<or> starts_with s ''paper-'' \<or> starts_with s ''paper_'' \<or> starts_with s ''test-paper''
      \<or> ends_with s ''-paper'' \<or> ends_with s ''_paper'')"

definition quoted :: "string \<Rightarrow> string" where
  "quoted s = CHR 0x27 # s @ [CHR 0x27]"

definition parse_account_scope :: "string \<Rightarrow> parsed_scope option" where
  "parse_account_scope value =
     (let raw = str_strip value;
          prefix = takeWhile (\<lambda>c. c \<noteq> CHR '':'') raw;
          identifier = str_strip (drop (length prefix + 1) raw)
      in if CHR '':'' \<notin> set raw \<or> str_lower (str_strip prefix) \<noteq> ''kite'' \<or> identifier = [] then None
         else Some \<lparr>ps_normalized = ''kite:'' @ identifier, ps_paper = is_paper_identifier (str_lower identifier)\<rparr>)"

text \<open>The message of the error that parsing raises.\<close>

definition scope_error :: "string \<Rightarrow> string" where
  "scope_error value =
     (let raw = str_strip value in if raw = [] then ''account_scope is required'' else ''Unsupported account_scope '' @ quoted raw)"

definition validate_account_scope :: "string \<Rightarrow> string \<Rightarrow> strategy_error + string" where
  "validate_account_scope scope mode =
     (let candidate = str_strip scope in
      if candidate = [] then Inl (ValidationError ''account_scope is required'')
      else (case parse_account_scope candidate of
          None \<Rightarrow> Inl (ValidationError (scope_error candidate))
        | Some p \<Rightarrow>
            if mode \<notin> set allowed_execution_modes
              then Inl (ValidationError ''execution_mode must be one of paper, dry_run'')
            else if mode = ''paper'' \<and> \<not> ps_paper p
              then Inl (ValidationError ''paper execution requires a paper account_scope'')
            else Inr candidate))"

section \<open>Schedules\<close>

definition is_digit :: "char \<Rightarrow> bool" where
  "is_digit c = (let n = (of_char c :: nat) in 48 \<le> n \<and> n \<le> 57)"

text \<open>\<open>^([01]\d|2[0-3]):[0-5]\d$\<close>; a trailing newline cannot occur in a stripped string.\<close>

fun is_hhmm :: "string \<Rightarrow> bool" where
  "is_hhmm [a, b, c, d, e] =
     (((a \<in> {CHR ''0'', CHR ''1''} \<and> is_digit b) \<or> (a = CHR ''2'' \<and> b \<in> {CHR ''0'', CHR ''1'', CHR ''2'', CHR ''3''}))
      \<and> c = CHR '':'' \<and> d \<in> {CHR ''0'', CHR ''1'', CHR ''2'', CHR ''3'', CHR ''4'', CHR ''5''} \<and> is_digit e)"
| "is_hhmm _ = False"

definition validate_clock :: "string \<Rightarrow> string option \<Rightarrow> strategy_error + string option" where
  "validate_clock label value =
     (case value of
        None \<Rightarrow> Inr None
      | Some s \<Rightarrow>
          let text = str_strip s in
          if text = [] then Inr None
          else if text = ''session_close''
            then Inl (ValidationError (label @ '' '' @ quoted ''session_close'' @ '' is not supported; use an explicit HH:MM clock time''))
          else if \<not> is_hhmm text then Inl (ValidationError (label @ '' must be an explicit HH:MM (24h) clock time''))
          else Inr (Some text))"

record schedule_shape =
  sc_kind :: string
  sc_at_time :: string
  sc_weekday :: "int option"
  sc_timezone :: string
  sc_window_end :: "string option"
  sc_squareoff_at :: "string option"

definition validate_schedule ::
  "string \<Rightarrow> string option \<Rightarrow> int option \<Rightarrow> string option \<Rightarrow> string option \<Rightarrow> string option \<Rightarrow> strategy_error + schedule_shape" where
  "validate_schedule kind at_time weekday timezone window_end squareoff_at =
     (if kind \<notin> set allowed_schedule_kinds then Inl (ValidationError ''schedule_kind must be one of daily, weekly'')
      else (case validate_clock ''at_time'' at_time of
          Inl e \<Rightarrow> Inl e
        | Inr None \<Rightarrow> Inl (ValidationError ''at_time is required'')
        | Inr (Some clock) \<Rightarrow>
            if kind = ''weekly'' \<and> (case weekday of None \<Rightarrow> True | Some d \<Rightarrow> d < 0 \<or> 6 < d)
              then Inl (ValidationError ''a weekly schedule requires weekday 0..6'')
            else (case (validate_clock ''window_end'' window_end, validate_clock ''squareoff_at'' squareoff_at) of
                (Inl e, _) \<Rightarrow> Inl e
              | (_, Inl e) \<Rightarrow> Inl e
              | (Inr we, Inr sq) \<Rightarrow>
                  Inr \<lparr>sc_kind = kind, sc_at_time = clock, sc_weekday = (if kind = ''weekly'' then weekday else None),
                       sc_timezone = str_or (map_option str_strip timezone) ''Asia/Kolkata'',
                       sc_window_end = we, sc_squareoff_at = sq\<rparr>)))"

section \<open>Snapshots\<close>

definition build_capabilities_snapshot :: "bool \<Rightarrow> bool \<Rightarrow> bool \<Rightarrow> instant \<Rightarrow> jobj" where
  "build_capabilities_snapshot trade notify data now =
     [(''schema_version'', JInt 2),
      (''capabilities'', JObj [(''trade'', JBool trade), (''notify'', JBool notify), (''data'', JBool data)]),
      (''captured_at'', JTime now)]"

definition requested_capability :: "jobj \<Rightarrow> string \<Rightarrow> bool \<Rightarrow> bool" where
  "requested_capability payload k absent = (case dict_get payload k of None \<Rightarrow> absent | Some v \<Rightarrow> jtruth v)"

definition validate_capabilities :: "jval \<Rightarrow> instant \<Rightarrow> strategy_error + jobj" where
  "validate_capabilities payload now =
     (if payload = JNull \<or> payload = JObj [] then Inr (build_capabilities_snapshot False False True now)
      else (case payload of
          JObj d \<Rightarrow>
            let unknown = sort (filter (\<lambda>k. k \<notin> set capability_keys) (dedup (map fst d)));
                bad = filter (\<lambda>k. dict_has d k \<and> jbool (obj_get d k) = None) capability_keys
            in if unknown \<noteq> [] then Inl (ValidationError (''unsupported capabilities: '' @ join '', '' unknown))
               else (case bad of
                   k # _ \<Rightarrow> Inl (ValidationError (''capability '' @ quoted k @ '' must be a boolean''))
                 | [] \<Rightarrow> Inr (build_capabilities_snapshot (requested_capability d ''trade'' False)
                           (requested_capability d ''notify'' False) (requested_capability d ''data'' True) now))
        | _ \<Rightarrow> Inl (ValidationError ''capabilities must be a JSON object'')))"

definition build_policy_snapshot :: "string \<Rightarrow> int \<Rightarrow> int \<Rightarrow> instant \<Rightarrow> strategy_error + jobj" where
  "build_policy_snapshot policy max_duration progress_deadline now =
     (if policy \<notin> set allowed_stale_exit_policies
        then Inl (ValidationError ''stale_exit_policy must be one of none, exit_on_worker_stale'')
      else if max_duration \<le> 0 then Inl (ValidationError ''max_duration_s must be a positive integer'')
      else if progress_deadline \<le> 0 then Inl (ValidationError ''progress_deadline_s must be a positive integer'')
      else Inr [(''stale_exit_policy'', JStr policy), (''max_duration_s'', JInt max_duration),
                (''progress_deadline_s'', JInt progress_deadline), (''captured_at'', JTime now)])"

section \<open>What a snapshot grants\<close>

lemma parse_built_snapshot [simp]:
  "parse_capability_snapshot (JObj (build_capabilities_snapshot t n d now)) = Inr [(''data'', d), (''trade'', t), (''notify'', n)]"
  by (simp add: parse_capability_snapshot_def build_capabilities_snapshot_def obj_get_def capability_keys_def Let_def)

lemma validate_capabilities_Inr:
  assumes "validate_capabilities payload now = Inr snap"
  obtains t n d where "snap = build_capabilities_snapshot t n d now"
  using assms by (auto simp: validate_capabilities_def Let_def split: if_splits jval.splits list.splits)

lemma capability_actions_sorted:
  "capability_actions caps =
     Inr (sort (child_base_actions @ (if dict_get caps ''trade'' = Some True then child_order_actions else [])
                @ (if dict_get caps ''notify'' = Some True then child_notify_actions else [])))"
  by (cases "dict_get caps ''trade'' = Some True"; cases "dict_get caps ''notify'' = Some True"; simp add: capability_actions_def child_run_token_actions_def; code_simp)

lemma capability_actions_granted:
  obtains actions where "capability_actions caps = Inr actions"
    "set actions = set child_base_actions \<union> (if dict_get caps ''trade'' = Some True then set child_order_actions else {})
       \<union> (if dict_get caps ''notify'' = Some True then set child_notify_actions else {})"
proof
  show "capability_actions caps =
      Inr (sort (child_base_actions @ (if dict_get caps ''trade'' = Some True then child_order_actions else [])
                 @ (if dict_get caps ''notify'' = Some True then child_notify_actions else [])))"
    by (rule capability_actions_sorted)
qed (simp add: Un_assoc)

text \<open>
  A version's declared capabilities survive their snapshot and grant exactly what they say:
  a snapshot the validator accepts is parsed back at launch to one boolean per capability, and
  the child token minted from it may submit orders exactly when trading was declared, publish
  notifications exactly when that was declared, and never holds a lifecycle action.
\<close>

theorem capability_snapshot_roundtrip:
  assumes "validate_capabilities payload now = Inr snap"
  shows "\<exists>caps actions. parse_capability_snapshot (JObj snap) = Inr caps \<and> map fst caps = capability_keys
    \<and> obj_get snap ''capabilities'' = JObj (map (\<lambda>k. (k, JBool (dict_get caps k = Some True))) [''trade'', ''notify'', ''data''])
    \<and> capability_actions caps = Inr actions
    \<and> set child_base_actions \<subseteq> set actions \<and> set child_forbidden_actions \<inter> set actions = {}
    \<and> (\<forall>a. a \<in> set child_order_actions \<longrightarrow> (a \<in> set actions \<longleftrightarrow> dict_get caps ''trade'' = Some True))
    \<and> (''notifications:publish'' \<in> set actions \<longleftrightarrow> dict_get caps ''notify'' = Some True)"
proof -
  obtain t n d where s: "snap = build_capabilities_snapshot t n d now" using validate_capabilities_Inr [OF assms] .
  let ?caps = "[(''data'', d), (''trade'', t), (''notify'', n)]"
  obtain actions where a: "capability_actions ?caps = Inr actions"
    "set actions = set child_base_actions \<union> (if t then set child_order_actions else {}) \<union> (if n then set child_notify_actions else {})"
    by (rule capability_actions_granted [of ?caps]) simp
  have "obj_get snap ''capabilities'' = JObj (map (\<lambda>k. (k, JBool (dict_get ?caps k = Some True))) [''trade'', ''notify'', ''data''])"
    by (simp add: s build_capabilities_snapshot_def obj_get_def)
  moreover have "parse_capability_snapshot (JObj snap) = Inr ?caps" by (simp add: s)
  ultimately show ?thesis
    by (intro exI [of _ ?caps] exI [of _ actions])
       (auto simp: a capability_keys_def child_base_actions_def child_order_actions_def child_notify_actions_def child_forbidden_actions_def)
qed

theorem capability_snapshot_roundtrip_witness:
  "\<exists>caps actions. parse_capability_snapshot (JObj (build_capabilities_snapshot True False True 5)) = Inr caps
    \<and> capability_actions caps = Inr actions \<and> dict_get caps ''trade'' = Some True \<and> ''intents:submit'' \<in> set actions
    \<and> ''notifications:publish'' \<notin> set actions"
proof -
  have "validate_capabilities (JObj [(''trade'', JBool True)]) 5 = Inr (build_capabilities_snapshot True False True 5)"
    by code_simp
  from capability_snapshot_roundtrip [OF this] show ?thesis
    by (auto simp: child_order_actions_def)
qed

end
