(* ===== verification/StrategyStore.thy ===== *)
theory StrategyStore
  imports StrategyModel
begin

text \<open>
  The durable store of hosted strategies, \<open>strategies/repository.py\<close> over the tables of
  \<open>strategies/models.py\<close>: strategies, immutable versions, the job ledger with its fenced
  transitions, reconciliation audits, bounded logs and schedules.

  Every operation is one transaction: it returns its result and the store it commits, and a
  raised exception or a lost compare-and-set leaves the store as it was. An \<open>UPDATE\<close> by
  primary key is \<open>cas_job\<close>, a guard on the row and its new value. The clock is read once per
  operation. Three columns that nothing writes (\<open>identity_json\<close>, \<open>exit_code\<close>, \<open>log_ref\<close>)
  are left out.
\<close>

section \<open>Rows\<close>

record hosted_strategy =
  hs_id :: string
  hs_owner :: string
  hs_name :: string
  hs_template :: string
  hs_description :: "string option"
  hs_mode :: string
  hs_kind :: string
  hs_scope :: string
  hs_max_duration :: int
  hs_progress_deadline :: int
  hs_stale_policy :: string
  hs_status :: string
  hs_created_at :: instant

record strategy_version =
  hv_id :: string
  hv_strategy :: string
  hv_version :: int
  hv_source :: string
  hv_sha256 :: string
  hv_schema :: jobj
  hv_capabilities :: jobj
  hv_created_by :: string

record strategy_job =
  sj_id :: string
  sj_strategy :: string
  sj_version :: string
  sj_owner :: string
  sj_scope :: string
  sj_kind :: string
  sj_mode :: string
  sj_desired :: string
  sj_occurrence :: "string option"
  sj_run :: "string option"
  sj_token :: "string option"
  sj_lease_owner :: "string option"
  sj_epoch :: int
  sj_lease_until :: "instant option"
  sj_attempt :: int
  sj_status :: string
  sj_params :: jobj
  sj_capabilities :: jobj
  sj_policy :: jobj
  sj_max_duration :: int
  sj_progress_deadline :: int
  sj_last_progress :: "instant option"
  sj_handoff :: "instant option"
  sj_last_error :: "string option"
  sj_cleanup :: "string option"
  sj_cleanup_at :: "instant option"
  sj_cleanup_actor :: "string option"
  sj_stop_requested :: "instant option"
  sj_stop_actor :: "string option"
  sj_logs_discarded :: bool
  sj_logs_source :: "string option"
  sj_recovery_at :: "instant option"
  sj_reconciled :: "instant option"
  sj_created_at :: instant
  sj_updated_at :: instant

record reconciliation_audit =
  ra_id :: string
  ra_job :: string
  ra_strategy :: string
  ra_owner :: string
  ra_attempt :: int
  ra_run :: "string option"
  ra_outcome :: string
  ra_reason :: string
  ra_evidence :: reconciliation_evidence
  ra_actor :: string
  ra_created_at :: instant

record job_log =
  jl_job :: string
  jl_attempt :: int
  jl_seq :: int
  jl_content :: string
  jl_bytes :: int

record strategy_schedule =
  sd_id :: string
  sd_strategy :: string
  sd_version :: string
  sd_owner :: string
  sd_scope :: string
  sd_params :: jobj
  sd_mode :: string
  sd_kind :: string
  sd_policy :: jobj
  sd_capabilities :: jobj
  sd_max_duration :: int
  sd_progress_deadline :: int
  sd_shape :: schedule_shape
  sd_enabled :: bool

record strategy_store =
  ss_strategies :: "(string, hosted_strategy) dict"
  ss_versions :: "(string, strategy_version) dict"
  ss_jobs :: "(string, strategy_job) dict"
  ss_audits :: "reconciliation_audit list"
  ss_logs :: "job_log list"
  ss_schedules :: "strategy_schedule list"
  ss_next :: nat

definition empty_strategies :: strategy_store where
  "empty_strategies = \<lparr>ss_strategies = [], ss_versions = [], ss_jobs = [], ss_audits = [], ss_logs = [],
     ss_schedules = [], ss_next = 0\<rparr>"

type_synonym 'a tx = "(strategy_error + 'a) \<times> strategy_store"

definition fresh_id :: "string \<Rightarrow> strategy_env \<Rightarrow> strategy_store \<Rightarrow> string" where
  "fresh_id prefix env st = prefix @ se_uuid env (ss_next st)"

definition used_id :: "strategy_store \<Rightarrow> strategy_store" where
  "used_id st = st\<lparr>ss_next := Suc (ss_next st)\<rparr>"

section \<open>Strategies\<close>

definition create_strategy ::
  "strategy_env \<Rightarrow> instant \<Rightarrow> string \<Rightarrow> string \<Rightarrow> string option \<Rightarrow> string \<Rightarrow> string \<Rightarrow> string \<Rightarrow> int \<Rightarrow> int \<Rightarrow> string
   \<Rightarrow> strategy_store \<Rightarrow> hosted_strategy tx" where
  "create_strategy env now owner name description mode kind scope max_duration progress_deadline policy st =
     (let sid = fresh_id ''hs_'' env st;
          row = \<lparr>hs_id = sid, hs_owner = owner, hs_name = name, hs_template = template_id_for sid,
                 hs_description = description, hs_mode = mode, hs_kind = kind, hs_scope = scope,
                 hs_max_duration = max_duration, hs_progress_deadline = progress_deadline,
                 hs_stale_policy = policy, hs_status = ''active'', hs_created_at = now\<rparr>;
          duplicate = list_ex (\<lambda>(k, s). k = sid \<or> (hs_owner s = owner \<and> hs_name s = name) \<or> hs_template s = hs_template row)
                        (ss_strategies st);
          checks = (mode \<in> set allowed_execution_modes \<and> kind \<in> set allowed_job_kinds \<and> max_duration > 0
                    \<and> progress_deadline > 0 \<and> policy \<in> set allowed_stale_exit_policies)
      in if duplicate \<or> \<not> checks then (Inl (StrategyConflict ''a strategy with this name already exists''), used_id st)
         else (Inr row, (used_id st)\<lparr>ss_strategies := dict_set sid row (ss_strategies st)\<rparr>))"

definition get_strategy :: "string \<Rightarrow> string \<Rightarrow> strategy_store \<Rightarrow> hosted_strategy option" where
  "get_strategy owner sid st =
     (case dict_get (ss_strategies st) sid of
        Some s \<Rightarrow> if hs_owner s = owner then Some s else None
      | None \<Rightarrow> None)"

definition list_strategies :: "string \<Rightarrow> strategy_store \<Rightarrow> hosted_strategy list" where
  "list_strategies owner st =
     sort_key hs_created_at (sort_key hs_id (filter (\<lambda>s. hs_owner s = owner) (map snd (ss_strategies st))))"

text \<open>A field that is not given stays as it is; the outer option says whether it is given.\<close>

definition update_strategy ::
  "string \<Rightarrow> string \<Rightarrow> string option option \<Rightarrow> string option \<Rightarrow> strategy_store \<Rightarrow> hosted_strategy option tx" where
  "update_strategy owner sid description status st =
     (if (case status of Some s \<Rightarrow> s \<noteq> ''active'' \<and> s \<noteq> ''disabled'' | None \<Rightarrow> False)
        then (Inl (ValidationError ''status must be active or disabled''), st)
      else (case get_strategy owner sid st of
          None \<Rightarrow> (Inr None, st)
        | Some row \<Rightarrow>
            let row1 = (case description of None \<Rightarrow> row | Some d \<Rightarrow> row\<lparr>hs_description := d\<rparr>);
                row2 = (case status of None \<Rightarrow> row1 | Some s \<Rightarrow> row1\<lparr>hs_status := s\<rparr>)
            in (Inr (Some row2), st\<lparr>ss_strategies := dict_set sid row2 (ss_strategies st)\<rparr>)))"

section \<open>Versions\<close>

definition versions_of :: "string \<Rightarrow> strategy_store \<Rightarrow> strategy_version list" where
  "versions_of sid st = filter (\<lambda>v. hv_strategy v = sid) (map snd (ss_versions st))"

definition create_version ::
  "strategy_env \<Rightarrow> string \<Rightarrow> string \<Rightarrow> string \<Rightarrow> jobj \<Rightarrow> jobj \<Rightarrow> string \<Rightarrow> strategy_store \<Rightarrow> strategy_version tx" where
  "create_version env sid source sha schema capabilities created_by st =
     (let vid = fresh_id ''hsv_'' env st;
          current = fold max (map hv_version (versions_of sid st)) 0;
          row = \<lparr>hv_id = vid, hv_strategy = sid, hv_version = current + 1, hv_source = source, hv_sha256 = sha,
                 hv_schema = schema, hv_capabilities = capabilities, hv_created_by = created_by\<rparr>
      in if \<not> dict_has (ss_strategies st) sid \<or> dict_has (ss_versions st) vid
         then (Inl (StrategyConflict ''version numbering conflict; retry''), used_id st)
         else (Inr row, (used_id st)\<lparr>ss_versions := dict_set vid row (ss_versions st)\<rparr>))"

definition get_version :: "string \<Rightarrow> int \<Rightarrow> strategy_store \<Rightarrow> strategy_version option" where
  "get_version sid n st = find (\<lambda>v. hv_version v = n) (versions_of sid st)"

definition get_version_by_id :: "string \<Rightarrow> string \<Rightarrow> strategy_store \<Rightarrow> strategy_version option" where
  "get_version_by_id sid vid st =
     (case dict_get (ss_versions st) vid of
        Some v \<Rightarrow> if hv_strategy v = sid then Some v else None
      | None \<Rightarrow> None)"

definition list_versions :: "string \<Rightarrow> strategy_store \<Rightarrow> strategy_version list" where
  "list_versions sid st = sort_key hv_version (versions_of sid st)"

section \<open>Creating jobs\<close>

definition active_job_statuses :: "string list" where
  "active_job_statuses = [''queued'', ''starting'', ''running'']"

definition job_blocks :: "strategy_job \<Rightarrow> bool" where
  "job_blocks j = (sj_status j \<in> set active_job_statuses \<or> (sj_status j = ''recovery_required'' \<and> sj_reconciled j = None))"

definition blocking_job :: "string \<Rightarrow> string \<Rightarrow> strategy_store \<Rightarrow> bool" where
  "blocking_job owner sid st =
     list_ex (\<lambda>(k, j). sj_owner j = owner \<and> sj_strategy j = sid \<and> job_blocks j) (ss_jobs st)"

definition job_with_occurrence :: "string \<Rightarrow> strategy_store \<Rightarrow> strategy_job option" where
  "job_with_occurrence key st = find (\<lambda>j. sj_occurrence j = Some key) (map snd (ss_jobs st))"

definition get_job_by_occurrence_key :: "string \<Rightarrow> strategy_store \<Rightarrow> strategy_job option" where
  "get_job_by_occurrence_key key st = (if key = [] then None else job_with_occurrence key st)"

text \<open>The row of a new job: every snapshot is taken here.\<close>

definition new_job ::
  "string \<Rightarrow> hosted_strategy \<Rightarrow> strategy_version \<Rightarrow> string \<Rightarrow> string \<Rightarrow> string \<Rightarrow> jobj \<Rightarrow> jobj \<Rightarrow> string option \<Rightarrow> int \<Rightarrow> string
   \<Rightarrow> instant \<Rightarrow> strategy_job" where
  "new_job jid s v owner kind mode params policy occurrence attempt desired now =
     \<lparr>sj_id = jid, sj_strategy = hs_id s, sj_version = hv_id v, sj_owner = owner, sj_scope = hs_scope s, sj_kind = kind,
      sj_mode = mode, sj_desired = desired, sj_occurrence = occurrence, sj_run = None, sj_token = None,
      sj_lease_owner = None, sj_epoch = 0, sj_lease_until = None, sj_attempt = attempt, sj_status = ''queued'',
      sj_params = params, sj_capabilities = hv_capabilities v, sj_policy = policy,
      sj_max_duration = hs_max_duration s, sj_progress_deadline = hs_progress_deadline s, sj_last_progress = None,
      sj_handoff = None, sj_last_error = None, sj_cleanup = None, sj_cleanup_at = None, sj_cleanup_actor = None,
      sj_stop_requested = None, sj_stop_actor = None, sj_logs_discarded = False, sj_logs_source = None,
      sj_recovery_at = None, sj_reconciled = None, sj_created_at = now, sj_updated_at = now\<rparr>"

text \<open>A replay of an occurrence key: the original job, or why the request is not the same.\<close>

definition replay_job ::
  "strategy_env \<Rightarrow> strategy_job \<Rightarrow> string \<Rightarrow> string \<Rightarrow> string \<Rightarrow> string \<Rightarrow> string \<Rightarrow> jobj \<Rightarrow> strategy_store
   \<Rightarrow> strategy_error + strategy_job" where
  "replay_job env existing sid vid owner kind mode params st =
     (if sj_owner existing \<noteq> owner \<or> sj_strategy existing \<noteq> sid
        then Inl (StrategyConflict ''occurrence_key already used by another job'')
      else (case get_version_by_id sid vid st of
          None \<Rightarrow> Inl StrategyIdentityError
        | Some v \<Rightarrow>
            (case validate_parameters env (hv_schema v) params of
               Inl e \<Rightarrow> Inl e
             | Inr normalized \<Rightarrow>
                 if sj_version existing \<noteq> vid \<or> sj_mode existing \<noteq> mode \<or> sj_kind existing \<noteq> kind
                    \<or> sj_params existing \<noteq> normalized
                 then Inl StrategyIdempotencyConflict
                 else Inr existing)))"

text \<open>The checks of a new attempt, in the code's order, and its row.\<close>

definition admit_job ::
  "strategy_env \<Rightarrow> instant \<Rightarrow> hosted_strategy \<Rightarrow> string \<Rightarrow> string \<Rightarrow> string \<Rightarrow> string \<Rightarrow> jobj \<Rightarrow> string option \<Rightarrow> int \<Rightarrow> string
   \<Rightarrow> strategy_store \<Rightarrow> strategy_error + strategy_job" where
  "admit_job env now s vid owner kind mode params occurrence attempt desired st =
     (if hs_status s \<noteq> ''active'' then Inl StrategyDisabled
      else (case validate_account_scope (hs_scope s) mode of
          Inl e \<Rightarrow> Inl e
        | Inr _ \<Rightarrow>
            (case get_version_by_id (hs_id s) vid st of
               None \<Rightarrow> Inl StrategyIdentityError
             | Some v \<Rightarrow>
                 if blocking_job owner (hs_id s) st then Inl StrategyFenceError
                 else (case validate_parameters env (hv_schema v) params of
                     Inl e \<Rightarrow> Inl e
                   | Inr params' \<Rightarrow>
                       (case build_policy_snapshot (hs_stale_policy s) (hs_max_duration s) (hs_progress_deadline s) now of
                          Inl e \<Rightarrow> Inl e
                        | Inr policy \<Rightarrow>
                            let jid = fresh_id ''hsj_'' env st in
                            if dict_has (ss_jobs st) jid
                               \<or> (case occurrence of None \<Rightarrow> False | Some k \<Rightarrow> job_with_occurrence k st \<noteq> None)
                               \<or> desired \<notin> {''started'', ''paused'', ''stopped''}
                            then Inl (StrategyConflict ''occurrence_key already exists'')
                            else Inr (new_job jid s v owner kind mode params' policy occurrence attempt desired now))))))"

definition create_job ::
  "strategy_env \<Rightarrow> instant \<Rightarrow> string \<Rightarrow> string \<Rightarrow> string \<Rightarrow> string \<Rightarrow> string \<Rightarrow> jobj \<Rightarrow> string option \<Rightarrow> int \<Rightarrow> string
   \<Rightarrow> strategy_store \<Rightarrow> strategy_job tx" where
  "create_job env now sid vid owner kind mode params occurrence attempt desired st =
     (if kind \<notin> set allowed_job_kinds then (Inl (ValidationError ''unsupported job_kind''), st)
      else if mode \<notin> set allowed_execution_modes then (Inl (ValidationError ''unsupported execution_mode''), st)
      else if attempt < 1 then (Inl (ValidationError ''attempt must be an integer >= 1''), st)
      else (case get_strategy owner sid st of
          None \<Rightarrow> (Inl StrategyNotFound, st)
        | Some s \<Rightarrow>
            (case (if str_truthy occurrence then job_with_occurrence (opt_str occurrence) st else None) of
               Some existing \<Rightarrow> (replay_job env existing sid vid owner kind mode params st, st)
             | None \<Rightarrow>
                 (case admit_job env now s vid owner kind mode params occurrence attempt desired st of
                    Inl e \<Rightarrow> (Inl e, used_id st)
                  | Inr j \<Rightarrow> (Inr j, (used_id st)\<lparr>ss_jobs := dict_set (sj_id j) j (ss_jobs st)\<rparr>)))))"

section \<open>Job reads\<close>

definition get_job :: "string \<Rightarrow> string \<Rightarrow> strategy_store \<Rightarrow> strategy_job option" where
  "get_job owner jid st =
     (case dict_get (ss_jobs st) jid of Some j \<Rightarrow> if sj_owner j = owner then Some j else None | None \<Rightarrow> None)"

definition get_job_by_id :: "string \<Rightarrow> strategy_store \<Rightarrow> strategy_job option" where
  "get_job_by_id jid st = dict_get (ss_jobs st) jid"

definition get_job_by_run_id :: "string \<Rightarrow> strategy_store \<Rightarrow> strategy_job option" where
  "get_job_by_run_id rid st = (if rid = [] then None else find (\<lambda>j. sj_run j = Some rid) (map snd (ss_jobs st)))"

definition get_job_by_token_id :: "string \<Rightarrow> strategy_store \<Rightarrow> strategy_job option" where
  "get_job_by_token_id tid st = (if tid = [] then None else find (\<lambda>j. sj_token j = Some tid) (map snd (ss_jobs st)))"

definition capped_limit :: "int \<Rightarrow> int \<Rightarrow> nat" where
  "capped_limit bound limit = nat (max 1 (min limit bound))"

definition list_jobs_for_strategy :: "string \<Rightarrow> string \<Rightarrow> int \<Rightarrow> strategy_store \<Rightarrow> strategy_job list" where
  "list_jobs_for_strategy owner sid limit st =
     take (capped_limit 200 limit)
       (rev (sort_key sj_created_at (sort_key sj_id
          (filter (\<lambda>j. sj_owner j = owner \<and> sj_strategy j = sid) (map snd (ss_jobs st))))))"

definition list_jobs_by_status :: "string list \<Rightarrow> int \<Rightarrow> strategy_store \<Rightarrow> strategy_job list" where
  "list_jobs_by_status statuses limit st =
     take (capped_limit 200 limit)
       (sort_key sj_created_at (sort_key sj_id
          (filter (\<lambda>j. sj_status j \<in> set statuses \<and> sj_desired j = ''started'') (map snd (ss_jobs st)))))"

definition has_unreconciled_recovery :: "string \<Rightarrow> string \<Rightarrow> strategy_store \<Rightarrow> bool" where
  "has_unreconciled_recovery owner sid st =
     list_ex (\<lambda>(k, j). sj_owner j = owner \<and> sj_strategy j = sid \<and> sj_status j = ''recovery_required'' \<and> sj_reconciled j = None)
       (ss_jobs st)"

definition assert_replacement_allowed :: "string \<Rightarrow> string \<Rightarrow> strategy_store \<Rightarrow> strategy_error + unit" where
  "assert_replacement_allowed owner sid st =
     (if has_unreconciled_recovery owner sid st then Inl StrategyFenceError else Inr ())"

section \<open>Fenced transitions\<close>

definition cas_job :: "string \<Rightarrow> (strategy_job \<Rightarrow> bool) \<Rightarrow> (strategy_job \<Rightarrow> strategy_job) \<Rightarrow> strategy_store \<Rightarrow> bool \<times> strategy_store" where
  "cas_job jid guard change st =
     (case dict_get (ss_jobs st) jid of
        Some j \<Rightarrow> if guard j then (True, st\<lparr>ss_jobs := dict_set jid (change j) (ss_jobs st)\<rparr>) else (False, st)
      | None \<Rightarrow> (False, st))"

text \<open>The authority every holder-side transition compares: owner, epoch and attempt of a live job.\<close>

definition live_statuses :: "string list" where
  "live_statuses = [''starting'', ''running'']"

definition holds_lease :: "string \<Rightarrow> int \<Rightarrow> int \<Rightarrow> strategy_job \<Rightarrow> bool" where
  "holds_lease holder epoch attempt j = (sj_lease_owner j = Some holder \<and> sj_epoch j = epoch \<and> sj_attempt j = attempt)"

definition authority_clause :: "string \<Rightarrow> int \<Rightarrow> int \<Rightarrow> strategy_job \<Rightarrow> bool" where
  "authority_clause holder epoch attempt j = (sj_status j \<in> set live_statuses \<and> holds_lease holder epoch attempt j)"

definition lease_expired :: "instant \<Rightarrow> strategy_job \<Rightarrow> bool" where
  "lease_expired now j = (case sj_lease_until j of None \<Rightarrow> True | Some t \<Rightarrow> t < now)"

definition report_process_cleanup :: "instant \<Rightarrow> string \<Rightarrow> string \<Rightarrow> string \<Rightarrow> int \<Rightarrow> strategy_store \<Rightarrow> bool tx" where
  "report_process_cleanup now jid state actor attempt st =
     (if state \<notin> {''confirmed'', ''unresolved''}
        then (Inl (ValidationError ''process cleanup state must be confirmed/unresolved''), st)
      else
        let (ok, st1) = cas_job jid (\<lambda>j. sj_attempt j = attempt \<and> sj_status j \<noteq> ''queued'')
              (\<lambda>j. j\<lparr>sj_cleanup := Some state, sj_cleanup_at := Some now, sj_cleanup_actor := Some (take 200 actor),
                     sj_updated_at := now\<rparr>) st
        in (Inr ok, st1))"

definition reserve_child_token :: "instant \<Rightarrow> string \<Rightarrow> string \<Rightarrow> int \<Rightarrow> int \<Rightarrow> string \<Rightarrow> strategy_store \<Rightarrow> bool \<times> strategy_store" where
  "reserve_child_token now jid holder epoch attempt token st =
     cas_job jid (\<lambda>j. authority_clause holder epoch attempt j \<and> sj_token j = None \<and> sj_handoff j = None)
       (\<lambda>j. j\<lparr>sj_token := Some token, sj_updated_at := now\<rparr>) st"

definition record_child_run ::
  "instant \<Rightarrow> string \<Rightarrow> string \<Rightarrow> int \<Rightarrow> int \<Rightarrow> string \<Rightarrow> string \<Rightarrow> strategy_store \<Rightarrow> bool \<times> strategy_store" where
  "record_child_run now jid holder epoch attempt token run st =
     cas_job jid
       (\<lambda>j. authority_clause holder epoch attempt j \<and> sj_token j = Some token \<and> sj_run j = None \<and> sj_handoff j = None)
       (\<lambda>j. j\<lparr>sj_run := Some run, sj_updated_at := now\<rparr>) st"

definition mark_running_and_handoff ::
  "instant \<Rightarrow> string \<Rightarrow> string \<Rightarrow> int \<Rightarrow> int \<Rightarrow> string \<Rightarrow> strategy_store \<Rightarrow> bool \<times> strategy_store" where
  "mark_running_and_handoff now jid holder epoch attempt run st =
     cas_job jid (\<lambda>j. authority_clause holder epoch attempt j \<and> sj_run j = Some run \<and> sj_handoff j = None)
       (\<lambda>j. j\<lparr>sj_status := ''running'', sj_handoff := Some now, sj_updated_at := now\<rparr>) st"

definition renew_lease :: "instant \<Rightarrow> string \<Rightarrow> string \<Rightarrow> int \<Rightarrow> int \<Rightarrow> instant \<Rightarrow> strategy_store \<Rightarrow> bool tx" where
  "renew_lease now jid holder epoch attempt lease_until st =
     (if lease_until \<le> now then (Inl (ValidationError ''lease_until must be in the future''), st)
      else
        let (ok, st1) = cas_job jid (\<lambda>j. authority_clause holder epoch attempt j \<and> sj_handoff j \<noteq> None)
              (\<lambda>j. j\<lparr>sj_lease_until := Some lease_until, sj_updated_at := now\<rparr>) st
        in (Inr ok, st1))"

definition record_progress :: "instant \<Rightarrow> string \<Rightarrow> strategy_store \<Rightarrow> bool \<times> strategy_store" where
  "record_progress now jid st =
     cas_job jid (\<lambda>j. sj_status j \<in> set live_statuses) (\<lambda>j. j\<lparr>sj_last_progress := Some now, sj_updated_at := now\<rparr>) st"

definition record_failure ::
  "instant \<Rightarrow> string \<Rightarrow> string \<Rightarrow> int \<Rightarrow> int \<Rightarrow> string \<Rightarrow> strategy_store \<Rightarrow> bool \<times> strategy_store" where
  "record_failure now jid holder epoch attempt reason st =
     cas_job jid (authority_clause holder epoch attempt)
       (\<lambda>j. j\<lparr>sj_last_error := Some (take 500 reason), sj_updated_at := now\<rparr>) st"

definition mark_stopped :: "instant \<Rightarrow> string \<Rightarrow> string \<Rightarrow> int \<Rightarrow> int \<Rightarrow> strategy_store \<Rightarrow> bool \<times> strategy_store" where
  "mark_stopped now jid holder epoch attempt st =
     cas_job jid (authority_clause holder epoch attempt)
       (\<lambda>j. j\<lparr>sj_status := ''stopped'', sj_desired := ''stopped'', sj_lease_until := None, sj_updated_at := now\<rparr>) st"

definition claim_job :: "instant \<Rightarrow> string \<Rightarrow> string \<Rightarrow> int \<Rightarrow> int \<Rightarrow> instant \<Rightarrow> strategy_store \<Rightarrow> strategy_job option tx" where
  "claim_job now jid lease_owner epoch attempt lease_until st =
     (let holder = str_strip lease_owner in
      if holder = [] then (Inl (ValidationError ''lease_owner is required''), st)
      else if epoch < 0 then (Inl (ValidationError ''expected_lease_epoch must be >= 0''), st)
      else if attempt < 1 then (Inl (ValidationError ''expected_attempt must be >= 1''), st)
      else if lease_until \<le> now then (Inl (ValidationError ''lease_until must be in the future''), st)
      else (case map_option sj_strategy (dict_get (ss_jobs st) jid) of
          None \<Rightarrow> (Inr None, st)
        | Some sid \<Rightarrow>
            (case dict_get (ss_strategies st) sid of
               None \<Rightarrow> (Inr None, st)
             | Some s \<Rightarrow>
                 if hs_status s \<noteq> ''active'' then (Inl StrategyDisabled, st)
                 else
                   let (ok, st1) = cas_job jid
                         (\<lambda>j. sj_status j = ''queued'' \<and> sj_desired j = ''started'' \<and> sj_epoch j = epoch
                              \<and> sj_attempt j = attempt \<and> lease_expired now j)
                         (\<lambda>j. j\<lparr>sj_lease_owner := Some holder, sj_epoch := sj_epoch j + 1, sj_lease_until := Some lease_until,
                                sj_status := ''starting'', sj_updated_at := now\<rparr>) st
                   in (Inr (if ok then dict_get (ss_jobs st1) jid else None), st1))))"

definition fence_job :: "instant \<Rightarrow> strategy_job \<Rightarrow> strategy_job" where
  "fence_job now j =
     j\<lparr>sj_status := ''recovery_required'', sj_recovery_at := Some now, sj_lease_until := None, sj_updated_at := now\<rparr>"

definition mark_recovery_required :: "instant \<Rightarrow> string \<Rightarrow> string \<Rightarrow> int \<Rightarrow> int \<Rightarrow> strategy_store \<Rightarrow> bool \<times> strategy_store" where
  "mark_recovery_required now jid holder epoch attempt st =
     cas_job jid
       (\<lambda>j. holds_lease holder epoch attempt j \<and> sj_status j \<notin> {''stopped'', ''failed'', ''recovery_required''})
       (fence_job now) st"

definition expire_to_recovery :: "instant \<Rightarrow> string \<Rightarrow> int \<Rightarrow> strategy_store \<Rightarrow> bool \<times> strategy_store" where
  "expire_to_recovery now jid attempt st =
     cas_job jid (\<lambda>j. sj_attempt j = attempt \<and> sj_status j \<in> set live_statuses \<and> lease_expired now j)
       (\<lambda>j. (fence_job now j)\<lparr>sj_lease_owner := None\<rparr>) st"

definition expire_to_recovery_authorized ::
  "instant \<Rightarrow> string \<Rightarrow> string \<Rightarrow> int \<Rightarrow> int \<Rightarrow> strategy_store \<Rightarrow> bool \<times> strategy_store" where
  "expire_to_recovery_authorized now jid holder epoch attempt st =
     cas_job jid (\<lambda>j. authority_clause holder epoch attempt j \<and> lease_expired now j) (fence_job now) st"

text \<open>Both reconciliations look the job up for its owner before they lock the strategy.\<close>

definition reconcile_recovery :: "instant \<Rightarrow> string \<Rightarrow> string \<Rightarrow> int \<Rightarrow> int \<Rightarrow> strategy_store \<Rightarrow> bool \<times> strategy_store" where
  "reconcile_recovery now jid owner epoch attempt st =
     cas_job jid
       (\<lambda>j. sj_owner j = owner \<and> sj_status j = ''recovery_required'' \<and> sj_epoch j = epoch \<and> sj_attempt j = attempt)
       (\<lambda>j. j\<lparr>sj_status := ''stopped'', sj_reconciled := Some now, sj_updated_at := now\<rparr>) st"

definition audit_row ::
  "strategy_env \<Rightarrow> instant \<Rightarrow> string \<Rightarrow> string \<Rightarrow> string \<Rightarrow> int \<Rightarrow> string option \<Rightarrow> string \<Rightarrow> string \<Rightarrow> reconciliation_evidence
   \<Rightarrow> string \<Rightarrow> strategy_store \<Rightarrow> reconciliation_audit" where
  "audit_row env now jid sid owner attempt run outcome reason evidence actor st =
     \<lparr>ra_id = fresh_id ''hsr_'' env st, ra_job = jid, ra_strategy = sid, ra_owner = owner, ra_attempt = attempt, ra_run = run,
      ra_outcome = outcome, ra_reason = reason, ra_evidence = evidence, ra_actor = actor, ra_created_at = now\<rparr>"

definition reconcile_with_audit ::
  "strategy_env \<Rightarrow> instant \<Rightarrow> string \<Rightarrow> string \<Rightarrow> int \<Rightarrow> int \<Rightarrow> string option \<Rightarrow> string option \<Rightarrow> string
   \<Rightarrow> reconciliation_evidence \<Rightarrow> string \<Rightarrow> strategy_store \<Rightarrow> reconciliation_audit option \<times> strategy_store" where
  "reconcile_with_audit env now jid owner epoch attempt cleanup run reason evidence actor st =
     (case dict_get (ss_jobs st) jid of
        None \<Rightarrow> (None, st)
      | Some row \<Rightarrow>
          if sj_owner row \<noteq> owner then (None, st)
          else
            let (ok, st1) = cas_job jid
                  (\<lambda>j. sj_owner j = owner \<and> sj_attempt j = attempt \<and> sj_epoch j = epoch \<and> sj_status j = ''recovery_required''
                       \<and> sj_reconciled j = None \<and> sj_cleanup j = cleanup \<and> sj_run j = run)
                  (\<lambda>j. j\<lparr>sj_status := ''stopped'', sj_reconciled := Some now, sj_updated_at := now\<rparr>) st;
                audit = audit_row env now jid (sj_strategy row) owner attempt run ''reconciled'' reason evidence actor st
            in if \<not> ok then (None, st)
               else (Some audit, (used_id st1)\<lparr>ss_audits := ss_audits st @ [audit]\<rparr>))"

definition record_reconciliation ::
  "strategy_env \<Rightarrow> instant \<Rightarrow> string \<Rightarrow> string \<Rightarrow> string \<Rightarrow> int \<Rightarrow> string option \<Rightarrow> string \<Rightarrow> string \<Rightarrow> reconciliation_evidence
   \<Rightarrow> string \<Rightarrow> strategy_store \<Rightarrow> reconciliation_audit \<times> strategy_store" where
  "record_reconciliation env now jid sid owner attempt run outcome reason evidence actor st =
     (let audit = audit_row env now jid sid owner attempt run outcome reason evidence actor st
      in (audit, (used_id st)\<lparr>ss_audits := ss_audits st @ [audit]\<rparr>))"

definition list_reconciliations :: "string \<Rightarrow> int \<Rightarrow> strategy_store \<Rightarrow> reconciliation_audit list" where
  "list_reconciliations jid limit st =
     take (capped_limit 200 limit)
       (rev (sort_key ra_created_at (sort_key ra_id (filter (\<lambda>a. ra_job a = jid) (ss_audits st)))))"

section \<open>Operator stops\<close>

definition stop_queued_job :: "instant \<Rightarrow> string \<Rightarrow> string \<Rightarrow> int \<Rightarrow> string \<Rightarrow> strategy_store \<Rightarrow> bool \<times> strategy_store" where
  "stop_queued_job now jid owner attempt actor st =
     cas_job jid (\<lambda>j. sj_owner j = owner \<and> sj_attempt j = attempt \<and> sj_status j = ''queued'')
       (\<lambda>j. j\<lparr>sj_status := ''stopped'', sj_desired := ''stopped'', sj_stop_requested := Some now,
              sj_stop_actor := Some (take 200 actor), sj_updated_at := now\<rparr>) st"

definition request_stop_active :: "instant \<Rightarrow> string \<Rightarrow> string \<Rightarrow> int \<Rightarrow> string \<Rightarrow> strategy_store \<Rightarrow> bool \<times> strategy_store" where
  "request_stop_active now jid owner attempt actor st =
     cas_job jid (\<lambda>j. sj_owner j = owner \<and> sj_attempt j = attempt \<and> sj_status j \<in> set live_statuses \<and> sj_desired j \<noteq> ''stopped'')
       (\<lambda>j. j\<lparr>sj_desired := ''stopped'', sj_stop_requested := Some now, sj_stop_actor := Some (take 200 actor),
              sj_updated_at := now\<rparr>) st"

section \<open>Logs\<close>

definition logs_of :: "string \<Rightarrow> int \<Rightarrow> strategy_store \<Rightarrow> job_log list" where
  "logs_of jid attempt st = filter (\<lambda>l. jl_job l = jid \<and> jl_attempt l = attempt) (ss_logs st)"

text \<open>The chunk loop: the stored rows, the last sequence number and whether output was discarded.\<close>

fun store_chunks :: "string \<Rightarrow> int \<Rightarrow> int \<Rightarrow> int \<Rightarrow> int \<Rightarrow> string list \<Rightarrow> job_log list \<times> int \<times> bool" where
  "store_chunks jid attempt cap bytes seq [] = ([], seq, False)"
| "store_chunks jid attempt cap bytes seq (text # chunks) =
     (if text = [] then store_chunks jid attempt cap bytes seq chunks
      else if bytes + utf8_len text > cap then ([], seq, True)
      else
        let (rows, last, discarded) = store_chunks jid attempt cap (bytes + utf8_len text) (seq + 1) chunks
        in (\<lparr>jl_job = jid, jl_attempt = attempt, jl_seq = seq + 1, jl_content = text, jl_bytes = utf8_len text\<rparr> # rows,
            last, discarded))"

record log_result =
  lr_stored :: int
  lr_discarded :: bool
  lr_next_seq :: int

definition append_job_log :: "string \<Rightarrow> int \<Rightarrow> string list \<Rightarrow> int \<Rightarrow> strategy_store \<Rightarrow> log_result tx" where
  "append_job_log jid attempt chunks max_total_bytes st =
     (let cap = max 1 max_total_bytes;
          old = logs_of jid attempt st;
          (rows, last, discarded) =
            store_chunks jid attempt cap (sum_list (map jl_bytes old)) (fold max (map jl_seq old) 0) chunks
      in case dict_get (ss_jobs st) jid of
           None \<Rightarrow>
             if rows \<noteq> [] then (Inl (StrategyConflict ''unknown job''), st)
             else (Inr \<lparr>lr_stored = 0, lr_discarded = discarded, lr_next_seq = last\<rparr>, st)
         | Some j \<Rightarrow>
             let j1 = (if sj_logs_source j = None then j\<lparr>sj_logs_source := Some ''post_termination''\<rparr> else j);
                 j2 = (if discarded then j1\<lparr>sj_logs_discarded := True\<rparr> else j1)
             in (Inr \<lparr>lr_stored = int (length rows), lr_discarded = discarded, lr_next_seq = last\<rparr>,
                 st\<lparr>ss_logs := ss_logs st @ rows, ss_jobs := dict_set jid j2 (ss_jobs st)\<rparr>))"

definition list_job_logs :: "string \<Rightarrow> int \<Rightarrow> int \<Rightarrow> strategy_store \<Rightarrow> job_log list" where
  "list_job_logs jid after_seq limit st =
     take (capped_limit 500 limit) (sort_key jl_seq (filter (\<lambda>l. jl_job l = jid \<and> jl_seq l > after_seq) (ss_logs st)))"

definition job_log_byte_count :: "string \<Rightarrow> strategy_store \<Rightarrow> int" where
  "job_log_byte_count jid st = sum_list (map jl_bytes (filter (\<lambda>l. jl_job l = jid) (ss_logs st)))"

section \<open>Schedules\<close>

definition create_schedule ::
  "strategy_env \<Rightarrow> instant \<Rightarrow> string \<Rightarrow> string \<Rightarrow> string \<Rightarrow> string \<Rightarrow> string \<Rightarrow> jobj \<Rightarrow> string \<Rightarrow> string option \<Rightarrow> int option
   \<Rightarrow> string option \<Rightarrow> string option \<Rightarrow> string option \<Rightarrow> bool \<Rightarrow> strategy_store \<Rightarrow> strategy_schedule tx" where
  "create_schedule env now sid vid owner kind mode params schedule_kind at_time weekday timezone window_end squareoff_at enabled st =
     (case validate_schedule schedule_kind at_time weekday timezone window_end squareoff_at of
        Inl e \<Rightarrow> (Inl e, st)
      | Inr shape \<Rightarrow>
          if kind \<notin> set allowed_job_kinds then (Inl (ValidationError ''unsupported job_kind''), st)
          else if mode \<notin> set allowed_execution_modes then (Inl (ValidationError ''unsupported execution_mode''), st)
          else (case get_strategy owner sid st of
              None \<Rightarrow> (Inl StrategyNotFound, st)
            | Some s \<Rightarrow>
                if hs_status s \<noteq> ''active'' then (Inl StrategyDisabled, st)
                else (case validate_account_scope (hs_scope s) mode of
                    Inl e \<Rightarrow> (Inl e, st)
                  | Inr _ \<Rightarrow>
                      (case get_version_by_id sid vid st of
                         None \<Rightarrow> (Inl StrategyIdentityError, st)
                       | Some v \<Rightarrow>
                           (case (validate_parameters env (hv_schema v) params,
                                  build_policy_snapshot (hs_stale_policy s) (hs_max_duration s) (hs_progress_deadline s) now) of
                              (Inl e, _) \<Rightarrow> (Inl e, st)
                            | (_, Inl e) \<Rightarrow> (Inl e, st)
                            | (Inr params', Inr policy) \<Rightarrow>
                                let row = \<lparr>sd_id = fresh_id ''hss_'' env st, sd_strategy = sid, sd_version = vid, sd_owner = owner,
                                     sd_scope = hs_scope s, sd_params = params', sd_mode = mode, sd_kind = kind,
                                     sd_policy = policy, sd_capabilities = hv_capabilities v,
                                     sd_max_duration = hs_max_duration s, sd_progress_deadline = hs_progress_deadline s,
                                     sd_shape = shape, sd_enabled = enabled\<rparr>
                                in if list_ex (\<lambda>d. sd_strategy d = sid) (ss_schedules st)
                                   then (Inl (StrategyConflict ''this strategy already has a schedule''), used_id st)
                                   else (Inr row, (used_id st)\<lparr>ss_schedules := ss_schedules st @ [row]\<rparr>))))))"

definition get_schedule :: "string \<Rightarrow> strategy_store \<Rightarrow> strategy_schedule option" where
  "get_schedule sid st = find (\<lambda>d. sd_strategy d = sid) (ss_schedules st)"

end
