(* ===== verification/StrategyTheorems.thy ===== *)
theory StrategyTheorems
  imports StrategyStore
begin

text \<open>
  The job ledger as a state machine. A job only moves forward (queued, starting, running,
  recovery required, stopped), its snapshots never change, its launch markers are set once
  and in order, and at most one job of a strategy blocks a replacement. The locale
  \<open>fenced_update\<close> is the contract of a guarded row update that keeps these laws; it is
  interpreted on every transition of the repository.
\<close>

section \<open>The life of a job\<close>

definition job_rank :: "strategy_job \<Rightarrow> nat" where
  "job_rank j =
     (if sj_status j = ''queued'' then 0 else if sj_status j = ''starting'' then 1 else if sj_status j = ''running'' then 2
      else if sj_status j = ''recovery_required'' then 3 else 4)"

text \<open>
  What holds of every row: its status is one of the five that are ever written; a queued job
  has no lease, credential or run and was never claimed, any other one that was claimed was
  claimed once; a live job has a holder and a deadline; a run has its credential and a
  handoff its run; a running job was handed off; only a stopped job is reconciled.
\<close>

definition job_inv :: "strategy_job \<Rightarrow> bool" where
  "job_inv j \<longleftrightarrow>
     sj_status j \<in> {''queued'', ''starting'', ''running'', ''recovery_required'', ''stopped''}
     \<and> (sj_status j = ''queued'' \<longrightarrow> sj_epoch j = 0)
     \<and> (sj_epoch j = 0 \<or> sj_epoch j = 1)
     \<and> (sj_epoch j = 0 \<longrightarrow> sj_lease_owner j = None \<and> sj_lease_until j = None \<and> sj_token j = None
          \<and> (sj_status j = ''queued'' \<or> sj_status j = ''stopped''))
     \<and> (sj_status j \<in> set live_statuses \<longrightarrow> sj_lease_owner j \<noteq> None \<and> sj_lease_until j \<noteq> None)
     \<and> (sj_run j \<noteq> None \<longrightarrow> sj_token j \<noteq> None) \<and> (sj_handoff j \<noteq> None \<longrightarrow> sj_run j \<noteq> None)
     \<and> (sj_status j = ''running'' \<longrightarrow> sj_handoff j \<noteq> None) \<and> (sj_status j = ''starting'' \<longrightarrow> sj_handoff j = None)
     \<and> (sj_status j = ''recovery_required'' \<longrightarrow> sj_recovery_at j \<noteq> None)
     \<and> (sj_reconciled j \<noteq> None \<longrightarrow> sj_status j = ''stopped'' \<and> sj_recovery_at j \<noteq> None)"

text \<open>What is pinned at creation.\<close>

definition job_identity :: "strategy_job \<Rightarrow> _" where
  "job_identity j = ((sj_id j, sj_strategy j, sj_version j, sj_owner j, sj_scope j, sj_kind j, sj_mode j, sj_occurrence j),
     (sj_attempt j, sj_params j, sj_capabilities j, sj_policy j, sj_max_duration j, sj_progress_deadline j, sj_created_at j))"

definition kept :: "'a option \<Rightarrow> 'a option \<Rightarrow> bool" where
  "kept x y \<longleftrightarrow> x = None \<or> y = x"

definition advances :: "strategy_job \<Rightarrow> strategy_job \<Rightarrow> bool" where
  "advances j j' \<longleftrightarrow> job_identity j' = job_identity j \<and> job_rank j \<le> job_rank j' \<and> sj_epoch j \<le> sj_epoch j'
     \<and> kept (sj_token j) (sj_token j') \<and> kept (sj_run j) (sj_run j') \<and> kept (sj_handoff j) (sj_handoff j')
     \<and> kept (sj_reconciled j) (sj_reconciled j') \<and> (sj_desired j = ''stopped'' \<longrightarrow> sj_desired j' = ''stopped'')
     \<and> (3 \<le> job_rank j \<longrightarrow> sj_token j' = sj_token j \<and> sj_run j' = sj_run j \<and> sj_handoff j' = sj_handoff j)
     \<and> (1 \<le> sj_epoch j \<longrightarrow> sj_lease_owner j' = sj_lease_owner j \<or> 3 \<le> job_rank j')"

lemma kept_refl [simp]: "kept x x" "kept None x"
  by (simp_all add: kept_def)

lemma kept_trans: "kept x y \<Longrightarrow> kept y z \<Longrightarrow> kept x z"
  by (auto simp: kept_def)

lemma advances_refl [simp]: "advances j j"
  by (simp add: advances_def)

lemma advances_trans: "advances i j \<Longrightarrow> advances j k \<Longrightarrow> advances i k"
  by (auto simp: advances_def intro: kept_trans)

lemma job_inv_status: "job_inv j \<Longrightarrow> sj_status j \<in> {''queued'', ''starting'', ''running'', ''recovery_required'', ''stopped''}"
  by (simp add: job_inv_def)

lemma job_inv_reconciled: "job_inv j \<Longrightarrow> sj_status j = ''recovery_required'' \<longrightarrow> sj_reconciled j = None"
proof -
  assume "job_inv j"
  then have "sj_reconciled j \<noteq> None \<longrightarrow> sj_status j = ''stopped''" unfolding job_inv_def by blast
  then show ?thesis by auto
qed

lemma job_blocks_rank: "job_inv j \<Longrightarrow> job_blocks j \<longleftrightarrow> job_rank j < 4"
  by (frule job_inv_status, frule job_inv_reconciled) (auto simp: job_blocks_def job_rank_def active_job_statuses_def)

lemma advances_blocks: "job_inv j \<Longrightarrow> job_inv j' \<Longrightarrow> advances j j' \<Longrightarrow> job_blocks j' \<Longrightarrow> job_blocks j"
  by (simp add: job_blocks_rank advances_def)

section \<open>The store\<close>

definition jobs_inv :: "strategy_store \<Rightarrow> bool" where
  "jobs_inv st \<longleftrightarrow> distinct (map fst (ss_jobs st)) \<and> (\<forall>(k, j) \<in> set (ss_jobs st). sj_id j = k \<and> job_inv j)"

definition refs_inv :: "strategy_store \<Rightarrow> bool" where
  "refs_inv st \<longleftrightarrow> (\<forall>(k, s) \<in> set (ss_strategies st). hs_id s = k) \<and> (\<forall>(k, v) \<in> set (ss_versions st). hv_id v = k)
     \<and> (\<forall>(k, j) \<in> set (ss_jobs st).
          (\<exists>s. dict_get (ss_strategies st) (sj_strategy j) = Some s \<and> hs_owner s = sj_owner j)
          \<and> (\<exists>v. dict_get (ss_versions st) (sj_version j) = Some v \<and> hv_strategy v = sj_strategy j))"

lemma refs_invI:
  assumes "\<And>k s. (k, s) \<in> set (ss_strategies st) \<Longrightarrow> hs_id s = k" "\<And>k v. (k, v) \<in> set (ss_versions st) \<Longrightarrow> hv_id v = k"
    and "\<And>k j. (k, j) \<in> set (ss_jobs st) \<Longrightarrow> \<exists>s. dict_get (ss_strategies st) (sj_strategy j) = Some s \<and> hs_owner s = sj_owner j"
    and "\<And>k j. (k, j) \<in> set (ss_jobs st) \<Longrightarrow> \<exists>v. dict_get (ss_versions st) (sj_version j) = Some v \<and> hv_strategy v = sj_strategy j"
  shows "refs_inv st"
  using assms unfolding refs_inv_def by blast

lemma refs_invD:
  assumes "refs_inv st"
  shows "(k, s) \<in> set (ss_strategies st) \<Longrightarrow> hs_id s = k" "(k, v) \<in> set (ss_versions st) \<Longrightarrow> hv_id v = k"
    and "(k, j) \<in> set (ss_jobs st) \<Longrightarrow> \<exists>s. dict_get (ss_strategies st) (sj_strategy j) = Some s \<and> hs_owner s = sj_owner j"
    and "(k, j) \<in> set (ss_jobs st) \<Longrightarrow> \<exists>v. dict_get (ss_versions st) (sj_version j) = Some v \<and> hv_strategy v = sj_strategy j"
  using assms unfolding refs_inv_def by blast+

text \<open>At most one job of a strategy blocks, at most one carries an occurrence key.\<close>

definition single_inv :: "strategy_store \<Rightarrow> bool" where
  "single_inv st \<longleftrightarrow> (\<forall>(k1, j1) \<in> set (ss_jobs st). \<forall>(k2, j2) \<in> set (ss_jobs st).
     (sj_strategy j1 = sj_strategy j2 \<and> job_blocks j1 \<and> job_blocks j2 \<longrightarrow> k1 = k2)
     \<and> (sj_occurrence j1 \<noteq> None \<and> sj_occurrence j1 = sj_occurrence j2 \<longrightarrow> k1 = k2))"

definition ledger_inv :: "strategy_store \<Rightarrow> bool" where
  "ledger_inv st \<longleftrightarrow> jobs_inv st \<and> refs_inv st \<and> single_inv st"

lemma set_dict_set_distinct:
  "distinct (map fst d) \<Longrightarrow> set (dict_set k v d) = insert (k, v) {(k', v'). (k', v') \<in> set d \<and> k' \<noteq> k}"
  by (induction d) (auto simp: image_iff)

lemma jobs_get: "jobs_inv st \<Longrightarrow> dict_get (ss_jobs st) k = Some j \<longleftrightarrow> (k, j) \<in> set (ss_jobs st)"
  by (auto simp: jobs_inv_def)

lemma job_update_inv:
  assumes inv: "ledger_inv st" and j: "dict_get (ss_jobs st) k = Some j" and j': "job_inv j'" "advances j j'"
  shows "ledger_inv (st\<lparr>ss_jobs := dict_set k j' (ss_jobs st)\<rparr>)"
proof -
  have d: "distinct (map fst (ss_jobs st))" "(k, j) \<in> set (ss_jobs st)" "sj_id j = k" "job_inv j"
    using inv j map_of_SomeD [OF j] by (auto simp: ledger_inv_def jobs_inv_def)
  note s = set_dict_set_distinct [OF d(1), of k j']
  have i: "sj_id j' = sj_id j" "sj_strategy j' = sj_strategy j" "sj_owner j' = sj_owner j" "sj_version j' = sj_version j"
    "sj_occurrence j' = sj_occurrence j"
    using j'(2) by (auto simp: advances_def job_identity_def)
  let ?st = "st\<lparr>ss_jobs := dict_set k j' (ss_jobs st)\<rparr>"
  have old: "\<exists>i2. (k2, i2) \<in> set (ss_jobs st) \<and> sj_id j2 = sj_id i2 \<and> sj_strategy j2 = sj_strategy i2 \<and> sj_owner j2 = sj_owner i2
      \<and> sj_version j2 = sj_version i2 \<and> sj_occurrence j2 = sj_occurrence i2 \<and> (job_blocks j2 \<longrightarrow> job_blocks i2)"
    if "(k2, j2) \<in> set (ss_jobs ?st)" for k2 j2
  proof (cases "k2 = k")
    case True
    then have "j2 = j'" using that by (simp add: s)
    then show ?thesis using True d i advances_blocks [OF d(4) j'] by blast
  next
    case False
    then show ?thesis using that by (auto simp: s)
  qed
  have "jobs_inv ?st" using inv d j'(1) i by (simp add: ledger_inv_def jobs_inv_def s distinct_update) auto
  moreover have "refs_inv ?st"
  proof -
    have r: "refs_inv st" using inv by (simp add: ledger_inv_def)
    have "(\<exists>s. dict_get (ss_strategies st) (sj_strategy j2) = Some s \<and> hs_owner s = sj_owner j2)
        \<and> (\<exists>v. dict_get (ss_versions st) (sj_version j2) = Some v \<and> hv_strategy v = sj_strategy j2)"
      if "(k2, j2) \<in> set (ss_jobs ?st)" for k2 j2
      using old [OF that] r by (auto simp: refs_inv_def)
    then show ?thesis using r by (auto simp: refs_inv_def)
  qed
  moreover have "single_inv ?st"
  proof -
    have r: "single_inv st" using inv by (simp add: ledger_inv_def)
    have "(sj_strategy j1 = sj_strategy j2 \<and> job_blocks j1 \<and> job_blocks j2 \<longrightarrow> k1 = k2)
       \<and> (sj_occurrence j1 \<noteq> None \<and> sj_occurrence j1 = sj_occurrence j2 \<longrightarrow> k1 = k2)"
      if m: "(k1, j1) \<in> set (ss_jobs ?st)" "(k2, j2) \<in> set (ss_jobs ?st)" for k1 j1 k2 j2
    proof -
      obtain i1 where i1: "(k1, i1) \<in> set (ss_jobs st)" "sj_strategy j1 = sj_strategy i1" "sj_occurrence j1 = sj_occurrence i1"
        "job_blocks j1 \<longrightarrow> job_blocks i1" using old [OF m(1)] by blast
      obtain i2 where i2: "(k2, i2) \<in> set (ss_jobs st)" "sj_strategy j2 = sj_strategy i2" "sj_occurrence j2 = sj_occurrence i2"
        "job_blocks j2 \<longrightarrow> job_blocks i2" using old [OF m(2)] by blast
      have "(sj_strategy i1 = sj_strategy i2 \<and> job_blocks i1 \<and> job_blocks i2 \<longrightarrow> k1 = k2)
         \<and> (sj_occurrence i1 \<noteq> None \<and> sj_occurrence i1 = sj_occurrence i2 \<longrightarrow> k1 = k2)"
        using r i1(1) i2(1) unfolding single_inv_def by blast
      then show ?thesis using i1 i2 by auto
    qed
    then show ?thesis unfolding single_inv_def by blast
  qed
  ultimately show ?thesis by (simp add: ledger_inv_def)
qed

section \<open>Guarded updates\<close>

text \<open>The contract of a transition: it keeps the row's laws and only moves the job forward.\<close>

locale fenced_update =
  fixes guard :: "strategy_job \<Rightarrow> bool" and change :: "strategy_job \<Rightarrow> strategy_job"
  assumes change_inv: "job_inv j \<Longrightarrow> guard j \<Longrightarrow> job_inv (change j)"
    and change_advances: "job_inv j \<Longrightarrow> guard j \<Longrightarrow> advances j (change j)"
begin

lemma cas_ledger_inv: "ledger_inv st \<Longrightarrow> ledger_inv (snd (cas_job jid guard change st))"
proof (cases "dict_get (ss_jobs st) jid")
  case (Some j)
  assume inv: "ledger_inv st"
  then have "job_inv j" using map_of_SomeD [OF Some] by (auto simp: ledger_inv_def jobs_inv_def)
  then show ?thesis using job_update_inv [OF inv Some] change_inv change_advances inv by (simp add: cas_job_def Some)
qed (simp add: cas_job_def)

lemma cas_advances:
  assumes "ledger_inv st" "dict_get (ss_jobs st) k = Some j"
  shows "\<exists>j'. dict_get (ss_jobs (snd (cas_job jid guard change st))) k = Some j' \<and> advances j j'"
proof -
  have "job_inv j" using assms map_of_SomeD [OF assms(2)] by (auto simp: ledger_inv_def jobs_inv_def)
  then show ?thesis using assms(2) change_advances by (auto simp: cas_job_def split: option.splits)
qed

end

lemmas row_simps = job_inv_def advances_def job_identity_def job_rank_def authority_clause_def holds_lease_def live_statuses_def
  fence_job_def

interpretation cleanup: fenced_update
  "\<lambda>j. sj_attempt j = attempt \<and> sj_status j \<noteq> ''queued''"
  "\<lambda>j. j\<lparr>sj_cleanup := c, sj_cleanup_at := a, sj_cleanup_actor := b, sj_updated_at := now\<rparr>"
  for attempt c a b now
  by unfold_locales (simp_all add: row_simps)

interpretation reserve: fenced_update
  "\<lambda>j. authority_clause holder epoch attempt j \<and> sj_token j = None \<and> sj_handoff j = None"
  "\<lambda>j. j\<lparr>sj_token := Some token, sj_updated_at := now\<rparr>"
  for holder epoch attempt token now
  by unfold_locales (auto simp: row_simps)

interpretation record_run: fenced_update
  "\<lambda>j. authority_clause holder epoch attempt j \<and> sj_token j = Some token \<and> sj_run j = None \<and> sj_handoff j = None"
  "\<lambda>j. j\<lparr>sj_run := Some run, sj_updated_at := now\<rparr>"
  for holder epoch attempt token run now
  by unfold_locales (auto simp: row_simps)

interpretation handoff: fenced_update
  "\<lambda>j. authority_clause holder epoch attempt j \<and> sj_run j = Some run \<and> sj_handoff j = None"
  "\<lambda>j. j\<lparr>sj_status := ''running'', sj_handoff := Some now, sj_updated_at := now\<rparr>"
  for holder epoch attempt run now
  by unfold_locales (auto simp: row_simps)

interpretation renew: fenced_update
  "\<lambda>j. authority_clause holder epoch attempt j \<and> sj_handoff j \<noteq> None"
  "\<lambda>j. j\<lparr>sj_lease_until := Some until, sj_updated_at := now\<rparr>"
  for holder epoch attempt until now
  by unfold_locales (auto simp: row_simps)

interpretation progress: fenced_update
  "\<lambda>j. sj_status j \<in> set live_statuses" "\<lambda>j. j\<lparr>sj_last_progress := Some now, sj_updated_at := now\<rparr>"
  for now
  by unfold_locales (auto simp: row_simps)

interpretation failure: fenced_update
  "authority_clause holder epoch attempt" "\<lambda>j. j\<lparr>sj_last_error := e, sj_updated_at := now\<rparr>"
  for holder epoch attempt e now
  by unfold_locales (auto simp: row_simps)

interpretation stopped: fenced_update
  "authority_clause holder epoch attempt"
  "\<lambda>j. j\<lparr>sj_status := ''stopped'', sj_desired := ''stopped'', sj_lease_until := None, sj_updated_at := now\<rparr>"
  for holder epoch attempt now
  by unfold_locales (auto simp: row_simps)

interpretation claim: fenced_update
  "\<lambda>j. sj_status j = ''queued'' \<and> sj_desired j = ''started'' \<and> sj_epoch j = epoch \<and> sj_attempt j = attempt \<and> lease_expired now j"
  "\<lambda>j. j\<lparr>sj_lease_owner := Some holder, sj_epoch := sj_epoch j + 1, sj_lease_until := Some until, sj_status := ''starting'',
         sj_updated_at := now\<rparr>"
  for epoch attempt holder until now
  by unfold_locales (auto simp: row_simps)

lemma fence_laws:
  assumes "job_inv j" "sj_status j \<in> set live_statuses"
  shows "job_inv (fence_job now j)" "advances j (fence_job now j)"
    "job_inv ((fence_job now j)\<lparr>sj_lease_owner := None\<rparr>)" "advances j ((fence_job now j)\<lparr>sj_lease_owner := None\<rparr>)"
proof -
  have "sj_epoch j = 1" "sj_status j = ''starting'' \<or> sj_status j = ''running''"
    using assms by (auto simp: job_inv_def live_statuses_def)
  then show "job_inv (fence_job now j)" "advances j (fence_job now j)"
    "job_inv ((fence_job now j)\<lparr>sj_lease_owner := None\<rparr>)" "advances j ((fence_job now j)\<lparr>sj_lease_owner := None\<rparr>)"
    using assms(1) unfolding job_inv_def fence_job_def by (auto simp: advances_def job_identity_def job_rank_def live_statuses_def)
qed

lemma holder_live:
  "job_inv j \<Longrightarrow> holds_lease holder epoch attempt j \<Longrightarrow> sj_status j \<notin> {''stopped'', ''failed'', ''recovery_required''}
   \<Longrightarrow> sj_status j \<in> set live_statuses"
  by (auto simp: job_inv_def holds_lease_def live_statuses_def)

interpretation fence: fenced_update
  "\<lambda>j. holds_lease holder epoch attempt j \<and> sj_status j \<notin> {''stopped'', ''failed'', ''recovery_required''}" "fence_job now"
  for holder epoch attempt now
  by (unfold_locales; metis fence_laws holder_live)

interpretation expire: fenced_update
  "\<lambda>j. sj_attempt j = attempt \<and> sj_status j \<in> set live_statuses \<and> lease_expired now j"
  "\<lambda>j. (fence_job now j)\<lparr>sj_lease_owner := None\<rparr>"
  for attempt now
  by (unfold_locales; simp add: fence_laws)

interpretation expire_authorized: fenced_update
  "\<lambda>j. authority_clause holder epoch attempt j \<and> lease_expired now j" "fence_job now"
  for holder epoch attempt now
  by (unfold_locales; simp add: fence_laws authority_clause_def)

interpretation reconcile: fenced_update
  "\<lambda>j. sj_owner j = owner \<and> sj_status j = ''recovery_required'' \<and> sj_epoch j = epoch \<and> sj_attempt j = attempt"
  "\<lambda>j. j\<lparr>sj_status := ''stopped'', sj_reconciled := Some now, sj_updated_at := now\<rparr>"
  for owner epoch attempt now
  by unfold_locales (auto simp: row_simps)

interpretation reconcile_audited: fenced_update
  "\<lambda>j. sj_owner j = owner \<and> sj_attempt j = attempt \<and> sj_epoch j = epoch \<and> sj_status j = ''recovery_required''
       \<and> sj_reconciled j = None \<and> sj_cleanup j = cleanup \<and> sj_run j = run"
  "\<lambda>j. j\<lparr>sj_status := ''stopped'', sj_reconciled := Some now, sj_updated_at := now\<rparr>"
  for owner epoch attempt cleanup run now
  by unfold_locales (auto simp: row_simps)

interpretation stop_queued: fenced_update
  "\<lambda>j. sj_owner j = owner \<and> sj_attempt j = attempt \<and> sj_status j = ''queued''"
  "\<lambda>j. j\<lparr>sj_status := ''stopped'', sj_desired := ''stopped'', sj_stop_requested := Some now, sj_stop_actor := actor,
         sj_updated_at := now\<rparr>"
  for owner attempt actor now
  by unfold_locales (auto simp: row_simps)

interpretation request_stop: fenced_update
  "\<lambda>j. sj_owner j = owner \<and> sj_attempt j = attempt \<and> sj_status j \<in> set live_statuses \<and> sj_desired j \<noteq> ''stopped''"
  "\<lambda>j. j\<lparr>sj_desired := ''stopped'', sj_stop_requested := Some now, sj_stop_actor := actor, sj_updated_at := now\<rparr>"
  for owner attempt actor now
  by unfold_locales (auto simp: row_simps)

section \<open>Creation\<close>

lemma ledger_inv_frame:
  "ss_jobs st' = ss_jobs st \<Longrightarrow> ss_strategies st' = ss_strategies st \<Longrightarrow> ss_versions st' = ss_versions st \<Longrightarrow> ledger_inv st' = ledger_inv st"
  by (simp add: ledger_inv_def jobs_inv_def refs_inv_def single_inv_def)

lemma ledger_inv_used [simp]: "ledger_inv (used_id st) = ledger_inv st"
  by (rule ledger_inv_frame) (simp_all add: used_id_def)

lemma used_id_sel [simp]:
  "ss_jobs (used_id st) = ss_jobs st" "ss_strategies (used_id st) = ss_strategies st" "ss_versions (used_id st) = ss_versions st"
  "ss_audits (used_id st) = ss_audits st" "ss_logs (used_id st) = ss_logs st"
  by (simp_all add: used_id_def)

lemma set_dict_set_sub: "(k', v') \<in> set (dict_set k v d) \<Longrightarrow> (k', v') = (k, v) \<or> (k', v') \<in> set d"
  by (induction d) (auto split: if_splits)

lemma new_strategy_inv:
  assumes "ledger_inv st" "hs_id s = k"
    and "\<And>old. dict_get (ss_strategies st) k = Some old \<Longrightarrow> hs_owner s = hs_owner old"
  shows "ledger_inv (st\<lparr>ss_strategies := dict_set k s (ss_strategies st)\<rparr>)"
proof -
  have r: "refs_inv st" using assms(1) by (simp add: ledger_inv_def)
  have jobs: "\<exists>s'. dict_get (dict_set k s (ss_strategies st)) (sj_strategy j) = Some s' \<and> hs_owner s' = sj_owner j"
    if "(i, j) \<in> set (ss_jobs st)" for i j
    using r that assms(3) by (fastforce simp: refs_inv_def)
  have strategies: "hs_id s' = k'" if "(k', s') \<in> set (dict_set k s (ss_strategies st))" for k' s'
    using set_dict_set_sub [OF that] r assms(2) by (auto simp: refs_inv_def)
  have "refs_inv (st\<lparr>ss_strategies := dict_set k s (ss_strategies st)\<rparr>)"
    by (rule refs_invI) (use refs_invD [OF r] jobs strategies in auto)
  then show ?thesis using assms(1) by (simp add: ledger_inv_def jobs_inv_def single_inv_def)
qed

lemma create_strategy_inv: "ledger_inv st \<Longrightarrow> ledger_inv (snd (create_strategy env now owner name desc mode kind scope md pd pol st))"
proof -
  assume inv: "ledger_inv st"
  let ?sid = "fresh_id ''hs_'' env st"
  have "ledger_inv ((used_id st)\<lparr>ss_strategies := dict_set ?sid s (ss_strategies (used_id st))\<rparr>)"
    if "\<not> list_ex (\<lambda>(k, s). k = ?sid \<or> Q s) (ss_strategies st)" "hs_id s = ?sid" for s Q
  proof (rule new_strategy_inv)
    show "hs_owner s = hs_owner old" if "dict_get (ss_strategies (used_id st)) ?sid = Some old" for old
      using map_of_SomeD [OF that] \<open>\<not> list_ex _ _\<close> by (auto simp: list_ex_iff)
  qed (use inv that in simp_all)
  then show ?thesis using inv by (auto simp: create_strategy_def Let_def)
qed

lemma get_strategy_inv:
  assumes "ledger_inv st" "get_strategy owner sid st = Some s"
  shows "dict_get (ss_strategies st) sid = Some s" "hs_owner s = owner" "hs_id s = sid"
  using assms map_of_SomeD [of "ss_strategies st" sid s]
  by (auto simp: get_strategy_def ledger_inv_def refs_inv_def split: option.splits if_splits)

lemma update_strategy_inv: "ledger_inv st \<Longrightarrow> ledger_inv (snd (update_strategy owner sid desc status st))"
proof -
  assume inv: "ledger_inv st"
  have "ledger_inv (st\<lparr>ss_strategies := dict_set sid s' (ss_strategies st)\<rparr>)"
    if "get_strategy owner sid st = Some s" "hs_id s' = hs_id s" "hs_owner s' = hs_owner s" for s s'
    using get_strategy_inv [OF inv that(1)] that(2,3) by (intro new_strategy_inv [OF inv]) auto
  then show ?thesis using inv by (auto simp: update_strategy_def Let_def split: option.splits)
qed

lemma create_version_inv: "ledger_inv st \<Longrightarrow> ledger_inv (snd (create_version env sid source sha schema caps by st))"
proof -
  assume inv: "ledger_inv st"
  then have r: "refs_inv st" by (simp add: ledger_inv_def)
  have "ledger_inv ((used_id st)\<lparr>ss_versions := dict_set k v (ss_versions st)\<rparr>)"
    if "\<not> dict_has (ss_versions st) k" "hv_id v = k" for k v
  proof -
    have jobs: "\<exists>v'. dict_get (dict_set k v (ss_versions st)) (sj_version j) = Some v' \<and> hv_strategy v' = sj_strategy j"
      if "(i, j) \<in> set (ss_jobs st)" for i j
      using r that \<open>\<not> dict_has _ _\<close> by (fastforce simp: refs_inv_def dict_has_def)
    have versions: "hv_id v' = k'" if "(k', v') \<in> set (dict_set k v (ss_versions st))" for k' v'
      using set_dict_set_sub [OF that] r \<open>hv_id v = k\<close> by (auto simp: refs_inv_def)
    have "refs_inv ((used_id st)\<lparr>ss_versions := dict_set k v (ss_versions st)\<rparr>)"
      by (rule refs_invI) (use refs_invD [OF r] jobs versions in auto)
    then show ?thesis using inv by (simp add: ledger_inv_def jobs_inv_def single_inv_def)
  qed
  then show ?thesis using inv by (simp add: create_version_def Let_def)
qed

lemma new_job_sel [simp]:
  "sj_id (new_job jid s v owner kind mode params policy occ attempt desired now) = jid"
  "sj_strategy (new_job jid s v owner kind mode params policy occ attempt desired now) = hs_id s"
  "sj_version (new_job jid s v owner kind mode params policy occ attempt desired now) = hv_id v"
  "sj_owner (new_job jid s v owner kind mode params policy occ attempt desired now) = owner"
  "sj_kind (new_job jid s v owner kind mode params policy occ attempt desired now) = kind"
  "sj_mode (new_job jid s v owner kind mode params policy occ attempt desired now) = mode"
  "sj_params (new_job jid s v owner kind mode params policy occ attempt desired now) = params"
  "sj_occurrence (new_job jid s v owner kind mode params policy occ attempt desired now) = occ"
  "sj_attempt (new_job jid s v owner kind mode params policy occ attempt desired now) = attempt"
  "sj_status (new_job jid s v owner kind mode params policy occ attempt desired now) = ''queued''"
  "job_inv (new_job jid s v owner kind mode params policy occ attempt desired now)"
  by (simp_all add: new_job_def job_inv_def live_statuses_def)

text \<open>What an admitted job rests on.\<close>

lemma admit_job_Inr:
  assumes "admit_job env now s vid owner kind mode params occ attempt desired st = Inr j"
  obtains v p pol where "get_version_by_id (hs_id s) vid st = Some v" "\<not> blocking_job owner (hs_id s) st" "hs_status s = ''active''"
    "validate_parameters env (hv_schema v) params = Inr p"
    "j = new_job (fresh_id ''hsj_'' env st) s v owner kind mode p pol occ attempt desired now"
    "\<not> dict_has (ss_jobs st) (sj_id j)" "\<And>k. occ = Some k \<Longrightarrow> job_with_occurrence k st = None"
  using assms
  by (auto simp: admit_job_def Let_def split: if_splits sum.splits option.splits)

lemma dict_set_new: "k \<notin> fst ` set d \<Longrightarrow> dict_set k v d = d @ [(k, v)]"
  by (induction d) auto

lemma add_job_inv:
  assumes inv: "ledger_inv st" and j: "\<not> dict_has (ss_jobs st) (sj_id j)" "job_inv j"
    and refs: "dict_get (ss_strategies st) (sj_strategy j) = Some s" "hs_owner s = sj_owner j"
      "dict_get (ss_versions st) (sj_version j) = Some v" "hv_strategy v = sj_strategy j"
    and free: "\<not> blocking_job (sj_owner j) (sj_strategy j) st" "\<And>k. sj_occurrence j = Some k \<Longrightarrow> job_with_occurrence k st = None"
  shows "ledger_inv ((used_id st)\<lparr>ss_jobs := dict_set (sj_id j) j (ss_jobs st)\<rparr>)"
proof -
  have new: "sj_id j \<notin> fst ` set (ss_jobs st)" using j(1) by (simp add: dict_has_def map_of_eq_None_iff)
  let ?st = "(used_id st)\<lparr>ss_jobs := dict_set (sj_id j) j (ss_jobs st)\<rparr>"
  have js: "ss_jobs ?st = ss_jobs st @ [(sj_id j, j)]" by (simp add: dict_set_new [OF new])
  have r: "jobs_inv st" "refs_inv st" "single_inv st" using inv by (simp_all add: ledger_inv_def)
  have old: "\<not> (sj_strategy i = sj_strategy j \<and> job_blocks i)" "\<not> (sj_occurrence j \<noteq> None \<and> sj_occurrence i = sj_occurrence j)"
    if m: "(k, i) \<in> set (ss_jobs st)" for k i
  proof -
    have "sj_owner i = sj_owner j" if "sj_strategy i = sj_strategy j" using r(2) m that refs(1,2) by (fastforce simp: refs_inv_def)
    then show "\<not> (sj_strategy i = sj_strategy j \<and> job_blocks i)" using free(1) m by (fastforce simp: blocking_job_def list_ex_iff)
    show "\<not> (sj_occurrence j \<noteq> None \<and> sj_occurrence i = sj_occurrence j)"
      using free(2) m by (fastforce simp: job_with_occurrence_def find_None_iff)
  qed
  have "jobs_inv ?st" using r(1) new j(2) unfolding jobs_inv_def js by auto
  moreover have "refs_inv ?st" using r(2) refs unfolding refs_inv_def js by auto
  moreover have "single_inv ?st"
  proof -
    have "(sj_strategy j1 = sj_strategy j2 \<and> job_blocks j1 \<and> job_blocks j2 \<longrightarrow> k1 = k2)
       \<and> (sj_occurrence j1 \<noteq> None \<and> sj_occurrence j1 = sj_occurrence j2 \<longrightarrow> k1 = k2)"
      if m: "(k1, j1) \<in> set (ss_jobs ?st)" "(k2, j2) \<in> set (ss_jobs ?st)" for k1 j1 k2 j2
    proof (cases "(k1, j1) \<in> set (ss_jobs st) \<and> (k2, j2) \<in> set (ss_jobs st)")
      case True
      then show ?thesis using r(3) unfolding single_inv_def by blast
    next
      case False
      then have "(k1, j1) = (sj_id j, j) \<or> (k2, j2) = (sj_id j, j)" using m unfolding js by auto
      then show ?thesis using m old unfolding js by (auto dest: sym)
    qed
    then show ?thesis unfolding single_inv_def by blast
  qed
  ultimately show ?thesis by (simp add: ledger_inv_def)
qed

end
