(* ===== verification/StrategyLedger.thy ===== *)
theory StrategyLedger
  imports StrategyTheorems
begin

text \<open>
  Every history of the hosted-strategy store. \<open>strategy_step\<close> has one rule per operation of
  \<open>strategies/repository.py\<close> that writes, with arguments left free: any caller, any clock, any
  interleaving. A store is reachable when such steps lead to it from the empty one. The
  contract \<open>progresses\<close> is proved once for a fenced update and once for each other
  operation, and the properties of all reachable stores follow by rule induction.
\<close>

section \<open>What a step may do\<close>

definition jobs_advance :: "strategy_store \<Rightarrow> strategy_store \<Rightarrow> bool" where
  "jobs_advance st st' \<longleftrightarrow>
     (\<forall>k j. dict_get (ss_jobs st) k = Some j \<longrightarrow> (\<exists>j'. dict_get (ss_jobs st') k = Some j' \<and> advances j j'))"

definition versions_kept :: "strategy_store \<Rightarrow> strategy_store \<Rightarrow> bool" where
  "versions_kept st st' \<longleftrightarrow> (\<forall>k v. dict_get (ss_versions st) k = Some v \<longrightarrow> dict_get (ss_versions st') k = Some v)"

definition progresses :: "strategy_store \<Rightarrow> strategy_store \<Rightarrow> bool" where
  "progresses st st' \<longleftrightarrow> ledger_inv st' \<and> jobs_advance st st' \<and> versions_kept st st'"

lemma jobs_advance_refl [simp]: "jobs_advance st st"
  using advances_refl by (auto simp: jobs_advance_def)

lemma versions_kept_refl [simp]: "versions_kept st st"
  by (simp add: versions_kept_def)

lemma progresses_refl [simp]: "ledger_inv st \<Longrightarrow> progresses st st"
  by (simp add: progresses_def)

lemma progresses_trans: "progresses a b \<Longrightarrow> progresses b c \<Longrightarrow> progresses a c"
  unfolding progresses_def jobs_advance_def versions_kept_def by (meson advances_trans)

lemma progresses_frame:
  assumes "progresses st st1" "ss_jobs st2 = ss_jobs st1" "ss_strategies st2 = ss_strategies st1" "ss_versions st2 = ss_versions st1"
  shows "progresses st st2"
  using assms ledger_inv_frame [OF assms(2-4)] by (simp add: progresses_def jobs_advance_def versions_kept_def)

lemma used_id_progresses [simp]: "ledger_inv st \<Longrightarrow> progresses st (used_id st)"
  by (rule progresses_frame [OF progresses_refl]) simp_all

lemma progresses_audit: "progresses st st1 \<Longrightarrow> progresses st ((used_id st1)\<lparr>ss_audits := a\<rparr>)"
  by (rule progresses_frame) simp_all

text \<open>Only the strategies table changed: nothing a job or a version rests on moved.\<close>

lemma progresses_other:
  assumes "ledger_inv st'" "ss_jobs st' = ss_jobs st" "ss_versions st' = ss_versions st"
  shows "progresses st st'"
  using assms advances_refl by (auto simp: progresses_def jobs_advance_def versions_kept_def)

context fenced_update
begin

lemma cas_progresses:
  assumes inv: "ledger_inv st"
  shows "progresses st (snd (cas_job jid guard change st))"
proof -
  have "ss_versions (snd (cas_job jid guard change st)) = ss_versions st"
    by (simp add: cas_job_def split: option.splits)
  then show ?thesis
    using cas_ledger_inv [OF inv] cas_advances [OF inv] by (auto simp: progresses_def jobs_advance_def versions_kept_def)
qed

end

section \<open>Each operation\<close>

lemma create_strategy_progresses:
  "ledger_inv st \<Longrightarrow> progresses st (snd (create_strategy env now owner name desc mode kind scope md pd pol st))"
  by (rule progresses_other [OF create_strategy_inv]) (simp_all add: create_strategy_def Let_def)

lemma update_strategy_progresses: "ledger_inv st \<Longrightarrow> progresses st (snd (update_strategy owner sid desc status st))"
  by (rule progresses_other [OF update_strategy_inv]) (auto simp: update_strategy_def Let_def split: option.splits)

lemma create_version_progresses: "ledger_inv st \<Longrightarrow> progresses st (snd (create_version env sid source sha schema caps by st))"
proof -
  assume inv: "ledger_inv st"
  have "versions_kept st (snd (create_version env sid source sha schema caps by st))"
    by (auto simp: versions_kept_def create_version_def Let_def dict_has_def)
  moreover have "ss_jobs (snd (create_version env sid source sha schema caps by st)) = ss_jobs st"
    by (simp add: create_version_def Let_def)
  ultimately show ?thesis using create_version_inv [OF inv] advances_refl by (auto simp: progresses_def jobs_advance_def)
qed

lemma create_job_cases:
  assumes "ledger_inv st"
  shows "ss_jobs (snd (create_job env now sid vid owner kind mode params occ attempt desired st)) = ss_jobs st
     \<or> (\<exists>j. fst (create_job env now sid vid owner kind mode params occ attempt desired st) = Inr j
          \<and> \<not> dict_has (ss_jobs st) (sj_id j) \<and> sj_status j = ''queued'' \<and> sj_strategy j = sid \<and> sj_owner j = owner
          \<and> snd (create_job env now sid vid owner kind mode params occ attempt desired st)
              = (used_id st)\<lparr>ss_jobs := dict_set (sj_id j) j (ss_jobs st)\<rparr>
          \<and> ledger_inv ((used_id st)\<lparr>ss_jobs := dict_set (sj_id j) j (ss_jobs st)\<rparr>))"
proof -
  let ?r = "create_job env now sid vid owner kind mode params occ attempt desired st"
  have "ss_jobs (snd ?r) = ss_jobs st
      \<or> (\<exists>s j. get_strategy owner sid st = Some s \<and> admit_job env now s vid owner kind mode params occ attempt desired st = Inr j
            \<and> ?r = (Inr j, (used_id st)\<lparr>ss_jobs := dict_set (sj_id j) j (ss_jobs st)\<rparr>))"
    unfolding create_job_def by (simp split: option.split sum.split)
  then consider "ss_jobs (snd ?r) = ss_jobs st"
    | s j where "get_strategy owner sid st = Some s" "admit_job env now s vid owner kind mode params occ attempt desired st = Inr j"
        "?r = (Inr j, (used_id st)\<lparr>ss_jobs := dict_set (sj_id j) j (ss_jobs st)\<rparr>)"
    by blast
  then show ?thesis
  proof cases
    case (2 s j)
    note s = get_strategy_inv [OF assms 2(1)]
    obtain v p pol where a: "get_version_by_id (hs_id s) vid st = Some v" "\<not> blocking_job owner (hs_id s) st"
      "j = new_job (fresh_id ''hsj_'' env st) s v owner kind mode p pol occ attempt desired now"
      "\<not> dict_has (ss_jobs st) (sj_id j)" "\<And>k. occ = Some k \<Longrightarrow> job_with_occurrence k st = None"
      using 2(2) by (rule admit_job_Inr) blast
    have v: "dict_get (ss_versions st) vid = Some v" "hv_strategy v = sid" "hv_id v = vid"
      using a(1) s(3) refs_invD(2) [of st vid v] assms map_of_SomeD [of "ss_versions st" vid v]
      by (auto simp: get_version_by_id_def ledger_inv_def split: option.splits if_splits)
    have "ledger_inv ((used_id st)\<lparr>ss_jobs := dict_set (sj_id j) j (ss_jobs st)\<rparr>)"
      by (rule add_job_inv [OF assms a(4)]) (use a(2,5) s v in \<open>auto simp: a(3)\<close>)
    then show ?thesis using 2(3) a s by simp
  qed simp
qed

lemma create_job_progresses: "ledger_inv st \<Longrightarrow> progresses st (snd (create_job env now sid vid owner kind mode params occ attempt desired st))"
proof -
  assume inv: "ledger_inv st"
  let ?st' = "snd (create_job env now sid vid owner kind mode params occ attempt desired st)"
  have vs: "ss_versions ?st' = ss_versions st" "ss_strategies ?st' = ss_strategies st"
    by (auto simp: create_job_def split: option.splits sum.splits)
  show ?thesis
  proof (cases "ss_jobs ?st' = ss_jobs st")
    case True
    show ?thesis by (rule progresses_frame [OF progresses_refl [OF inv] True vs(2,1)])
  next
    case False
    then obtain j where j: "\<not> dict_has (ss_jobs st) (sj_id j)" "?st' = (used_id st)\<lparr>ss_jobs := dict_set (sj_id j) j (ss_jobs st)\<rparr>"
      "ledger_inv ?st'" using create_job_cases [OF inv] by metis
    then have "jobs_advance st ?st'" using advances_refl by (auto simp: jobs_advance_def dict_has_def)
    then show ?thesis using j(3) vs by (simp add: progresses_def versions_kept_def)
  qed
qed

lemma claim_job_progresses: "ledger_inv st \<Longrightarrow> progresses st (snd (claim_job now jid lease_owner epoch attempt lease_until st))"
  using claim.cas_progresses by (auto simp: claim_job_def Let_def split_def split: option.splits)

lemma report_process_cleanup_progresses: "ledger_inv st \<Longrightarrow> progresses st (snd (report_process_cleanup now jid state actor attempt st))"
  using cleanup.cas_progresses by (auto simp: report_process_cleanup_def Let_def split_def)

lemma renew_lease_progresses: "ledger_inv st \<Longrightarrow> progresses st (snd (renew_lease now jid holder epoch attempt lease_until st))"
  using renew.cas_progresses by (auto simp: renew_lease_def Let_def split_def)

lemma reconcile_with_audit_progresses:
  "ledger_inv st \<Longrightarrow> progresses st (snd (reconcile_with_audit env now jid owner epoch attempt cleanup run reason evidence actor st))"
  by (simp add: reconcile_with_audit_def Let_def split_def progresses_audit reconcile_audited.cas_progresses split: option.split)

lemma record_reconciliation_progresses:
  "ledger_inv st \<Longrightarrow> progresses st (snd (record_reconciliation env now jid sid owner attempt run outcome reason evidence actor st))"
  by (rule progresses_frame [OF progresses_refl]) (simp_all add: record_reconciliation_def Let_def)

text \<open>Shipping logs touches two markers of the row and nothing of its life.\<close>

lemma append_job_log_progresses:
  assumes inv: "ledger_inv st"
  shows "progresses st (snd (append_job_log jid attempt chunks cap st))"
proof (cases "dict_get (ss_jobs st) jid")
  case None
  then show ?thesis using inv by (simp add: append_job_log_def Let_def split_def)
next
  case (Some j)
  define j1 where "j1 = (if sj_logs_source j = None then j\<lparr>sj_logs_source := Some ''post_termination''\<rparr> else j)"
  have row: "progresses st (st\<lparr>ss_logs := l, ss_jobs := dict_set jid j' (ss_jobs st)\<rparr>)" if "job_inv j'" "advances j j'" for j' l
  proof (rule progresses_frame)
    show "progresses st (st\<lparr>ss_jobs := dict_set jid j' (ss_jobs st)\<rparr>)"
      using job_update_inv [OF inv Some that] that Some by (auto simp: progresses_def jobs_advance_def versions_kept_def)
  qed simp_all
  have "job_inv j" using inv map_of_SomeD [OF Some] by (auto simp: ledger_inv_def jobs_inv_def)
  then have "job_inv j1" "advances j j1" "job_inv (j1\<lparr>sj_logs_discarded := True\<rparr>)" "advances j (j1\<lparr>sj_logs_discarded := True\<rparr>)"
    by (auto simp: j1_def row_simps)
  then show ?thesis by (simp add: append_job_log_def Some Let_def split_def j1_def [symmetric] row)
qed

lemma create_schedule_progresses:
  "ledger_inv st \<Longrightarrow> progresses st (snd (create_schedule env now sid vid owner kind mode params sk at_time wd tz we sq en st))"
  by (rule progresses_frame [OF progresses_refl])
     (auto simp: create_schedule_def Let_def split: sum.splits option.splits)

section \<open>Histories\<close>

inductive strategy_step :: "strategy_env \<Rightarrow> strategy_store \<Rightarrow> strategy_store \<Rightarrow> bool" for env where
  step_create_strategy: "strategy_step env st (snd (create_strategy env now owner name desc mode kind scope md pd pol st))"
| step_update_strategy: "strategy_step env st (snd (update_strategy owner sid desc' status st))"
| step_create_version: "strategy_step env st (snd (create_version env sid source sha schema caps creator st))"
| step_create_job: "strategy_step env st (snd (create_job env now sid vid owner kind mode params occ attempt desired st))"
| step_create_schedule: "strategy_step env st (snd (create_schedule env now sid vid owner kind mode params sk at_time wd tz we sq en st))"
| step_claim: "strategy_step env st (snd (claim_job now jid holder epoch attempt until st))"
| step_reserve_token: "strategy_step env st (snd (reserve_child_token now jid holder epoch attempt token st))"
| step_record_run: "strategy_step env st (snd (record_child_run now jid holder epoch attempt token run st))"
| step_handoff: "strategy_step env st (snd (mark_running_and_handoff now jid holder epoch attempt run st))"
| step_renew: "strategy_step env st (snd (renew_lease now jid holder epoch attempt until st))"
| step_progress: "strategy_step env st (snd (record_progress now jid st))"
| step_failure: "strategy_step env st (snd (record_failure now jid holder epoch attempt reason st))"
| step_stop: "strategy_step env st (snd (mark_stopped now jid holder epoch attempt st))"
| step_cleanup: "strategy_step env st (snd (report_process_cleanup now jid state actor attempt st))"
| step_recovery: "strategy_step env st (snd (mark_recovery_required now jid holder epoch attempt st))"
| step_expire: "strategy_step env st (snd (expire_to_recovery now jid attempt st))"
| step_expire_authorized: "strategy_step env st (snd (expire_to_recovery_authorized now jid holder epoch attempt st))"
| step_reconcile: "strategy_step env st (snd (reconcile_recovery now jid owner epoch attempt st))"
| step_reconcile_audited: "strategy_step env st (snd (reconcile_with_audit env now jid owner epoch attempt cleanup run' reason evidence actor st))"
| step_record_audit: "strategy_step env st (snd (record_reconciliation env now jid sid owner attempt run' outcome reason evidence actor st))"
| step_stop_queued: "strategy_step env st (snd (stop_queued_job now jid owner attempt actor st))"
| step_request_stop: "strategy_step env st (snd (request_stop_active now jid owner attempt actor st))"
| step_append_log: "strategy_step env st (snd (append_job_log jid attempt chunks cap st))"

lemma strategy_step_progresses: "strategy_step env st st' \<Longrightarrow> ledger_inv st \<Longrightarrow> progresses st st'"
  by (induction rule: strategy_step.induct)
     (simp_all add: create_strategy_progresses update_strategy_progresses create_version_progresses create_job_progresses
        create_schedule_progresses claim_job_progresses report_process_cleanup_progresses renew_lease_progresses
        reconcile_with_audit_progresses record_reconciliation_progresses append_job_log_progresses
        reserve_child_token_def reserve.cas_progresses record_child_run_def record_run.cas_progresses
        mark_running_and_handoff_def handoff.cas_progresses record_progress_def progress.cas_progresses
        record_failure_def failure.cas_progresses mark_stopped_def stopped.cas_progresses
        mark_recovery_required_def fence.cas_progresses [simplified] expire_to_recovery_def expire.cas_progresses
        expire_to_recovery_authorized_def expire_authorized.cas_progresses reconcile_recovery_def reconcile.cas_progresses
        stop_queued_job_def stop_queued.cas_progresses request_stop_active_def request_stop.cas_progresses)

abbreviation history :: "strategy_env \<Rightarrow> strategy_store \<Rightarrow> strategy_store \<Rightarrow> bool" where
  "history env \<equiv> (strategy_step env)\<^sup>*\<^sup>*"

lemma history_progresses: "history env st st' \<Longrightarrow> ledger_inv st \<Longrightarrow> progresses st st'"
proof (induction rule: rtranclp_induct)
  case (step y z)
  then have y: "progresses st y" by simp
  then have "progresses y z" using strategy_step_progresses [OF step.hyps(2)] by (simp add: progresses_def)
  with y show ?case by (rule progresses_trans)
qed simp

lemma empty_ledger_inv [simp]: "ledger_inv empty_strategies"
  by (simp add: ledger_inv_def jobs_inv_def refs_inv_def single_inv_def empty_strategies_def)

lemma reachable_ledger_inv: "history env empty_strategies st \<Longrightarrow> ledger_inv st"
  using history_progresses by (fastforce simp: progresses_def)

section \<open>Properties of every history\<close>

definition blocking_jobs :: "string \<Rightarrow> strategy_store \<Rightarrow> strategy_job list" where
  "blocking_jobs sid st = filter (\<lambda>j. sj_strategy j = sid \<and> job_blocks j) (map snd (ss_jobs st))"

lemma jobs_distinct:
  assumes "jobs_inv st"
  shows "distinct (map snd (ss_jobs st))"
proof -
  have "map sj_id (map snd (ss_jobs st)) = map fst (ss_jobs st)"
    using assms by (auto simp: jobs_inv_def)
  then have "distinct (map sj_id (map snd (ss_jobs st)))" using assms by (simp only: jobs_inv_def)
  then show ?thesis by (simp only: distinct_map [of sj_id "map snd (ss_jobs st)"])
qed

lemma distinct_single:
  assumes "distinct xs" "\<And>x y. x \<in> set xs \<Longrightarrow> y \<in> set xs \<Longrightarrow> x = y"
  shows "length xs \<le> 1"
proof (cases xs)
  case (Cons a ys)
  have "b = a" if "b \<in> set ys" for b using assms(2) [of b a] that Cons by simp
  then have "set ys = {}" using assms(1) Cons by (metis distinct.simps(2) equals0I)
  then show ?thesis using Cons by simp
qed simp

lemma single_blocking:
  assumes "ledger_inv st" "j1 \<in> set (map snd (ss_jobs st))" "j2 \<in> set (map snd (ss_jobs st))"
    "sj_strategy j1 = sj_strategy j2" "job_blocks j1" "job_blocks j2"
  shows "j1 = j2"
proof -
  obtain k1 k2 where k: "(k1, j1) \<in> set (ss_jobs st)" "(k2, j2) \<in> set (ss_jobs st)" using assms(2,3) by auto
  moreover have "k1 = k2" using assms(1,4-6) k unfolding ledger_inv_def single_inv_def by blast
  ultimately show ?thesis using assms(1) by (auto simp: ledger_inv_def jobs_inv_def dest: eq_key_imp_eq_value)
qed

text \<open>
  C4. Whatever sequence of store operations is run, by whichever callers and with whatever
  clocks, a strategy never has two jobs that are queued, starting, running or waiting for
  reconciliation: two attempts never run beside each other.
\<close>

theorem one_blocking_job_per_strategy:
  assumes "history env empty_strategies st"
  shows "length (blocking_jobs sid st) \<le> 1"
proof (rule distinct_single)
  have inv: "ledger_inv st" using assms by (rule reachable_ledger_inv)
  show "distinct (blocking_jobs sid st)"
    using jobs_distinct inv by (simp add: blocking_jobs_def ledger_inv_def)
  show "x = y" if "x \<in> set (blocking_jobs sid st)" "y \<in> set (blocking_jobs sid st)" for x y
    by (rule single_blocking [OF inv]) (use that in \<open>auto simp: blocking_jobs_def\<close>)
qed

text \<open>
  C33. Every job row of a reachable store is well formed: its status is one of the five that are
  ever written, a live job has a holder and a deadline and was claimed exactly once, the
  credential, the run and the handoff are recorded in that order, a reconciled job is stopped
  and was fenced, and the strategy and version the job names exist and belong together.
\<close>

theorem reachable_jobs_well_formed:
  assumes "history env empty_strategies st" "get_job owner jid st = Some j"
  shows "job_inv j \<and> sj_id j = jid \<and> (\<exists>s. get_strategy owner (sj_strategy j) st = Some s)
    \<and> (\<exists>v. get_version_by_id (sj_strategy j) (sj_version j) st = Some v)"
proof -
  have inv: "ledger_inv st" using assms(1) by (rule reachable_ledger_inv)
  have j: "dict_get (ss_jobs st) jid = Some j" "sj_owner j = owner"
    using assms(2) by (auto simp: get_job_def split: option.splits if_splits)
  have m: "(jid, j) \<in> set (ss_jobs st)" using map_of_SomeD [OF j(1)] .
  show ?thesis
    using inv m j(2) refs_invD(3,4) [OF _ m] by (fastforce simp: ledger_inv_def jobs_inv_def get_strategy_def get_version_by_id_def)
qed

text \<open>
  C13. From any reachable store on, a job only moves forward: its pinned snapshots (version,
  parameters, capabilities, policy, account, mode, attempt) never change, its status never goes
  back, its credential, run, handoff and reconciliation are never overwritten and the first three
  are frozen once it is fenced, a live job never changes its holder, a requested stop is never
  withdrawn, and the version it was launched from never changes.
\<close>

theorem jobs_only_advance:
  assumes "history env empty_strategies st" "history env st st'" "get_job_by_id jid st = Some j"
  shows "\<exists>j'. get_job_by_id jid st' = Some j' \<and> advances j j'
    \<and> get_version_by_id (sj_strategy j') (sj_version j') st' = get_version_by_id (sj_strategy j) (sj_version j) st"
proof -
  have inv: "ledger_inv st" using assms(1) by (rule reachable_ledger_inv)
  have p: "progresses st st'" using history_progresses [OF assms(2) inv] .
  obtain j' where j': "dict_get (ss_jobs st') jid = Some j'" "advances j j'"
    using p assms(3) by (auto simp: progresses_def jobs_advance_def get_job_by_id_def)
  have "(jid, j) \<in> set (ss_jobs st)" using assms(3) map_of_SomeD by (simp add: get_job_by_id_def)
  then obtain v where "dict_get (ss_versions st) (sj_version j) = Some v"
    using refs_invD(4) inv unfolding ledger_inv_def by blast
  then have "dict_get (ss_versions st') (sj_version j) = Some v" "dict_get (ss_versions st) (sj_version j) = Some v"
    using p by (auto simp: progresses_def versions_kept_def)
  moreover have "sj_version j' = sj_version j" "sj_strategy j' = sj_strategy j"
    using j'(2) by (auto simp: advances_def job_identity_def)
  ultimately show ?thesis using j' by (simp add: get_job_by_id_def get_version_by_id_def)
qed

section \<open>Lives are finite\<close>

text \<open>How far a job has come, counting its creation.\<close>

definition job_stage :: "string \<Rightarrow> strategy_store \<Rightarrow> nat" where
  "job_stage jid st = (case get_job_by_id jid st of None \<Rightarrow> 0 | Some j \<Rightarrow> Suc (job_rank j))"

lemma job_stage_le: "job_stage jid st \<le> 5"
  by (simp add: job_stage_def job_rank_def split: option.split)

lemma job_rank_inj: "job_inv j \<Longrightarrow> job_inv j' \<Longrightarrow> job_rank j = job_rank j' \<Longrightarrow> sj_status j = sj_status j'"
  by (auto simp: job_rank_def dest!: job_inv_status split: if_splits)

lemma status_change_advances:
  assumes "job_inv j" "job_inv j'" "advances j j'" "sj_status j' \<noteq> sj_status j"
  shows "job_rank j < job_rank j'"
  using assms job_rank_inj [OF assms(1,2)] by (auto simp: advances_def less_le)

abbreviation status_of :: "string \<Rightarrow> strategy_store \<Rightarrow> string option" where
  "status_of jid st \<equiv> map_option sj_status (get_job_by_id jid st)"

lemma step_stage:
  assumes "ledger_inv st" "strategy_step env st st'"
  shows "job_stage jid st \<le> job_stage jid st'" "status_of jid st' \<noteq> status_of jid st \<Longrightarrow> job_stage jid st < job_stage jid st'"
proof -
  have p: "progresses st st'" using strategy_step_progresses [OF assms(2,1)] .
  have row: "\<exists>j'. dict_get (ss_jobs st') jid = Some j' \<and> job_inv j \<and> job_inv j' \<and> advances j j'" if j: "dict_get (ss_jobs st) jid = Some j" for j
  proof -
    obtain j' where j': "dict_get (ss_jobs st') jid = Some j'" "advances j j'" using p j by (auto simp: progresses_def jobs_advance_def)
    then show ?thesis
      using assms(1) p map_of_SomeD [OF j] map_of_SomeD [OF j'(1)] by (auto simp: progresses_def ledger_inv_def jobs_inv_def)
  qed
  show "job_stage jid st \<le> job_stage jid st'"
    using row by (auto simp: job_stage_def get_job_by_id_def advances_def split: option.split)
  show "job_stage jid st < job_stage jid st'" if "status_of jid st' \<noteq> status_of jid st"
    using row that by (auto simp: job_stage_def get_job_by_id_def split: option.split dest: status_change_advances)
qed

text \<open>
  C34. The life of a job is finite: along every endless sequence of operations of the ledger, in
  any order and of any number of jobs, the status of a job changes at most five times, its
  creation included, whatever other operations such as renewals lie in between.
\<close>

theorem status_changes_terminate:
  assumes "history env empty_strategies (f 0)" and step: "\<And>i. strategy_step env (f i) (f (Suc i))"
  shows "finite {i. status_of jid (f (Suc i)) \<noteq> status_of jid (f i)} \<and> card {i. status_of jid (f (Suc i)) \<noteq> status_of jid (f i)} \<le> 5"
proof -
  let ?S = "{i. status_of jid (f (Suc i)) \<noteq> status_of jid (f i)}"
  have "history env empty_strategies (f i)" for i
    by (induction i) (use assms in \<open>auto intro: rtranclp.rtrancl_into_rtrancl\<close>)
  then have inv: "ledger_inv (f i)" for i by (rule reachable_ledger_inv)
  have mono: "job_stage jid (f i) \<le> job_stage jid (f k)" if "i \<le> k" for i k
    by (rule lift_Suc_mono_le [of "\<lambda>i. job_stage jid (f i)", OF step_stage(1) [OF inv step] that])
  have less: "job_stage jid (f i) < job_stage jid (f k)" if "i \<in> ?S" "i < k" for i k
    using step_stage(2) [OF inv step, of jid i] mono [of "Suc i" k] that by simp
  have "inj_on (\<lambda>i. job_stage jid (f i)) ?S"
  proof (rule linorder_inj_onI')
    show "job_stage jid (f i) \<noteq> job_stage jid (f k)" if "i \<in> ?S" "k \<in> ?S" "i < k" for i k using less [OF that(1,3)] by simp
  qed
  moreover have "(\<lambda>i. job_stage jid (f i)) ` ?S \<subseteq> {..<5::nat}"
    using less_le_trans [OF less [OF _ lessI] job_stage_le] by blast
  ultimately have "finite ?S" "card ?S \<le> card {..<5::nat}" by (rule inj_on_finite, simp, rule card_inj_on_le) simp_all
  then show ?thesis by simp
qed

section \<open>Idempotent creation\<close>

text \<open>What a job answered for an occurrence key is, whether it is new or the original one.\<close>

definition answers :: "strategy_env \<Rightarrow> string \<Rightarrow> string \<Rightarrow> string \<Rightarrow> string \<Rightarrow> string \<Rightarrow> jobj \<Rightarrow> string \<Rightarrow> strategy_store \<Rightarrow> strategy_job \<Rightarrow> bool" where
  "answers env sid vid owner kind mode params key st j \<longleftrightarrow>
     dict_get (ss_jobs st) (sj_id j) = Some j \<and> sj_occurrence j = Some key \<and> sj_owner j = owner \<and> sj_strategy j = sid
     \<and> sj_version j = vid \<and> sj_mode j = mode \<and> sj_kind j = kind \<and> kind \<in> set allowed_job_kinds \<and> mode \<in> set allowed_execution_modes
     \<and> (\<exists>v. get_version_by_id sid vid st = Some v \<and> validate_parameters env (hv_schema v) params = Inr (sj_params j))"

lemma job_with_occurrence_Some:
  assumes "ledger_inv st"
  shows "job_with_occurrence key st = Some j \<longleftrightarrow> dict_get (ss_jobs st) (sj_id j) = Some j \<and> sj_occurrence j = Some key"
proof -
  have inv: "jobs_inv st" "single_inv st" using assms by (simp_all add: ledger_inv_def)
  have key: "k1 = k2" if "(k1, j1) \<in> set (ss_jobs st)" "(k2, j2) \<in> set (ss_jobs st)" "sj_occurrence j1 = Some key" "sj_occurrence j2 = Some key"
    for k1 j1 k2 j2 using inv(2) that unfolding single_inv_def by fastforce
  have id: "(sj_id i, i) \<in> set (ss_jobs st)" if "i \<in> set (map snd (ss_jobs st))" for i
    using that inv(1) by (auto simp: jobs_inv_def)
  have "\<exists>i. job_with_occurrence key st = Some i \<and> i = j" if j: "(sj_id j, j) \<in> set (ss_jobs st)" "sj_occurrence j = Some key"
  proof -
    obtain i where i: "job_with_occurrence key st = Some i"
      using j by (cases "job_with_occurrence key st") (auto simp: job_with_occurrence_def find_None_iff)
    then have "i \<in> set (map snd (ss_jobs st))" "sj_occurrence i = Some key"
      by (auto simp: job_with_occurrence_def find_Some_iff nth_mem)
    then have "(sj_id j, i) \<in> set (ss_jobs st)" using key id j by metis
    then show ?thesis using i j inv(1) by (auto simp: jobs_inv_def dest: eq_key_imp_eq_value)
  qed
  moreover have "(sj_id j, j) \<in> set (ss_jobs st) \<and> sj_occurrence j = Some key" if "job_with_occurrence key st = Some j"
    using that id by (auto simp: job_with_occurrence_def find_Some_iff)
  ultimately show ?thesis using jobs_get [OF inv(1)] by blast
qed

lemma create_job_answers:
  assumes inv: "ledger_inv st" and key: "key \<noteq> []"
    and c: "create_job env now sid vid owner kind mode params (Some key) attempt desired st = (Inr j, st1)"
  shows "answers env sid vid owner kind mode params key st1 j"
proof -
  obtain s where s: "get_strategy owner sid st = Some s" "kind \<in> set allowed_job_kinds" "mode \<in> set allowed_execution_modes"
    using c by (auto simp: create_job_def str_truthy_def opt_str_def split: if_splits option.splits)
  note s' = get_strategy_inv [OF inv s(1)]
  show ?thesis
  proof (cases "job_with_occurrence key st")
    case (Some existing)
    then have "replay_job env existing sid vid owner kind mode params st = Inr j" "st1 = st"
      using c s key by (auto simp: create_job_def str_truthy_def opt_str_def split: if_splits)
    then show ?thesis
      using s(2,3) job_with_occurrence_Some [OF inv, of key existing] Some
      by (auto simp: replay_job_def answers_def split: if_splits option.splits sum.splits)
  next
    case None
    then have a: "admit_job env now s vid owner kind mode params (Some key) attempt desired st = Inr j"
      "st1 = (used_id st)\<lparr>ss_jobs := dict_set (sj_id j) j (ss_jobs st)\<rparr>"
      using c s key by (auto simp: create_job_def str_truthy_def opt_str_def split: if_splits sum.splits)
    obtain v p pol where v: "get_version_by_id (hs_id s) vid st = Some v" "validate_parameters env (hv_schema v) params = Inr p"
      "j = new_job (fresh_id ''hsj_'' env st) s v owner kind mode p pol (Some key) attempt desired now"
      using a(1) by (rule admit_job_Inr) blast
    moreover have "hv_id v = vid" using v(1) inv refs_invD(2) map_of_SomeD [of "ss_versions st" vid v]
      by (auto simp: get_version_by_id_def ledger_inv_def split: option.splits if_splits)
    moreover have "get_version_by_id sid vid st1 = Some v" using v(1) s'(3) a(2) by (simp add: get_version_by_id_def)
    ultimately show ?thesis using a(2) s s'(3) by (simp add: answers_def)
  qed
qed

lemma answers_later:
  assumes inv: "ledger_inv st" and p: "progresses st st'" and a: "answers env sid vid owner kind mode params key st j"
  shows "\<exists>j'. answers env sid vid owner kind mode params key st' j' \<and> advances j j'"
proof -
  obtain j' where j': "dict_get (ss_jobs st') (sj_id j) = Some j'" "advances j j'"
    using p a by (auto simp: progresses_def jobs_advance_def answers_def)
  moreover have "get_version_by_id sid vid st' = get_version_by_id sid vid st"
    using p a by (auto simp: progresses_def versions_kept_def answers_def get_version_by_id_def split: option.splits if_splits)
  ultimately show ?thesis using a by (intro exI [of _ j']) (auto simp: answers_def advances_def job_identity_def)
qed

lemma answers_replay:
  assumes inv: "ledger_inv st" and key: "key \<noteq> []" and attempt: "1 \<le> attempt" and a: "answers env sid vid owner kind mode params key st j"
  shows "create_job env now sid vid owner kind mode params (Some key) attempt desired st = (Inr j, st)"
proof -
  have j: "job_with_occurrence key st = Some j" using a job_with_occurrence_Some [OF inv] by (simp add: answers_def)
  have "(sj_id j, j) \<in> set (ss_jobs st)" using a by (auto simp: answers_def dest: map_of_SomeD)
  then obtain s where "get_strategy owner sid st = Some s"
    using refs_invD(3) [of st "sj_id j" j] inv a by (auto simp: ledger_inv_def get_strategy_def answers_def)
  then show ?thesis using a j key attempt by (auto simp: create_job_def str_truthy_def opt_str_def replay_job_def answers_def)
qed

text \<open>
  Launching is idempotent under an occurrence key: once a request with a key has been
  answered with a job, the same request on any later store answers with the same job, moved on
  as it may be, and writes nothing, even if the strategy was disabled or a stop was requested in
  between.
\<close>

theorem create_job_replays:
  assumes "history env empty_strategies st" "key \<noteq> []" "1 \<le> attempt'"
    and c: "create_job env now sid vid owner kind mode params (Some key) attempt desired st = (Inr j, st1)"
    and "history env st1 st2"
  shows "\<exists>j'. create_job env now' sid vid owner kind mode params (Some key) attempt' desired' st2 = (Inr j', st2)
    \<and> sj_id j' = sj_id j \<and> advances j j'"
proof -
  have inv: "ledger_inv st" using assms(1) by (rule reachable_ledger_inv)
  have inv1: "ledger_inv st1" using create_job_progresses [OF inv] c by (metis progresses_def snd_conv)
  have p: "progresses st1 st2" using history_progresses [OF assms(5) inv1] .
  then have inv2: "ledger_inv st2" by (simp add: progresses_def)
  obtain j' where "answers env sid vid owner kind mode params key st2 j'" "advances j j'"
    using answers_later [OF inv1 p create_job_answers [OF inv assms(2) c]] by blast
  then show ?thesis using answers_replay [OF inv2 assms(2,3)] by (auto simp: advances_def job_identity_def)
qed

section \<open>Bounded logs\<close>

lemma store_chunks_seq:
  "store_chunks jid attempt cap bytes seq chunks = (rows, lastseq, discarded)
   \<Longrightarrow> map jl_seq rows = [seq + 1 .. lastseq] \<and> lastseq = seq + int (length rows)"
  by (induction jid attempt cap bytes seq chunks arbitrary: rows lastseq discarded rule: store_chunks.induct)
     (auto simp: Let_def upto_rec1 [symmetric] upto.simps [of "s + 1" "s + 1 + int n" for s n] split: if_splits prod.splits)

lemma store_chunks_content:
  "store_chunks jid attempt cap bytes seq chunks = (rows, lastseq, discarded)
   \<Longrightarrow> \<exists>rest. filter (\<lambda>t. t \<noteq> []) chunks = map jl_content rows @ rest \<and> (discarded \<longleftrightarrow> rest \<noteq> [])"
  by (induction jid attempt cap bytes seq chunks arbitrary: rows lastseq discarded rule: store_chunks.induct)
     (auto simp: Let_def split: if_splits prod.splits)

lemma store_chunks_bytes:
  "store_chunks jid attempt cap bytes seq chunks = (rows, lastseq, discarded) \<Longrightarrow> bytes \<le> cap
   \<Longrightarrow> bytes + sum_list (map jl_bytes rows) \<le> cap"
  by (induction jid attempt cap bytes seq chunks arbitrary: rows lastseq discarded rule: store_chunks.induct)
     (fastforce simp: Let_def split: if_splits prod.splits)+

lemma store_chunks_rows:
  "store_chunks jid attempt cap bytes seq chunks = (rows, lastseq, discarded) \<Longrightarrow> r \<in> set rows
   \<Longrightarrow> jl_job r = jid \<and> jl_attempt r = attempt \<and> jl_bytes r = utf8_len (jl_content r)"
  by (induction jid attempt cap bytes seq chunks arbitrary: rows lastseq discarded rule: store_chunks.induct)
     (auto simp: Let_def split: if_splits prod.splits)

text \<open>
  Shipping logs keeps an attempt's stored output within the byte cap, whatever is shipped and
  however often: the rows stored are the leading non-empty chunks, numbered without a gap
  after the last stored sequence number, each with its exact size in UTF-8 bytes; output is
  reported as discarded exactly when a chunk was left out.
\<close>

theorem append_job_log_bounded:
  assumes "append_job_log jid attempt chunks cap st = (Inr r, st')"
    and "sum_list (map jl_bytes (logs_of jid attempt st)) \<le> max 1 cap"
  shows "\<exists>rows rest. ss_logs st' = ss_logs st @ rows \<and> logs_of jid attempt st' = logs_of jid attempt st @ rows
    \<and> map jl_content rows @ rest = filter (\<lambda>t. t \<noteq> []) chunks \<and> (lr_discarded r \<longleftrightarrow> rest \<noteq> [])
    \<and> lr_stored r = int (length rows)
    \<and> map jl_seq rows = [fold max (map jl_seq (logs_of jid attempt st)) 0 + 1 .. lr_next_seq r]
    \<and> map jl_bytes rows = map (utf8_len \<circ> jl_content) rows
    \<and> sum_list (map jl_bytes (logs_of jid attempt st')) \<le> max 1 cap"
proof -
  define old where "old = logs_of jid attempt st"
  obtain rows lastseq discarded where c: "store_chunks jid attempt (max 1 cap) (sum_list (map jl_bytes old))
      (fold max (map jl_seq old) 0) chunks = (rows, lastseq, discarded)"
    by (cases "store_chunks jid attempt (max 1 cap) (sum_list (map jl_bytes old)) (fold max (map jl_seq old) 0) chunks")
  note rows = store_chunks_rows [OF c]
  obtain rest where rest: "filter (\<lambda>t. t \<noteq> []) chunks = map jl_content rows @ rest" "discarded \<longleftrightarrow> rest \<noteq> []"
    using store_chunks_content [OF c] by blast
  have l: "ss_logs st' = ss_logs st @ rows" "lr_stored r = int (length rows)" "lr_discarded r = discarded" "lr_next_seq r = lastseq"
    using assms(1) by (auto simp: append_job_log_def old_def [symmetric] c Let_def split: option.splits if_splits)
  moreover have "logs_of jid attempt st' = old @ rows"
    using l(1) rows by (simp add: logs_of_def old_def)
  moreover have "map jl_bytes rows = map (utf8_len \<circ> jl_content) rows" using rows by simp
  ultimately show ?thesis
    using rest store_chunks_seq [OF c] store_chunks_bytes [OF c] assms(2) by (auto simp: old_def)
qed

section \<open>A sample history\<close>

definition hosted_env :: strategy_env where
  "hosted_env = \<lparr>se_uuid = nat_str, se_sha256 = (\<lambda>s. ''sha''), se_check_schema = (\<lambda>_. None), se_param_error = (\<lambda>_ _. None)\<rparr>"

definition hosted_version :: strategy_store where
  "hosted_version = snd (create_version hosted_env ''hs_0'' ''print(1)'' ''sha'' [] (build_capabilities_snapshot True False True 0) ''app:op''
     (snd (create_strategy hosted_env 0 ''app:op'' ''demo'' None ''paper'' ''finite'' ''kite:paper-1'' 3600 60 ''none'' empty_strategies)))"

definition hosted_queued :: strategy_store where
  "hosted_queued = snd (create_job hosted_env 100 ''hs_0'' ''hsv_1'' ''app:op'' ''finite'' ''paper'' [] (Some ''key'') 1 ''started'' hosted_version)"

definition hosted_running :: strategy_store where
  "hosted_running = snd (mark_running_and_handoff 130 ''hsj_2'' ''sup'' 1 1 ''run_1'' (snd (record_child_run 120 ''hsj_2'' ''sup'' 1 1 ''tok'' ''run_1''
     (snd (reserve_child_token 115 ''hsj_2'' ''sup'' 1 1 ''tok'' (snd (claim_job 110 ''hsj_2'' ''sup'' 0 1 500 hosted_queued)))))))"

definition hosted_fenced :: strategy_store where
  "hosted_fenced = snd (mark_recovery_required 140 ''hsj_2'' ''sup'' 1 1 hosted_running)"

lemma history_step: "strategy_step env st st' \<Longrightarrow> history env st0 st \<Longrightarrow> history env st0 st'"
  by (rule rtranclp.rtrancl_into_rtrancl)

lemma hosted_histories:
  "history hosted_env empty_strategies hosted_version" "history hosted_env hosted_version hosted_queued"
  "history hosted_env hosted_queued hosted_running" "history hosted_env hosted_running hosted_fenced"
proof -
  show "history hosted_env empty_strategies hosted_version"
    unfolding hosted_version_def by (rule rtranclp.rtrancl_refl strategy_step.intros history_step)+
  show "history hosted_env hosted_version hosted_queued"
    unfolding hosted_queued_def by (rule rtranclp.rtrancl_refl strategy_step.intros history_step)+
  show "history hosted_env hosted_queued hosted_running"
    unfolding hosted_running_def by (rule rtranclp.rtrancl_refl strategy_step.intros history_step)+
  show "history hosted_env hosted_running hosted_fenced"
    unfolding hosted_fenced_def by (rule rtranclp.rtrancl_refl strategy_step.intros history_step)+
qed

lemma hosted_reachable:
  "history hosted_env empty_strategies hosted_queued" "history hosted_env empty_strategies hosted_running"
  "history hosted_env empty_strategies hosted_fenced" "history hosted_env hosted_queued hosted_fenced"
  using hosted_histories by (meson rtranclp_trans)+

definition hosted_row :: strategy_job where
  "hosted_row = \<lparr>sj_id = ''hsj_2'', sj_strategy = ''hs_0'', sj_version = ''hsv_1'', sj_owner = ''app:op'', sj_scope = ''kite:paper-1'',
     sj_kind = ''finite'', sj_mode = ''paper'', sj_desired = ''started'', sj_occurrence = Some ''key'', sj_run = None, sj_token = None,
     sj_lease_owner = None, sj_epoch = 0, sj_lease_until = None, sj_attempt = 1, sj_status = ''queued'', sj_params = [],
     sj_capabilities = build_capabilities_snapshot True False True 0,
     sj_policy = [(''stale_exit_policy'', JStr ''none''), (''max_duration_s'', JInt 3600), (''progress_deadline_s'', JInt 60), (''captured_at'', JTime 100)],
     sj_max_duration = 3600, sj_progress_deadline = 60, sj_last_progress = None, sj_handoff = None, sj_last_error = None,
     sj_cleanup = None, sj_cleanup_at = None, sj_cleanup_actor = None, sj_stop_requested = None, sj_stop_actor = None,
     sj_logs_discarded = False, sj_logs_source = None, sj_recovery_at = None, sj_reconciled = None, sj_created_at = 100,
     sj_updated_at = 100\<rparr>"

lemma hosted_created:
  "create_job hosted_env 100 ''hs_0'' ''hsv_1'' ''app:op'' ''finite'' ''paper'' [] (Some ''key'') 1 ''started'' hosted_version
    = (Inr hosted_row, hosted_queued)"
  by code_simp

lemma hosted_queued_rows:
  "ss_jobs hosted_queued = [(''hsj_2'', hosted_row)]"
  "map_option hs_status (dict_get (ss_strategies hosted_queued) ''hs_0'') = Some ''active''"
  by code_simp+

definition hosted_live_row :: strategy_job where
  "hosted_live_row = hosted_row\<lparr>sj_status := ''running'', sj_lease_owner := Some ''sup'', sj_epoch := 1, sj_lease_until := Some 500,
     sj_token := Some ''tok'', sj_run := Some ''run_1'', sj_handoff := Some 130, sj_updated_at := 130\<rparr>"

lemma hosted_running_rows: "ss_jobs hosted_running = [(''hsj_2'', hosted_live_row)]"
proof -
  obtain s where "dict_get (ss_strategies hosted_queued) ''hs_0'' = Some s" "hs_status s = ''active''"
    using hosted_queued_rows(2) by (auto simp: map_option_case split: option.splits)
  moreover have "str_strip ''sup'' = ''sup''" by code_simp
  ultimately show ?thesis
    by (simp add: hosted_running_def claim_job_def reserve_child_token_def record_child_run_def mark_running_and_handoff_def cas_job_def
          hosted_queued_rows(1) hosted_row_def hosted_live_row_def authority_clause_def holds_lease_def live_statuses_def lease_expired_def
          Let_def)
qed

lemma hosted_fenced_rows: "ss_jobs hosted_fenced = [(''hsj_2'', fence_job 140 hosted_live_row)]"
  by (simp add: hosted_fenced_def mark_recovery_required_def cas_job_def hosted_running_rows holds_lease_def)
     (simp add: hosted_live_row_def hosted_row_def)

theorem one_blocking_job_per_strategy_witness:
  "length (blocking_jobs ''hs_0'' hosted_running) \<le> 1 \<and> map sj_id (blocking_jobs ''hs_0'' hosted_running) = [''hsj_2'']"
  using one_blocking_job_per_strategy [OF hosted_reachable(2), of "''hs_0''"]
  by (simp add: blocking_jobs_def hosted_running_rows job_blocks_def hosted_live_row_def hosted_row_def active_job_statuses_def)

theorem reachable_jobs_well_formed_witness: "job_inv hosted_live_row \<and> sj_status hosted_live_row = ''running''"
proof -
  have "get_job ''app:op'' ''hsj_2'' hosted_running = Some hosted_live_row"
    by (simp add: get_job_def hosted_running_rows hosted_live_row_def hosted_row_def)
  then show ?thesis
    using reachable_jobs_well_formed [OF hosted_reachable(2)] by (simp add: hosted_live_row_def)
qed

theorem jobs_only_advance_witness: "\<exists>j'. get_job_by_id ''hsj_2'' hosted_fenced = Some j' \<and> advances hosted_row j' \<and> sj_status j' = ''recovery_required''"
proof -
  have "get_job_by_id ''hsj_2'' hosted_queued = Some hosted_row" by (simp add: get_job_by_id_def hosted_queued_rows)
  then obtain j' where "get_job_by_id ''hsj_2'' hosted_fenced = Some j'" "advances hosted_row j'"
    using jobs_only_advance [OF hosted_reachable(1,4)] by blast
  then show ?thesis by (auto simp: get_job_by_id_def hosted_fenced_rows fence_job_def)
qed

theorem status_changes_terminate_witness:
  "finite {i. status_of ''hsj_2'' (case Suc i of 0 \<Rightarrow> hosted_version | Suc _ \<Rightarrow> hosted_queued)
       \<noteq> status_of ''hsj_2'' (case i of 0 \<Rightarrow> hosted_version | Suc _ \<Rightarrow> hosted_queued)}"
proof -
  have "strategy_step hosted_env hosted_version hosted_queued" unfolding hosted_queued_def by (rule strategy_step.intros)
  moreover have "snd (update_strategy [] ''none'' None None hosted_queued) = hosted_queued" by code_simp
  then have "strategy_step hosted_env hosted_queued hosted_queued" using step_update_strategy [of hosted_env hosted_queued "[]" "''none''" None None] by simp
  ultimately have "strategy_step hosted_env (case i of 0 \<Rightarrow> hosted_version | Suc _ \<Rightarrow> hosted_queued)
      (case Suc i of 0 \<Rightarrow> hosted_version | Suc _ \<Rightarrow> hosted_queued)" for i by (cases i) simp_all
  from status_changes_terminate [of hosted_env "\<lambda>i. case i of 0 \<Rightarrow> hosted_version | Suc _ \<Rightarrow> hosted_queued", OF _ this] hosted_histories(1)
  show ?thesis by simp
qed

theorem create_job_replays_witness:
  "\<exists>j'. create_job hosted_env 900 ''hs_0'' ''hsv_1'' ''app:op'' ''finite'' ''paper'' [] (Some ''key'') 1 ''started'' hosted_fenced = (Inr j', hosted_fenced)
     \<and> sj_id j' = ''hsj_2''"
  using create_job_replays [OF hosted_histories(1) _ _ hosted_created hosted_reachable(4), of 1 900 "''started''"]
  by (auto simp: hosted_row_def)

theorem append_job_log_bounded_witness:
  "\<exists>r st'. append_job_log ''hsj_2'' 1 [''abc'', [], ''de''] 4 hosted_fenced = (Inr r, st') \<and> lr_stored r = 1 \<and> lr_discarded r
     \<and> sum_list (map jl_bytes (logs_of ''hsj_2'' 1 st')) \<le> 4"
proof -
  have logs: "ss_logs hosted_fenced = []" by code_simp
  obtain r st' where r: "append_job_log ''hsj_2'' 1 [''abc'', [], ''de''] 4 hosted_fenced = (Inr r, st')" "lr_stored r = 1" "lr_discarded r"
    by (auto simp: append_job_log_def hosted_fenced_rows logs logs_of_def utf8_len_def Let_def)
  from append_job_log_bounded [OF r(1)] show ?thesis using r by (auto simp: logs logs_of_def)
qed

end
