(* ===== verification/WorkerStore.thy ===== *)
theory WorkerStore
  imports StrategyModel
begin

text \<open>
  The worker control plane: the tokens, runs, sessions and intents that
  \<open>api/repositories/algo_worker_repo.py\<close> keeps in the tables of \<open>schema.sql\<close>, and the
  authorization helpers of \<open>api/routers/worker_shared.py\<close>.

  Each repository operation is one transaction that returns its result and the store it
  commits. A token is stored by the hash of its secret; the hash and the identifier generator
  are those of the environment. \<open>NOW()\<close> and the Python clock are one argument per operation.
  The table's CHECK and UNIQUE constraints are guards whose violation is \<open>IntegrityError\<close>.
\<close>

section \<open>Rows\<close>

record worker_token =
  wt_id :: string
  wt_name :: string
  wt_scope :: "string option"
  wt_modes :: "string list"
  wt_actions :: "string list"
  wt_templates :: "string list"
  wt_status :: string
  wt_expires :: "instant option"

record token_row = worker_token +
  tk_hash :: string
  tk_metadata :: jobj
  tk_heartbeat :: jobj
  tk_created :: instant
  tk_last_used :: "instant option"
  tk_last_heartbeat :: "instant option"

record worker_run =
  wr_id :: string
  wr_token :: string
  wr_template :: string
  wr_scope :: string
  wr_mode :: string
  wr_status :: string
  wr_summary_fields :: "jval list"
  wr_risk_schema :: "jobj list"
  wr_allowed_actions :: "string list"
  wr_runtime_state :: jobj
  wr_metadata :: jobj
  wr_nonce :: "string option"
  wr_claimed_at :: "instant option"
  wr_last_heartbeat :: "instant option"
  wr_created :: instant
  wr_updated :: instant
  wr_closed :: "instant option"

record worker_intent =
  wi_token :: string
  wi_run :: string
  wi_key :: string
  wi_type :: string
  wi_request :: jval
  wi_status :: string
  wi_result :: jobj

record worker_store =
  ws_tokens :: "(string, token_row) dict"
  ws_runs :: "(string, worker_run) dict"
  ws_intents :: "(string \<times> string, worker_intent) dict"
  ws_next :: nat

definition empty_workers :: worker_store where
  "empty_workers = \<lparr>ws_tokens = [], ws_runs = [], ws_intents = [], ws_next = 0\<rparr>"

datatype worker_error =
    IntegrityError
  | IntentMissing
  | RunMissing
  | InvalidLimit
  | HttpError int string

type_synonym 'a worker_tx = "(worker_error + 'a) \<times> worker_store"

section \<open>Tokens\<close>

record token_request =
  tq_name :: string
  tq_scope :: "string option"
  tq_modes :: "string list"
  tq_actions :: "string list"
  tq_templates :: "string list"
  tq_expires :: "instant option"
  tq_metadata :: jobj

definition clean_list :: "string list \<Rightarrow> string list" where
  "clean_list xs = filter (\<lambda>s. s \<noteq> []) (map str_strip xs)"

text \<open>What the request model's validators leave of a request.\<close>

definition clean_token_request :: "token_request \<Rightarrow> token_request" where
  "clean_token_request q = q\<lparr>tq_modes := map str_lower (clean_list (tq_modes q)), tq_actions := clean_list (tq_actions q),
     tq_templates := clean_list (tq_templates q)\<rparr>"

definition create_token :: "strategy_env \<Rightarrow> instant \<Rightarrow> token_request \<Rightarrow> string \<Rightarrow> string \<Rightarrow> worker_store \<Rightarrow> token_row worker_tx" where
  "create_token env now q raw_token token_id st =
     (let hash = se_sha256 env raw_token;
          row = \<lparr>wt_id = token_id, wt_name = tq_name q, wt_scope = tq_scope q, wt_modes = tq_modes q, wt_actions = tq_actions q,
                 wt_templates = tq_templates q, wt_status = ''active'', wt_expires = tq_expires q, tk_hash = hash,
                 tk_metadata = tq_metadata q, tk_heartbeat = [], tk_created = now, tk_last_used = None, tk_last_heartbeat = None\<rparr>
      in if dict_has (ws_tokens st) token_id \<or> list_ex (\<lambda>(k, t). tk_hash t = hash) (ws_tokens st) then (Inl IntegrityError, st)
         else (Inr row, st\<lparr>ws_tokens := dict_set token_id row (ws_tokens st)\<rparr>))"

definition list_tokens :: "worker_store \<Rightarrow> token_row list" where
  "list_tokens st = rev (sort_key tk_created (map snd (ws_tokens st)))"

definition update_token :: "string \<Rightarrow> (token_row \<Rightarrow> token_row) \<Rightarrow> worker_store \<Rightarrow> token_row option \<times> worker_store" where
  "update_token token_id change st =
     (case dict_get (ws_tokens st) token_id of
        None \<Rightarrow> (None, st)
      | Some t \<Rightarrow> (Some (change t), st\<lparr>ws_tokens := dict_set token_id (change t) (ws_tokens st)\<rparr>))"

definition revoke_token :: "string \<Rightarrow> worker_store \<Rightarrow> token_row option \<times> worker_store" where
  "revoke_token token_id = update_token token_id (\<lambda>t. t\<lparr>wt_status := ''revoked''\<rparr>)"

definition get_token_by_hash :: "string \<Rightarrow> worker_store \<Rightarrow> worker_token option" where
  "get_token_by_hash hash st =
     map_option (\<lambda>t. (worker_token.truncate t)\<lparr>wt_status := str_or (Some (wt_status t)) ''active''\<rparr>)
       (find (\<lambda>t. tk_hash t = hash) (map snd (ws_tokens st)))"

definition get_token_status :: "string \<Rightarrow> worker_store \<Rightarrow> string option" where
  "get_token_status token_id st = map_option wt_status (dict_get (ws_tokens st) token_id)"

definition touch_token :: "instant \<Rightarrow> string \<Rightarrow> worker_store \<Rightarrow> worker_store" where
  "touch_token now token_id st = snd (update_token token_id (\<lambda>t. t\<lparr>tk_last_used := Some now\<rparr>) st)"

definition record_token_heartbeat :: "instant \<Rightarrow> string \<Rightarrow> jobj \<Rightarrow> worker_store \<Rightarrow> worker_store" where
  "record_token_heartbeat now token_id payload st =
     snd (update_token token_id (\<lambda>t. t\<lparr>tk_last_heartbeat := Some now, tk_heartbeat := payload\<rparr>) st)"

section \<open>Runs\<close>

record run_request =
  rq_template :: string
  rq_scope :: string
  rq_mode :: string
  rq_summary_fields :: "jval list"
  rq_risk_schema :: "jobj list"
  rq_allowed_actions :: "string list"
  rq_runtime_state :: jobj
  rq_metadata :: jobj

definition create_run :: "instant \<Rightarrow> string \<Rightarrow> run_request \<Rightarrow> string \<Rightarrow> worker_store \<Rightarrow> worker_run worker_tx" where
  "create_run now token_id q run_id st =
     (let row = \<lparr>wr_id = run_id, wr_token = token_id, wr_template = rq_template q, wr_scope = rq_scope q, wr_mode = rq_mode q,
                 wr_status = ''open'', wr_summary_fields = rq_summary_fields q, wr_risk_schema = rq_risk_schema q,
                 wr_allowed_actions = rq_allowed_actions q, wr_runtime_state = rq_runtime_state q, wr_metadata = rq_metadata q,
                 wr_nonce = None, wr_claimed_at = None, wr_last_heartbeat = None, wr_created = now, wr_updated = now,
                 wr_closed = None\<rparr>
      in if dict_has (ws_runs st) run_id \<or> rq_mode q \<notin> {''paper'', ''dry_run'', ''live''} then (Inl IntegrityError, st)
         else (Inr row, st\<lparr>ws_runs := dict_set run_id row (ws_runs st)\<rparr>))"

definition get_run :: "string \<Rightarrow> worker_store \<Rightarrow> worker_run option" where
  "get_run run_id st = dict_get (ws_runs st) run_id"

definition cas_run :: "string \<Rightarrow> (worker_run \<Rightarrow> bool) \<Rightarrow> (worker_run \<Rightarrow> worker_run) \<Rightarrow> worker_store \<Rightarrow> worker_run option \<times> worker_store" where
  "cas_run run_id guard change st =
     (case dict_get (ws_runs st) run_id of
        None \<Rightarrow> (None, st)
      | Some r \<Rightarrow> if guard r then (Some (change r), st\<lparr>ws_runs := dict_set run_id (change r) (ws_runs st)\<rparr>) else (None, st))"

definition patch_risk_field :: "jobj \<Rightarrow> jobj \<Rightarrow> jobj" where
  "patch_risk_field patch item =
     (case jstr (obj_get item ''key'') of
        Some k \<Rightarrow> (case dict_get patch k of Some v \<Rightarrow> dict_set ''value'' v item | None \<Rightarrow> item)
      | None \<Rightarrow> item)"

definition sub_dict :: "jobj \<Rightarrow> string \<Rightarrow> jobj" where
  "sub_dict d k = (case jdict (obj_get d k) of Some sub \<Rightarrow> sub | None \<Rightarrow> [])"

definition update_run_risk :: "instant \<Rightarrow> string \<Rightarrow> jobj \<Rightarrow> worker_store \<Rightarrow> worker_run worker_tx" where
  "update_run_risk now run_id patch st =
     (case get_run run_id st of
        None \<Rightarrow> (Inl RunMissing, st)
      | Some run \<Rightarrow>
          let state = dict_set ''risk'' (JObj (dict_update (sub_dict (wr_runtime_state run) ''risk'') patch)) (wr_runtime_state run);
              schema = map (patch_risk_field patch) (wr_risk_schema run);
              (updated, st1) = cas_run run_id (\<lambda>_. True)
                (\<lambda>r. r\<lparr>wr_runtime_state := state, wr_risk_schema := schema, wr_updated := now\<rparr>) st
          in (case updated of Some r \<Rightarrow> Inr r | None \<Rightarrow> Inl RunMissing, st1))"

definition run_statuses :: "string list" where
  "run_statuses = [''open'', ''paused'', ''exiting'', ''closed'', ''failed'']"

definition update_run_status :: "instant \<Rightarrow> string \<Rightarrow> string \<Rightarrow> jobj option \<Rightarrow> worker_store \<Rightarrow> worker_run option worker_tx" where
  "update_run_status now run_id status state_patch st =
     (case get_run run_id st of
        None \<Rightarrow> (Inr None, st)
      | Some run \<Rightarrow>
          if status \<notin> set run_statuses then (Inl IntegrityError, st)
          else
            let state = (case state_patch of None \<Rightarrow> wr_runtime_state run | Some p \<Rightarrow> dict_update (wr_runtime_state run) p);
                (updated, st1) = cas_run run_id (\<lambda>_. True)
                  (\<lambda>r. r\<lparr>wr_status := status, wr_runtime_state := state, wr_updated := now,
                         wr_closed := (if status = ''closed'' then Some now else wr_closed r)\<rparr>) st
            in (Inr updated, st1))"

definition update_run_runtime_state :: "instant \<Rightarrow> string \<Rightarrow> jobj \<Rightarrow> worker_store \<Rightarrow> worker_run option \<times> worker_store" where
  "update_run_runtime_state now run_id state =
     cas_run run_id (\<lambda>_. True) (\<lambda>r. r\<lparr>wr_runtime_state := state, wr_updated := now\<rparr>)"

section \<open>Sessions\<close>

definition session_free :: "instant \<Rightarrow> int \<Rightarrow> int \<Rightarrow> worker_run \<Rightarrow> bool" where
  "session_free now freshness claimed_without_heartbeat r =
     (wr_nonce r = None
      \<or> (case wr_last_heartbeat r of
           Some t \<Rightarrow> t < now - seconds (max 1 freshness)
         | None \<Rightarrow> (case wr_claimed_at r of Some t \<Rightarrow> t < now - seconds (max 1 claimed_without_heartbeat) | None \<Rightarrow> False)))"

definition claim_run_session :: "strategy_env \<Rightarrow> instant \<Rightarrow> string \<Rightarrow> int \<Rightarrow> int \<Rightarrow> worker_store \<Rightarrow> worker_run option \<times> worker_store" where
  "claim_run_session env now run_id freshness claimed_without_heartbeat st =
     (let nonce = ''wsn_'' @ se_uuid env (ws_next st);
          (claimed, st1) = cas_run run_id (session_free now freshness claimed_without_heartbeat)
            (\<lambda>r. r\<lparr>wr_nonce := Some nonce, wr_claimed_at := Some now, wr_updated := now\<rparr>) st
      in (claimed, st1\<lparr>ws_next := Suc (ws_next st)\<rparr>))"

definition release_run_session :: "instant \<Rightarrow> string \<Rightarrow> string \<Rightarrow> worker_store \<Rightarrow> worker_run option \<times> worker_store" where
  "release_run_session now run_id nonce =
     cas_run run_id (\<lambda>r. wr_nonce r = Some nonce) (\<lambda>r. r\<lparr>wr_nonce := None, wr_claimed_at := None, wr_updated := now\<rparr>)"

definition record_run_heartbeat :: "instant \<Rightarrow> string \<Rightarrow> string \<Rightarrow> worker_store \<Rightarrow> worker_run option \<times> worker_store" where
  "record_run_heartbeat now run_id nonce =
     cas_run run_id (\<lambda>r. wr_nonce r = Some nonce) (\<lambda>r. r\<lparr>wr_last_heartbeat := Some now, wr_updated := now\<rparr>)"

definition json_flag :: "jobj \<Rightarrow> string \<Rightarrow> bool" where
  "json_flag d k = (obj_get d k = JBool True)"

text \<open>The runs the recovery sweep looks at: stale, and not left to their own stale-exit protection.\<close>

definition stale_recovery :: "instant \<Rightarrow> int \<Rightarrow> int \<Rightarrow> worker_run \<Rightarrow> bool" where
  "stale_recovery now stale claimed_without_heartbeat r =
     (wr_status r \<in> {''open'', ''paused''}
      \<and> \<not> (wr_nonce r = None \<and> wr_last_heartbeat r = None)
      \<and> \<not> (json_flag (sub_dict (wr_runtime_state r) ''backend_protection'') ''enabled''
            \<and> json_flag (sub_dict (sub_dict (wr_runtime_state r) ''backend_protection'') ''operations'') ''exit_on_worker_stale'')
      \<and> (case wr_last_heartbeat r of
           Some t \<Rightarrow> t < now - seconds (max 1 stale)
         | None \<Rightarrow> (case wr_claimed_at r of Some t \<Rightarrow> t < now - seconds (max 1 claimed_without_heartbeat) | None \<Rightarrow> False)))"

definition list_stale_recovery_runs :: "instant \<Rightarrow> int \<Rightarrow> int \<Rightarrow> worker_store \<Rightarrow> worker_run list" where
  "list_stale_recovery_runs now stale claimed_without_heartbeat st =
     sort_key wr_updated (filter (stale_recovery now stale claimed_without_heartbeat) (map snd (ws_runs st)))"

definition list_exiting_recovery_runs :: "worker_store \<Rightarrow> worker_run list" where
  "list_exiting_recovery_runs st = sort_key wr_updated (filter (\<lambda>r. wr_status r = ''exiting'') (map snd (ws_runs st)))"

definition list_protection_enabled_runs :: "worker_store \<Rightarrow> worker_run list" where
  "list_protection_enabled_runs st =
     sort_key wr_updated
       (filter (\<lambda>r. wr_status r \<in> {''open'', ''exiting''} \<and> json_flag (sub_dict (wr_runtime_state r) ''backend_protection'') ''enabled'')
          (map snd (ws_runs st)))"

section \<open>Intents\<close>

record intent_request =
  iq_key :: string
  iq_type :: string
  iq_payload :: jval

definition intent_row :: "string \<Rightarrow> string \<Rightarrow> intent_request \<Rightarrow> string \<Rightarrow> jobj \<Rightarrow> worker_intent" where
  "intent_row token_id run_id q status result =
     \<lparr>wi_token = token_id, wi_run = run_id, wi_key = iq_key q, wi_type = iq_type q, wi_request = iq_payload q, wi_status = status,
      wi_result = result\<rparr>"

definition get_intent_result :: "string \<Rightarrow> string \<Rightarrow> worker_store \<Rightarrow> jobj option" where
  "get_intent_result run_id key st = map_option wi_result (dict_get (ws_intents st) (run_id, key))"

text \<open>\<open>ON CONFLICT DO UPDATE\<close> with the stored value: the first result wins.\<close>

definition save_intent_result :: "string \<Rightarrow> string \<Rightarrow> intent_request \<Rightarrow> string \<Rightarrow> jobj \<Rightarrow> worker_store \<Rightarrow> jobj \<times> worker_store" where
  "save_intent_result token_id run_id q status result st =
     (case dict_get (ws_intents st) (run_id, iq_key q) of
        Some i \<Rightarrow> (wi_result i, st)
      | None \<Rightarrow> (result, st\<lparr>ws_intents := dict_set (run_id, iq_key q) (intent_row token_id run_id q status result) (ws_intents st)\<rparr>))"

record intent_claim =
  ic_status :: string
  ic_result :: jobj
  ic_claimed :: bool

definition begin_intent :: "string \<Rightarrow> string \<Rightarrow> intent_request \<Rightarrow> jobj \<Rightarrow> string \<Rightarrow> worker_store \<Rightarrow> intent_claim \<times> worker_store" where
  "begin_intent token_id run_id q initial status st =
     (case dict_get (ws_intents st) (run_id, iq_key q) of
        Some i \<Rightarrow> (\<lparr>ic_status = str_or (Some (wi_status i)) status, ic_result = wi_result i, ic_claimed = False\<rparr>, st)
      | None \<Rightarrow>
          (\<lparr>ic_status = str_or (Some status) status, ic_result = initial, ic_claimed = True\<rparr>,
           st\<lparr>ws_intents := dict_set (run_id, iq_key q) (intent_row token_id run_id q status initial) (ws_intents st)\<rparr>))"

definition finalize_intent_result :: "string \<Rightarrow> string \<Rightarrow> string \<Rightarrow> jobj \<Rightarrow> worker_store \<Rightarrow> jobj worker_tx" where
  "finalize_intent_result run_id key status result st =
     (case dict_get (ws_intents st) (run_id, key) of
        None \<Rightarrow> (Inl IntentMissing, st)
      | Some i \<Rightarrow> (Inr result, st\<lparr>ws_intents := dict_set (run_id, key) (i\<lparr>wi_status := status, wi_result := result\<rparr>) (ws_intents st)\<rparr>))"

section \<open>Authorization\<close>

definition token_allows_account_scope :: "string option \<Rightarrow> string \<Rightarrow> bool" where
  "token_allows_account_scope token_scope requested =
     (let ts = str_strip (str_or token_scope []); rs = str_strip requested in
      if ts = [] then True
      else if rs = [] then False
      else (case (parse_account_scope ts, parse_account_scope rs) of
          (Some t, Some r) \<Rightarrow> if \<not> ps_paper t \<and> ps_paper r then True else ps_normalized r = ps_normalized t
        | _ \<Rightarrow> ts = rs))"

definition worker_run_is_visible_to_token :: "worker_token \<Rightarrow> worker_run \<Rightarrow> bool" where
  "worker_run_is_visible_to_token t r =
     (str_lower (str_strip (wr_mode r)) \<in> set (map (\<lambda>m. str_lower (str_strip m)) (wt_modes t))
      \<and> (wt_templates t = [] \<or> wr_template r \<in> set (wt_templates t))
      \<and> token_allows_account_scope (wt_scope t) (wr_scope r))"

text \<open>A page: the cursor is the creation time and identifier of the last run of the page before.\<close>

definition after_cursor :: "(instant \<times> string) option \<Rightarrow> worker_run \<Rightarrow> bool" where
  "after_cursor cursor r =
     (case cursor of None \<Rightarrow> True | Some (created, rid) \<Rightarrow> wr_created r < created \<or> (wr_created r = created \<and> wr_id r < rid))"

definition list_runs ::
  "worker_token \<Rightarrow> int \<Rightarrow> (instant \<times> string) option \<Rightarrow> worker_store \<Rightarrow> worker_error + worker_run list \<times> (instant \<times> string) option" where
  "list_runs t limit cursor st =
     (if limit < 1 \<or> 100 < limit then Inl InvalidLimit
      else
        let rows = rev (sort_key wr_created (sort_key wr_id
              (filter (\<lambda>r. wr_token r = wt_id t \<and> after_cursor cursor r) (map snd (ws_runs st)))));
            visible = filter (worker_run_is_visible_to_token t) rows;
            page = take (nat limit + 1) visible;
            items = take (nat limit) page
        in Inr (items, if int (length page) > limit \<and> items \<noteq> [] then Some (wr_created (last items), wr_id (last items)) else None))"

definition require_worker_token :: "strategy_env \<Rightarrow> instant \<Rightarrow> string \<Rightarrow> worker_store \<Rightarrow> worker_token worker_tx" where
  "require_worker_token env now raw_token st =
     (case get_token_by_hash (se_sha256 env raw_token) st of
        None \<Rightarrow> (Inl (HttpError 401 ''Invalid worker token''), st)
      | Some t \<Rightarrow>
          if wt_status t \<noteq> ''active'' then (Inl (HttpError 401 ''Invalid worker token''), st)
          else if (case wt_expires t of Some e \<Rightarrow> e \<le> now | None \<Rightarrow> False) then (Inl (HttpError 401 ''Worker token expired''), st)
          else (Inr t, touch_token now (wt_id t) st))"

definition require_active_worker_run_session :: "string option \<Rightarrow> worker_run \<Rightarrow> worker_error + string" where
  "require_active_worker_run_session header r =
     (let active = str_strip (str_or (wr_nonce r) []); nonce = str_strip (str_or header []) in
      if active = [] then Inr []
      else if nonce = [] then Inl (HttpError 409 ''WORKER_SESSION_REQUIRED'')
      else if nonce \<noteq> active then Inl (HttpError 409 ''WORKER_SESSION_CONFLICT'')
      else Inr nonce)"

definition require_action :: "worker_token \<Rightarrow> string \<Rightarrow> worker_error + unit" where
  "require_action t action =
     (if action \<notin> set (wt_actions t) then Inl (HttpError 403 (''Worker token is not allowed to perform '' @ action)) else Inr ())"

definition require_worker_gtt_action :: "worker_token \<Rightarrow> string \<Rightarrow> worker_error + unit" where
  "require_worker_gtt_action t action =
     (let accepted = (if action = ''gtt:read'' then [''gtt:read'', ''runs:read'']
                      else if action = ''gtt:write'' then [''gtt:write'', ''intents:submit''] else [action])
      in if list_ex (\<lambda>a. a \<in> set (wt_actions t)) accepted then Inr () else Inl (HttpError 403 ''WORKER_ACTION_NOT_ALLOWED''))"

definition allowed_v1_modes :: "string list" where
  "allowed_v1_modes = [''paper'', ''dry_run'', ''live'']"

definition require_v1_mode :: "string \<Rightarrow> worker_error + unit" where
  "require_v1_mode mode =
     (if str_lower (str_strip mode) \<notin> set allowed_v1_modes then Inl (HttpError 403 ''Algo worker API allows only paper, dry_run, and live'')
      else Inr ())"

definition valid_strategy_families :: "string list" where
  "valid_strategy_families = [''options_strategy'', ''indicator_strategy'', ''investment_strategy'', ''discretionary_strategy'']"

definition metadata_text :: "jobj \<Rightarrow> string \<Rightarrow> string" where
  "metadata_text d k = (if jtruth (obj_get d k) then str_strip (py_str (obj_get d k)) else [])"

definition validate_live_run_contract :: "string \<Rightarrow> jobj \<Rightarrow> worker_error + unit" where
  "validate_live_run_contract scope metadata =
     (case parse_account_scope scope of
        None \<Rightarrow> Inl (HttpError 400 ''Live worker execution requires a kite:<broker_user_id> account_scope'')
      | Some p \<Rightarrow>
          if ps_paper p then Inl (HttpError 400 ''Live worker execution requires a real broker account_scope'')
          else if metadata_text metadata ''strategy_family'' = [] \<or> metadata_text metadata ''strategy_name'' = []
            then Inl (HttpError 400 ''Live worker runs require metadata fields'')
          else if metadata_text metadata ''strategy_family'' \<notin> set valid_strategy_families
            then Inl (HttpError 400 ''Live worker metadata.strategy_family is not supported'')
          else Inr ())"

definition assert_run_access :: "worker_token \<Rightarrow> worker_run \<Rightarrow> worker_error + unit" where
  "assert_run_access t r =
     (if wr_token r \<noteq> wt_id t then Inl (HttpError 403 ''Worker token cannot access this run'')
      else if \<not> token_allows_account_scope (wt_scope t) (wr_scope r) then Inl (HttpError 403 ''Worker token cannot access this account scope'')
      else if wt_templates t \<noteq> [] \<and> wr_template r \<notin> set (wt_templates t)
        then Inl (HttpError 403 ''Worker token cannot access this strategy template'')
      else Inr ())"

section \<open>Creating a run for a token\<close>

text \<open>
  The protection request model and the journal are other components: the first validates and
  normalizes a protection document, the second answers with the references of the journal
  context or raises.
\<close>

record run_services =
  rs_protection :: "jval \<Rightarrow> bool \<Rightarrow> string + jobj"
  rs_journal :: "string \<Rightarrow> string + jobj"

definition initial_backend_protection_state :: "instant \<Rightarrow> jobj \<Rightarrow> int \<Rightarrow> string option \<Rightarrow> jobj" where
  "initial_backend_protection_state now protection generation reason =
     [(''status'', JStr (if jtruth (obj_get protection ''enabled'') then ''active'' else ''disabled'')),
      (''generation'', JInt generation),
      (''version'', JInt (if jtruth (obj_get protection ''version'') then (case py_int (obj_get protection ''version'') of Some v \<Rightarrow> v | None \<Rightarrow> 1) else 1)),
      (''update_reason'', (case reason of Some r \<Rightarrow> JStr r | None \<Rightarrow> JNull)), (''updated_at'', JTime now), (''last_checked_at'', JNull),
      (''triggered_rule'', JNull), (''action'', JNull), (''exit_submitted'', JBool False), (''errors'', JList [])]"

definition journal_refs :: "jobj \<Rightarrow> jobj" where
  "journal_refs refs = map (\<lambda>k. (k, obj_get refs k)) [''environment_id'', ''execution_context_id'', ''template_id'', ''variant_id'', ''deployment_id'']"

definition setdefault :: "string \<Rightarrow> jval \<Rightarrow> jobj \<Rightarrow> jobj" where
  "setdefault k v d = (if dict_has d k then d else dict_set k v d)"

definition attach_journal :: "string + jobj \<Rightarrow> run_request \<Rightarrow> run_request" where
  "attach_journal answer q =
     (case answer of
        Inr refs \<Rightarrow> q\<lparr>rq_metadata := dict_set ''journal_v2'' (JObj refs) (rq_metadata q),
                       rq_runtime_state := dict_set ''journal_v2'' (JObj (journal_refs refs)) (rq_runtime_state q)\<rparr>
      | Inl msg \<Rightarrow> q\<lparr>rq_metadata := setdefault ''journal_v2_warning_detail'' (JStr msg)
                       (setdefault ''journal_v2_warning'' (JStr ''context_resolution_failed'') (rq_metadata q))\<rparr>)"

text \<open>The checks of a run against its token, in the code's order.\<close>

definition authorize_run :: "worker_token \<Rightarrow> run_request \<Rightarrow> worker_error + unit" where
  "authorize_run t q =
     (case require_v1_mode (rq_mode q) of
        Inl e \<Rightarrow> Inl e
      | Inr _ \<Rightarrow>
          (case parse_account_scope (rq_scope q) of
             None \<Rightarrow> Inl (HttpError 400 (scope_error (rq_scope q)))
           | Some p \<Rightarrow>
               if rq_mode q = ''paper'' \<and> \<not> ps_paper p then Inl (HttpError 400 ''Paper worker runs require a paper account_scope'')
               else if \<not> token_allows_account_scope (wt_scope t) (rq_scope q)
                 then Inl (HttpError 403 ''Worker token cannot create runs for this account scope'')
               else if wt_templates t \<noteq> [] \<and> rq_template q \<notin> set (wt_templates t)
                 then Inl (HttpError 403 ''Worker token cannot create this strategy template'')
               else if rq_mode q \<notin> set (wt_modes t) then Inl (HttpError 403 ''Worker token cannot use this execution mode'')
               else if rq_mode q = ''live'' then validate_live_run_contract (rq_scope q) (rq_metadata q)
               else Inr ()))"

definition attach_protection :: "run_services \<Rightarrow> instant \<Rightarrow> run_request \<Rightarrow> worker_error + run_request" where
  "attach_protection services now q =
     (case dict_get (rq_runtime_state q) ''backend_protection'' of
        None \<Rightarrow> Inr q
      | Some p \<Rightarrow>
          (case rs_protection services p (rq_mode q = ''live'') of
             Inl msg \<Rightarrow> Inl (HttpError 422 msg)
           | Inr protection \<Rightarrow>
               Inr (q\<lparr>rq_runtime_state :=
                 dict_set ''backend_protection_state'' (JObj (initial_backend_protection_state now protection 1 (Some ''run_create'')))
                   (dict_set ''backend_protection'' (JObj protection) (rq_runtime_state q))\<rparr>)))"

definition create_worker_run_for_token ::
  "run_services \<Rightarrow> instant \<Rightarrow> worker_token \<Rightarrow> run_request \<Rightarrow> string \<Rightarrow> worker_store \<Rightarrow> worker_run worker_tx" where
  "create_worker_run_for_token services now t q run_id st =
     (case authorize_run t q of
        Inl e \<Rightarrow> (Inl e, st)
      | Inr _ \<Rightarrow>
          (case attach_protection services now q of
             Inl e \<Rightarrow> (Inl e, st)
           | Inr q1 \<Rightarrow>
               (case create_run now (wt_id t) (attach_journal (rs_journal services run_id) q1) run_id st of
                  (Inl e, st1) \<Rightarrow> (Inl (HttpError 409 ''Strategy run already exists''), st1)
                | (Inr r, st1) \<Rightarrow> (Inr r, st1))))"

end
