(* ===== verification/WorkerTheorems.thy ===== *)
theory WorkerTheorems
  imports WorkerStore
begin

text \<open>
  What the worker store keeps over any history of its operations: a token's rights and hash
  never change and a revoked token stays revoked, a run keeps the token, template, account and
  mode it was created with, and an intent row is never replaced. The locales \<open>token_change\<close> and
  \<open>run_change\<close> are the contracts of the row updates; each is interpreted on every update the
  repository performs. The last section gives the safety properties of the worker boundary:
  credentials, intents and sessions.
\<close>

section \<open>Contracts\<close>

definition token_rights :: "token_row \<Rightarrow> _" where
  "token_rights t = ((wt_id t, wt_scope t, wt_modes t), wt_actions t, wt_templates t, wt_expires t, tk_hash t)"

definition token_keeps :: "token_row \<Rightarrow> token_row \<Rightarrow> bool" where
  "token_keeps t t' \<longleftrightarrow> token_rights t' = token_rights t \<and> (wt_status t' = wt_status t \<or> wt_status t' = ''revoked'')"

definition run_identity :: "worker_run \<Rightarrow> _" where
  "run_identity r = ((wr_id r, wr_token r, wr_template r), wr_scope r, wr_mode r, wr_created r)"

definition tokens_inv :: "worker_store \<Rightarrow> bool" where
  "tokens_inv st \<longleftrightarrow> distinct (map fst (ws_tokens st)) \<and> (\<forall>(k, t) \<in> set (ws_tokens st). wt_id t = k)
     \<and> (\<forall>(k, t) \<in> set (ws_tokens st). \<forall>(k', t') \<in> set (ws_tokens st). tk_hash t = tk_hash t' \<longrightarrow> k = k')"

definition keeps :: "worker_store \<Rightarrow> worker_store \<Rightarrow> bool" where
  "keeps st st' \<longleftrightarrow> tokens_inv st'
     \<and> (\<forall>k t. dict_get (ws_tokens st) k = Some t \<longrightarrow> (\<exists>t'. dict_get (ws_tokens st') k = Some t' \<and> token_keeps t t'))
     \<and> (\<forall>k r. dict_get (ws_runs st) k = Some r \<longrightarrow> (\<exists>r'. dict_get (ws_runs st') k = Some r' \<and> run_identity r' = run_identity r))
     \<and> (\<forall>k. dict_has (ws_intents st) k \<longrightarrow> dict_has (ws_intents st') k)"

lemma token_keeps_refl [simp]: "token_keeps t t"
  by (simp add: token_keeps_def)

lemma token_keeps_trans: "token_keeps a b \<Longrightarrow> token_keeps b c \<Longrightarrow> token_keeps a c"
  by (auto simp: token_keeps_def)

lemma keeps_refl [simp]: "tokens_inv st \<Longrightarrow> keeps st st"
  using token_keeps_refl by (auto simp: keeps_def)

lemma keeps_token: "keeps st st' \<Longrightarrow> dict_get (ws_tokens st) k = Some t \<Longrightarrow> \<exists>t'. dict_get (ws_tokens st') k = Some t' \<and> token_keeps t t'"
  by (simp add: keeps_def)

lemma keeps_run:
  "keeps st st' \<Longrightarrow> dict_get (ws_runs st) k = Some r \<Longrightarrow> \<exists>r'. dict_get (ws_runs st') k = Some r' \<and> run_identity r' = run_identity r"
  by (simp add: keeps_def)

lemma keeps_intent: "keeps st st' \<Longrightarrow> dict_has (ws_intents st) k \<Longrightarrow> dict_has (ws_intents st') k"
  by (cases k) (simp add: keeps_def)

lemma keeps_inv: "keeps st st' \<Longrightarrow> tokens_inv st'"
  by (simp add: keeps_def)

lemma keeps_trans:
  assumes "keeps a b" "keeps b c"
  shows "keeps a c"
proof -
  have "\<exists>t'. dict_get (ws_tokens c) k = Some t' \<and> token_keeps t t'" if "dict_get (ws_tokens a) k = Some t" for k t
    using keeps_token [OF assms(1) that] keeps_token [OF assms(2)] token_keeps_trans by blast
  moreover have "\<exists>r'. dict_get (ws_runs c) k = Some r' \<and> run_identity r' = run_identity r" if "dict_get (ws_runs a) k = Some r" for k r
    using keeps_run [OF assms(1) that] keeps_run [OF assms(2)] by fastforce
  moreover have "dict_has (ws_intents c) k" if "dict_has (ws_intents a) k" for k
    using keeps_intent assms that by blast
  ultimately show ?thesis using keeps_inv [OF assms(2)] by (simp add: keeps_def)
qed

lemma keeps_other:
  assumes "tokens_inv st" "ws_tokens st' = ws_tokens st" "ws_runs st' = ws_runs st"
    "\<And>k. dict_has (ws_intents st) k \<Longrightarrow> dict_has (ws_intents st') k"
  shows "keeps st st'"
  using assms token_keeps_refl by (auto simp: keeps_def tokens_inv_def)

lemma set_dict_set_token:
  "distinct (map fst d) \<Longrightarrow> set (dict_set k v d) = insert (k, v) {(k', v'). (k', v') \<in> set d \<and> k' \<noteq> k}"
  by (induction d) (auto simp: image_iff)

locale token_change =
  fixes change :: "token_row \<Rightarrow> token_row"
  assumes change_keeps: "token_keeps t (change t)"
begin

lemma update_tokens_inv:
  assumes inv: "tokens_inv st"
  shows "tokens_inv (snd (update_token k change st))"
proof (cases "dict_get (ws_tokens st) k")
  case (Some t)
  have d: "distinct (map fst (ws_tokens st))" using inv by (simp add: tokens_inv_def)
  have c: "wt_id (change t) = wt_id t" "tk_hash (change t) = tk_hash t"
    using change_keeps [of t] by (auto simp: token_keeps_def token_rights_def)
  have m: "(k, t) \<in> set (ws_tokens st)" using map_of_SomeD [OF Some] .
  have old: "\<exists>t1. (k1, t1) \<in> set (ws_tokens st) \<and> wt_id t' = wt_id t1 \<and> tk_hash t' = tk_hash t1"
    if "(k1, t') \<in> set (dict_set k (change t) (ws_tokens st))" for k1 t'
    using that m c unfolding set_dict_set_token [OF d] by auto
  let ?st = "st\<lparr>ws_tokens := dict_set k (change t) (ws_tokens st)\<rparr>"
  have "wt_id t' = k1" if "(k1, t') \<in> set (ws_tokens ?st)" for k1 t'
    using old [of k1 t'] that inv by (auto simp: tokens_inv_def)
  moreover have "k1 = k2" if h: "(k1, t1) \<in> set (ws_tokens ?st)" "(k2, t2) \<in> set (ws_tokens ?st)" "tk_hash t1 = tk_hash t2" for k1 t1 k2 t2
  proof -
    obtain u1 where "(k1, u1) \<in> set (ws_tokens st)" "tk_hash t1 = tk_hash u1" using old h(1) by auto
    moreover obtain u2 where "(k2, u2) \<in> set (ws_tokens st)" "tk_hash t2 = tk_hash u2" using old h(2) by auto
    ultimately show ?thesis using inv h(3) unfolding tokens_inv_def by fastforce
  qed
  ultimately have "tokens_inv ?st" using d unfolding tokens_inv_def by (auto simp: distinct_update)
  then show ?thesis by (simp add: update_token_def Some)
qed (simp add: update_token_def inv)

lemma update_keeps:
  assumes "tokens_inv st"
  shows "keeps st (snd (update_token k change st))"
  using update_tokens_inv [OF assms, of k] token_keeps_refl change_keeps
  by (auto simp: keeps_def update_token_def split: option.splits)

end

interpretation revoke: token_change "\<lambda>t. t\<lparr>wt_status := ''revoked''\<rparr>"
  by unfold_locales (simp add: token_keeps_def token_rights_def)

interpretation touch: token_change "\<lambda>t. t\<lparr>tk_last_used := Some now\<rparr>" for now
  by unfold_locales (simp add: token_keeps_def token_rights_def)

interpretation beat: token_change "\<lambda>t. t\<lparr>tk_last_heartbeat := Some now, tk_heartbeat := payload\<rparr>" for now payload
  by unfold_locales (simp add: token_keeps_def token_rights_def)

locale run_change =
  fixes change :: "worker_run \<Rightarrow> worker_run"
  assumes change_identity: "run_identity (change r) = run_identity r"
begin

lemma cas_run_keeps: "tokens_inv st \<Longrightarrow> keeps st (snd (cas_run k guard change st))"
  using token_keeps_refl change_identity by (auto simp: keeps_def cas_run_def tokens_inv_def split: option.splits)

end

interpretation risk: run_change "\<lambda>r. r\<lparr>wr_runtime_state := state, wr_risk_schema := schema, wr_updated := now\<rparr>" for state schema now
  by unfold_locales (simp add: run_identity_def)

interpretation status: run_change
  "\<lambda>r. r\<lparr>wr_status := s, wr_runtime_state := state, wr_updated := now, wr_closed := (if s = ''closed'' then Some now else wr_closed r)\<rparr>"
  for s state now
  by unfold_locales (simp add: run_identity_def)

interpretation runtime_state: run_change "\<lambda>r. r\<lparr>wr_runtime_state := state, wr_updated := now\<rparr>" for state now
  by unfold_locales (simp add: run_identity_def)

interpretation claim_session: run_change "\<lambda>r. r\<lparr>wr_nonce := n, wr_claimed_at := c, wr_updated := now\<rparr>" for n c now
  by unfold_locales (simp add: run_identity_def)

interpretation run_beat: run_change "\<lambda>r. r\<lparr>wr_last_heartbeat := Some now, wr_updated := now\<rparr>" for now
  by unfold_locales (simp add: run_identity_def)

section \<open>Each operation\<close>

lemma create_token_keeps:
  assumes inv: "tokens_inv st"
  shows "keeps st (snd (create_token env now q raw tid st))"
proof (cases "dict_has (ws_tokens st) tid \<or> list_ex (\<lambda>(k, t). tk_hash t = se_sha256 env raw) (ws_tokens st)")
  case False
  then have new: "tid \<notin> fst ` set (ws_tokens st)" by (auto simp: dict_has_def map_of_eq_None_iff)
  have none: "dict_get (ws_tokens st) tid = None" using new by (simp add: map_of_eq_None_iff)
  obtain row where r: "snd (create_token env now q raw tid st) = st\<lparr>ws_tokens := dict_set tid row (ws_tokens st)\<rparr>"
    "wt_id row = tid" "tk_hash row = se_sha256 env raw"
    using False by (auto simp: create_token_def Let_def)
  have d: "distinct (map fst (ws_tokens st))" using inv by (simp add: tokens_inv_def)
  have fresh: "tk_hash t \<noteq> tk_hash row" if "(k, t) \<in> set (ws_tokens st)" for k t
    using False that r(3) by (auto simp: list_ex_iff)
  have "tokens_inv (snd (create_token env now q raw tid st))"
    using inv fresh new r(2) d unfolding r(1) tokens_inv_def
    by (auto simp: set_dict_set_token distinct_update) (metis fresh)+
  then show ?thesis using none token_keeps_refl unfolding keeps_def r(1) by auto
qed (use inv in \<open>simp add: create_token_def Let_def\<close>)

lemma create_run_keeps: "tokens_inv st \<Longrightarrow> keeps st (snd (create_run now tid q rid st))"
  using token_keeps_refl by (auto simp: create_run_def Let_def keeps_def tokens_inv_def dict_has_def)

lemma create_worker_run_keeps: "tokens_inv st \<Longrightarrow> keeps st (snd (create_worker_run_for_token services now t q rid st))"
  using create_run_keeps [of st now "wt_id t" _ rid]
  by (auto simp: create_worker_run_for_token_def split: sum.splits prod.splits) (metis snd_conv)+

lemma update_run_risk_keeps: "tokens_inv st \<Longrightarrow> keeps st (snd (update_run_risk now rid patch st))"
  using risk.cas_run_keeps by (auto simp: update_run_risk_def Let_def split_def split: option.splits)

lemma update_run_status_keeps: "tokens_inv st \<Longrightarrow> keeps st (snd (update_run_status now rid s patch st))"
  using status.cas_run_keeps by (auto simp: update_run_status_def Let_def split_def split: option.splits)

lemma claim_run_session_keeps: "tokens_inv st \<Longrightarrow> keeps st (snd (claim_run_session env now rid fresh wait st))"
proof -
  assume inv: "tokens_inv st"
  have "keeps st (st1\<lparr>ws_next := n\<rparr>)" if "keeps st st1" for st1 n
    by (rule keeps_trans [OF that], rule keeps_other) (use keeps_inv [OF that] in simp_all)
  then show ?thesis using claim_session.cas_run_keeps [OF inv] by (simp add: claim_run_session_def Let_def split_def)
qed

lemma intents_keep:
  assumes "tokens_inv st"
  shows "keeps st (snd (save_intent_result tid rid q s result st))" "keeps st (snd (begin_intent tid rid q initial s st))"
    "keeps st (snd (finalize_intent_result rid key s result st))"
  using assms
  by (auto intro!: keeps_other simp: save_intent_result_def begin_intent_def finalize_intent_result_def dict_has_def split: option.splits)

section \<open>Histories\<close>

inductive worker_step :: "strategy_env \<Rightarrow> worker_store \<Rightarrow> worker_store \<Rightarrow> bool" for env where
  "worker_step env st (snd (create_token env now q raw tid st))"
| "worker_step env st (snd (revoke_token tid st))"
| "worker_step env st (touch_token now tid st)"
| "worker_step env st (record_token_heartbeat now tid payload st)"
| "worker_step env st (snd (create_worker_run_for_token services now t q rid st))"
| "worker_step env st (snd (update_run_risk now rid patch st))"
| "worker_step env st (snd (update_run_status now rid s state_patch st))"
| "worker_step env st (snd (update_run_runtime_state now rid state st))"
| "worker_step env st (snd (claim_run_session env now rid fresh wait st))"
| "worker_step env st (snd (release_run_session now rid nonce st))"
| "worker_step env st (snd (record_run_heartbeat now rid nonce st))"
| "worker_step env st (snd (save_intent_result tid rid iq s result st))"
| "worker_step env st (snd (begin_intent tid rid iq result s st))"
| "worker_step env st (snd (finalize_intent_result rid key s result st))"

lemma worker_step_keeps: "worker_step env st st' \<Longrightarrow> tokens_inv st \<Longrightarrow> keeps st st'"
  by (induction rule: worker_step.induct)
     (simp_all add: create_token_keeps revoke_token_def revoke.update_keeps touch_token_def touch.update_keeps record_token_heartbeat_def
        beat.update_keeps create_worker_run_keeps update_run_risk_keeps update_run_status_keeps update_run_runtime_state_def
        runtime_state.cas_run_keeps claim_run_session_keeps release_run_session_def claim_session.cas_run_keeps record_run_heartbeat_def
        run_beat.cas_run_keeps intents_keep)

abbreviation worker_history :: "strategy_env \<Rightarrow> worker_store \<Rightarrow> worker_store \<Rightarrow> bool" where
  "worker_history env \<equiv> (worker_step env)\<^sup>*\<^sup>*"

lemma worker_history_keeps: "worker_history env st st' \<Longrightarrow> tokens_inv st \<Longrightarrow> keeps st st'"
proof (induction rule: rtranclp_induct)
  case (step y z)
  then have y: "keeps st y" by simp
  then have "keeps y z" using worker_step_keeps [OF step.hyps(2)] by (simp add: keeps_def)
  with y show ?case by (rule keeps_trans)
qed simp

lemma empty_tokens_inv [simp]: "tokens_inv empty_workers"
  by (simp add: tokens_inv_def empty_workers_def)

lemma reachable_tokens_inv: "worker_history env empty_workers st \<Longrightarrow> tokens_inv st"
  using worker_history_keeps by (fastforce simp: keeps_def)

section \<open>The worker boundary\<close>

lemma find_hash:
  assumes inv: "tokens_inv st" and t: "dict_get (ws_tokens st) tid = Some t"
  shows "find (\<lambda>u. tk_hash u = tk_hash t) (map snd (ws_tokens st)) = Some t"
proof -
  have m: "(tid, t) \<in> set (ws_tokens st)" using map_of_SomeD [OF t] .
  then obtain u where u: "find (\<lambda>u. tk_hash u = tk_hash t) (map snd (ws_tokens st)) = Some u"
    by (cases "find (\<lambda>u. tk_hash u = tk_hash t) (map snd (ws_tokens st))") (auto simp: find_None_iff)
  then have "u \<in> set (map snd (ws_tokens st))" "tk_hash u = tk_hash t" by (auto simp: find_Some_iff nth_mem)
  then obtain k where k: "(k, u) \<in> set (ws_tokens st)" by auto
  then have "k = tid" using inv m \<open>tk_hash u = tk_hash t\<close> unfolding tokens_inv_def by fastforce
  then have "u = t" using inv k m by (auto simp: tokens_inv_def dest: eq_key_imp_eq_value)
  with u show ?thesis by simp
qed

lemma get_token_by_hash_status:
  assumes "tokens_inv st" "dict_get (ws_tokens st) tid = Some t" "tk_hash t = h" "wt_status t \<noteq> []"
  shows "\<exists>u. get_token_by_hash h st = Some u \<and> wt_status u = wt_status t \<and> wt_id u = tid"
proof -
  have "wt_id t = tid" using assms(1) map_of_SomeD [OF assms(2)] by (auto simp: tokens_inv_def)
  then show ?thesis
    using find_hash [OF assms(1,2)] assms(3,4) by (simp add: get_token_by_hash_def str_or_def worker_token.defs)
qed

text \<open>
  C35. Revocation is final: once a token is revoked, no later history of the worker store lets a
  request authenticate with its secret.
\<close>

theorem revoked_token_never_authenticates:
  assumes "worker_history env empty_workers st" "dict_get (ws_tokens st) tid = Some t" "tk_hash t = se_sha256 env raw"
    and "worker_history env (snd (revoke_token tid st)) st'"
  shows "require_worker_token env now raw st' = (Inl (HttpError 401 ''Invalid worker token''), st')"
proof -
  let ?st1 = "snd (revoke_token tid st)"
  have inv: "tokens_inv st" using assms(1) by (rule reachable_tokens_inv)
  have inv1: "tokens_inv ?st1" using worker_step_keeps [OF worker_step.intros(2) inv] by (rule keeps_inv)
  have k: "keeps ?st1 st'" using worker_history_keeps [OF assms(4) inv1] .
  have "dict_get (ws_tokens ?st1) tid = Some (t\<lparr>wt_status := ''revoked''\<rparr>)"
    using assms(2) by (simp add: revoke_token_def update_token_def)
  then obtain t' where t': "dict_get (ws_tokens st') tid = Some t'" "token_keeps (t\<lparr>wt_status := ''revoked''\<rparr>) t'"
    using keeps_token [OF k] by blast
  then have "tk_hash t' = se_sha256 env raw" "wt_status t' = ''revoked''"
    using assms(3) by (auto simp: token_keeps_def token_rights_def)
  then obtain u where "get_token_by_hash (se_sha256 env raw) st' = Some u" "wt_status u = ''revoked''"
    using get_token_by_hash_status [OF keeps_inv [OF k] t'(1)] by auto
  then show ?thesis by (simp add: require_worker_token_def)
qed

text \<open>
  C14. An intent is claimed at most once: after a caller has begun an intent under an idempotency
  key of a run, every later caller with that key, whatever it asks for and whatever happened in
  between, is told that it does not own the intent and writes nothing. (This is about the claim:
  the route of single orders looks up a result and stores it after the execution, without
  beginning an intent.)
\<close>

theorem intent_claimed_at_most_once:
  assumes "worker_history env empty_workers st" "worker_history env (snd (begin_intent tid rid q initial s st)) st'" "iq_key q' = iq_key q"
  shows "\<not> ic_claimed (fst (begin_intent tid' rid q' initial' s' st')) \<and> snd (begin_intent tid' rid q' initial' s' st') = st'"
proof -
  have inv: "tokens_inv st" using assms(1) by (rule reachable_tokens_inv)
  have inv1: "tokens_inv (snd (begin_intent tid rid q initial s st))" using intents_keep(2) [OF inv] by (rule keeps_inv)
  have "dict_has (ws_intents (snd (begin_intent tid rid q initial s st))) (rid, iq_key q)"
    by (auto simp: begin_intent_def dict_has_def split: option.splits)
  then have "dict_has (ws_intents st') (rid, iq_key q)"
    using keeps_intent worker_history_keeps [OF assms(2) inv1] by blast
  then show ?thesis using assms(3) by (auto simp: begin_intent_def dict_has_def)
qed

text \<open>
  A worker session has one holder: while a run's session is fresh nobody else can claim it,
  and a claim that does take over a free or stale session makes the previous nonce useless at
  once, for heartbeats, for releases and for every request that must prove its session.
\<close>

theorem session_has_one_holder:
  assumes "get_run rid st = Some r" "wr_nonce r = Some old"
  shows "(\<not> session_free now fresh wait r \<longrightarrow>
       fst (claim_run_session env now rid fresh wait st) = None \<and> ws_runs (snd (claim_run_session env now rid fresh wait st)) = ws_runs st)
    \<and> (session_free now fresh wait r \<and> old \<noteq> ''wsn_'' @ se_uuid env (ws_next st) \<longrightarrow>
        (\<exists>r' st'. claim_run_session env now rid fresh wait st = (Some r', st') \<and> get_run rid st' = Some r'
          \<and> record_run_heartbeat t1 rid old st' = (None, st') \<and> release_run_session t1 rid old st' = (None, st')))"
  using assms
  by (auto simp: claim_run_session_def cas_run_def get_run_def record_run_heartbeat_def release_run_session_def Let_def)

section \<open>A sample history\<close>

definition worker_env :: strategy_env where
  "worker_env = \<lparr>se_uuid = nat_str, se_sha256 = (\<lambda>s. ''sha:'' @ s), se_check_schema = (\<lambda>_. None), se_param_error = (\<lambda>_ _. None)\<rparr>"

definition sample_token_request :: token_request where
  "sample_token_request = \<lparr>tq_name = ''w'', tq_scope = Some ''kite:paper-1'', tq_modes = [''paper''], tq_actions = [''runs:read''],
     tq_templates = [], tq_expires = None, tq_metadata = []\<rparr>"

definition sample_run_request :: run_request where
  "sample_run_request = \<lparr>rq_template = ''tpl'', rq_scope = ''kite:paper-1'', rq_mode = ''paper'', rq_summary_fields = [], rq_risk_schema = [],
     rq_allowed_actions = [], rq_runtime_state = [], rq_metadata = []\<rparr>"

definition sample_services :: run_services where
  "sample_services = \<lparr>rs_protection = (\<lambda>_ _. Inl ''unsupported''), rs_journal = (\<lambda>_. Inr [])\<rparr>"

definition worker_tokens :: worker_store where
  "worker_tokens = snd (create_token worker_env 10 sample_token_request ''kwa_1'' ''worker_1'' empty_workers)"

definition worker_runs :: worker_store where
  "worker_runs = snd (claim_run_session worker_env 30 ''run_1'' 60 120 (snd (create_worker_run_for_token sample_services 20
     \<lparr>wt_id = ''worker_1'', wt_name = ''w'', wt_scope = Some ''kite:paper-1'', wt_modes = [''paper''], wt_actions = [''runs:read''],
      wt_templates = [], wt_status = ''active'', wt_expires = None\<rparr> sample_run_request ''run_1'' worker_tokens)))"

lemma worker_history_step: "worker_step env st st' \<Longrightarrow> worker_history env st0 st \<Longrightarrow> worker_history env st0 st'"
  by (rule rtranclp.rtrancl_into_rtrancl)

lemma worker_histories: "worker_history worker_env empty_workers worker_tokens" "worker_history worker_env empty_workers worker_runs"
proof -
  show *: "worker_history worker_env empty_workers worker_tokens"
    unfolding worker_tokens_def by (rule rtranclp.rtrancl_refl worker_step.intros worker_history_step)+
  show "worker_history worker_env empty_workers worker_runs"
    unfolding worker_runs_def by (rule * worker_step.intros worker_history_step)+
qed

theorem revoked_token_never_authenticates_witness:
  "fst (require_worker_token worker_env 40 ''kwa_1'' worker_tokens) \<noteq> Inl (HttpError 401 ''Invalid worker token'')
   \<and> fst (require_worker_token worker_env 40 ''kwa_1'' (snd (revoke_token ''worker_1'' worker_tokens))) = Inl (HttpError 401 ''Invalid worker token'')"
proof -
  have "map_option tk_hash (dict_get (ws_tokens worker_tokens) ''worker_1'') = Some (se_sha256 worker_env ''kwa_1'')" by code_simp
  then obtain t where t: "dict_get (ws_tokens worker_tokens) ''worker_1'' = Some t" "tk_hash t = se_sha256 worker_env ''kwa_1''"
    by (auto simp: map_option_case split: option.splits)
  have "\<not> isl (fst (require_worker_token worker_env 40 ''kwa_1'' worker_tokens))" by code_simp
  then show ?thesis
    using revoked_token_never_authenticates [OF worker_histories(1) t rtranclp.rtrancl_refl, of 40] by auto
qed

theorem intent_claimed_at_most_once_witness:
  "ic_claimed (fst (begin_intent ''w'' ''run_1'' \<lparr>iq_key = ''k'', iq_type = ''order'', iq_payload = JNull\<rparr> [] ''pending'' worker_runs))
   \<and> \<not> ic_claimed (fst (begin_intent ''w'' ''run_1'' \<lparr>iq_key = ''k'', iq_type = ''order'', iq_payload = JNull\<rparr> [] ''pending''
        (snd (begin_intent ''w'' ''run_1'' \<lparr>iq_key = ''k'', iq_type = ''order'', iq_payload = JNull\<rparr> [] ''pending'' worker_runs))))"
proof
  show "ic_claimed (fst (begin_intent ''w'' ''run_1'' \<lparr>iq_key = ''k'', iq_type = ''order'', iq_payload = JNull\<rparr> [] ''pending'' worker_runs))"
    by code_simp
qed (rule intent_claimed_at_most_once [OF worker_histories(2) rtranclp.rtrancl_refl refl, THEN conjunct1])

theorem session_has_one_holder_witness:
  "fst (claim_run_session worker_env 40 ''run_1'' 60 120 worker_runs) = None
   \<and> (\<exists>r' st'. claim_run_session worker_env 200000000 ''run_1'' 60 120 worker_runs = (Some r', st')
        \<and> record_run_heartbeat 200000001 ''run_1'' ''wsn_0'' st' = (None, st'))"
proof -
  have "map_option (\<lambda>r. (wr_nonce r, session_free 40 60 120 r, session_free 200000000 60 120 r)) (get_run ''run_1'' worker_runs)
      = Some (Some ''wsn_0'', False, True)" and n: "''wsn_0'' \<noteq> ''wsn_'' @ se_uuid worker_env (ws_next worker_runs)"
    by code_simp+
  then obtain r where r: "get_run ''run_1'' worker_runs = Some r" "wr_nonce r = Some ''wsn_0''" "\<not> session_free 40 60 120 r" "session_free 200000000 60 120 r"
    by (auto simp: map_option_case split: option.splits)
  show ?thesis
    using session_has_one_holder [OF r(1,2), of 40 60 120 worker_env 0] session_has_one_holder [OF r(1,2), of 200000000 60 120 worker_env 200000001] r(3,4) n
    by blast
qed

end
