(* ===== verification/HostedAttempt.thy ===== *)
theory HostedAttempt
  imports StrategyLedger WorkerTheorems
begin

text \<open>
  The authority of a hosted child at the worker HTTP boundary
  (\<open>api/services/hosted_attempt.py\<close>), the worker routes it guards
  (\<open>api/routers/worker_auth.py\<close>) and the operator's account allowlist
  (\<open>api/services/hosted_strategy_authz.py\<close>). The decision combines the run and token of the
  worker store with the job row of the hosted-strategy store.

  The theorems: authority, once lost, is never regained; two attempts of a strategy never hold
  it at the same time; and a hosted run's session is out of reach of its own child.
\<close>

section \<open>Hosted runs\<close>

definition is_hosted_template_id :: "string \<Rightarrow> bool" where
  "is_hosted_template_id template = starts_with template ''hosted:''"

definition is_hosted_run :: "worker_run option \<Rightarrow> bool" where
  "is_hosted_run run = (case run of None \<Rightarrow> False | Some r \<Rightarrow> is_hosted_template_id (wr_template r))"

definition token_is_hosted_candidate :: "worker_token \<Rightarrow> bool" where
  "token_is_hosted_candidate t = list_ex is_hosted_template_id (wt_templates t)"

section \<open>Authority\<close>

definition validate_authority :: "instant \<Rightarrow> strategy_job \<Rightarrow> worker_token \<Rightarrow> worker_run \<Rightarrow> worker_error + unit" where
  "validate_authority now j t r =
     (if str_or (sj_run j) [] \<noteq> wr_id r \<or> str_or (sj_token j) [] \<noteq> wt_id t then Inl (HttpError 403 ''HOSTED_ATTEMPT_TOKEN_MISMATCH'')
      else if wr_template r \<noteq> template_id_for (sj_strategy j) then Inl (HttpError 403 ''HOSTED_ATTEMPT_TEMPLATE_MISMATCH'')
      else if sj_mode j \<noteq> wr_mode r \<or> sj_scope j \<noteq> wr_scope r then Inl (HttpError 409 ''HOSTED_ATTEMPT_CONFIG_MISMATCH'')
      else if sj_desired j \<noteq> ''started'' then Inl (HttpError 409 ''HOSTED_ATTEMPT_STOPPED'')
      else if sj_status j \<notin> set live_statuses then Inl (HttpError 409 ''HOSTED_ATTEMPT_FENCED'')
      else (case sj_lease_until j of
          None \<Rightarrow> Inl (HttpError 409 ''HOSTED_LEASE_EXPIRED'')
        | Some t \<Rightarrow> if t \<le> now then Inl (HttpError 409 ''HOSTED_LEASE_EXPIRED'') else Inr ()))"

definition enforce_hosted_attempt_authority :: "instant \<Rightarrow> worker_token \<Rightarrow> worker_run option \<Rightarrow> strategy_store \<Rightarrow> worker_error + unit" where
  "enforce_hosted_attempt_authority now t run st =
     (case run of
        None \<Rightarrow> Inr ()
      | Some r \<Rightarrow>
          if \<not> is_hosted_run run then Inr ()
          else (case get_job_by_run_id (wr_id r) st of
              None \<Rightarrow> Inl (HttpError 403 ''HOSTED_ATTEMPT_UNKNOWN'')
            | Some j \<Rightarrow> validate_authority now j t r))"

definition assert_child_lifecycle_forbidden :: "worker_run option \<Rightarrow> worker_error + unit" where
  "assert_child_lifecycle_forbidden run = (if is_hosted_run run then Inl (HttpError 403 ''HOSTED_CHILD_LIFECYCLE_FORBIDDEN'') else Inr ())"

definition hosted_job_for_run :: "worker_run option \<Rightarrow> strategy_store \<Rightarrow> strategy_job option" where
  "hosted_job_for_run run st =
     (if \<not> is_hosted_run run then None else (case run of Some r \<Rightarrow> get_job_by_run_id (wr_id r) st | None \<Rightarrow> None))"

definition hosted_job_for_token :: "worker_token \<Rightarrow> strategy_store \<Rightarrow> strategy_job option" where
  "hosted_job_for_token t st = (if \<not> token_is_hosted_candidate t then None else get_job_by_token_id (wt_id t) st)"

definition assert_hosted_run_binding :: "worker_run option \<Rightarrow> worker_token \<Rightarrow> worker_error + unit" where
  "assert_hosted_run_binding run t =
     (case run of
        None \<Rightarrow> Inl (HttpError 403 ''HOSTED_CHILD_RUN_REQUIRED'')
      | Some r \<Rightarrow> if wr_token r \<noteq> wt_id t then Inl (HttpError 403 ''HOSTED_CHILD_RUN_REQUIRED'') else Inr ())"

definition record_hosted_progress ::
  "instant \<Rightarrow> worker_token \<Rightarrow> worker_run option \<Rightarrow> strategy_store \<Rightarrow> (worker_error + string \<times> string \<times> bool) \<times> strategy_store" where
  "record_hosted_progress now t run st =
     (case run of
        None \<Rightarrow> (Inl (HttpError 403 ''HOSTED_PROGRESS_UNSUPPORTED''), st)
      | Some r \<Rightarrow>
          if \<not> is_hosted_run run then (Inl (HttpError 403 ''HOSTED_PROGRESS_UNSUPPORTED''), st)
          else (case get_job_by_run_id (wr_id r) st of
              None \<Rightarrow> (Inl (HttpError 403 ''HOSTED_ATTEMPT_UNKNOWN''), st)
            | Some j \<Rightarrow>
                (case validate_authority now j t r of
                   Inl e \<Rightarrow> (Inl e, st)
                 | Inr _ \<Rightarrow> let (updated, st1) = record_progress now (sj_id j) st in (Inr (sj_id j, wr_id r, updated), st1))))"

section \<open>Worker routes\<close>

text \<open>The default action set of \<open>worker_shared.py\<close> bounds what an operator may grant.\<close>

definition default_worker_actions :: "string list" where
  "default_worker_actions = [''gtt:read'', ''gtt:write'', ''runs:create'', ''runs:read'', ''runs:log'', ''intents:submit'', ''risk:update'',
     ''runs:exit'', ''heartbeat'', ''market:read'', ''market:stream'', ''funds:read'', ''workflows:read'', ''workflows:write'',
     ''workflows:activate'', ''notifications:test'', ''signals:read'', ''signals:admin'']"

definition create_worker_token ::
  "strategy_env \<Rightarrow> instant \<Rightarrow> token_request \<Rightarrow> string \<Rightarrow> string \<Rightarrow> worker_store \<Rightarrow> token_row worker_tx" where
  "create_worker_token env now q raw_token token_id st =
     (let p = clean_token_request q; modes = map str_lower (tq_modes p) in
      if modes = [] \<or> \<not> set modes \<subseteq> set allowed_v1_modes then (Inl (HttpError 400 ''Worker tokens may only allow paper, dry_run, and live modes''), st)
      else if ''live'' \<in> set modes \<and> (case parse_account_scope (str_or (tq_scope p) []) of None \<Rightarrow> True | Some s \<Rightarrow> ps_paper s)
        then (Inl (HttpError 400 ''Live worker execution requires a real broker account_scope''), st)
      else if tq_actions p = [] \<or> \<not> set (tq_actions p) \<subseteq> set default_worker_actions
        then (Inl (HttpError 400 ''Worker token contains unsupported actions''), st)
      else create_token env now p raw_token token_id st)"

text \<open>
  The common prefix of the session routes: authenticate, check the action, find the run, check
  the token's access, and refuse a hosted run. The token's last-used stamp is the only write.
\<close>

definition session_route ::
  "strategy_env \<Rightarrow> instant \<Rightarrow> string \<Rightarrow> string \<Rightarrow> string \<Rightarrow> worker_store \<Rightarrow> worker_run worker_tx" where
  "session_route env now action raw_token run_id st =
     (case require_worker_token env now raw_token st of
        (Inl e, st1) \<Rightarrow> (Inl e, st1)
      | (Inr t, st1) \<Rightarrow>
          (case require_action t action of
             Inl e \<Rightarrow> (Inl e, st1)
           | Inr _ \<Rightarrow>
               (case get_run run_id st1 of
                  None \<Rightarrow> (Inl (HttpError 404 ''Strategy run not found''), st1)
                | Some r \<Rightarrow>
                    (case assert_run_access t r of
                       Inl e \<Rightarrow> (Inl e, st1)
                     | Inr _ \<Rightarrow> (case assert_child_lifecycle_forbidden (Some r) of Inl e \<Rightarrow> (Inl e, st1) | Inr _ \<Rightarrow> (Inr r, st1))))))"

definition claim_worker_run_session ::
  "strategy_env \<Rightarrow> instant \<Rightarrow> int \<Rightarrow> int \<Rightarrow> string \<Rightarrow> string \<Rightarrow> worker_store \<Rightarrow> worker_run worker_tx" where
  "claim_worker_run_session env now freshness wait raw_token run_id st =
     (case session_route env now ''runs:read'' raw_token run_id st of
        (Inl e, st1) \<Rightarrow> (Inl e, st1)
      | (Inr _, st1) \<Rightarrow>
          (case claim_run_session env now run_id freshness wait st1 of
             (None, st2) \<Rightarrow> (Inl (HttpError 409 ''WORKER_SESSION_CONFLICT''), st2)
           | (Some r, st2) \<Rightarrow> (Inr r, st2)))"

definition with_nonce ::
  "string option \<Rightarrow> (string \<Rightarrow> worker_store \<Rightarrow> worker_run option \<times> worker_store) \<Rightarrow> worker_store \<Rightarrow> worker_run worker_tx" where
  "with_nonce header act st =
     (let nonce = str_strip (str_or header []) in
      if nonce = [] then (Inl (HttpError 409 ''WORKER_SESSION_REQUIRED''), st)
      else (case act nonce st of
          (None, st1) \<Rightarrow> (Inl (HttpError 409 ''WORKER_SESSION_CONFLICT''), st1)
        | (Some r, st1) \<Rightarrow> (Inr r, st1)))"

definition release_worker_run_session ::
  "strategy_env \<Rightarrow> instant \<Rightarrow> string option \<Rightarrow> string \<Rightarrow> string \<Rightarrow> worker_store \<Rightarrow> worker_run worker_tx" where
  "release_worker_run_session env now header raw_token run_id st =
     (case session_route env now ''runs:read'' raw_token run_id st of
        (Inl e, st1) \<Rightarrow> (Inl e, st1)
      | (Inr _, st1) \<Rightarrow> with_nonce header (release_run_session now run_id) st1)"

definition heartbeat_worker_run_session ::
  "strategy_env \<Rightarrow> instant \<Rightarrow> string option \<Rightarrow> string \<Rightarrow> string \<Rightarrow> worker_store \<Rightarrow> worker_run worker_tx" where
  "heartbeat_worker_run_session env now header raw_token run_id st =
     (case session_route env now ''heartbeat'' raw_token run_id st of
        (Inl e, st1) \<Rightarrow> (Inl e, st1)
      | (Inr _, st1) \<Rightarrow> with_nonce header (record_run_heartbeat now run_id) st1)"

section \<open>Account allowlist\<close>

fun split_commas :: "string \<Rightarrow> string list" where
  "split_commas [] = [[]]"
| "split_commas (c # cs) =
     (if c = CHR '','' then [] # split_commas cs
      else (case split_commas cs of [] \<Rightarrow> [[c]] | w # ws \<Rightarrow> (c # w) # ws))"

definition authorized_account_scopes :: "string \<Rightarrow> string list" where
  "authorized_account_scopes configured = dedup (filter (\<lambda>s. s \<noteq> []) (map str_strip (split_commas configured)))"

definition authorize_account_scope :: "string \<Rightarrow> string \<Rightarrow> worker_error + string" where
  "authorize_account_scope configured scope =
     (let candidate = str_strip scope in
      if candidate \<noteq> [] \<and> candidate \<in> set (authorized_account_scopes configured) then Inr candidate
      else Inl (HttpError 403 ''account_scope is not authorized for hosted strategies''))"

section \<open>Theorems\<close>

lemma validate_authority_Inr:
  assumes "validate_authority now j t r = Inr ()"
  shows "str_or (sj_run j) [] = wr_id r" "str_or (sj_token j) [] = wt_id t" "wr_template r = template_id_for (sj_strategy j)"
    "sj_desired j = ''started''" "sj_status j \<in> set live_statuses" "\<exists>u. sj_lease_until j = Some u \<and> now < u"
  using assms by (auto simp: validate_authority_def split: if_splits option.splits)

lemma enforce_Inr:
  assumes "enforce_hosted_attempt_authority now t (Some r) st = Inr ()" "is_hosted_run (Some r)"
  obtains j where "get_job_by_run_id (wr_id r) st = Some j" "validate_authority now j t r = Inr ()" "j \<in> set (map snd (ss_jobs st))"
  using assms
  by (auto simp: enforce_hosted_attempt_authority_def get_job_by_run_id_def find_Some_iff nth_mem split: option.splits if_splits)

lemma template_id_for_inj [simp]: "template_id_for a = template_id_for b \<longleftrightarrow> a = b"
  by (simp add: template_id_for_def)

lemma live_job_blocks: "sj_status j \<in> set live_statuses \<Longrightarrow> job_blocks j"
  by (auto simp: job_blocks_def live_statuses_def active_job_statuses_def)

text \<open>
  C5. Two attempts of one strategy never hold authority at the same time: if the worker boundary
  accepts two requests for hosted runs of the same template, on one store, they come from the
  same run with the same child token, whatever the two clocks say.
\<close>

theorem hosted_authority_exclusive:
  assumes "history env empty_strategies st"
    and "is_hosted_run (Some r1)" "enforce_hosted_attempt_authority now1 t1 (Some r1) st = Inr ()"
    and "is_hosted_run (Some r2)" "enforce_hosted_attempt_authority now2 t2 (Some r2) st = Inr ()"
    and "wr_template r1 = wr_template r2"
  shows "wr_id r1 = wr_id r2 \<and> wt_id t1 = wt_id t2"
proof -
  obtain j1 where j1: "validate_authority now1 j1 t1 r1 = Inr ()" "j1 \<in> set (map snd (ss_jobs st))"
    using enforce_Inr [OF assms(3,2)] by blast
  obtain j2 where j2: "validate_authority now2 j2 t2 r2 = Inr ()" "j2 \<in> set (map snd (ss_jobs st))"
    using enforce_Inr [OF assms(5,4)] by blast
  have "sj_strategy j1 = sj_strategy j2" using validate_authority_Inr(3) [OF j1(1)] validate_authority_Inr(3) [OF j2(1)] assms(6) by simp
  then have "j1 = j2"
    using single_blocking [OF reachable_ledger_inv [OF assms(1)] j1(2) j2(2)] live_job_blocks validate_authority_Inr(5) j1(1) j2(1) by blast
  then show ?thesis
    using validate_authority_Inr(1,2) [OF j1(1)] validate_authority_Inr(1,2) [OF j2(1)] by simp
qed

text \<open>
  C36. Authority is never regained: if a request for a hosted run is accepted at some point of a
  history, then at no earlier point was its job fenced, stopped or asked to stop, however the
  leases, clocks and operators behaved in between.
\<close>

theorem hosted_authority_never_regained:
  assumes "history env empty_strategies st" "history env st st'"
    and "is_hosted_run (Some r)" "enforce_hosted_attempt_authority now t (Some r) st' = Inr ()"
  shows "\<exists>j'. get_job_by_run_id (wr_id r) st' = Some j' \<and> (\<forall>j. get_job_by_id (sj_id j') st = Some j \<longrightarrow>
     sj_status j \<in> {''queued'', ''starting'', ''running''} \<and> sj_desired j \<noteq> ''stopped'')"
proof -
  have inv: "ledger_inv st" using assms(1) by (rule reachable_ledger_inv)
  have p: "progresses st st'" using history_progresses [OF assms(2) inv] .
  obtain j' where j': "get_job_by_run_id (wr_id r) st' = Some j'" "validate_authority now j' t r = Inr ()" "j' \<in> set (map snd (ss_jobs st'))"
    using enforce_Inr [OF assms(4,3)] by blast
  have get': "dict_get (ss_jobs st') (sj_id j') = Some j'"
    using j'(3) p jobs_get [of st' "sj_id j'" j'] by (auto simp: progresses_def ledger_inv_def jobs_inv_def)
  have "sj_status j \<in> {''queued'', ''starting'', ''running''} \<and> sj_desired j \<noteq> ''stopped''" if j: "get_job_by_id (sj_id j') st = Some j" for j
  proof -
    have a: "advances j j'" using p j get' unfolding progresses_def jobs_advance_def get_job_by_id_def by fastforce
    have live: "job_rank j' < 3" "sj_desired j' = ''started''"
      using validate_authority_Inr(4,5) [OF j'(2)] by (auto simp: job_rank_def live_statuses_def)
    have "job_rank j < 3" "sj_desired j \<noteq> ''stopped''" using a live by (auto simp: advances_def)
    then show ?thesis by (auto simp: job_rank_def split: if_splits)
  qed
  then show ?thesis using j'(1) by blast
qed

text \<open>
  A hosted run's session belongs to the supervisor: whoever calls, the worker routes that
  claim, release or heartbeat a session refuse a hosted run and leave all runs as they are.
\<close>

theorem hosted_session_out_of_reach:
  assumes "get_run rid st = Some r" "is_hosted_run (Some r)"
  shows "isl (fst (claim_worker_run_session env now fresh wait raw rid st)) \<and> ws_runs (snd (claim_worker_run_session env now fresh wait raw rid st)) = ws_runs st
    \<and> isl (fst (release_worker_run_session env now header raw rid st)) \<and> ws_runs (snd (release_worker_run_session env now header raw rid st)) = ws_runs st
    \<and> isl (fst (heartbeat_worker_run_session env now header raw rid st)) \<and> ws_runs (snd (heartbeat_worker_run_session env now header raw rid st)) = ws_runs st"
proof -
  have t: "ws_runs (snd (require_worker_token env now raw st)) = ws_runs st"
    by (auto simp: require_worker_token_def touch_token_def update_token_def split: option.splits)
  have refused: "\<exists>e st1. session_route env now action raw rid st = (Inl e, st1) \<and> ws_runs st1 = ws_runs st" for action
    using t assms
    by (cases "require_worker_token env now raw st")
       (auto simp: session_route_def get_run_def assert_child_lifecycle_forbidden_def split: sum.split option.split)
  obtain e1 s1 where a: "session_route env now ''runs:read'' raw rid st = (Inl e1, s1)" "ws_runs s1 = ws_runs st" using refused by blast
  obtain e2 s2 where b: "session_route env now ''heartbeat'' raw rid st = (Inl e2, s2)" "ws_runs s2 = ws_runs st" using refused by blast
  show ?thesis
    by (simp add: claim_worker_run_session_def release_worker_run_session_def heartbeat_worker_run_session_def a b)
qed

section \<open>Witnesses\<close>

definition hosted_run :: worker_run where
  "hosted_run = \<lparr>wr_id = ''run_1'', wr_token = ''tok'', wr_template = ''hosted:hs_0'', wr_scope = ''kite:paper-1'', wr_mode = ''paper'',
     wr_status = ''open'', wr_summary_fields = [], wr_risk_schema = [], wr_allowed_actions = [], wr_runtime_state = [], wr_metadata = [],
     wr_nonce = None, wr_claimed_at = None, wr_last_heartbeat = None, wr_created = 120, wr_updated = 120, wr_closed = None\<rparr>"

definition hosted_token :: worker_token where
  "hosted_token = \<lparr>wt_id = ''tok'', wt_name = ''child'', wt_scope = Some ''kite:paper-1'', wt_modes = [''paper''], wt_actions = [],
     wt_templates = [''hosted:hs_0''], wt_status = ''active'', wt_expires = None\<rparr>"

lemma hosted_run_hosted: "is_hosted_run (Some hosted_run)"
  by code_simp

lemma hosted_run_accepted: "enforce_hosted_attempt_authority 200 hosted_token (Some hosted_run) hosted_running = Inr ()"
  using hosted_run_hosted
  by (simp add: enforce_hosted_attempt_authority_def get_job_by_run_id_def hosted_running_rows validate_authority_def)
     (simp add: hosted_run_def hosted_live_row_def hosted_row_def hosted_token_def template_id_for_def live_statuses_def)

theorem hosted_authority_exclusive_witness:
  "enforce_hosted_attempt_authority 200 hosted_token (Some hosted_run) hosted_running = Inr ()
   \<and> wr_id hosted_run = wr_id hosted_run \<and> wt_id hosted_token = wt_id hosted_token"
  using hosted_authority_exclusive [OF hosted_reachable(2) hosted_run_hosted hosted_run_accepted hosted_run_hosted hosted_run_accepted refl]
    hosted_run_accepted by simp

theorem hosted_authority_never_regained_witness:
  "\<exists>j'. get_job_by_run_id ''run_1'' hosted_running = Some j' \<and> (\<forall>j. get_job_by_id (sj_id j') hosted_queued = Some j \<longrightarrow> sj_desired j \<noteq> ''stopped'')"
  using hosted_authority_never_regained [OF hosted_reachable(1) hosted_histories(3) hosted_run_hosted hosted_run_accepted]
  by (auto simp: hosted_run_def)

theorem hosted_session_out_of_reach_witness:
  "isl (fst (claim_worker_run_session worker_env 40 60 120 ''kwa_1'' ''run_1'' (worker_tokens\<lparr>ws_runs := [(''run_1'', hosted_run)]\<rparr>)))"
proof -
  have "get_run ''run_1'' (worker_tokens\<lparr>ws_runs := [(''run_1'', hosted_run)]\<rparr>) = Some hosted_run" by (simp add: get_run_def)
  from hosted_session_out_of_reach [OF this hosted_run_hosted] show ?thesis by blast
qed

end
