(* ===== verification/OperatorRoutes.thy ===== *)
theory OperatorRoutes
  imports HostedAttempt
begin

text \<open>
  The operator's routes over the hosted strategies, \<open>api/routers/strategies.py\<close>: configuring
  strategies and versions, running and stopping jobs, reading logs, and the reconciliation of a
  blocked attempt, with the cross-origin guard of \<open>api/services/csrf.py\<close>.

  A route that awaits or makes several store calls can be overtaken, so \<open>reconcile_job\<close> and
  \<open>stop_job\<close> take two stores: the one the job row was read from and the one the guarded update
  runs against. The theorems quantify over every history between the two. The owner is derived
  from the session and is an argument; the evidence readers of the collector are arguments,
  read once for each of its two calls.
\<close>

section \<open>Request guards\<close>

record operator =
  op_owner :: string
  op_origin :: "string option"
  op_allowed_origins :: "string list"
  op_scopes :: string

text \<open>The supplied origin is the scheme and host of the header, when it has both.\<close>

definition enforce_same_origin :: "operator \<Rightarrow> worker_error + unit" where
  "enforce_same_origin op =
     (case op_origin op of
        None \<Rightarrow> Inr ()
      | Some origin \<Rightarrow>
          if str_lower origin \<in> set (map str_lower (op_allowed_origins op)) then Inr () else Inl (HttpError 403 ''cross-origin request refused''))"

definition owned_strategy :: "operator \<Rightarrow> string \<Rightarrow> strategy_store \<Rightarrow> worker_error + hosted_strategy" where
  "owned_strategy op sid st =
     (case get_strategy (op_owner op) sid st of None \<Rightarrow> Inl (HttpError 404 ''Strategy not found'') | Some s \<Rightarrow> Inr s)"

definition job_replacement_blocked :: "strategy_job \<Rightarrow> bool" where
  "job_replacement_blocked j =
     (if sj_status j \<in> {''queued'', ''starting'', ''running''} then True else sj_status j = ''recovery_required'' \<and> sj_reconciled j = None)"

definition authorized_job :: "operator \<Rightarrow> string \<Rightarrow> string \<Rightarrow> strategy_store \<Rightarrow> worker_error + strategy_job" where
  "authorized_job op sid jid st =
     (case owned_strategy op sid st of
        Inl e \<Rightarrow> Inl e
      | Inr _ \<Rightarrow>
          (case get_job (op_owner op) jid st of
             None \<Rightarrow> Inl (HttpError 404 ''Job not found'')
           | Some j \<Rightarrow>
               if sj_strategy j \<noteq> sid then Inl (HttpError 404 ''Job not found'')
               else (case authorize_account_scope (op_scopes op) (sj_scope j) of Inl e \<Rightarrow> Inl e | Inr _ \<Rightarrow> Inr j)))"

definition http_error :: "strategy_error \<Rightarrow> worker_error" where
  "http_error e =
     (case e of
        ValidationError msg \<Rightarrow> HttpError 422 msg
      | StrategyIdentityError \<Rightarrow> HttpError 422 ''version does not belong to this strategy''
      | StrategyDisabled \<Rightarrow> HttpError 409 ''STRATEGY_DISABLED''
      | StrategyFenceError \<Rightarrow> HttpError 409 ''STRATEGY_BLOCKED''
      | StrategyIdempotencyConflict \<Rightarrow> HttpError 409 ''IDEMPOTENCY_CONFLICT''
      | StrategyNotFound \<Rightarrow> HttpError 404 ''Strategy not found''
      | StrategyConflict msg \<Rightarrow> HttpError 409 msg)"

section \<open>Strategies and versions\<close>

record strategy_request =
  sq_name :: string
  sq_description :: "string option"
  sq_mode :: string
  sq_kind :: string
  sq_scope :: string
  sq_max_duration :: int
  sq_progress_deadline :: int
  sq_stale_policy :: string

definition create_strategy_route ::
  "strategy_env \<Rightarrow> instant \<Rightarrow> operator \<Rightarrow> strategy_request \<Rightarrow> strategy_store \<Rightarrow> (worker_error + hosted_strategy) \<times> strategy_store" where
  "create_strategy_route env now op q st =
     (case enforce_same_origin op of
        Inl e \<Rightarrow> (Inl e, st)
      | Inr _ \<Rightarrow>
          (case validate_name (sq_name q) of
             Inl e \<Rightarrow> (Inl (http_error e), st)
           | Inr name \<Rightarrow>
               (case validate_account_scope (sq_scope q) (sq_mode q) of
                  Inl e \<Rightarrow> (Inl (http_error e), st)
                | Inr scope \<Rightarrow>
                    if sq_mode q \<notin> set allowed_execution_modes then (Inl (HttpError 422 ''execution_mode must be one of paper, dry_run''), st)
                    else if sq_kind q \<notin> set allowed_job_kinds then (Inl (HttpError 422 ''job_kind must be one of continuous, finite''), st)
                    else (case build_policy_snapshot (sq_stale_policy q) (sq_max_duration q) (sq_progress_deadline q) now of
                        Inl e \<Rightarrow> (Inl (http_error e), st)
                      | Inr _ \<Rightarrow>
                          (case authorize_account_scope (op_scopes op) scope of
                             Inl e \<Rightarrow> (Inl e, st)
                           | Inr authorized \<Rightarrow>
                               (case create_strategy env now (op_owner op) name (sq_description q) (sq_mode q) (sq_kind q) authorized
                                       (sq_max_duration q) (sq_progress_deadline q) (sq_stale_policy q) st of
                                  (Inl e, st1) \<Rightarrow> (Inl (http_error e), st1)
                                | (Inr row, st1) \<Rightarrow> (Inr row, st1)))))))"

definition update_strategy_route ::
  "operator \<Rightarrow> string \<Rightarrow> string option option \<Rightarrow> string option \<Rightarrow> strategy_store \<Rightarrow> (worker_error + hosted_strategy) \<times> strategy_store" where
  "update_strategy_route op sid description status st =
     (case enforce_same_origin op of
        Inl e \<Rightarrow> (Inl e, st)
      | Inr _ \<Rightarrow>
          (case update_strategy (op_owner op) sid description status st of
             (Inl e, st1) \<Rightarrow> (Inl (http_error e), st1)
           | (Inr None, st1) \<Rightarrow> (Inl (HttpError 404 ''Strategy not found''), st1)
           | (Inr (Some row), st1) \<Rightarrow> (Inr row, st1)))"

definition create_version_route ::
  "strategy_env \<Rightarrow> instant \<Rightarrow> operator \<Rightarrow> string \<Rightarrow> string \<Rightarrow> jval \<Rightarrow> jval \<Rightarrow> strategy_store \<Rightarrow> (worker_error + strategy_version) \<times> strategy_store" where
  "create_version_route env now op sid source schema capabilities st =
     (case enforce_same_origin op of
        Inl e \<Rightarrow> (Inl e, st)
      | Inr _ \<Rightarrow>
          (case owned_strategy op sid st of
             Inl e \<Rightarrow> (Inl e, st)
           | Inr _ \<Rightarrow>
               (case validate_source env source of
                  Inl e \<Rightarrow> (Inl (http_error e), st)
                | Inr (text, digest) \<Rightarrow>
                    (case validate_parameters_schema env schema of
                       Inl e \<Rightarrow> (Inl (http_error e), st)
                     | Inr schema' \<Rightarrow>
                         (case validate_capabilities capabilities now of
                            Inl e \<Rightarrow> (Inl (http_error e), st)
                          | Inr snapshot \<Rightarrow>
                              (case create_version env sid text digest schema' snapshot (op_owner op) st of
                                 (Inl e, st1) \<Rightarrow> (Inl (http_error e), st1)
                               | (Inr row, st1) \<Rightarrow> (Inr row, st1)))))))"

section \<open>Running and stopping\<close>

record launch_request =
  lq_version :: string
  lq_mode :: "string option"
  lq_kind :: "string option"
  lq_params :: jobj
  lq_key :: string

record launch =
  ln_version :: string
  ln_mode :: string
  ln_kind :: string
  ln_params :: jobj

definition normalized_launch :: "strategy_env \<Rightarrow> hosted_strategy \<Rightarrow> launch_request \<Rightarrow> strategy_store \<Rightarrow> worker_error + launch" where
  "normalized_launch env s q st =
     (let mode = str_or (lq_mode q) (hs_mode s); kind = str_or (lq_kind q) (hs_kind s) in
      case validate_account_scope (hs_scope s) mode of
        Inl e \<Rightarrow> Inl (http_error e)
      | Inr _ \<Rightarrow>
          if mode \<notin> set allowed_execution_modes then Inl (HttpError 422 ''unsupported execution_mode'')
          else if kind \<notin> set allowed_job_kinds then Inl (HttpError 422 ''unsupported job_kind'')
          else (case get_version_by_id (hs_id s) (lq_version q) st of
              None \<Rightarrow> Inl (HttpError 422 ''version does not belong to this strategy'')
            | Some v \<Rightarrow>
                (case validate_parameters env (hv_schema v) (lq_params q) of
                   Inl e \<Rightarrow> Inl (http_error e)
                 | Inr params \<Rightarrow> Inr \<lparr>ln_version = hv_id v, ln_mode = mode, ln_kind = kind, ln_params = params\<rparr>)))"

definition replay_or_conflict :: "strategy_job \<Rightarrow> launch \<Rightarrow> string \<Rightarrow> string \<Rightarrow> worker_error + strategy_job" where
  "replay_or_conflict j n owner sid =
     (if sj_owner j \<noteq> owner \<or> sj_strategy j \<noteq> sid then Inl (HttpError 409 ''REPLACEMENT_CONFLICT'')
      else if sj_version j = ln_version n \<and> sj_mode j = ln_mode n \<and> sj_kind j = ln_kind n \<and> sj_params j = ln_params n then Inr j
      else Inl (HttpError 409 ''IDEMPOTENCY_CONFLICT''))"

definition manual_key :: "string \<Rightarrow> string \<Rightarrow> string" where
  "manual_key sid key = ''manual:'' @ sid @ '':'' @ key"

definition run_now ::
  "strategy_env \<Rightarrow> instant \<Rightarrow> operator \<Rightarrow> string \<Rightarrow> launch_request \<Rightarrow> strategy_store \<Rightarrow> (worker_error + bool \<times> strategy_job) \<times> strategy_store" where
  "run_now env now op sid q st =
     (case enforce_same_origin op of
        Inl e \<Rightarrow> (Inl e, st)
      | Inr _ \<Rightarrow>
          (case owned_strategy op sid st of
             Inl e \<Rightarrow> (Inl e, st)
           | Inr s \<Rightarrow>
               (case normalized_launch env s q st of
                  Inl e \<Rightarrow> (Inl e, st)
                | Inr n \<Rightarrow>
                    (case authorize_account_scope (op_scopes op) (hs_scope s) of
                       Inl e \<Rightarrow> (Inl e, st)
                     | Inr _ \<Rightarrow>
                         let key = manual_key sid (lq_key q) in
                         (case get_job_by_occurrence_key key st of
                            Some j \<Rightarrow> (map_sum id (\<lambda>j. (True, j)) (replay_or_conflict j n (op_owner op) sid), st)
                          | None \<Rightarrow>
                              (case create_job env now sid (ln_version n) (op_owner op) (ln_kind n) (ln_mode n) (ln_params n) (Some key) 1 ''started'' st of
                                 (Inr j, st1) \<Rightarrow> (Inr (False, j), st1)
                               | (Inl (StrategyConflict _), st1) \<Rightarrow>
                                   (case get_job_by_occurrence_key key st1 of
                                      None \<Rightarrow> (Inl (HttpError 409 ''REPLACEMENT_CONFLICT''), st1)
                                    | Some j \<Rightarrow> (map_sum id (\<lambda>j. (True, j)) (replay_or_conflict j n (op_owner op) sid), st1))
                               | (Inl e, st1) \<Rightarrow> (Inl (http_error e), st1)))))))"

record stop_status =
  sv_requested :: bool
  sv_state :: string
  sv_blocked :: bool

definition stop_view :: "strategy_job \<Rightarrow> stop_status" where
  "stop_view j =
     (let launched = sj_handoff j \<noteq> None;
          requested = (sj_stop_requested j \<noteq> None \<or> sj_desired j = ''stopped'');
          view = (\<lambda>r s. \<lparr>sv_requested = r, sv_state = s, sv_blocked = job_replacement_blocked j\<rparr>)
      in if sj_status j \<in> {''queued'', ''starting'', ''running''} then
           (if \<not> requested then view False ''none''
            else view True (if sj_status j = ''queued'' \<or> \<not> launched then ''requested'' else ''stopping''))
         else if sj_status j \<in> {''stopped'', ''recovery_required'', ''failed''} then
           (if \<not> launched then view requested ''confirmed''
            else if sj_cleanup j \<noteq> Some ''confirmed'' then view requested ''cleanup_unresolved''
            else view requested ''confirmed'')
         else view requested ''none'')"

definition check_pins :: "strategy_job \<Rightarrow> int \<Rightarrow> int option \<Rightarrow> worker_error + unit" where
  "check_pins j attempt epoch =
     (if sj_attempt j \<noteq> attempt then Inl (HttpError 409 ''STALE_ATTEMPT'')
      else if (case epoch of None \<Rightarrow> False | Some e \<Rightarrow> sj_epoch j \<noteq> e) then Inl (HttpError 409 ''STALE_LEASE_EPOCH'')
      else Inr ())"

text \<open>The write of a stop: whether there was nothing left to do, or the lost race.\<close>

definition stop_action :: "instant \<Rightarrow> string \<Rightarrow> strategy_job \<Rightarrow> strategy_store \<Rightarrow> (worker_error + bool) \<times> strategy_store" where
  "stop_action now owner j st =
     (if sj_status j = ''queued'' then
        (case stop_queued_job now (sj_id j) owner (sj_attempt j) owner st of
           (stopped, st1) \<Rightarrow> (if stopped then Inr False else Inl (HttpError 409 ''STOP_RACE_LOST''), st1))
      else if sj_status j \<in> {''starting'', ''running''} then
        (case request_stop_active now (sj_id j) owner (sj_attempt j) owner st of
           (requested, st1) \<Rightarrow>
             (if requested then Inr False
              else (case get_job owner (sj_id j) st1 of
                  None \<Rightarrow> Inl (HttpError 409 ''STOP_RACE_LOST'')
                | Some refreshed \<Rightarrow> if sj_desired refreshed \<noteq> ''stopped'' then Inl (HttpError 409 ''STOP_RACE_LOST'') else Inr True), st1))
      else (Inr True, st))"

definition stop_job ::
  "instant \<Rightarrow> operator \<Rightarrow> string \<Rightarrow> string \<Rightarrow> int \<Rightarrow> int option \<Rightarrow> strategy_store \<Rightarrow> strategy_store
   \<Rightarrow> (worker_error + bool \<times> stop_status) \<times> strategy_store" where
  "stop_job now op sid jid attempt epoch st st' =
     (case enforce_same_origin op of
        Inl e \<Rightarrow> (Inl e, st')
      | Inr _ \<Rightarrow>
          (case authorized_job op sid jid st of
             Inl e \<Rightarrow> (Inl e, st')
           | Inr j \<Rightarrow>
               (case check_pins j attempt epoch of
                  Inl e \<Rightarrow> (Inl e, st')
                | Inr _ \<Rightarrow>
                    (case stop_action now (op_owner op) j st' of
                       (Inl e, st2) \<Rightarrow> (Inl e, st2)
                     | (Inr idempotent, st2) \<Rightarrow>
                         (case get_job (op_owner op) (sj_id j) st2 of
                            None \<Rightarrow> (Inl (HttpError 500 ''job vanished''), st2)
                          | Some refreshed \<Rightarrow> (Inr (idempotent, stop_view refreshed), st2))))))"

definition list_jobs_route :: "operator \<Rightarrow> string \<Rightarrow> strategy_store \<Rightarrow> worker_error + strategy_job list" where
  "list_jobs_route op sid st =
     (case owned_strategy op sid st of
        Inl e \<Rightarrow> Inl e
      | Inr _ \<Rightarrow>
          Inr (filter (\<lambda>j. \<not> isl (authorize_account_scope (op_scopes op) (sj_scope j))) (list_jobs_for_strategy (op_owner op) sid 50 st)))"

record logs_view =
  lv_available :: bool
  lv_truncated :: bool
  lv_next_seq :: int
  lv_entries :: "(int \<times> string) list"

definition log_total_max_bytes :: int where
  "log_total_max_bytes = 256 * 1024"

definition get_job_logs :: "operator \<Rightarrow> string \<Rightarrow> string \<Rightarrow> int \<Rightarrow> int \<Rightarrow> strategy_store \<Rightarrow> worker_error + logs_view" where
  "get_job_logs op sid jid after_seq limit st =
     (case authorized_job op sid jid st of
        Inl e \<Rightarrow> Inl e
      | Inr j \<Rightarrow>
          let rows = list_job_logs jid after_seq limit st; total = job_log_byte_count jid st
          in Inr \<lparr>lv_available = total > 0, lv_truncated = sj_logs_discarded j \<or> total \<ge> log_total_max_bytes,
                  lv_next_seq = (if rows \<noteq> [] then jl_seq (last rows) else after_seq),
                  lv_entries = map (\<lambda>r. (jl_seq r, jl_content r)) rows\<rparr>)"

section \<open>Reconciliation\<close>

text \<open>The job as the evidence collector reads it.\<close>

definition evidence_job :: "strategy_job \<Rightarrow> hosted_job" where
  "evidence_job j =
     \<lparr>job_id = sj_id j, job_strategy_id = sj_strategy j, job_attempt = sj_attempt j, job_run_id = sj_run j, job_token_id = sj_token j,
      job_account_scope = sj_scope j, job_execution_mode = sj_mode j, job_status = sj_status j, job_desired_state = sj_desired j,
      job_handoff_at = sj_handoff j, job_reconciled_at = sj_reconciled j, job_capabilities_snapshot = JObj (sj_capabilities j),
      job_process_cleanup_state = sj_cleanup j, job_process_cleanup_at = sj_cleanup_at j, job_process_cleanup_actor = sj_cleanup_actor j\<rparr>"

record collector_reads =
  cr_runs :: run_reader
  cr_tokens :: token_reader
  cr_paper :: paper_reader
  cr_options :: option_reader

definition collect_for :: "collector_reads \<Rightarrow> strategy_job \<Rightarrow> reconciliation_evidence" where
  "collect_for reads j = collect (evidence_job j) (cr_runs reads) (cr_tokens reads) (cr_paper reads) (cr_options reads)"

definition reconcile_job ::
  "strategy_env \<Rightarrow> (gating_axes \<Rightarrow> 'h) \<Rightarrow> instant \<Rightarrow> operator \<Rightarrow> string \<Rightarrow> string \<Rightarrow> int \<Rightarrow> int option \<Rightarrow> collector_reads \<Rightarrow> collector_reads
   \<Rightarrow> strategy_store \<Rightarrow> strategy_store \<Rightarrow> (worker_error + reconciliation_audit) \<times> strategy_store" where
  "reconcile_job env digest now op sid jid attempt epoch first_reads second_reads st st' =
     (case enforce_same_origin op of
        Inl e \<Rightarrow> (Inl e, st')
      | Inr _ \<Rightarrow>
          (case authorized_job op sid jid st of
             Inl e \<Rightarrow> (Inl e, st')
           | Inr j \<Rightarrow>
               (case check_pins j attempt epoch of
                  Inl e \<Rightarrow> (Inl e, st')
                | Inr _ \<Rightarrow>
                    let evidence = collect_for first_reads j;
                        recheck = collect_for second_reads j;
                        blocked = (\<lambda>reason ev st2. (Inl (HttpError 409 reason),
                          snd (record_reconciliation env now (sj_id j) (sj_strategy j) (op_owner op) (sj_attempt j) (sj_run j)
                                 ''blocked'' reason ev (op_owner op) st2)))
                    in if \<not> as_allowed (assess evidence) then blocked (as_reason_code (assess evidence)) evidence st'
                       else if evidence_digest digest recheck \<noteq> evidence_digest digest evidence \<or> \<not> as_allowed (assess recheck)
                         then blocked ''EVIDENCE_CHANGED'' recheck st'
                       else
                         (case reconcile_with_audit env now (sj_id j) (op_owner op) (sj_epoch j) (sj_attempt j) (ev_process_cleanup_state recheck)
                                 (ev_run_id recheck) (as_reason_code (assess recheck)) recheck (op_owner op) st' of
                            (Some audit, st2) \<Rightarrow> (Inr audit, st2)
                          | (None, st2) \<Rightarrow> blocked ''RECONCILE_RACE_LOST'' recheck st2))))"

section \<open>Theorems\<close>

lemma assess_allowed_launched:
  "as_allowed (assess e) \<Longrightarrow> ev_launched e \<Longrightarrow> ev_process_cleanup_state e = Some ''confirmed''"
  unfolding assess_def Let_def by (auto split: if_splits)

lemma collect_cleanup [simp]: "ev_process_cleanup_state (collect job r t p opts) = job_process_cleanup_state job"
  "ev_run_id (collect job r t p opts) = job_run_id job"
  by (simp_all add: collect_def Let_def case_prod_beta)

lemma collect_for_sel [simp]:
  "ev_process_cleanup_state (collect_for reads j) = sj_cleanup j" "ev_run_id (collect_for reads j) = sj_run j"
  "ev_launched (collect_for reads j) = (sj_handoff j \<noteq> None)"
  "ev_trade_capable (collect_for reads j) = fst (collect_capabilities (evidence_job j))"
  "ev_quiescence_state (collect_for reads j) = ''unverified''"
  by (simp_all add: collect_for_def collect_sel evidence_job_def)

lemma collect_capabilities_cong:
  "sj_capabilities j = sj_capabilities j' \<Longrightarrow> collect_capabilities (evidence_job j) = collect_capabilities (evidence_job j')"
  by (simp add: collect_capabilities_def evidence_job_def)

lemma authorized_job_get: "authorized_job op sid jid st = Inr j \<Longrightarrow> get_job_by_id jid st = Some j \<and> sj_owner j = op_owner op \<and> sj_strategy j = sid"
  by (auto simp: authorized_job_def get_job_def get_job_by_id_def split: sum.splits option.splits if_splits)

lemma record_reconciliation_jobs [simp]:
  "ss_jobs (snd (record_reconciliation env now jid sid owner attempt run outcome reason ev actor st)) = ss_jobs st"
  by (simp add: record_reconciliation_def Let_def)

lemma reconcile_with_audit_Some:
  assumes "reconcile_with_audit env now jid owner epoch attempt cleanup run reason ev actor st = (Some audit, st')"
  shows "\<exists>j. get_job_by_id jid st = Some j \<and> sj_status j = ''recovery_required'' \<and> sj_reconciled j = None \<and> sj_cleanup j = cleanup \<and> sj_run j = run
     \<and> get_job_by_id jid st' = Some (j\<lparr>sj_status := ''stopped'', sj_reconciled := Some now, sj_updated_at := now\<rparr>)
     \<and> ss_audits st' = ss_audits st @ [audit] \<and> ra_job audit = jid \<and> ra_outcome audit = ''reconciled'' \<and> ra_evidence audit = ev"
  using assms
  by (auto simp: reconcile_with_audit_def cas_job_def get_job_by_id_def audit_row_def Let_def split: option.splits if_splits)

lemma reconcile_with_audit_None:
  "reconcile_with_audit env now jid owner epoch attempt cleanup run reason ev actor st = (None, st') \<Longrightarrow> st' = st"
  by (auto simp: reconcile_with_audit_def Let_def split: option.splits if_splits prod.splits)

lemma reconcile_job_Inr:
  assumes "reconcile_job env digest now op sid jid attempt epoch first_reads second_reads st st' = (Inr audit, st2)" and inv: "ledger_inv st"
  obtains j where "authorized_job op sid jid st = Inr j" "as_allowed (assess (collect_for first_reads j))" "as_allowed (assess (collect_for second_reads j))"
    "reconcile_with_audit env now jid (op_owner op) (sj_epoch j) (sj_attempt j) (sj_cleanup j) (sj_run j)
       (as_reason_code (assess (collect_for second_reads j))) (collect_for second_reads j) (op_owner op) st' = (Some audit, st2)"
proof -
  obtain j where j: "authorized_job op sid jid st = Inr j"
    using assms(1) by (auto simp: reconcile_job_def split: sum.splits)
  have "(jid, j) \<in> set (ss_jobs st)" using authorized_job_get [OF j] by (auto simp: get_job_by_id_def dest: map_of_SomeD)
  then have "sj_id j = jid" using inv by (auto simp: ledger_inv_def jobs_inv_def)
  then show thesis
    using assms(1) j that [of j] by (auto simp: reconcile_job_def Let_def split: sum.splits if_splits prod.splits option.splits)
qed

lemma reconcile_job_Inl:
  "reconcile_job env digest now op sid jid attempt epoch first_reads second_reads st st' = (Inl e, st2) \<Longrightarrow> ss_jobs st2 = ss_jobs st'"
  by (auto simp: reconcile_job_def Let_def dest!: reconcile_with_audit_None split: sum.splits if_splits prod.splits option.splits)

text \<open>
  C12. The operator's reconciliation clears a block only on evidence, whatever else happens
  between its read of the job and its commit. A refusal changes no job. A success means that the
  attempt was still fenced and unreconciled at the commit, that both rounds of collected
  evidence allow it, that the attempt was not a launched trading-capable one, that the child
  process of a launched one was confirmed gone, and that exactly this clearing and one audit row
  with that evidence were written.
\<close>

theorem reconcile_clears_only_on_evidence:
  assumes "history env empty_strategies st" "history env st st'"
  shows "case reconcile_job env digest now op sid jid attempt epoch first_reads second_reads st st' of
      (Inl e, st2) \<Rightarrow> ss_jobs st2 = ss_jobs st'
    | (Inr audit, st2) \<Rightarrow>
        \<exists>j j'. authorized_job op sid jid st = Inr j \<and> get_job_by_id jid st' = Some j' \<and> advances j j'
          \<and> sj_status j' = ''recovery_required'' \<and> sj_reconciled j' = None
          \<and> as_allowed (assess (collect_for first_reads j)) \<and> as_allowed (assess (collect_for second_reads j))
          \<and> \<not> (sj_handoff j' \<noteq> None \<and> fst (collect_capabilities (evidence_job j')))
          \<and> (sj_handoff j' \<noteq> None \<longrightarrow> sj_cleanup j' = Some ''confirmed'')
          \<and> get_job_by_id jid st2 = Some (j'\<lparr>sj_status := ''stopped'', sj_reconciled := Some now, sj_updated_at := now\<rparr>)
          \<and> ss_audits st2 = ss_audits st' @ [audit] \<and> ra_job audit = jid \<and> ra_outcome audit = ''reconciled''
          \<and> ra_evidence audit = collect_for second_reads j"
proof -
  have inv: "ledger_inv st" using assms(1) by (rule reachable_ledger_inv)
  have p: "progresses st st'" using history_progresses [OF assms(2) inv] .
  obtain res st2 where r: "reconcile_job env digest now op sid jid attempt epoch first_reads second_reads st st' = (res, st2)"
    by (cases "reconcile_job env digest now op sid jid attempt epoch first_reads second_reads st st'")
  show ?thesis
  proof (cases res)
    case (Inl e)
    then show ?thesis using r reconcile_job_Inl by fastforce
  next
    case (Inr audit)
    obtain j where j: "authorized_job op sid jid st = Inr j" "as_allowed (assess (collect_for first_reads j))" "as_allowed (assess (collect_for second_reads j))"
      "reconcile_with_audit env now jid (op_owner op) (sj_epoch j) (sj_attempt j) (sj_cleanup j) (sj_run j)
         (as_reason_code (assess (collect_for second_reads j))) (collect_for second_reads j) (op_owner op) st' = (Some audit, st2)"
      using reconcile_job_Inr [OF r [unfolded Inr] inv] .
    obtain j' where j': "get_job_by_id jid st' = Some j'" "sj_status j' = ''recovery_required''" "sj_reconciled j' = None" "sj_cleanup j' = sj_cleanup j"
      "get_job_by_id jid st2 = Some (j'\<lparr>sj_status := ''stopped'', sj_reconciled := Some now, sj_updated_at := now\<rparr>)"
      "ss_audits st2 = ss_audits st' @ [audit]" "ra_job audit = jid" "ra_outcome audit = ''reconciled''" "ra_evidence audit = collect_for second_reads j"
      using reconcile_with_audit_Some [OF j(4)] by blast
    have a: "advances j j'"
      using p authorized_job_get [OF j(1)] j'(1) unfolding progresses_def jobs_advance_def get_job_by_id_def by fastforce
    have "\<not> sj_status j \<in> set active_statuses"
      using j(2) by (auto simp: assess_def Let_def collect_for_def collect_def evidence_job_def case_prod_beta split: if_splits)
    then have "3 \<le> job_rank j" by (auto simp: job_rank_def active_statuses_def)
    then have h: "sj_handoff j' = sj_handoff j" "sj_capabilities j' = sj_capabilities j" using a by (auto simp: advances_def job_identity_def)
    have "\<not> (sj_handoff j \<noteq> None \<and> fst (collect_capabilities (evidence_job j)))"
      using assess_allowed_core [OF j(2)] by simp
    moreover have "sj_handoff j \<noteq> None \<longrightarrow> sj_cleanup j = Some ''confirmed''" using assess_allowed_launched [OF j(2)] by simp
    ultimately show ?thesis
      using j j' a h collect_capabilities_cong [OF h(2)] unfolding r Inr by (intro case_prodI2) auto
  qed
qed

text \<open>A job whose authority is withdrawn: a stop is requested, or it is fenced or over.\<close>

definition withdrawn :: "strategy_job \<Rightarrow> bool" where
  "withdrawn j \<longleftrightarrow> sj_desired j = ''stopped'' \<or> 3 \<le> job_rank j"

lemma withdrawn_advances: "withdrawn j \<Longrightarrow> advances j j' \<Longrightarrow> withdrawn j'"
  by (auto simp: withdrawn_def advances_def)

lemma withdrawn_refused: "withdrawn j \<Longrightarrow> validate_authority now j t r \<noteq> Inr ()"
  using validate_authority_Inr(4,5) [of now j t r] by (auto simp: withdrawn_def job_rank_def live_statuses_def)

lemma stop_action_step: "snd (stop_action now owner j st) = st \<or> strategy_step env st (snd (stop_action now owner j st))"
  by (auto simp: stop_action_def split_def intro: step_stop_queued step_request_stop)

lemma stop_action_Inr:
  assumes "fst (stop_action now owner j st) = Inr b"
    and "get_job_by_id (sj_id j) st = Some j'" "advances j j'"
  shows "\<exists>j2. get_job_by_id (sj_id j) (snd (stop_action now owner j st)) = Some j2 \<and> withdrawn j2"
proof -
  consider (queued) "sj_status j = ''queued''" | (live) "sj_status j \<in> {''starting'', ''running''}"
    | (over) "sj_status j \<notin> {''queued'', ''starting'', ''running''}" by auto
  then show ?thesis
  proof cases
    case queued
    then show ?thesis
      using assms(1,2) by (auto simp: stop_action_def stop_queued_job_def cas_job_def get_job_by_id_def withdrawn_def split: if_splits)
  next
    case live
    then have "sj_status j \<noteq> ''queued''" by auto
    then show ?thesis
      using live assms(1,2)
      by (auto simp: stop_action_def request_stop_active_def cas_job_def get_job_by_id_def get_job_def withdrawn_def split: if_splits option.splits)
  next
    case over
    then have "3 \<le> job_rank j" by (auto simp: job_rank_def)
    then have "withdrawn j'" using assms(3) by (auto simp: withdrawn_def advances_def)
    then show ?thesis using over assms(2) by (auto simp: stop_action_def)
  qed
qed

lemma stop_job_Inr:
  assumes "stop_job now op sid jid attempt epoch st st' = (Inr (b, v), st2)"
  obtains j where "authorized_job op sid jid st = Inr j" "fst (stop_action now (op_owner op) j st') = Inr b" "st2 = snd (stop_action now (op_owner op) j st')"
  using assms by (auto simp: stop_job_def split: sum.splits option.splits prod.splits)

text \<open>
  C37. An operator's stop ends the attempt's authority for good: after a stop has been answered,
  whether it stopped a queued job, asked a live one to stop or found nothing left to do, no
  later request of the job's run is accepted, however the job was moved by others before the
  stop took effect and afterwards.
\<close>

theorem stop_ends_authority:
  assumes "history env empty_strategies st" "history env st st'"
    and "stop_job now op sid jid attempt epoch st st' = (Inr (b, v), st2)" "history env st2 st3"
    and "is_hosted_run (Some r)" "get_job_by_run_id (wr_id r) st3 = Some j3" "sj_id j3 = jid"
  shows "enforce_hosted_attempt_authority now' t (Some r) st3 \<noteq> Inr ()"
proof -
  have inv: "ledger_inv st" using assms(1) by (rule reachable_ledger_inv)
  have p: "progresses st st'" using history_progresses [OF assms(2) inv] .
  obtain j where j: "authorized_job op sid jid st = Inr j" "fst (stop_action now (op_owner op) j st') = Inr b" "st2 = snd (stop_action now (op_owner op) j st')"
    using stop_job_Inr [OF assms(3)] .
  have jj: "get_job_by_id jid st = Some j" using authorized_job_get [OF j(1)] by simp
  then have id: "sj_id j = jid" using inv by (fastforce simp: get_job_by_id_def ledger_inv_def jobs_inv_def dest: map_of_SomeD)
  obtain j' where j': "get_job_by_id jid st' = Some j'" "advances j j'"
    using p jj unfolding progresses_def jobs_advance_def get_job_by_id_def by blast
  obtain j2 where j2: "get_job_by_id jid st2 = Some j2" "withdrawn j2"
    using stop_action_Inr [OF j(2)] j' id j(3) by blast
  have "progresses st' st2" using stop_action_step [of now "op_owner op" j st' env] strategy_step_progresses p j(3) by (metis progresses_def progresses_refl)
  then have p3: "progresses st2 st3" using history_progresses [OF assms(4)] by (simp add: progresses_def)
  have "j3 \<in> set (map snd (ss_jobs st3))" using assms(6) by (auto simp: get_job_by_run_id_def find_Some_iff nth_mem split: if_splits)
  then have "dict_get (ss_jobs st3) jid = Some j3"
    using p3 assms(7) jobs_get [of st3 jid j3] by (auto simp: progresses_def ledger_inv_def jobs_inv_def)
  then have "advances j2 j3" using p3 j2(1) unfolding progresses_def jobs_advance_def get_job_by_id_def by fastforce
  then have "validate_authority now' j3 t r \<noteq> Inr ()" using withdrawn_refused withdrawn_advances j2(2) by blast
  then show ?thesis using assms(5,6) by (simp add: enforce_hosted_attempt_authority_def)
qed

section \<open>Witnesses\<close>

definition demo_operator :: operator where
  "demo_operator = \<lparr>op_owner = ''app:op'', op_origin = None, op_allowed_origins = [], op_scopes = ''kite:paper-1, kite:paper-2''\<rparr>"

lemma demo_authorized:
  "authorized_job demo_operator ''hs_0'' ''hsj_2'' hosted_running = Inr hosted_live_row"
proof -
  have s: "\<not> isl (owned_strategy demo_operator ''hs_0'' hosted_running)" by code_simp
  have a: "authorize_account_scope (op_scopes demo_operator) ''kite:paper-1'' = Inr ''kite:paper-1''" by code_simp
  have j: "get_job ''app:op'' ''hsj_2'' hosted_running = Some hosted_live_row"
    by (simp add: get_job_def hosted_running_rows hosted_live_row_def hosted_row_def)
  have "sj_strategy hosted_live_row = ''hs_0''" "sj_scope hosted_live_row = ''kite:paper-1''" "op_owner demo_operator = ''app:op''"
    by (simp_all add: hosted_live_row_def hosted_row_def demo_operator_def)
  then show ?thesis using s a j by (auto simp: authorized_job_def isl_def split: sum.splits)
qed

definition hosted_stopping :: strategy_store where
  "hosted_stopping = snd (stop_action 150 ''app:op'' hosted_live_row hosted_running)"

lemma demo_stop: "\<exists>v. stop_job 150 demo_operator ''hs_0'' ''hsj_2'' 1 None hosted_running hosted_running = (Inr (False, v), hosted_stopping)"
proof -
  have "sj_id hosted_live_row = ''hsj_2''" "sj_attempt hosted_live_row = 1" "op_owner demo_operator = ''app:op''"
    by (simp_all add: hosted_live_row_def hosted_row_def demo_operator_def)
  moreover have "fst (stop_action 150 ''app:op'' hosted_live_row hosted_running) = Inr False"
    "\<exists>j. get_job ''app:op'' ''hsj_2'' hosted_stopping = Some j"
    by (simp_all add: hosted_stopping_def stop_action_def request_stop_active_def cas_job_def get_job_def hosted_running_rows
          hosted_live_row_def hosted_row_def live_statuses_def)
  moreover have "enforce_same_origin demo_operator = Inr ()" by (simp add: enforce_same_origin_def demo_operator_def)
  ultimately show ?thesis
    using demo_authorized by (auto simp: stop_job_def check_pins_def hosted_stopping_def split: prod.split)
qed

theorem stop_ends_authority_witness:
  "enforce_hosted_attempt_authority 200 hosted_token (Some hosted_run) hosted_running = Inr ()
   \<and> enforce_hosted_attempt_authority 200 hosted_token (Some hosted_run) hosted_stopping \<noteq> Inr ()"
proof -
  obtain v where v: "stop_job 150 demo_operator ''hs_0'' ''hsj_2'' 1 None hosted_running hosted_running = (Inr (False, v), hosted_stopping)"
    using demo_stop by blast
  have "map_option sj_id (get_job_by_run_id (wr_id hosted_run) hosted_stopping) = Some ''hsj_2''"
    by (simp add: hosted_stopping_def stop_action_def request_stop_active_def cas_job_def get_job_by_run_id_def hosted_running_rows
          hosted_live_row_def hosted_row_def live_statuses_def hosted_run_def)
  then obtain j where "get_job_by_run_id (wr_id hosted_run) hosted_stopping = Some j" "sj_id j = ''hsj_2''"
    by (auto simp: map_option_case split: option.splits)
  then show ?thesis
    using stop_ends_authority [OF hosted_reachable(2) rtranclp.rtrancl_refl v rtranclp.rtrancl_refl hosted_run_hosted] hosted_run_accepted by blast
qed

text \<open>An attempt fenced before launch, with nothing left outstanding.\<close>

definition clean_reads :: collector_reads where
  "clean_reads = \<lparr>cr_runs = RunRead None, cr_tokens = TokenRead None,
     cr_paper = PaperPayload (sample_payload\<lparr>sp_account_scope := Some ''kite:paper-1'', sp_strategy_run_id := Some ''None'', sp_order_count := Some 0,
       sp_pending_order_count := Some 0, sp_run_state := NoRunState\<rparr>), cr_options = NoOptionReader\<rparr>"

definition hosted_unlaunched :: strategy_store where
  "hosted_unlaunched = snd (mark_recovery_required 115 ''hsj_2'' ''sup'' 1 1 (snd (claim_job 110 ''hsj_2'' ''sup'' 0 1 500 hosted_queued)))"

lemma hosted_unlaunched_reachable: "history hosted_env empty_strategies hosted_unlaunched"
  unfolding hosted_unlaunched_def by (rule hosted_reachable(1) strategy_step.intros history_step)+

theorem reconcile_clears_only_on_evidence_witness:
  "\<exists>audit st2 j2. reconcile_job hosted_env id 300 demo_operator ''hs_0'' ''hsj_2'' 1 None clean_reads clean_reads hosted_unlaunched hosted_unlaunched = (Inr audit, st2)
     \<and> get_job_by_id ''hsj_2'' st2 = Some j2 \<and> sj_reconciled j2 = Some 300 \<and> ss_audits st2 = ss_audits hosted_unlaunched @ [audit]"
proof -
  let ?r = "reconcile_job hosted_env id 300 demo_operator ''hs_0'' ''hsj_2'' 1 None clean_reads clean_reads hosted_unlaunched hosted_unlaunched"
  have "\<not> isl (fst ?r)" by code_simp
  then obtain audit st2 where r: "?r = (Inr audit, st2)" by (cases "fst ?r"; cases ?r) auto
  show ?thesis
    using reconcile_clears_only_on_evidence [OF hosted_unlaunched_reachable rtranclp.rtrancl_refl, where digest = id and now = 300
        and op = demo_operator and sid = "''hs_0''" and jid = "''hsj_2''" and attempt = 1 and epoch = None and first_reads = clean_reads and second_reads = clean_reads]
    unfolding r by auto
qed

end
