(* ===== verification/HostedLifecycle.thy ===== *)
theory HostedLifecycle
  imports OperatorRoutes
begin

text \<open>
  The supervisor's lifecycle service, \<open>api/services/hosted_lifecycle.py\<close>, and its claim route
  (\<open>api/routers/hosted_lifecycle.py\<close>): launch preparation, heartbeat, release, expiry, fencing,
  state and source reads, cleanup reports and log shipping, over both stores.

  A lifecycle operation makes several calls, each its own transaction, and awaits in between.
  \<open>surroundings\<close> says what happens around each call: what the rest of the system does to the two
  stores before it, and whether it raises (and then commits nothing). The theorems quantify over
  all surroundings that act through the stores' own operations.
\<close>

section \<open>Calls\<close>

type_synonym hosted_state = "strategy_store \<times> worker_store"

datatype lifecycle_call =
    CallReserve | CallMint | CallCreateRun | CallRecordRun | CallClaimSession | CallHandoff
  | CallRecordFailure | CallRevoke | CallFence
  | CallRenew | CallBeat | CallReleaseSession | CallStop | CallExpire

record surroundings =
  su_before :: "lifecycle_call \<Rightarrow> hosted_state \<Rightarrow> hosted_state"
  su_raises :: "lifecycle_call \<Rightarrow> bool"

definition call_at :: "surroundings \<Rightarrow> lifecycle_call \<Rightarrow> 'a \<Rightarrow> (hosted_state \<Rightarrow> 'a \<times> hosted_state) \<Rightarrow> hosted_state \<Rightarrow> 'a \<times> hosted_state" where
  "call_at su c raised act s = (let s1 = su_before su c s in if su_raises su c then (raised, s1) else act s1)"

definition on_strategies :: "(strategy_store \<Rightarrow> 'a \<times> strategy_store) \<Rightarrow> hosted_state \<Rightarrow> 'a \<times> hosted_state" where
  "on_strategies act s = (let (x, ss) = act (fst s) in (x, (ss, snd s)))"

definition on_workers :: "(worker_store \<Rightarrow> 'a \<times> worker_store) \<Rightarrow> hosted_state \<Rightarrow> 'a \<times> hosted_state" where
  "on_workers act s = (let (x, ws) = act (snd s) in (x, (fst s, ws)))"

text \<open>A refusal before anything was written, or an aborted preparation with what its cleanup achieved.\<close>

datatype lifecycle_error =
    Refused int string
  | Aborted int string bool bool
  | Unhandled

section \<open>Authority\<close>

definition require_job_authority ::
  "instant \<Rightarrow> strategy_job option \<Rightarrow> string \<Rightarrow> int \<Rightarrow> int \<Rightarrow> string list \<Rightarrow> bool \<Rightarrow> bool \<Rightarrow> lifecycle_error + strategy_job" where
  "require_job_authority now job holder epoch attempt allow live_lease started =
     (case job of
        None \<Rightarrow> Inl (Refused 404 ''HOSTED_JOB_NOT_FOUND'')
      | Some j \<Rightarrow>
          if str_or (sj_lease_owner j) [] \<noteq> holder \<or> sj_epoch j \<noteq> epoch \<or> sj_attempt j \<noteq> attempt
            then Inl (Refused 403 ''HOSTED_LEASE_AUTHORITY_MISMATCH'')
          else if started \<and> sj_desired j \<noteq> ''started'' then Inl (Refused 409 ''HOSTED_ATTEMPT_STOPPED'')
          else if sj_status j \<notin> set allow then Inl (Refused 409 ''HOSTED_ATTEMPT_FENCED'')
          else if live_lease \<and> (case sj_lease_until j of None \<Rightarrow> True | Some t \<Rightarrow> t \<le> now) then Inl (Refused 409 ''HOSTED_LEASE_EXPIRED'')
          else Inr j)"

definition terminal_statuses :: "string list" where
  "terminal_statuses = [''starting'', ''running'', ''fencing'', ''recovery_required'', ''stopped'', ''failed'', ''hung'']"

section \<open>Preparation\<close>

text \<open>Revoking, and whether there was a token to revoke.\<close>

definition revoke_known :: "string \<Rightarrow> worker_store \<Rightarrow> bool \<times> worker_store" where
  "revoke_known token_id ws = (let (row, ws1) = revoke_token token_id ws in (row \<noteq> None, ws1))"

definition fail_closed ::
  "surroundings \<Rightarrow> instant \<Rightarrow> string \<Rightarrow> string option \<Rightarrow> string \<Rightarrow> int \<Rightarrow> int \<Rightarrow> string \<Rightarrow> hosted_state \<Rightarrow> (bool \<times> bool) \<times> hosted_state" where
  "fail_closed su now jid token holder epoch attempt reason s =
     (let (_, s1) = call_at su CallRecordFailure False (on_strategies (record_failure now jid holder epoch attempt reason)) s;
          (revoked, s2) = (if str_truthy token
            then call_at su CallRevoke False (on_workers (revoke_known (opt_str token))) s1
            else (False, s1));
          (fenced, s3) = call_at su CallFence False (on_strategies (mark_recovery_required now jid holder epoch attempt)) s2
      in ((fenced, revoked), s3))"

definition protection_runtime_state :: "string \<Rightarrow> int \<Rightarrow> jval option" where
  "protection_runtime_state policy progress_deadline =
     (if policy = ''exit_on_worker_stale''
      then Some (JObj [(''enabled'', JBool True),
             (''operations'', JObj [(''exit_on_worker_stale'', JBool True), (''worker_stale_sec'', JInt (min (max progress_deadline 30) 86400))])])
      else None)"

record child_config =
  cc_job :: string
  cc_strategy :: string
  cc_attempt :: int
  cc_epoch :: int
  cc_run :: string
  cc_worker_token :: string
  cc_nonce :: string
  cc_template :: string
  cc_mode :: string
  cc_scope :: string
  cc_params :: jobj
  cc_max_duration :: int
  cc_progress_deadline :: int
  cc_policy :: string
  cc_version :: string
  cc_sha256 :: string

definition stale_policy_of :: "strategy_job \<Rightarrow> string" where
  "stale_policy_of j = (let v = obj_get (sj_policy j) ''stale_exit_policy'' in if jtruth v then py_str v else ''none'')"

definition caps_json :: "(string, bool) dict \<Rightarrow> jval" where
  "caps_json caps = JObj (map (\<lambda>(k, b). (k, JBool b)) caps)"

definition child_token_request :: "instant \<Rightarrow> strategy_job \<Rightarrow> (string, bool) dict \<Rightarrow> string list \<Rightarrow> int \<Rightarrow> token_request" where
  "child_token_request now j caps actions attempt =
     (let template = template_id_for (sj_strategy j) in
      clean_token_request
        \<lparr>tq_name = template @ '':attempt-'' @ int_str attempt, tq_scope = Some (sj_scope j), tq_modes = [sj_mode j], tq_actions = actions,
         tq_templates = [template], tq_expires = Some (now + seconds (sj_max_duration j + 300)),
         tq_metadata = [(''source'', JStr ''hosted_supervisor''), (''hosted_job_id'', JStr (sj_id j)), (''hosted_strategy_id'', JStr (sj_strategy j)),
           (''hosted_attempt'', JInt attempt), (''hosted_capabilities'', caps_json caps)]\<rparr>)"

definition child_token :: "string \<Rightarrow> token_request \<Rightarrow> strategy_job \<Rightarrow> worker_token" where
  "child_token token_id q j =
     \<lparr>wt_id = token_id, wt_name = tq_name q, wt_scope = Some (sj_scope j), wt_modes = [sj_mode j], wt_actions = tq_actions q,
      wt_templates = [template_id_for (sj_strategy j)], wt_status = ''active'', wt_expires = tq_expires q\<rparr>"

definition child_run_request :: "strategy_job \<Rightarrow> hosted_strategy \<Rightarrow> (string, bool) dict \<Rightarrow> int \<Rightarrow> run_request" where
  "child_run_request j s caps attempt =
     (let policy = stale_policy_of j;
          hosted = [(''job_id'', JStr (sj_id j)), (''strategy_id'', JStr (sj_strategy j)), (''attempt'', JInt attempt),
                    (''version_id'', JStr (sj_version j)), (''capabilities'', caps_json caps)]
      in \<lparr>rq_template = template_id_for (sj_strategy j), rq_scope = sj_scope j, rq_mode = str_lower (str_strip (sj_mode j)),
          rq_summary_fields = [], rq_risk_schema = [], rq_allowed_actions = [''edit_risk'', ''exit_strategy''],
          rq_runtime_state = [(''hosted'', JObj hosted)]
            @ (case protection_runtime_state policy (sj_progress_deadline j) of None \<Rightarrow> [] | Some p \<Rightarrow> [(''backend_protection'', p)]),
          rq_metadata = [(''strategy_name'', JStr (hs_name s)), (''strategy_family'', JStr ''indicator_strategy''), (''entry_surface'', JStr ''hosted_supervisor''),
            (''hosted_job_id'', JStr (sj_id j)), (''hosted_strategy_id'', JStr (sj_strategy j)), (''hosted_attempt'', JInt attempt),
            (''hosted_params'', JObj (sj_params j)), (''hosted_capabilities'', caps_json caps), (''hosted_stale_exit_policy'', JStr policy)]\<rparr>)"

text \<open>What is checked before the first write: authority, the launch markers, the snapshot, the rows.\<close>

definition check_launch ::
  "instant \<Rightarrow> string \<Rightarrow> string \<Rightarrow> int \<Rightarrow> int \<Rightarrow> strategy_store
   \<Rightarrow> lifecycle_error + strategy_job \<times> (string, bool) dict \<times> hosted_strategy \<times> strategy_version" where
  "check_launch now jid holder epoch attempt st =
     (case require_job_authority now (get_job_by_id jid st) holder epoch attempt live_statuses True True of
        Inl e \<Rightarrow> Inl e
      | Inr j \<Rightarrow>
          if sj_handoff j \<noteq> None then Inl (Refused 409 ''HOSTED_HANDOFF_ALREADY_COMPLETED'')
          else if sj_token j \<noteq> None then Inl (Refused 409 ''HOSTED_PREPARE_INCOMPLETE'')
          else (case parse_capability_snapshot (JObj (sj_capabilities j)) of
              Inl _ \<Rightarrow> Inl (Refused 409 ''HOSTED_CAPABILITIES_AMBIGUOUS'')
            | Inr caps \<Rightarrow>
                (case get_strategy (sj_owner j) (sj_strategy j) st of
                   None \<Rightarrow> Inl (Refused 409 ''HOSTED_STRATEGY_MISSING'')
                 | Some s \<Rightarrow>
                     (case get_version_by_id (sj_strategy j) (sj_version j) st of
                        None \<Rightarrow> Inl (Refused 409 ''HOSTED_VERSION_MISSING'')
                      | Some v \<Rightarrow> Inr (j, caps, s, v)))))"

record launch_env =
  le_store :: strategy_env
  le_services :: run_services
  le_token_id :: string
  le_raw_token :: string
  le_run_id :: string
  le_freshness :: int
  le_claim_wait :: int
  le_mint_exception :: string

definition child_actions :: "(string, bool) dict \<Rightarrow> string list" where
  "child_actions caps = (case capability_actions caps of Inr actions \<Rightarrow> actions | Inl _ \<Rightarrow> [])"

text \<open>The steps after the reservation; each failed one names the abort it leads to.\<close>

definition launch_steps ::
  "launch_env \<Rightarrow> surroundings \<Rightarrow> instant \<Rightarrow> string \<Rightarrow> string \<Rightarrow> int \<Rightarrow> int \<Rightarrow> strategy_job \<Rightarrow> (string, bool) dict \<Rightarrow> hosted_strategy
   \<Rightarrow> hosted_state \<Rightarrow> (string \<times> int \<times> string + string) \<times> hosted_state" where
  "launch_steps le su now jid holder epoch attempt j caps s s0 =
     (let tid = le_token_id le; rid = le_run_id le;
          q = child_token_request now j caps (child_actions caps) attempt;
          (minted, s1) = call_at su CallMint (Inl IntegrityError) (on_workers (create_token (le_store le) now q (le_raw_token le) tid)) s0
      in if isl minted then (Inl (''token_mint_failed: '' @ le_mint_exception le, 503, ''HOSTED_TOKEN_MINT_FAILED''), s1)
         else
           let (created, s2) = call_at su CallCreateRun (Inl IntegrityError)
                 (on_workers (create_worker_run_for_token (le_services le) now (child_token tid q j) (child_run_request j s caps attempt) rid)) s1
           in if isl created then (Inl (''run_create_failed'', 503, ''HOSTED_RUN_CREATE_FAILED''), s2)
              else
                let (recorded, s3) = call_at su CallRecordRun False (on_strategies (record_child_run now jid holder epoch attempt tid rid)) s2
                in if \<not> recorded then (Inl (''run_record_failed'', 409, ''HOSTED_PREPARE_INCOMPLETE''), s3)
                   else
                     let (claimed, s4) = call_at su CallClaimSession None
                           (on_workers (claim_run_session (le_store le) now rid (le_freshness le) (le_claim_wait le))) s3;
                         nonce = str_or (case claimed of Some r \<Rightarrow> wr_nonce r | None \<Rightarrow> None) []
                     in if nonce = [] then (Inl (''session_claim_failed'', 503, ''HOSTED_SESSION_CLAIM_FAILED''), s4)
                        else
                          let (handed, s5) = call_at su CallHandoff False (on_strategies (mark_running_and_handoff now jid holder epoch attempt rid)) s4
                          in if \<not> handed then (Inl (''handoff_mark_failed'', 409, ''HOSTED_PREPARE_INCOMPLETE''), s5)
                             else (Inr nonce, s5))"

definition launch_config :: "launch_env \<Rightarrow> string \<Rightarrow> int \<Rightarrow> int \<Rightarrow> strategy_job \<Rightarrow> strategy_version \<Rightarrow> string \<Rightarrow> child_config" where
  "launch_config le jid epoch attempt j v nonce =
     \<lparr>cc_job = jid, cc_strategy = sj_strategy j, cc_attempt = attempt, cc_epoch = epoch, cc_run = le_run_id le,
      cc_worker_token = le_raw_token le, cc_nonce = nonce, cc_template = template_id_for (sj_strategy j),
      cc_mode = sj_mode j, cc_scope = sj_scope j, cc_params = sj_params j, cc_max_duration = sj_max_duration j,
      cc_progress_deadline = sj_progress_deadline j, cc_policy = stale_policy_of j, cc_version = hv_id v, cc_sha256 = hv_sha256 v\<rparr>"

text \<open>The answer of a preparation, or its abort with the cleanup that goes with it.\<close>

definition finish_launch ::
  "launch_env \<Rightarrow> surroundings \<Rightarrow> instant \<Rightarrow> string \<Rightarrow> string \<Rightarrow> int \<Rightarrow> int \<Rightarrow> strategy_job \<Rightarrow> strategy_version
   \<Rightarrow> (string \<times> int \<times> string + string) \<times> hosted_state \<Rightarrow> (lifecycle_error + child_config) \<times> hosted_state" where
  "finish_launch le su now jid holder epoch attempt j v outcome =
     (case outcome of
        (Inl (reason, status, code), s) \<Rightarrow>
          let ((fenced, revoked), s1) = fail_closed su now jid (Some (le_token_id le)) holder epoch attempt reason s
          in (Inl (Aborted status code fenced revoked), s1)
      | (Inr nonce, s) \<Rightarrow> (Inr (launch_config le jid epoch attempt j v nonce), s))"

definition prepare_launch ::
  "launch_env \<Rightarrow> surroundings \<Rightarrow> instant \<Rightarrow> string \<Rightarrow> string \<Rightarrow> int \<Rightarrow> int \<Rightarrow> hosted_state \<Rightarrow> (lifecycle_error + child_config) \<times> hosted_state" where
  "prepare_launch le su now jid holder epoch attempt s0 =
     (case check_launch now jid holder epoch attempt (fst s0) of
        Inl e \<Rightarrow> (Inl e, s0)
      | Inr (j, caps, s, v) \<Rightarrow>
          let s1 = su_before su CallReserve s0 in
          if su_raises su CallReserve then (Inl Unhandled, s1)
          else
            let (reserved, s2) = on_strategies (reserve_child_token now jid holder epoch attempt (le_token_id le)) s1 in
            if \<not> reserved then (Inl (Refused 409 ''HOSTED_PREPARE_INCOMPLETE''), s2)
            else finish_launch le su now jid holder epoch attempt j v (launch_steps le su now jid holder epoch attempt j caps s s2))"

section \<open>Running attempts\<close>

text \<open>The session nonce of the run bound to a job, when both exist.\<close>

definition run_nonce :: "strategy_job \<Rightarrow> worker_store \<Rightarrow> string" where
  "run_nonce j ws =
     (if str_truthy (sj_run j) then str_or (case get_run (opt_str (sj_run j)) ws of Some r \<Rightarrow> wr_nonce r | None \<Rightarrow> None) [] else [])"

text \<open>A call whose exception is not caught: the operation ends there.\<close>

definition try_call :: "surroundings \<Rightarrow> lifecycle_call \<Rightarrow> (hosted_state \<Rightarrow> 'a \<times> hosted_state) \<Rightarrow> hosted_state \<Rightarrow> 'a option \<times> hosted_state" where
  "try_call su c act s = (let s1 = su_before su c s in if su_raises su c then (None, s1) else (let (x, s2) = act s1 in (Some x, s2)))"

definition heartbeat ::
  "surroundings \<Rightarrow> instant \<Rightarrow> string \<Rightarrow> string \<Rightarrow> int \<Rightarrow> int \<Rightarrow> instant \<Rightarrow> hosted_state \<Rightarrow> (lifecycle_error + instant option) \<times> hosted_state" where
  "heartbeat su now jid holder epoch attempt lease_until s =
     (case require_job_authority now (get_job_by_id jid (fst s)) holder epoch attempt live_statuses True False of
        Inl e \<Rightarrow> (Inl e, s)
      | Inr j \<Rightarrow>
          (case try_call su CallRenew (on_strategies (renew_lease now jid holder epoch attempt lease_until)) s of
             (Some (Inr True), s1) \<Rightarrow>
               let nonce = run_nonce j (snd s1)
               in if nonce = [] then (Inr None, s1)
                  else (case try_call su CallBeat (on_workers (record_run_heartbeat now (opt_str (sj_run j)) nonce)) s1 of
                      (None, s2) \<Rightarrow> (Inl Unhandled, s2)
                    | (Some None, s2) \<Rightarrow> (Inl (Refused 409 ''HOSTED_SESSION_CONFLICT''), s2)
                    | (Some (Some r), s2) \<Rightarrow> (Inr (wr_last_heartbeat r), s2))
           | (Some (Inr False), s1) \<Rightarrow> (Inl (Refused 409 ''HOSTED_LEASE_RENEW_REFUSED''), s1)
           | (_, s1) \<Rightarrow> (Inl Unhandled, s1)))"

text \<open>Withdrawing the child's authority, the session and the credential; the flag says whether it got through.\<close>

definition withdraw_session :: "surroundings \<Rightarrow> instant \<Rightarrow> strategy_job \<Rightarrow> hosted_state \<Rightarrow> bool \<times> hosted_state" where
  "withdraw_session su now j s =
     (let nonce = run_nonce j (snd s)
      in if nonce = [] then (True, s)
         else (case try_call su CallReleaseSession (on_workers (release_run_session now (opt_str (sj_run j)) nonce)) s of
             (r, s1) \<Rightarrow> (r \<noteq> None, s1)))"

definition withdraw_token :: "surroundings \<Rightarrow> strategy_job \<Rightarrow> hosted_state \<Rightarrow> bool \<times> hosted_state" where
  "withdraw_token su j s =
     (if str_truthy (sj_token j)
      then (case try_call su CallRevoke (on_workers (revoke_token (opt_str (sj_token j)))) s of (r, s1) \<Rightarrow> (r \<noteq> None, s1))
      else (True, s))"

text \<open>The last, fencing call of release, expiry and fence.\<close>

definition conclude ::
  "surroundings \<Rightarrow> lifecycle_call \<Rightarrow> (strategy_store \<Rightarrow> bool \<times> strategy_store) \<Rightarrow> string \<Rightarrow> 'a \<Rightarrow> hosted_state \<Rightarrow> (lifecycle_error + 'a) \<times> hosted_state" where
  "conclude su c act refusal answer s =
     (case try_call su c (on_strategies act) s of
        (Some True, s1) \<Rightarrow> (Inr answer, s1)
      | (Some False, s1) \<Rightarrow> (Inl (Refused 409 refusal), s1)
      | (None, s1) \<Rightarrow> (Inl Unhandled, s1))"

definition release ::
  "surroundings \<Rightarrow> instant \<Rightarrow> string \<Rightarrow> string \<Rightarrow> int \<Rightarrow> int \<Rightarrow> hosted_state \<Rightarrow> (lifecycle_error + string \<times> bool) \<times> hosted_state" where
  "release su now jid holder epoch attempt s =
     (case require_job_authority now (get_job_by_id jid (fst s)) holder epoch attempt live_statuses True False of
        Inl e \<Rightarrow> (Inl e, s)
      | Inr j \<Rightarrow>
          let (released, s1) = withdraw_session su now j s in
          if \<not> released then (Inl Unhandled, s1)
          else
            let (revoked, s2) = withdraw_token su j s1 in
            if \<not> revoked then (Inl Unhandled, s2)
            else if sj_handoff j \<noteq> None
              then conclude su CallFence (mark_recovery_required now jid holder epoch attempt) ''HOSTED_RELEASE_REFUSED'' (''recovery_required'', True) s2
            else conclude su CallStop (mark_stopped now jid holder epoch attempt) ''HOSTED_RELEASE_REFUSED'' (''stopped'', False) s2)"

definition expire_attempt ::
  "surroundings \<Rightarrow> instant \<Rightarrow> string \<Rightarrow> string \<Rightarrow> int \<Rightarrow> int \<Rightarrow> hosted_state \<Rightarrow> (lifecycle_error + string) \<times> hosted_state" where
  "expire_attempt su now jid holder epoch attempt s =
     (case require_job_authority now (get_job_by_id jid (fst s)) holder epoch attempt live_statuses False False of
        Inl e \<Rightarrow> (Inl e, s)
      | Inr j \<Rightarrow>
          if (case sj_lease_until j of None \<Rightarrow> False | Some t \<Rightarrow> t > now) then (Inl (Refused 409 ''HOSTED_LEASE_STILL_LIVE''), s)
          else
            let (revoked, s1) = withdraw_token su j s in
            if \<not> revoked then (Inl Unhandled, s1)
            else conclude su CallExpire (expire_to_recovery_authorized now jid holder epoch attempt) ''HOSTED_FENCE_REFUSED'' ''recovery_required'' s1)"

definition fence_attempt ::
  "surroundings \<Rightarrow> instant \<Rightarrow> string \<Rightarrow> string \<Rightarrow> int \<Rightarrow> int \<Rightarrow> hosted_state \<Rightarrow> (lifecycle_error + string) \<times> hosted_state" where
  "fence_attempt su now jid holder epoch attempt s =
     (case require_job_authority now (get_job_by_id jid (fst s)) holder epoch attempt live_statuses True False of
        Inl e \<Rightarrow> (Inl e, s)
      | Inr j \<Rightarrow>
          let (revoked, s1) = withdraw_token su j s in
          if \<not> revoked then (Inl Unhandled, s1)
          else conclude su CallFence (mark_recovery_required now jid holder epoch attempt) ''HOSTED_FENCE_REFUSED'' ''recovery_required'' s1)"

section \<open>Reads and reports\<close>

definition job_state :: "instant \<Rightarrow> string \<Rightarrow> string \<Rightarrow> int \<Rightarrow> int \<Rightarrow> hosted_state \<Rightarrow> lifecycle_error + strategy_job \<times> string option" where
  "job_state now jid holder epoch attempt s =
     (case require_job_authority now (get_job_by_id jid (fst s)) holder epoch attempt terminal_statuses False False of
        Inl e \<Rightarrow> Inl e
      | Inr j \<Rightarrow> Inr (j, if str_truthy (sj_run j) then map_option wr_status (get_run (opt_str (sj_run j)) (snd s)) else None))"

definition list_waiting_jobs :: "string list \<Rightarrow> int \<Rightarrow> strategy_store \<Rightarrow> strategy_job list" where
  "list_waiting_jobs statuses limit st = list_jobs_by_status statuses limit st"

definition job_source :: "instant \<Rightarrow> string \<Rightarrow> string \<Rightarrow> int \<Rightarrow> int \<Rightarrow> strategy_store \<Rightarrow> lifecycle_error + strategy_version" where
  "job_source now jid holder epoch attempt st =
     (case require_job_authority now (get_job_by_id jid st) holder epoch attempt live_statuses True True of
        Inl e \<Rightarrow> Inl e
      | Inr j \<Rightarrow>
          (case get_version_by_id (sj_strategy j) (sj_version j) st of None \<Rightarrow> Inl (Refused 409 ''HOSTED_VERSION_MISSING'') | Some v \<Rightarrow> Inr v))"

definition report_cleanup ::
  "instant \<Rightarrow> string \<Rightarrow> string \<Rightarrow> int \<Rightarrow> int \<Rightarrow> string \<Rightarrow> strategy_store \<Rightarrow> (lifecycle_error + unit) \<times> strategy_store" where
  "report_cleanup now jid holder epoch attempt state st =
     (if state \<notin> {''confirmed'', ''unresolved''} then (Inl (Refused 422 ''HOSTED_PROCESS_CLEANUP_STATE_INVALID''), st)
      else (case require_job_authority now (get_job_by_id jid st) holder epoch attempt terminal_statuses False False of
          Inl e \<Rightarrow> (Inl e, st)
        | Inr j \<Rightarrow>
            (case report_process_cleanup now jid state holder attempt st of
               (Inr True, st1) \<Rightarrow> (Inr (), st1)
             | (Inr False, st1) \<Rightarrow> (Inl (Refused 409 ''HOSTED_PROCESS_CLEANUP_REFUSED''), st1)
             | (Inl _, st1) \<Rightarrow> (Inl Unhandled, st1))))"

definition char_bytes :: "char \<Rightarrow> int" where
  "char_bytes c = (if (of_char c :: nat) < 128 then 1 else 2)"

text \<open>The pieces of the text: the finished ones, then the current one with its size.\<close>

fun split_loop :: "int \<Rightarrow> string \<Rightarrow> int \<Rightarrow> string \<Rightarrow> string list" where
  "split_loop max_bytes current used [] = (if current = [] then [] else [current])"
| "split_loop max_bytes current used (c # cs) =
     (if current \<noteq> [] \<and> used + char_bytes c > max_bytes then current # split_loop max_bytes [c] (char_bytes c) cs
      else split_loop max_bytes (current @ [c]) (used + char_bytes c) cs)"

definition split_by_bytes :: "string \<Rightarrow> int \<Rightarrow> string list" where
  "split_by_bytes text max_bytes = split_loop max_bytes [] 0 text"

definition log_chunk_max_bytes :: int where
  "log_chunk_max_bytes = 16 * 1024"

text \<open>The redaction is an argument: what is stored is what it returns of the joined chunks.\<close>

definition report_job_logs ::
  "(string \<Rightarrow> string) \<Rightarrow> instant \<Rightarrow> string \<Rightarrow> string \<Rightarrow> int \<Rightarrow> int \<Rightarrow> string list \<Rightarrow> strategy_store
   \<Rightarrow> (lifecycle_error + log_result) \<times> strategy_store" where
  "report_job_logs redact_text now jid holder epoch attempt chunks st =
     (if chunks = [] then (Inl (Refused 422 ''HOSTED_LOGS_EMPTY''), st)
      else if list_ex (\<lambda>c. utf8_len c > log_chunk_max_bytes) chunks then (Inl (Refused 413 ''HOSTED_LOG_CHUNK_TOO_LARGE''), st)
      else (case require_job_authority now (get_job_by_id jid st) holder epoch attempt terminal_statuses False False of
          Inl e \<Rightarrow> (Inl e, st)
        | Inr j \<Rightarrow>
            (case append_job_log jid attempt (split_by_bytes (redact_text (concat chunks)) log_chunk_max_bytes) log_total_max_bytes st of
               (Inr r, st1) \<Rightarrow> (Inr r, st1)
             | (Inl _, st1) \<Rightarrow> (Inl Unhandled, st1))))"

text \<open>The claim route answers with the state of the claimed job, read under the name the caller sent.\<close>

definition claim_route ::
  "instant \<Rightarrow> string \<Rightarrow> string \<Rightarrow> int \<Rightarrow> int \<Rightarrow> instant \<Rightarrow> hosted_state \<Rightarrow> (lifecycle_error + strategy_job \<times> string option) \<times> hosted_state" where
  "claim_route now jid holder epoch attempt lease_until s =
     (case claim_job now jid holder epoch attempt lease_until (fst s) of
        (Inl (ValidationError msg), st1) \<Rightarrow> (Inl (Refused 422 msg), (st1, snd s))
      | (Inl _, st1) \<Rightarrow> (Inl (Refused 409 ''HOSTED_STRATEGY_DISABLED''), (st1, snd s))
      | (Inr None, st1) \<Rightarrow> (Inl (Refused 409 ''HOSTED_CLAIM_CONFLICT''), (st1, snd s))
      | (Inr (Some j), st1) \<Rightarrow>
          (case job_state now jid holder (sj_epoch j) attempt (st1, snd s) of
             Inl _ \<Rightarrow> (Inl Unhandled, (st1, snd s))
           | Inr view \<Rightarrow> (Inr view, (st1, snd s))))"

end
