(* ===== verification/LifecycleTheorems.thy ===== *)
theory LifecycleTheorems
  imports HostedLifecycle
begin

text \<open>
  The supervisor's lifecycle under interference and faults. Surroundings are admissible when they
  only act through the operations of the two stores. The locale \<open>lifecycle_stage\<close> is the
  contract of one call of a lifecycle operation: it moves the two stores along their histories.
  Over it: a prepared launch hands out a credential that is bound to the job and carries exactly
  the declared rights, a failed preparation leaves no usable credential, an attempt is prepared
  at most once, and a released launched attempt stays blocked.
\<close>

section \<open>Admissible surroundings\<close>

definition moves :: "strategy_env \<Rightarrow> hosted_state \<Rightarrow> hosted_state \<Rightarrow> bool" where
  "moves env s s' \<longleftrightarrow> history env (fst s) (fst s') \<and> worker_history env (snd s) (snd s')"

definition admissible :: "strategy_env \<Rightarrow> surroundings \<Rightarrow> bool" where
  "admissible env su \<longleftrightarrow> (\<forall>c s. moves env s (su_before su c s))"

definition reachable_state :: "strategy_env \<Rightarrow> hosted_state \<Rightarrow> bool" where
  "reachable_state env s \<longleftrightarrow> moves env (empty_strategies, empty_workers) s"

lemma moves_refl [simp]: "moves env s s"
  by (simp add: moves_def)

lemma moves_trans: "moves env a b \<Longrightarrow> moves env b c \<Longrightarrow> moves env a c"
  by (auto simp: moves_def)

lemma reachable_moves: "reachable_state env s \<Longrightarrow> moves env s s' \<Longrightarrow> reachable_state env s'"
  using moves_trans by (auto simp: reachable_state_def)

lemma reachable_invs: "reachable_state env s \<Longrightarrow> ledger_inv (fst s)" "reachable_state env s \<Longrightarrow> tokens_inv (snd s)"
  using reachable_ledger_inv reachable_tokens_inv by (auto simp: reachable_state_def moves_def)

lemma moves_progresses: "reachable_state env s \<Longrightarrow> moves env s s' \<Longrightarrow> progresses (fst s) (fst s')"
  using history_progresses reachable_invs(1) unfolding moves_def by blast

lemma moves_keeps: "reachable_state env s \<Longrightarrow> moves env s s' \<Longrightarrow> keeps (snd s) (snd s')"
  using worker_history_keeps reachable_invs(2) unfolding moves_def by blast

lemma moves_job:
  assumes "reachable_state env s" "moves env s s'" "get_job_by_id jid (fst s) = Some j"
  shows "\<exists>j'. get_job_by_id jid (fst s') = Some j' \<and> advances j j'"
  using moves_progresses [OF assms(1,2)] assms(3) by (auto simp: progresses_def jobs_advance_def get_job_by_id_def)

lemma moves_token:
  assumes "reachable_state env s" "moves env s s'" "dict_get (ws_tokens (snd s)) tid = Some t"
  shows "\<exists>t'. dict_get (ws_tokens (snd s')) tid = Some t' \<and> token_keeps t t'"
  using keeps_token [OF moves_keeps [OF assms(1,2)] assms(3)] .

lemma moves_run:
  assumes "reachable_state env s" "moves env s s'" "get_run rid (snd s) = Some r"
  shows "\<exists>r'. get_run rid (snd s') = Some r' \<and> run_identity r' = run_identity r"
  using keeps_run [OF moves_keeps [OF assms(1,2)]] assms(3) by (simp add: get_run_def)

lemma moves_strategies: "strategy_step env (fst s) st' \<Longrightarrow> moves env s (st', snd s)"
  by (simp add: moves_def r_into_rtranclp)

lemma moves_workers: "worker_step env (snd s) ws' \<Longrightarrow> moves env s (fst s, ws')"
  by (simp add: moves_def r_into_rtranclp)

lemma admissible_before: "admissible env su \<Longrightarrow> moves env s (su_before su c s)"
  unfolding admissible_def by blast

section \<open>One call\<close>

locale lifecycle_stage =
  fixes env :: strategy_env and act :: "hosted_state \<Rightarrow> 'a \<times> hosted_state"
  assumes act_moves: "moves env s (snd (act s))"
begin

lemma call_moves: "admissible env su \<Longrightarrow> moves env s (snd (call_at su c raised act s))"
  using moves_trans [OF admissible_before act_moves] admissible_before by (simp add: call_at_def Let_def)

lemma try_moves: "admissible env su \<Longrightarrow> moves env s (snd (try_call su c act s))"
  using moves_trans [OF admissible_before act_moves] admissible_before by (simp add: try_call_def Let_def split_def)

end

lemma on_strategies_moves: "(\<And>st. strategy_step env st (snd (act st))) \<Longrightarrow> moves env s (snd (on_strategies act s))"
  by (simp add: on_strategies_def Let_def split_def moves_strategies)

lemma on_workers_moves: "(\<And>ws. worker_step env ws (snd (act ws))) \<Longrightarrow> moves env s (snd (on_workers act s))"
  by (simp add: on_workers_def Let_def split_def moves_workers)

interpretation failure_stage: lifecycle_stage env "on_strategies (record_failure now jid holder epoch attempt reason)"
  for env now jid holder epoch attempt reason
  by unfold_locales (rule on_strategies_moves, rule step_failure)

interpretation recovery_stage: lifecycle_stage env "on_strategies (mark_recovery_required now jid holder epoch attempt)"
  for env now jid holder epoch attempt
  by unfold_locales (rule on_strategies_moves, rule step_recovery)

interpretation stop_stage: lifecycle_stage env "on_strategies (mark_stopped now jid holder epoch attempt)" for env now jid holder epoch attempt
  by unfold_locales (rule on_strategies_moves, rule step_stop)

interpretation reserve_stage: lifecycle_stage env "on_strategies (reserve_child_token now jid holder epoch attempt token)"
  for env now jid holder epoch attempt token
  by unfold_locales (rule on_strategies_moves, rule step_reserve_token)

interpretation record_stage: lifecycle_stage env "on_strategies (record_child_run now jid holder epoch attempt token run)"
  for env now jid holder epoch attempt token run
  by unfold_locales (rule on_strategies_moves, rule step_record_run)

interpretation handoff_stage: lifecycle_stage env "on_strategies (mark_running_and_handoff now jid holder epoch attempt run)"
  for env now jid holder epoch attempt run
  by unfold_locales (rule on_strategies_moves, rule step_handoff)

interpretation mint_stage: lifecycle_stage env "on_workers (create_token env now q raw tid)" for env now q raw tid
  by unfold_locales (rule on_workers_moves, rule worker_step.intros)

interpretation run_stage: lifecycle_stage env "on_workers (create_worker_run_for_token services now t q rid)" for env services now t q rid
  by unfold_locales (rule on_workers_moves, rule worker_step.intros)

interpretation session_stage: lifecycle_stage env "on_workers (claim_run_session env now rid fresh wait)" for env now rid fresh wait
  by unfold_locales (rule on_workers_moves, rule worker_step.intros)

interpretation revoke_stage: lifecycle_stage env "on_workers (revoke_token tid)" for env tid
  by unfold_locales (rule on_workers_moves, rule worker_step.intros)

interpretation revoked_stage: lifecycle_stage env "on_workers (revoke_known tid)" for env tid
proof
  fix s
  show "moves env s (snd (on_workers (revoke_known tid) s))"
    using revoke_stage.act_moves [of env s tid] by (simp add: on_workers_def revoke_known_def Let_def split_def)
qed

interpretation release_session_stage: lifecycle_stage env "on_workers (release_run_session now rid nonce)" for env now rid nonce
  by unfold_locales (rule on_workers_moves, rule worker_step.intros)

section \<open>The steps of a preparation\<close>

lemma call_at_ok: "call_at su c raised act s = (x, s') \<Longrightarrow> x \<noteq> raised \<Longrightarrow> act (su_before su c s) = (x, s')"
  by (auto simp: call_at_def Let_def split: if_splits)

lemma launch_steps_moves:
  assumes "admissible (le_store le) su"
  shows "moves (le_store le) s0 (snd (launch_steps le su now jid holder epoch attempt j caps s s0))"
proof -
  let ?env = "le_store le"
  have *: "moves ?env a (snd (call_at su CallMint raised (on_workers (create_token ?env now q raw tid)) b))"
    "moves ?env a (snd (call_at su CallCreateRun raised' (on_workers (create_worker_run_for_token sv now t q' rid)) b))"
    "moves ?env a (snd (call_at su CallRecordRun False (on_strategies (record_child_run now jid holder epoch attempt tid rid)) b))"
    "moves ?env a (snd (call_at su CallClaimSession None (on_workers (claim_run_session ?env now rid f w)) b))"
    "moves ?env a (snd (call_at su CallHandoff False (on_strategies (mark_running_and_handoff now jid holder epoch attempt rid)) b))"
    if "moves ?env a b" for a b raised raised' q q' raw tid sv t rid f w
    by (rule moves_trans [OF that], rule mint_stage.call_moves run_stage.call_moves record_stage.call_moves session_stage.call_moves
          handoff_stage.call_moves, rule assms)+
  show ?thesis by (simp add: launch_steps_def Let_def split_def *)
qed

lemma fail_closed_stages:
  obtains b s1 s2 s3 fenced revoked where
    "call_at su CallRecordFailure False (on_strategies (record_failure now jid holder epoch attempt reason)) s = (b, s1)"
    "(if str_truthy token
      then call_at su CallRevoke False (on_workers (revoke_known (opt_str token))) s1
      else (False, s1)) = (revoked, s2)"
    "call_at su CallFence False (on_strategies (mark_recovery_required now jid holder epoch attempt)) s2 = (fenced, s3)"
    "fail_closed su now jid token holder epoch attempt reason s = ((fenced, revoked), s3)"
proof -
  obtain b s1 where 1: "call_at su CallRecordFailure False (on_strategies (record_failure now jid holder epoch attempt reason)) s = (b, s1)"
    by (meson surj_pair)
  obtain revoked s2 where 2: "(if str_truthy token
      then call_at su CallRevoke False (on_workers (revoke_known (opt_str token))) s1
      else (False, s1)) = (revoked, s2)" by (meson surj_pair)
  obtain fenced s3 where 3: "call_at su CallFence False (on_strategies (mark_recovery_required now jid holder epoch attempt)) s2 = (fenced, s3)"
    by (meson surj_pair)
  show thesis by (rule that [OF 1 2 3]) (simp only: fail_closed_def 1 2 3 Let_def prod.case)
qed

lemma fail_closed_moves: "admissible env su \<Longrightarrow> moves env s (snd (fail_closed su now jid token holder epoch attempt reason s))"
proof -
  assume adm: "admissible env su"
  obtain b s1 s2 s3 fenced revoked where c:
    "call_at su CallRecordFailure False (on_strategies (record_failure now jid holder epoch attempt reason)) s = (b, s1)"
    "(if str_truthy token
      then call_at su CallRevoke False (on_workers (revoke_known (opt_str token))) s1
      else (False, s1)) = (revoked, s2)"
    "call_at su CallFence False (on_strategies (mark_recovery_required now jid holder epoch attempt)) s2 = (fenced, s3)"
    "fail_closed su now jid token holder epoch attempt reason s = ((fenced, revoked), s3)"
    by (rule fail_closed_stages)
  have "moves env s s1" using failure_stage.call_moves [OF adm, of s] c(1) by (metis snd_conv)
  moreover have "moves env s1 s2"
    using revoked_stage.call_moves [OF adm, of s1] c(2) by (metis moves_refl prod.inject snd_conv)
  moreover have "moves env s2 s3" using recovery_stage.call_moves [OF adm, of s2] c(3) by (metis snd_conv)
  ultimately show ?thesis using c(4) moves_trans by (metis snd_conv)
qed

lemma finish_launch_moves:
  assumes "admissible env su" "moves env s (snd outcome)"
  shows "moves env s (snd (finish_launch le su now jid holder epoch attempt j v outcome))"
  using moves_trans [OF assms(2) fail_closed_moves [OF assms(1)]] assms(2)
  by (cases outcome; cases "fst outcome") (auto simp: finish_launch_def Let_def split_def)

lemma prepare_launch_moves:
  assumes "admissible (le_store le) su"
  shows "moves (le_store le) s (snd (prepare_launch le su now jid holder epoch attempt s))"
proof (cases "check_launch now jid holder epoch attempt (fst s)")
  case (Inr x)
  obtain j caps st v where x: "x = (j, caps, st, v)" by (cases x)
  let ?s2 = "snd (on_strategies (reserve_child_token now jid holder epoch attempt (le_token_id le)) (su_before su CallReserve s))"
  have m2: "moves (le_store le) s ?s2" using moves_trans [OF admissible_before [OF assms] reserve_stage.act_moves] .
  show ?thesis
    using m2 admissible_before [OF assms, of s CallReserve] finish_launch_moves [OF assms moves_trans [OF m2 launch_steps_moves [OF assms]]]
    unfolding prepare_launch_def Inr x sum.case prod.case Let_def split_def by auto
qed (simp add: prepare_launch_def)

lemma check_launch_Inr:
  assumes "check_launch now jid holder epoch attempt st = Inr (j, caps, s, v)"
  shows "get_job_by_id jid st = Some j" "sj_token j = None" "parse_capability_snapshot (JObj (sj_capabilities j)) = Inr caps"
    "get_version_by_id (sj_strategy j) (sj_version j) st = Some v" "sj_status j \<in> set live_statuses"
  using assms by (auto simp: check_launch_def require_job_authority_def split: sum.splits option.splits if_splits)

lemma check_launch_Inl: "check_launch now jid holder epoch attempt st = Inl e \<Longrightarrow> \<exists>status code. e = Refused status code"
  by (auto simp: check_launch_def require_job_authority_def split: sum.splits option.splits if_splits)

text \<open>A preparation that got past its reservation.\<close>

lemma prepare_launch_reserved:
  assumes p: "prepare_launch le su now jid holder epoch attempt s = (res, s')"
    and res: "\<And>status code. res \<noteq> Inl (Refused status code)" "res \<noteq> Inl Unhandled"
  obtains j caps st v s2 where "check_launch now jid holder epoch attempt (fst s) = Inr (j, caps, st, v)"
    "on_strategies (reserve_child_token now jid holder epoch attempt (le_token_id le)) (su_before su CallReserve s) = (True, s2)"
    "finish_launch le su now jid holder epoch attempt j v (launch_steps le su now jid holder epoch attempt j caps st s2) = (res, s')"
proof -
  obtain j caps st v where c: "check_launch now jid holder epoch attempt (fst s) = Inr (j, caps, st, v)"
    using p res(1) check_launch_Inl by (cases "check_launch now jid holder epoch attempt (fst s)") (fastforce simp: prepare_launch_def)+
  obtain b s2 where r: "on_strategies (reserve_child_token now jid holder epoch attempt (le_token_id le)) (su_before su CallReserve s) = (b, s2)"
    by (meson surj_pair)
  have "\<not> su_raises su CallReserve" using p res(2) by (auto simp: prepare_launch_def c Let_def)
  moreover have b: b using p res(1) calculation by (auto simp: prepare_launch_def c r Let_def split: if_splits)
  ultimately show thesis using p r b by (intro that [OF c, of s2]) (auto simp: prepare_launch_def c r Let_def)
qed

lemma reserved_row:
  assumes "on_strategies (reserve_child_token now jid holder epoch attempt tid) s = (True, s')"
  shows "\<exists>j. get_job_by_id jid (fst s') = Some j \<and> sj_token j = Some tid \<and> authority_clause holder epoch attempt j"
  using assms
  by (auto simp: on_strategies_def reserve_child_token_def cas_job_def get_job_by_id_def authority_clause_def holds_lease_def split: option.splits if_splits)

lemma reserved_later:
  assumes reach: "reachable_state env s" and adm: "admissible env su"
    and r: "on_strategies (reserve_child_token now jid holder epoch attempt tid) (su_before su CallReserve s) = (True, s2)"
  shows "reachable_state env s2" "moves env s s2" "\<exists>j. get_job_by_id jid (fst s2) = Some j \<and> sj_token j = Some tid \<and> authority_clause holder epoch attempt j"
proof -
  show m: "moves env s s2" using moves_trans [OF admissible_before [OF adm] reserve_stage.act_moves] r by (metis snd_conv)
  show "reachable_state env s2" using reachable_moves [OF reach m] .
qed (rule reserved_row [OF r])

lemma reserved_refuses: "get_job_by_id jid (fst s) = Some j \<Longrightarrow> sj_token j \<noteq> None \<Longrightarrow>
  \<exists>status code. prepare_launch le su now jid holder epoch attempt s = (Inl (Refused status code), s)"
  by (auto simp: prepare_launch_def check_launch_def require_job_authority_def)

text \<open>
  An attempt is prepared at most once: after a preparation that reserved its credential,
  whether it succeeded or was aborted, every later preparation of that job is refused before it
  writes anything, whoever asks, with whatever lease, and whatever happened in between.
\<close>

theorem prepared_at_most_once:
  assumes "reachable_state env s" "admissible env su" "le_store le = env"
    and "prepare_launch le su now jid holder epoch attempt s = (res, s')"
    and "\<exists>cfg status code fenced revoked. res = Inr cfg \<or> res = Inl (Aborted status code fenced revoked)"
    and "moves env s' s''"
  shows "\<exists>status code. prepare_launch le' su' now' jid holder' epoch' attempt' s'' = (Inl (Refused status code), s'')"
proof -
  obtain j caps st v s2 where
    r: "on_strategies (reserve_child_token now jid holder epoch attempt (le_token_id le)) (su_before su CallReserve s) = (True, s2)"
    and f: "finish_launch le su now jid holder epoch attempt j v (launch_steps le su now jid holder epoch attempt j caps st s2) = (res, s')"
    using assms(5) by (elim exE) (rule prepare_launch_reserved [OF assms(4)]; auto)
  note reserved = reserved_later [OF assms(1,2) r]
  have "moves env s2 (snd (launch_steps le su now jid holder epoch attempt j caps st s2))" using launch_steps_moves assms(2,3) by blast
  then have "moves env s2 s'" using finish_launch_moves [OF assms(2)] f by (metis snd_conv)
  then have m: "moves env s2 s''" using moves_trans assms(6) by blast
  obtain j2 where j2: "get_job_by_id jid (fst s2) = Some j2" "sj_token j2 = Some (le_token_id le)" using reserved(3) by blast
  obtain j3 where "get_job_by_id jid (fst s'') = Some j3" "advances j2 j3" using moves_job [OF reserved(1) m j2(1)] by blast
  then show ?thesis using reserved_refuses j2(2) by (auto simp: advances_def kept_def)
qed

section \<open>Failing closed\<close>

text \<open>Nobody else uses the credential's identifier: it is freshly generated.\<close>

definition fresh_token :: "surroundings \<Rightarrow> string \<Rightarrow> bool" where
  "fresh_token su tid \<longleftrightarrow> (\<forall>c s. \<not> dict_has (ws_tokens (snd s)) tid \<longrightarrow> \<not> dict_has (ws_tokens (snd (su_before su c s))) tid)"

lemma fresh_tokenD:
  "fresh_token su tid \<Longrightarrow> dict_get (ws_tokens (snd s)) tid = None \<Longrightarrow> dict_get (ws_tokens (snd (su_before su c s))) tid = None"
  by (cases s) (simp add: fresh_token_def dict_has_def)

lemma holder_or_over:
  assumes "job_inv j" "authority_clause holder epoch attempt j" "advances j j'" "job_inv j'"
  shows "3 \<le> job_rank j' \<or> holds_lease holder epoch attempt j'"
proof -
  have e: "sj_epoch j = 1" "sj_lease_owner j = Some holder" "epoch = 1" "sj_attempt j = attempt"
    using assms(1,2) by (auto simp: job_inv_def authority_clause_def holds_lease_def live_statuses_def)
  have "sj_epoch j' = 0 \<or> sj_epoch j' = 1" using assms(4) by (simp add: job_inv_def)
  then have "sj_epoch j' = 1" using assms(3) e by (auto simp: advances_def)
  then show ?thesis using assms(3) e by (auto simp: advances_def job_identity_def holds_lease_def)
qed

lemma job_inv_of: "reachable_state env s \<Longrightarrow> get_job_by_id jid (fst s) = Some j \<Longrightarrow> job_inv j"
  using reachable_invs(1) [of env s] by (fastforce simp: ledger_inv_def jobs_inv_def get_job_by_id_def dest: map_of_SomeD)

text \<open>A fencing call that is made ends the attempt, by itself or because someone else did.\<close>

lemma fence_call_ends:
  assumes reach: "reachable_state env s" and adm: "admissible env su" and j: "get_job_by_id jid (fst s) = Some j" "authority_clause holder epoch attempt j"
    and m: "moves env s s1" and ok: "\<not> su_raises su CallFence"
    and f: "call_at su CallFence False (on_strategies (mark_recovery_required now jid holder epoch attempt)) s1 = (fenced, s2)"
  shows "\<exists>j'. get_job_by_id jid (fst s2) = Some j' \<and> 3 \<le> job_rank j' \<and> (fenced \<longrightarrow> sj_status j' = ''recovery_required'')"
proof -
  define u where "u = su_before su CallFence s1"
  have mu: "moves env s u" using moves_trans [OF m admissible_before [OF adm]] by (simp add: u_def)
  obtain ju where ju: "get_job_by_id jid (fst u) = Some ju" "advances j ju" using moves_job [OF reach mu j(1)] by blast
  have inv: "job_inv j" "job_inv ju" using job_inv_of [OF reach j(1)] job_inv_of [OF reachable_moves [OF reach mu] ju(1)] by simp_all
  have f': "on_strategies (mark_recovery_required now jid holder epoch attempt) u = (fenced, s2)"
    using f ok by (simp add: call_at_def u_def)
  have terminal: "3 \<le> job_rank i" if "sj_status i \<in> {''stopped'', ''failed'', ''recovery_required''}" for i
    using that by (auto simp: job_rank_def)
  have over: "3 \<le> job_rank ju \<or> holds_lease holder epoch attempt ju" using holder_or_over [OF inv(1) j(2) ju(2) inv(2)] .
  show ?thesis
    using f' ju(1) over terminal [of ju]
    by (auto simp: on_strategies_def mark_recovery_required_def cas_job_def get_job_by_id_def fence_job_def job_rank_def split: if_splits)
qed

lemma revoke_known_result:
  assumes "on_workers (revoke_known tid) s = (b, s')"
  shows "\<forall>t. dict_get (ws_tokens (snd s')) tid = Some t \<longrightarrow> wt_status t = ''revoked''" "fst s' = fst s"
  using assms by (auto simp: on_workers_def revoke_known_def revoke_token_def update_token_def Let_def split_def split: option.splits)

text \<open>
  C2. A failed preparation fails closed when its cleanup can: when it is aborted after it reserved
  its credential, at any step, by an exception, a refused write or a lost race, and neither of the
  two calls of its cleanup, the revocation and the fencing, itself raises, then the attempt is
  fenced or over, so that no request of its child can be accepted, and the credential it may have
  minted is revoked. (When one of the two raises, the cleanup is best effort.)
\<close>

theorem failed_preparation_fails_closed:
  assumes "reachable_state env s" "admissible env su" "le_store le = env" "fresh_token su (le_token_id le)" "le_token_id le \<noteq> []"
    and "\<not> su_raises su CallRevoke" "\<not> su_raises su CallFence"
    and p: "prepare_launch le su now jid holder epoch attempt s = (Inl (Aborted status code fenced revoked), s')"
  shows "(\<exists>j. get_job_by_id jid (fst s') = Some j \<and> 3 \<le> job_rank j \<and> (fenced \<longrightarrow> sj_status j = ''recovery_required'')
      \<and> (\<forall>now' t r. validate_authority now' j t r \<noteq> Inr ()))
    \<and> (\<forall>t. dict_get (ws_tokens (snd s')) (le_token_id le) = Some t \<longrightarrow> wt_status t = ''revoked'')"
proof -
  obtain j caps st v s2 where
    r: "on_strategies (reserve_child_token now jid holder epoch attempt (le_token_id le)) (su_before su CallReserve s) = (True, s2)"
    and f: "finish_launch le su now jid holder epoch attempt j v (launch_steps le su now jid holder epoch attempt j caps st s2)
              = (Inl (Aborted status code fenced revoked), s')"
    by (rule prepare_launch_reserved [OF p]) auto
  note reserved = reserved_later [OF assms(1,2) r]
  define s3 where "s3 = snd (launch_steps le su now jid holder epoch attempt j caps st s2)"
  have m3: "moves env s2 s3" using launch_steps_moves assms(2,3) unfolding s3_def by blast
  obtain reason where fc: "fail_closed su now jid (Some (le_token_id le)) holder epoch attempt reason s3 = ((fenced, revoked), s')"
    using f by (auto simp: finish_launch_def s3_def Let_def split_def split: sum.splits prod.splits intro!: prod_eqI)
  obtain b s4 s5 where st:
    "call_at su CallRecordFailure False (on_strategies (record_failure now jid holder epoch attempt reason)) s3 = (b, s4)"
    "call_at su CallRevoke False (on_workers (revoke_known (le_token_id le))) s4 = (revoked, s5)"
    "call_at su CallFence False (on_strategies (mark_recovery_required now jid holder epoch attempt)) s5 = (fenced, s')"
    by (rule fail_closed_stages [of su now jid holder epoch attempt reason s3 "Some (le_token_id le)"])
       (use fc assms(5) in \<open>auto simp: str_truthy_def opt_str_def\<close>)
  have m4: "moves env s2 s4" using moves_trans [OF m3 failure_stage.call_moves [OF assms(2)]] st(1) by (metis snd_conv)
  have m5: "moves env s2 s5" using moves_trans [OF m4 revoked_stage.call_moves [OF assms(2)]] st(2) by (metis snd_conv)
  obtain j2 where j2: "get_job_by_id jid (fst s2) = Some j2" "authority_clause holder epoch attempt j2" using reserved(3) by blast
  obtain j' where j': "get_job_by_id jid (fst s') = Some j'" "3 \<le> job_rank j'" "fenced \<longrightarrow> sj_status j' = ''recovery_required''"
    using fence_call_ends [OF reserved(1) assms(2) j2 m5 assms(7) st(3)] by blast
  have "validate_authority now' j' t r \<noteq> Inr ()" for now' t r using withdrawn_refused j'(2) by (simp add: withdrawn_def)
  moreover have "wt_status t = ''revoked''" if t: "dict_get (ws_tokens (snd s')) (le_token_id le) = Some t" for t
  proof -
    let ?u = "su_before su CallFence s5"
    have w: "ws_tokens (snd s') = ws_tokens (snd ?u)"
      using st(3) assms(7) by (auto simp: call_at_def on_strategies_def Let_def split_def)
    have rev: "\<forall>t. dict_get (ws_tokens (snd s5)) (le_token_id le) = Some t \<longrightarrow> wt_status t = ''revoked''"
      using st(2) assms(6) revoke_known_result(1) [of "le_token_id le" "su_before su CallRevoke s4" revoked s5] by (simp add: call_at_def)
    show ?thesis
    proof (cases "dict_get (ws_tokens (snd s5)) (le_token_id le)")
      case None
      then show ?thesis using fresh_tokenD [OF assms(4) None, of CallFence] t w by simp
    next
      case (Some t0)
      then obtain t' where "dict_get (ws_tokens (snd ?u)) (le_token_id le) = Some t'" "token_keeps t0 t'"
        using moves_token [OF reachable_moves [OF reserved(1) m5] admissible_before [OF assms(2)] Some] by blast
      then show ?thesis using rev Some t w by (auto simp: token_keeps_def)
    qed
  qed
  ultimately show ?thesis using j' by blast
qed

section \<open>What a prepared launch hands out\<close>

lemma minted_row:
  assumes "on_workers (create_token env now q raw tid) s = (Inr row, s')"
  shows "dict_get (ws_tokens (snd s')) tid = Some row" "tk_hash row = se_sha256 env raw" "wt_scope row = tq_scope q" "wt_actions row = tq_actions q"
    "wt_id row = tid" "wt_modes row = tq_modes q"
  using assms by (auto simp: on_workers_def create_token_def Let_def split: if_splits)

lemma attach_protection_row: "attach_protection services now q = Inr q' \<Longrightarrow>
  rq_template q' = rq_template q \<and> rq_scope q' = rq_scope q \<and> rq_mode q' = rq_mode q"
  by (auto simp: attach_protection_def split: option.splits sum.splits)

lemma attach_journal_row [simp]:
  "rq_template (attach_journal refs q) = rq_template q" "rq_scope (attach_journal refs q) = rq_scope q" "rq_mode (attach_journal refs q) = rq_mode q"
  by (auto simp: attach_journal_def split: sum.splits)

lemma create_run_row:
  assumes "create_run now tid q rid st = (Inr row, st')"
  shows "get_run rid st' = Some row" "wr_id row = rid" "wr_token row = tid" "wr_template row = rq_template q" "wr_scope row = rq_scope q"
    "wr_mode row = rq_mode q"
  using assms by (auto simp: create_run_def get_run_def Let_def split: if_splits)

lemma created_run_row:
  assumes "on_workers (create_worker_run_for_token services now t q rid) s = (Inr row, s')"
  shows "get_run rid (snd s') = Some row" "wr_id row = rid" "wr_token row = wt_id t" "wr_template row = rq_template q" "wr_scope row = rq_scope q"
    "wr_mode row = rq_mode q" "rq_mode q \<in> set (wt_modes t)"
proof -
  have c: "create_worker_run_for_token services now t q rid (snd s) = (Inr row, snd s')"
    using assms by (auto simp: on_workers_def Let_def split: prod.splits)
  then have a: "authorize_run t q = Inr ()" by (auto simp: create_worker_run_for_token_def split: sum.splits)
  obtain q1 where p: "attach_protection services now q = Inr q1" using c by (auto simp: create_worker_run_for_token_def split: sum.splits)
  then have "create_run now (wt_id t) (attach_journal (rs_journal services rid) q1) rid (snd s) = (Inr row, snd s')"
    using c a p by (auto simp: create_worker_run_for_token_def split: sum.splits prod.splits)
  from create_run_row [OF this] attach_protection_row [OF p] show "get_run rid (snd s') = Some row" "wr_id row = rid" "wr_token row = wt_id t"
      "wr_template row = rq_template q" "wr_scope row = rq_scope q" "wr_mode row = rq_mode q" by simp_all
  show "rq_mode q \<in> set (wt_modes t)" using a by (auto simp: authorize_run_def split: sum.splits option.splits if_splits)
qed

lemma handed_row:
  assumes "on_strategies (mark_running_and_handoff now jid holder epoch attempt rid) s = (True, s')"
  shows "\<exists>j. get_job_by_id jid (fst s') = Some j \<and> sj_status j = ''running'' \<and> sj_handoff j = Some now \<and> sj_run j = Some rid" "snd s' = snd s"
  using assms by (auto simp: on_strategies_def mark_running_and_handoff_def cas_job_def get_job_by_id_def split: option.splits if_splits)

text \<open>The calls of a preparation that went through, with the states between them.\<close>

lemma launch_steps_Inr:
  assumes "launch_steps le su now jid holder epoch attempt j caps st s0 = (Inr nonce, s')"
  obtains trow s1 rrow s2 s3 s4 where
    "on_workers (create_token (le_store le) now (child_token_request now j caps (child_actions caps) attempt) (le_raw_token le) (le_token_id le))
       (su_before su CallMint s0) = (Inr trow, s1)"
    "on_workers (create_worker_run_for_token (le_services le) now
         (child_token (le_token_id le) (child_token_request now j caps (child_actions caps) attempt) j) (child_run_request j st caps attempt) (le_run_id le))
       (su_before su CallCreateRun s1) = (Inr rrow, s2)"
    "call_at su CallRecordRun False (on_strategies (record_child_run now jid holder epoch attempt (le_token_id le) (le_run_id le))) s2 = (True, s3)"
    "snd (call_at su CallClaimSession None (on_workers (claim_run_session (le_store le) now (le_run_id le) (le_freshness le) (le_claim_wait le))) s3) = s4"
    "on_strategies (mark_running_and_handoff now jid holder epoch attempt (le_run_id le)) (su_before su CallHandoff s4) = (True, s')"
    "nonce \<noteq> []"
proof -
  let ?q = "child_token_request now j caps (child_actions caps) attempt"
  obtain minted s1 where c1: "call_at su CallMint (Inl IntegrityError) (on_workers (create_token (le_store le) now ?q (le_raw_token le) (le_token_id le))) s0
      = (minted, s1)" by (meson surj_pair)
  then obtain trow where t: "minted = Inr trow" using assms by (cases minted) (auto simp: launch_steps_def Let_def)
  obtain created s2 where c2: "call_at su CallCreateRun (Inl IntegrityError) (on_workers (create_worker_run_for_token (le_services le) now
      (child_token (le_token_id le) ?q j) (child_run_request j st caps attempt) (le_run_id le))) s1 = (created, s2)" by (meson surj_pair)
  then obtain rrow where r: "created = Inr rrow" using assms c1 t by (cases created) (auto simp: launch_steps_def Let_def)
  obtain recorded s3 where c3: "call_at su CallRecordRun False (on_strategies (record_child_run now jid holder epoch attempt (le_token_id le) (le_run_id le))) s2
      = (recorded, s3)" by (meson surj_pair)
  obtain claimed s4 where c4: "call_at su CallClaimSession None
      (on_workers (claim_run_session (le_store le) now (le_run_id le) (le_freshness le) (le_claim_wait le))) s3 = (claimed, s4)" by (meson surj_pair)
  obtain handed s5 where c5: "call_at su CallHandoff False (on_strategies (mark_running_and_handoff now jid holder epoch attempt (le_run_id le))) s4
      = (handed, s5)" by (meson surj_pair)
  have "recorded" "handed" "s5 = s'" "nonce \<noteq> []"
    using assms by (auto simp: launch_steps_def Let_def c1 c2 c3 c4 c5 t r split: if_splits)
  then show thesis
    using c3 c4 call_at_ok [OF c1] call_at_ok [OF c2] call_at_ok [OF c5] by (intro that [of trow s1 rrow s2 s3 s4]) (auto simp: t r)
qed

text \<open>The actions of a child token pass the request model's cleaning unchanged.\<close>

lemma child_actions_clean: "clean_list (child_actions caps) = child_actions caps"
  by (cases "dict_get caps ''trade'' = Some True"; cases "dict_get caps ''notify'' = Some True";
      simp add: child_actions_def capability_actions_sorted; code_simp)

lemma version_of_row:
  assumes "reachable_state env s" "get_version_by_id sid vid (fst s) = Some v"
  shows "hv_id v = vid"
  using reachable_invs(1) [OF assms(1)] assms(2)
  by (fastforce simp: get_version_by_id_def ledger_inv_def refs_inv_def split: option.splits if_splits dest: map_of_SomeD)

text \<open>The token, run and job rows after the steps, whatever happened around them.\<close>

lemma launch_steps_rows:
  assumes reach: "reachable_state env s0" and adm: "admissible env su" and env: "le_store le = env"
    and l: "launch_steps le su now jid holder epoch attempt j0 caps st s0 = (Inr nonce, s')"
  obtains t r j where "moves env s0 s'"
    "dict_get (ws_tokens (snd s')) (le_token_id le) = Some t" "wt_id t = le_token_id le" "tk_hash t = se_sha256 env (le_raw_token le)"
    "wt_scope t = Some (sj_scope j0)" "wt_actions t = child_actions caps"
    "get_run (le_run_id le) (snd s') = Some r" "wr_id r = le_run_id le" "wr_token r = le_token_id le" "wr_scope r = sj_scope j0"
    "wr_template r = template_id_for (sj_strategy j0)" "wr_mode r = sj_mode j0"
    "get_job_by_id jid (fst s') = Some j" "sj_status j = ''running''" "sj_handoff j = Some now" "sj_run j = Some (le_run_id le)"
proof -
  let ?q = "child_token_request now j0 caps (child_actions caps) attempt"
  obtain trow sa rrow sb sc sd where steps:
    "on_workers (create_token (le_store le) now ?q (le_raw_token le) (le_token_id le)) (su_before su CallMint s0) = (Inr trow, sa)"
    "on_workers (create_worker_run_for_token (le_services le) now (child_token (le_token_id le) ?q j0) (child_run_request j0 st caps attempt) (le_run_id le))
       (su_before su CallCreateRun sa) = (Inr rrow, sb)"
    "call_at su CallRecordRun False (on_strategies (record_child_run now jid holder epoch attempt (le_token_id le) (le_run_id le))) sb = (True, sc)"
    "snd (call_at su CallClaimSession None (on_workers (claim_run_session (le_store le) now (le_run_id le) (le_freshness le) (le_claim_wait le))) sc) = sd"
    "on_strategies (mark_running_and_handoff now jid holder epoch attempt (le_run_id le)) (su_before su CallHandoff sd) = (True, s')"
    by (rule launch_steps_Inr [OF l])
  have ma: "moves env s0 sa" using moves_trans [OF admissible_before [OF adm] mint_stage.act_moves] steps(1) env by (metis snd_conv)
  have mb: "moves env sa sb" using moves_trans [OF admissible_before [OF adm] run_stage.act_moves] steps(2) by (metis snd_conv)
  have mc: "moves env sb sc" using record_stage.call_moves [OF adm] steps(3) by (metis snd_conv)
  have md: "moves env sc sd" using session_stage.call_moves [OF adm] steps(4) env by metis
  have me: "moves env sd s'" using moves_trans [OF admissible_before [OF adm] handoff_stage.act_moves] steps(5) by (metis snd_conv)
  have m_b: "moves env sb s'" and m_a: "moves env sa s'" using mb mc md me moves_trans by blast+
  note reaches = reachable_moves [OF reach ma] reachable_moves [OF reachable_moves [OF reach ma] mb]
  note token = minted_row [OF steps(1)] and run = created_run_row [OF steps(2)]
  obtain t where t: "dict_get (ws_tokens (snd s')) (le_token_id le) = Some t" "token_keeps trow t" using moves_token [OF reaches(1) m_a token(1)] by blast
  obtain r where r: "get_run (le_run_id le) (snd s') = Some r" "run_identity r = run_identity rrow" using moves_run [OF reaches(2) m_b run(1)] by blast
  obtain j where j: "get_job_by_id jid (fst s') = Some j" "sj_status j = ''running''" "sj_handoff j = Some now" "sj_run j = Some (le_run_id le)"
    using handed_row(1) [OF steps(5)] by blast
  show thesis
    by (rule that [OF moves_trans [OF ma m_a] t(1) _ _ _ _ r(1) _ _ _ _ _ j])
       (use t(2) r(2) token run env in \<open>auto simp: token_keeps_def token_rights_def run_identity_def child_token_request_def clean_token_request_def
          child_actions_clean child_token_def child_run_request_def Let_def\<close>)
qed

text \<open>
  C1. A prepared launch is bound to its attempt: the job is running and handed off and names the
  token and the run the child is given; the token the child receives is the stored one, limited
  to the job's account and to exactly the actions its pinned capabilities grant; the run belongs
  to that token; the configuration carries the job's own version, parameters, mode, account and
  limits; and from then on the authority check accepts this token on this run exactly while the
  job is to run and its lease is alive.
\<close>

theorem prepared_launch_is_bound:
  assumes reach: "reachable_state env s" and adm: "admissible env su" and env: "le_store le = env" and ids: "le_run_id le \<noteq> []" "le_token_id le \<noteq> []"
    and p: "prepare_launch le su now jid holder epoch attempt s = (Inr cfg, s')"
  shows "\<exists>j t r caps. get_job_by_id jid (fst s') = Some j \<and> sj_status j = ''running'' \<and> sj_handoff j = Some now
      \<and> sj_token j = Some (le_token_id le) \<and> sj_run j = Some (cc_run cfg)
    \<and> dict_get (ws_tokens (snd s')) (le_token_id le) = Some t \<and> tk_hash t = se_sha256 env (cc_worker_token cfg)
      \<and> parse_capability_snapshot (JObj (sj_capabilities j)) = Inr caps \<and> capability_actions caps = Inr (wt_actions t) \<and> wt_scope t = Some (sj_scope j)
    \<and> get_run (cc_run cfg) (snd s') = Some r \<and> wr_token r = le_token_id le
    \<and> (cc_version cfg, cc_params cfg, cc_mode cfg, cc_scope cfg, cc_max_duration cfg, cc_progress_deadline cfg)
        = (sj_version j, sj_params j, sj_mode j, sj_scope j, sj_max_duration j, sj_progress_deadline j)
    \<and> (\<forall>now'. validate_authority now' j (worker_token.truncate t) r = Inr ()
          \<longleftrightarrow> sj_desired j = ''started'' \<and> (\<exists>until. sj_lease_until j = Some until \<and> now' < until))"
proof -
  obtain j0 caps st v s2 where c: "check_launch now jid holder epoch attempt (fst s) = Inr (j0, caps, st, v)"
    and rs: "on_strategies (reserve_child_token now jid holder epoch attempt (le_token_id le)) (su_before su CallReserve s) = (True, s2)"
    and f: "finish_launch le su now jid holder epoch attempt j0 v (launch_steps le su now jid holder epoch attempt j0 caps st s2) = (Inr cfg, s')"
    by (rule prepare_launch_reserved [OF p]) auto
  note check = check_launch_Inr [OF c] and reserved = reserved_later [OF reach adm rs]
  obtain nonce where l: "launch_steps le su now jid holder epoch attempt j0 caps st s2 = (Inr nonce, s')" and cfg: "cfg = launch_config le jid epoch attempt j0 v nonce"
    using f by (auto simp: finish_launch_def Let_def split: sum.splits prod.splits)
  obtain t r j where m: "moves env s2 s'"
    and t: "dict_get (ws_tokens (snd s')) (le_token_id le) = Some t" "wt_id t = le_token_id le" "tk_hash t = se_sha256 env (le_raw_token le)"
      "wt_scope t = Some (sj_scope j0)" "wt_actions t = child_actions caps"
    and r: "get_run (le_run_id le) (snd s') = Some r" "wr_id r = le_run_id le" "wr_token r = le_token_id le" "wr_scope r = sj_scope j0"
      "wr_template r = template_id_for (sj_strategy j0)" "wr_mode r = sj_mode j0"
    and j: "get_job_by_id jid (fst s') = Some j" "sj_status j = ''running''" "sj_handoff j = Some now" "sj_run j = Some (le_run_id le)"
    by (rule launch_steps_rows [OF reserved(1) adm env l])
  have "advances j0 j" using moves_job [OF reach moves_trans [OF reserved(2) m] check(1)] j(1) by auto
  then have id: "job_identity j = job_identity j0" by (simp add: advances_def)
  have tok: "sj_token j = Some (le_token_id le)"
    using reserved(3) moves_job [OF reserved(1) m] j(1) by (fastforce simp: advances_def kept_def)
  have caps: "parse_capability_snapshot (JObj (sj_capabilities j)) = Inr caps" "capability_actions caps = Inr (wt_actions t)"
    using check(3) id t(5) by (simp_all add: job_identity_def child_actions_def capability_actions_sorted)
  have auth: "\<forall>now'. validate_authority now' j (worker_token.truncate t) r = Inr ()
      \<longleftrightarrow> sj_desired j = ''started'' \<and> (\<exists>until. sj_lease_until j = Some until \<and> now' < until)"
    using ids j(2,4) tok r t(2) id
    by (auto simp: validate_authority_def str_or_def worker_token.truncate_def live_statuses_def not_le job_identity_def split: option.splits)
  have "(cc_version cfg, cc_params cfg, cc_mode cfg, cc_scope cfg, cc_max_duration cfg, cc_progress_deadline cfg)
      = (sj_version j, sj_params j, sj_mode j, sj_scope j, sj_max_duration j, sj_progress_deadline j)"
    using id version_of_row [OF reach check(4)] by (simp add: cfg launch_config_def job_identity_def)
  moreover have "cc_run cfg = le_run_id le" "cc_worker_token cfg = le_raw_token le" "sj_scope j = sj_scope j0"
    using id by (simp_all add: cfg launch_config_def job_identity_def)
  ultimately show ?thesis using j tok t caps r auth by (intro exI [of _ j] exI [of _ t] exI [of _ r] exI [of _ caps] conjI) simp_all
qed

section \<open>Ending an attempt\<close>

interpretation expire_stage: lifecycle_stage env "on_strategies (expire_to_recovery_authorized now jid holder epoch attempt)"
  for env now jid holder epoch attempt
  by unfold_locales (rule on_strategies_moves, rule step_expire_authorized)

text \<open>A blocked strategy admits no new job.\<close>

lemma blocked_refuses_job:
  assumes "ledger_inv st" "get_job_by_id jid st = Some j" "job_blocks j"
  shows "isl (fst (create_job env now (sj_strategy j) vid (sj_owner j) kind mode params None attempt desired st))"
proof -
  have b: "blocking_job (sj_owner j) (sj_strategy j) st"
    using assms(2,3) by (force simp: blocking_job_def get_job_by_id_def list_ex_iff dest: map_of_SomeD)
  have "hs_id s = sj_strategy j" if "get_strategy (sj_owner j) (sj_strategy j) st = Some s" for s
    using that assms(1) by (fastforce simp: get_strategy_def ledger_inv_def refs_inv_def split: option.splits if_splits dest: map_of_SomeD)
  then show ?thesis using b
    by (auto simp: create_job_def admit_job_def str_truthy_def split: option.splits sum.splits)
qed

lemma concluded:
  assumes "conclude su c act refusal answer s = (Inr x, s')"
  shows "x = answer" "\<not> su_raises su c" "on_strategies act (su_before su c s) = (True, s')"
  using assms by (auto simp: conclude_def try_call_def Let_def split: prod.splits option.splits bool.splits if_splits)

lemma fencing_row:
  assumes "act = mark_recovery_required now jid holder epoch attempt \<or> act = expire_to_recovery_authorized now jid holder epoch attempt"
    and "on_strategies act s = (True, s')"
  shows "\<exists>j. get_job_by_id jid (fst s') = Some j \<and> sj_status j = ''recovery_required''" "snd s' = snd s"
  using assms
  by (auto simp: on_strategies_def mark_recovery_required_def expire_to_recovery_authorized_def cas_job_def get_job_by_id_def fence_job_def
      split: option.splits if_splits)

lemma withdraw_token_revokes:
  assumes "reachable_state env s" "admissible env su" "sj_token j = Some tid" "tid \<noteq> []" "dict_get (ws_tokens (snd s)) tid = Some t"
    and w: "withdraw_token su j s = (True, s')"
  shows "\<exists>t'. dict_get (ws_tokens (snd s')) tid = Some t' \<and> wt_status t' = ''revoked''" "moves env s s'"
proof -
  have r: "\<not> su_raises su CallRevoke" "snd (on_workers (revoke_token tid) (su_before su CallRevoke s)) = s'"
    using w assms(3,4) by (auto simp: withdraw_token_def try_call_def str_truthy_def opt_str_def Let_def split: prod.splits if_splits)
  obtain u where "dict_get (ws_tokens (snd (su_before su CallRevoke s))) tid = Some u"
    using moves_token [OF assms(1) admissible_before [OF assms(2)] assms(5)] by blast
  then show "\<exists>t'. dict_get (ws_tokens (snd s')) tid = Some t' \<and> wt_status t' = ''revoked''"
    using r(2) by (auto simp: on_workers_def revoke_token_def update_token_def Let_def)
  show "moves env s s'" using moves_trans [OF admissible_before [OF assms(2)] revoke_stage.act_moves] r(2) by metis
qed

lemma withdraw_session_moves: "admissible env su \<Longrightarrow> moves env s (snd (withdraw_session su now j s))"
  using release_session_stage.try_moves [of env su s CallReleaseSession now "opt_str (sj_run j)" "run_nonce j (snd s)"]
  by (simp add: withdraw_session_def Let_def split_def)

text \<open>The last two calls of every way to end an attempt.\<close>

lemma revoked_then_fenced:
  assumes reach: "reachable_state env s" and adm: "admissible env su" and j: "get_job_by_id jid (fst s) = Some j"
    and tok: "sj_token j = Some tid" "tid \<noteq> []" "dict_get (ws_tokens (snd s)) tid = Some t"
    and m0: "moves env s s0" and w: "withdraw_token su j s0 = (True, s1)"
    and c: "conclude su c act refusal (answer :: 'a) s1 = (Inr x, s')"
      "act = mark_recovery_required now jid holder epoch attempt \<or> act = expire_to_recovery_authorized now jid holder epoch attempt"
  shows "\<exists>j' t'. get_job_by_id jid (fst s') = Some j' \<and> advances j j' \<and> sj_status j' = ''recovery_required'' \<and> job_blocks j'
      \<and> dict_get (ws_tokens (snd s')) tid = Some t' \<and> wt_status t' = ''revoked'' \<and> reachable_state env s'"
proof -
  obtain t0 where t0: "dict_get (ws_tokens (snd s0)) tid = Some t0" using moves_token [OF reach m0 tok(3)] by blast
  note w1 = withdraw_token_revokes [OF reachable_moves [OF reach m0] adm tok(1,2) t0 w] and c1 = concluded [OF c(1)]
  note f = fencing_row [OF c(2) c1(3)]
  have mf: "moves env s1 (su_before su c s1)" using admissible_before [OF adm] .
  have "moves env (su_before su c s1) s'"
    using recovery_stage.act_moves [of env "su_before su c s1" now jid holder epoch attempt]
      expire_stage.act_moves [of env "su_before su c s1" now jid holder epoch attempt] c(2) c1(3) by auto
  then have m: "moves env s s'" using m0 w1(2) mf moves_trans by blast
  obtain j' where j': "get_job_by_id jid (fst s') = Some j'" "advances j j'" using moves_job [OF reach m j] by blast
  then have st: "sj_status j' = ''recovery_required''" using f(1) by auto
  then have "job_blocks j'" using job_inv_of [OF reachable_moves [OF reach m] j'(1)] by (auto simp: job_blocks_def job_inv_def)
  moreover obtain t1 where "dict_get (ws_tokens (snd s1)) tid = Some t1" "wt_status t1 = ''revoked''" using w1(1) by blast
  then obtain t' where "dict_get (ws_tokens (snd s')) tid = Some t'" "wt_status t' = ''revoked''"
    using moves_token [OF reachable_moves [OF reachable_moves [OF reach m0] w1(2)] mf] f(2) by (fastforce simp: token_keeps_def)
  ultimately show ?thesis using j' st reachable_moves [OF reach m] by blast
qed

lemma release_calls:
  assumes "release su now jid holder epoch attempt s = (Inr answer, s')" "get_job_by_id jid (fst s) = Some j" "sj_handoff j \<noteq> None"
  obtains s0 s1 where "withdraw_session su now j s = (True, s0)" "withdraw_token su j s0 = (True, s1)"
    "conclude su CallFence (mark_recovery_required now jid holder epoch attempt) ''HOSTED_RELEASE_REFUSED'' (''recovery_required'', True) s1 = (Inr answer, s')"
  using assms by (auto simp: release_def require_job_authority_def Let_def split: if_splits prod.splits)

lemma fence_calls:
  assumes "fence_attempt su now jid holder epoch attempt s = (Inr status, s')" "get_job_by_id jid (fst s) = Some j"
  obtains s1 where "withdraw_token su j s = (True, s1)"
    "conclude su CallFence (mark_recovery_required now jid holder epoch attempt) ''HOSTED_FENCE_REFUSED'' ''recovery_required'' s1 = (Inr status, s')"
  using assms by (auto simp: fence_attempt_def require_job_authority_def Let_def split: if_splits prod.splits)

lemma expire_calls:
  assumes "expire_attempt su now jid holder epoch attempt s = (Inr status, s')" "get_job_by_id jid (fst s) = Some j"
  obtains s1 where "withdraw_token su j s = (True, s1)"
    "conclude su CallExpire (expire_to_recovery_authorized now jid holder epoch attempt) ''HOSTED_FENCE_REFUSED'' ''recovery_required'' s1 = (Inr status, s')"
  using assms by (auto simp: expire_attempt_def require_job_authority_def Let_def split: if_splits prod.splits option.splits)

text \<open>
  C11. Ending an attempt that may have traded blocks its strategy: when the supervisor releases a
  launched attempt, or fences or expires any attempt that holds a credential, the credential is
  revoked, the job is left demanding reconciliation, and the strategy admits no new job.
\<close>

theorem ended_attempt_stays_blocked:
  assumes reach: "reachable_state env s" and adm: "admissible env su" and j: "get_job_by_id jid (fst s) = Some j"
    and tok: "sj_token j = Some tid" "tid \<noteq> []" "dict_get (ws_tokens (snd s)) tid = Some t"
    and p: "release su now jid holder epoch attempt s = (Inr answer, s') \<and> sj_handoff j \<noteq> None
        \<or> fence_attempt su now jid holder epoch attempt s = (Inr status, s')
        \<or> expire_attempt su now jid holder epoch attempt s = (Inr status, s')"
  shows "\<exists>j' t'. get_job_by_id jid (fst s') = Some j' \<and> sj_status j' = ''recovery_required''
      \<and> dict_get (ws_tokens (snd s')) tid = Some t' \<and> wt_status t' = ''revoked''
      \<and> isl (fst (create_job env now' (sj_strategy j') vid (sj_owner j') kind mode params None attempt' desired (fst s')))"
proof -
  have "\<exists>j' t'. get_job_by_id jid (fst s') = Some j' \<and> advances j j' \<and> sj_status j' = ''recovery_required'' \<and> job_blocks j'
      \<and> dict_get (ws_tokens (snd s')) tid = Some t' \<and> wt_status t' = ''revoked'' \<and> reachable_state env s'"
    using p
  proof (elim disjE conjE)
    assume r: "release su now jid holder epoch attempt s = (Inr answer, s')" "sj_handoff j \<noteq> None"
    obtain s0 s1 where c: "withdraw_session su now j s = (True, s0)" "withdraw_token su j s0 = (True, s1)"
      "conclude su CallFence (mark_recovery_required now jid holder epoch attempt) ''HOSTED_RELEASE_REFUSED'' (''recovery_required'', True) s1 = (Inr answer, s')"
      by (rule release_calls [OF r(1) j r(2)])
    have "moves env s s0" using withdraw_session_moves [OF adm, of s now j] c(1) by simp
    then show ?thesis using revoked_then_fenced [OF reach adm j tok _ c(2,3)] by blast
  next
    assume "fence_attempt su now jid holder epoch attempt s = (Inr status, s')"
    then show ?thesis
      by (rule fence_calls [OF _ j]) (rule revoked_then_fenced [OF reach adm j tok moves_refl], assumption+, rule disjI1 [OF refl])
  next
    assume "expire_attempt su now jid holder epoch attempt s = (Inr status, s')"
    then show ?thesis
      by (rule expire_calls [OF _ j]) (rule revoked_then_fenced [OF reach adm j tok moves_refl], assumption+, rule disjI2 [OF refl])
  qed
  then show ?thesis using blocked_refuses_job reachable_invs(1) by blast
qed

section \<open>Shipped output\<close>

lemma utf8_len_snoc: "utf8_len (s @ [c]) = utf8_len s + char_bytes c"
  by (simp add: utf8_len_def char_bytes_def)

lemma utf8_len_single: "utf8_len [c] = char_bytes c" "char_bytes c \<le> 2"
  by (simp_all add: utf8_len_def char_bytes_def)

lemma split_loop_pieces:
  assumes "used = utf8_len current" "current \<noteq> [] \<longrightarrow> utf8_len current \<le> max_bytes" "2 \<le> max_bytes"
  shows "concat (split_loop max_bytes current used body) = current @ body"
    "\<forall>p \<in> set (split_loop max_bytes current used body). p \<noteq> [] \<and> utf8_len p \<le> max_bytes"
proof -
  have "concat (split_loop max_bytes current used body) = current @ body
      \<and> (\<forall>p \<in> set (split_loop max_bytes current used body). p \<noteq> [] \<and> utf8_len p \<le> max_bytes)"
    using assms
  proof (induction max_bytes current used body rule: split_loop.induct)
    case (2 max_bytes current used c cs)
    have b: "utf8_len [c] \<le> max_bytes" using utf8_len_single [of c] "2.prems"(3) by simp
    show ?case
    proof (cases "current \<noteq> [] \<and> used + char_bytes c > max_bytes")
      case True
      then show ?thesis using "2.IH"(1) [OF True] "2.prems" b by (simp add: utf8_len_single)
    next
      case False
      moreover have "utf8_len (current @ [c]) \<le> max_bytes"
        using False "2.prems"(1) b by (cases "current = []") (auto simp: utf8_len_snoc)
      ultimately show ?thesis using "2.IH"(2) [OF False] "2.prems" by (simp add: utf8_len_snoc)
    qed
  qed auto
  then show "concat (split_loop max_bytes current used body) = current @ body"
    "\<forall>p \<in> set (split_loop max_bytes current used body). p \<noteq> [] \<and> utf8_len p \<le> max_bytes" by auto
qed

lemma split_by_bytes_pieces:
  assumes "2 \<le> max_bytes"
  shows "concat (split_by_bytes body max_bytes) = body" "\<forall>p \<in> set (split_by_bytes body max_bytes). p \<noteq> [] \<and> utf8_len p \<le> max_bytes"
  using split_loop_pieces [of 0 "[]" max_bytes body] assms by (simp_all add: split_by_bytes_def utf8_len_def)

lemma report_job_logs_Inr:
  assumes "report_job_logs redact_text now jid holder epoch attempt chunks st = (Inr r, st')"
  shows "append_job_log jid attempt (split_by_bytes (redact_text (concat chunks)) log_chunk_max_bytes) log_total_max_bytes st = (Inr r, st')"
  using assms by (auto simp: report_job_logs_def split: if_splits sum.splits prod.splits)

text \<open>
  C32. Only redacted output is ever stored, in order and within its bounds: what a log report adds
  to the store is a prefix of the redacted text of the whole report, cut into pieces of at most
  16 KiB that are numbered without a gap, the attempt's stored output stays within 256 KiB, and
  the report says that output was discarded exactly when the prefix is not the whole text.
\<close>

theorem shipped_logs_redacted_and_bounded:
  assumes "report_job_logs redact_text now jid holder epoch attempt chunks st = (Inr r, st')"
    and "sum_list (map jl_bytes (logs_of jid attempt st)) \<le> log_total_max_bytes"
  shows "\<exists>rows rest. ss_logs st' = ss_logs st @ rows \<and> concat (map jl_content rows) @ rest = redact_text (concat chunks)
    \<and> (lr_discarded r \<longleftrightarrow> rest \<noteq> [])
    \<and> (\<forall>row \<in> set rows. jl_bytes row = utf8_len (jl_content row) \<and> jl_bytes row \<le> log_chunk_max_bytes)
    \<and> map jl_seq rows = [fold max (map jl_seq (logs_of jid attempt st)) 0 + 1 .. lr_next_seq r]
    \<and> sum_list (map jl_bytes (logs_of jid attempt st')) \<le> log_total_max_bytes"
proof -
  let ?pieces = "split_by_bytes (redact_text (concat chunks)) log_chunk_max_bytes"
  have pieces: "concat ?pieces = redact_text (concat chunks)" "\<forall>p \<in> set ?pieces. p \<noteq> [] \<and> utf8_len p \<le> log_chunk_max_bytes"
    using split_by_bytes_pieces [of log_chunk_max_bytes] by (simp_all add: log_chunk_max_bytes_def)
  have cap: "max 1 log_total_max_bytes = log_total_max_bytes" by (simp add: log_total_max_bytes_def)
  obtain rows rest where rows: "ss_logs st' = ss_logs st @ rows" "map jl_content rows @ rest = filter (\<lambda>t. t \<noteq> []) ?pieces"
    "lr_discarded r \<longleftrightarrow> rest \<noteq> []" "map jl_seq rows = [fold max (map jl_seq (logs_of jid attempt st)) 0 + 1 .. lr_next_seq r]"
    "map jl_bytes rows = map (utf8_len \<circ> jl_content) rows" "sum_list (map jl_bytes (logs_of jid attempt st')) \<le> log_total_max_bytes"
    using append_job_log_bounded [OF report_job_logs_Inr [OF assms(1)]] assms(2) unfolding cap by blast
  have all: "map jl_content rows @ rest = ?pieces" using rows(2) pieces(2) by (simp add: filter_id_conv)
  then have "concat (map jl_content rows) @ concat rest = redact_text (concat chunks)" using pieces(1) by (metis concat_append)
  moreover have "rest \<noteq> [] \<longleftrightarrow> concat rest \<noteq> []" using pieces(2) by (auto simp flip: all)
  moreover have "jl_bytes row = utf8_len (jl_content row) \<and> jl_bytes row \<le> log_chunk_max_bytes" if "row \<in> set rows" for row
    using that rows(5) pieces(2) by (auto simp: all [symmetric])
  ultimately show ?thesis using rows(1,3,4,6) by blast
qed

section \<open>Sample launches\<close>

definition quiet :: surroundings where
  "quiet = \<lparr>su_before = (\<lambda>_ s. s), su_raises = (\<lambda>_. False)\<rparr>"

definition failing :: "lifecycle_call \<Rightarrow> surroundings" where
  "failing c = \<lparr>su_before = (\<lambda>_ s. s), su_raises = (\<lambda>d. d = c)\<rparr>"

definition demo_launch :: launch_env where
  "demo_launch = \<lparr>le_store = hosted_env, le_services = sample_services, le_token_id = ''tok'', le_raw_token = ''kwa_raw'', le_run_id = ''run_1'',
     le_freshness = 60, le_claim_wait = 120, le_mint_exception = ''IntegrityError''\<rparr>"

definition claimed_state :: hosted_state where
  "claimed_state = (snd (claim_job 110 ''hsj_2'' ''sup'' 0 1 500 hosted_queued), empty_workers)"

definition launched_state :: hosted_state where
  "launched_state = snd (prepare_launch demo_launch quiet 120 ''hsj_2'' ''sup'' 1 1 claimed_state)"

lemma sample_admissible: "admissible env quiet" "admissible env (failing c)" "fresh_token quiet tid" "fresh_token (failing c) tid"
  by (simp_all add: admissible_def quiet_def failing_def fresh_token_def)

lemma claimed_reachable: "reachable_state hosted_env claimed_state"
proof -
  have "history hosted_env empty_strategies (fst claimed_state)"
    unfolding claimed_state_def fst_conv by (rule hosted_reachable(1) strategy_step.intros history_step)+
  then show ?thesis by (simp add: reachable_state_def moves_def claimed_state_def)
qed

lemma launched_reachable: "reachable_state hosted_env launched_state"
  using reachable_moves [OF claimed_reachable] prepare_launch_moves [of demo_launch quiet claimed_state] sample_admissible(1)
  unfolding launched_state_def by (simp add: demo_launch_def)

lemma demo_prepared: "\<exists>cfg. prepare_launch demo_launch quiet 120 ''hsj_2'' ''sup'' 1 1 claimed_state = (Inr cfg, launched_state)"
proof -
  have "\<not> isl (fst (prepare_launch demo_launch quiet 120 ''hsj_2'' ''sup'' 1 1 claimed_state))" by code_simp
  then show ?thesis unfolding launched_state_def by (cases "prepare_launch demo_launch quiet 120 ''hsj_2'' ''sup'' 1 1 claimed_state"; cases "fst (prepare_launch demo_launch quiet 120 ''hsj_2'' ''sup'' 1 1 claimed_state)") auto
qed

theorem prepared_at_most_once_witness:
  "\<exists>status code. prepare_launch demo_launch quiet 200 ''hsj_2'' ''other'' 2 2 launched_state = (Inl (Refused status code), launched_state)"
proof -
  obtain cfg where "prepare_launch demo_launch quiet 120 ''hsj_2'' ''sup'' 1 1 claimed_state = (Inr cfg, launched_state)" using demo_prepared by blast
  from prepared_at_most_once [OF claimed_reachable sample_admissible(1) _ this _ moves_refl] show ?thesis by (auto simp: demo_launch_def)
qed

theorem failed_preparation_fails_closed_witness:
  "\<exists>s' j t. prepare_launch demo_launch (failing CallHandoff) 120 ''hsj_2'' ''sup'' 1 1 claimed_state
       = (Inl (Aborted 409 ''HOSTED_PREPARE_INCOMPLETE'' True True), s')
    \<and> get_job_by_id ''hsj_2'' (fst s') = Some j \<and> sj_status j = ''recovery_required''
    \<and> dict_get (ws_tokens (snd s')) ''tok'' = Some t \<and> wt_status t = ''revoked''"
proof -
  let ?p = "prepare_launch demo_launch (failing CallHandoff) 120 ''hsj_2'' ''sup'' 1 1 claimed_state"
  have "(case fst ?p of Inl (Aborted status code fenced revoked) \<Rightarrow> status = 409 \<and> code = ''HOSTED_PREPARE_INCOMPLETE'' \<and> fenced \<and> revoked | _ \<Rightarrow> False)
      \<and> dict_has (ws_tokens (snd (snd ?p))) ''tok''"
    by code_simp
  then have r: "?p = (Inl (Aborted 409 ''HOSTED_PREPARE_INCOMPLETE'' True True), snd ?p)" and t: "dict_has (ws_tokens (snd (snd ?p))) ''tok''"
    by (auto split: sum.splits lifecycle_error.splits intro: prod_eqI)
  have "(\<exists>j. get_job_by_id ''hsj_2'' (fst (snd ?p)) = Some j \<and> 3 \<le> job_rank j \<and> (True \<longrightarrow> sj_status j = ''recovery_required'')
      \<and> (\<forall>now' t r. validate_authority now' j t r \<noteq> Inr ()))
    \<and> (\<forall>t. dict_get (ws_tokens (snd (snd ?p))) (le_token_id demo_launch) = Some t \<longrightarrow> wt_status t = ''revoked'')"
    by (rule failed_preparation_fails_closed [OF claimed_reachable sample_admissible(2) _ sample_admissible(4) _ _ _ r])
       (simp_all add: demo_launch_def failing_def)
  moreover obtain t where "dict_get (ws_tokens (snd (snd ?p))) ''tok'' = Some t" using t by (auto simp: dict_has_def)
  moreover have "le_token_id demo_launch = ''tok''" by (simp add: demo_launch_def)
  ultimately show ?thesis using r by metis
qed

theorem prepared_launch_is_bound_witness:
  "\<exists>cfg j t. prepare_launch demo_launch quiet 120 ''hsj_2'' ''sup'' 1 1 claimed_state = (Inr cfg, launched_state)
    \<and> get_job_by_id ''hsj_2'' (fst launched_state) = Some j \<and> sj_status j = ''running''
    \<and> dict_get (ws_tokens (snd launched_state)) ''tok'' = Some t \<and> wt_scope t = Some ''kite:paper-1'' \<and> sj_scope j = ''kite:paper-1''"
proof -
  obtain cfg where p: "prepare_launch demo_launch quiet 120 ''hsj_2'' ''sup'' 1 1 claimed_state = (Inr cfg, launched_state)" using demo_prepared by blast
  have "map_option sj_scope (get_job_by_id ''hsj_2'' (fst launched_state)) = Some ''kite:paper-1''" by code_simp
  then show ?thesis
    using prepared_launch_is_bound [OF claimed_reachable sample_admissible(1) _ _ _ p] p by (auto simp: demo_launch_def)
qed

theorem ended_attempt_stays_blocked_witness:
  "\<exists>s' j' t'. release quiet 130 ''hsj_2'' ''sup'' 1 1 launched_state = (Inr (''recovery_required'', True), s')
    \<and> get_job_by_id ''hsj_2'' (fst s') = Some j' \<and> sj_status j' = ''recovery_required''
    \<and> dict_get (ws_tokens (snd s')) ''tok'' = Some t' \<and> wt_status t' = ''revoked''"
proof -
  let ?p = "release quiet 130 ''hsj_2'' ''sup'' 1 1 launched_state"
  have "fst ?p = Inr (''recovery_required'', True)" by code_simp
  then have r: "?p = (Inr (''recovery_required'', True), snd ?p)" by (simp add: prod_eq_iff)
  have "map_option (\<lambda>j. (sj_token j, sj_handoff j)) (get_job_by_id ''hsj_2'' (fst launched_state)) = Some (Some ''tok'', Some 120)"
    "dict_has (ws_tokens (snd launched_state)) ''tok''" by code_simp+
  then obtain j t where j: "get_job_by_id ''hsj_2'' (fst launched_state) = Some j" "sj_token j = Some ''tok''" "sj_handoff j = Some 120"
    "dict_get (ws_tokens (snd launched_state)) ''tok'' = Some t" by (auto simp: dict_has_def)
  then show ?thesis
    using ended_attempt_stays_blocked [OF launched_reachable sample_admissible(1) j(1,2) _ j(4), of 130 "''sup''" 1 1 "(''recovery_required'', True)" "snd ?p"] r
    by fastforce
qed

theorem shipped_logs_redacted_and_bounded_witness:
  "\<exists>r st' rows. report_job_logs (map (\<lambda>c. if c = CHR ''x'' then CHR ''*'' else c)) 130 ''hsj_2'' ''sup'' 1 1 [''ax'', ''xb''] (fst claimed_state) = (Inr r, st')
     \<and> ss_logs st' = rows \<and> concat (map jl_content rows) = ''a**b''"
proof -
  let ?f = "map (\<lambda>c. if c = CHR ''x'' then CHR ''*'' else c)"
  let ?p = "report_job_logs ?f 130 ''hsj_2'' ''sup'' 1 1 [''ax'', ''xb''] (fst claimed_state)"
  have "\<not> isl (fst ?p) \<and> \<not> lr_discarded (projr (fst ?p))" "ss_logs (fst claimed_state) = []" by code_simp+
  moreover from this obtain r where r: "?p = (Inr r, snd ?p)" "\<not> lr_discarded r" by (cases "fst ?p") (auto simp: prod_eq_iff)
  moreover have "concat (map jl_content (ss_logs (snd ?p))) = ''a**b''"
    using shipped_logs_redacted_and_bounded [OF r(1)] calculation by (auto simp: logs_of_def log_total_max_bytes_def)
  ultimately show ?thesis by blast
qed

text \<open>
  A release that reads the job before its handoff and writes after it, while the same supervisor's
  preparation completes in between: the launched attempt ends stopped instead of fenced, it does
  not block its strategy, and its credential is still active.
\<close>

definition racing :: surroundings where
  "racing = \<lparr>su_before = (\<lambda>c s. if c = CallStop then snd (prepare_launch demo_launch quiet 120 ''hsj_2'' ''sup'' 1 1 s) else s),
     su_raises = (\<lambda>_. False)\<rparr>"

theorem release_race_unblocks_launched_attempt:
  "admissible hosted_env racing \<and> reachable_state hosted_env claimed_state
   \<and> (\<exists>s' j t. release racing 115 ''hsj_2'' ''sup'' 1 1 claimed_state = (Inr (''stopped'', False), s')
        \<and> get_job_by_id ''hsj_2'' (fst s') = Some j \<and> sj_handoff j \<noteq> None \<and> sj_status j = ''stopped'' \<and> \<not> job_blocks j
        \<and> dict_get (ws_tokens (snd s')) ''tok'' = Some t \<and> wt_status t = ''active'')"
proof -
  have "admissible hosted_env racing"
    using prepare_launch_moves [of demo_launch quiet] sample_admissible(1) by (simp add: admissible_def racing_def) (simp add: demo_launch_def)
  moreover let ?p = "release racing 115 ''hsj_2'' ''sup'' 1 1 claimed_state"
  have "fst ?p = Inr (''stopped'', False)"
    "map_option (\<lambda>j. (sj_handoff j, sj_status j, job_blocks j)) (get_job_by_id ''hsj_2'' (fst (snd ?p))) = Some (Some 120, ''stopped'', False)"
    "map_option wt_status (dict_get (ws_tokens (snd (snd ?p))) ''tok'') = Some ''active''"
    by code_simp+
  ultimately show ?thesis using claimed_reachable by (cases ?p) auto
qed

text \<open>
  Claiming under a name with surrounding blanks: the job is claimed under the stripped name, the
  answer is read under the name as sent, and the refusal of that read is not handled.
\<close>

theorem claim_under_padded_name_unanswered:
  "fst (claim_route 110 ''hsj_2'' '' sup'' 0 1 500 (hosted_queued, empty_workers)) = Inl Unhandled
   \<and> map_option (\<lambda>j. (sj_status j, sj_lease_owner j)) (get_job_by_id ''hsj_2'' (fst (snd (claim_route 110 ''hsj_2'' '' sup'' 0 1 500 (hosted_queued, empty_workers)))))
       = Some (''starting'', Some ''sup'')"
  by code_simp

end
