(* ===== verification/Protection.thy ===== *)
theory Protection
  imports StrategyModel
begin

text \<open>
  The backend protection of a worker run, \<open>api/services/protection.py\<close>: the configuration with its
  validators and the evaluation of its rules against the open legs, the age of the worker's
  heartbeat and the square-off schedule. Prices and percentages are exact rationals; the values of
  a Python float that are no numbers, which the validators let pass (NaN, and an infinite entry
  price), are outside the model. The schedule is the flat table of strings that the application
  passes, not the datetime, time and nested values the function would also take.

  The configuration arrives as the typed fields that the request model leaves of a payload; a leg
  is a dict whose keys are absent or of their declared type. \<open>datetime.fromisoformat\<close> is the
  argument \<open>fromiso\<close>: the instant a text denotes, and whether it carries an offset (otherwise it is
  exchange time).
\<close>

section \<open>Normalization\<close>

definition normalize_upper :: "string option \<Rightarrow> string option" where
  "normalize_upper value =
     (case value of
        None \<Rightarrow> None
      | Some s \<Rightarrow> let t = str_upper (str_strip s) in if t = [] then None else Some t)"

definition normalize_symbol :: "string option \<Rightarrow> string option" where
  "normalize_symbol value = map_option (filter (\<lambda>c. c \<noteq> CHR '' '')) (normalize_upper value)"

definition int_or :: "int option \<Rightarrow> int option \<Rightarrow> int" where
  "int_or x y = (case x of Some i \<Rightarrow> if i \<noteq> 0 then i else (case y of Some k \<Rightarrow> k | None \<Rightarrow> 0) | None \<Rightarrow> (case y of Some k \<Rightarrow> k | None \<Rightarrow> 0))"

definition rat_or :: "rat option \<Rightarrow> rat option \<Rightarrow> rat" where
  "rat_or x y = (case x of Some i \<Rightarrow> if i \<noteq> 0 then i else (case y of Some k \<Rightarrow> k | None \<Rightarrow> 0) | None \<Rightarrow> (case y of Some k \<Rightarrow> k | None \<Rightarrow> 0))"

definition to_rat :: "rat option \<Rightarrow> rat" where
  "to_rat x = (case x of Some r \<Rightarrow> r | None \<Rightarrow> 0)"

section \<open>Configuration\<close>

record protected_position =
  pp_symbol :: "string option"
  pp_token :: "int option"
  pp_exchange :: "string option"
  pp_tradingsymbol :: "string option"
  pp_product :: string
  pp_side :: string
  pp_quantity :: int
  pp_entry :: rat
  pp_stoploss :: "rat option"
  pp_target :: "rat option"
  pp_trailing :: "rat option"

record basket_protection =
  bk_stoploss :: "rat option"
  bk_target :: "rat option"
  bk_activate :: "rat option"
  bk_drawdown :: "rat option"

record operational_protection =
  ox_exit_on_stale :: bool
  ox_stale_sec :: "int option"
  ox_buffer_sec :: "int option"

record protection_config =
  pc_enabled :: bool
  pc_mode :: string
  pc_version :: int
  pc_positions :: "protected_position list"
  pc_basket :: "basket_protection option"
  pc_operations :: operational_protection

text \<open>The messages of the validators that fail, in field order; a validator of a whole model runs when its fields are valid.\<close>

definition percent_errors :: "string \<Rightarrow> rat option \<Rightarrow> string list" where
  "percent_errors field value =
     (case value of
        None \<Rightarrow> []
      | Some x \<Rightarrow>
          if x \<le> 0 then [field @ '' percent must be > 0'']
          else if x > 1000 then [field @ '' percent must be <= 1000'']
          else [])"

definition normalize_position :: "protected_position \<Rightarrow> protected_position" where
  "normalize_position p =
     p\<lparr>pp_symbol := normalize_symbol (pp_symbol p), pp_exchange := normalize_upper (pp_exchange p),
       pp_tradingsymbol := normalize_upper (pp_tradingsymbol p), pp_product := str_upper (str_strip (pp_product p)),
       pp_side := str_upper (str_strip (pp_side p))\<rparr>"

definition position_field_errors :: "protected_position \<Rightarrow> string list" where
  "position_field_errors p =
     (if pp_product p \<in> {''CNC'', ''MIS'', ''NRML''} then [] else [''product must be one of ['' @ join '', '' (map quoted [''CNC'', ''MIS'', ''NRML'']) @ '']''])
     @ (if pp_side p \<in> {''BUY'', ''SELL''} then [] else [''Input should be '' @ quoted ''BUY'' @ '' or '' @ quoted ''SELL''])
     @ (if pp_quantity p \<le> 0 then [''quantity must be > 0''] else [])
     @ (if pp_entry p \<le> 0 then [''entry_price must be > 0''] else [])
     @ percent_errors ''stoploss_pct'' (pp_stoploss p) @ percent_errors ''target_pct'' (pp_target p)
     @ percent_errors ''trailing_stoploss_pct'' (pp_trailing p)"

definition position_rule_errors :: "protected_position \<Rightarrow> string list" where
  "position_rule_errors p =
     (if pp_token p = None \<and> pp_symbol p = None \<and> \<not> (str_truthy (pp_exchange p) \<and> str_truthy (pp_tradingsymbol p))
        then [''position requires instrument_token, symbol, or exchange+tradingsymbol'']
      else if pp_stoploss p = None \<and> pp_target p = None \<and> pp_trailing p = None
        then [''position requires stoploss_pct, target_pct, or trailing_stoploss_pct'']
      else [])"

definition validate_position :: "protected_position \<Rightarrow> string list + protected_position" where
  "validate_position raw =
     (let p = normalize_position raw; es = position_field_errors p
      in if es \<noteq> [] then Inl es else if position_rule_errors p \<noteq> [] then Inl (position_rule_errors p) else Inr p)"

definition basket_errors :: "basket_protection \<Rightarrow> string list" where
  "basket_errors b =
     (let es = percent_errors ''stoploss_pct'' (bk_stoploss b) @ percent_errors ''target_pct'' (bk_target b)
             @ percent_errors ''trailing_activate_pct'' (bk_activate b) @ percent_errors ''trailing_drawdown_pct'' (bk_drawdown b)
      in if es \<noteq> [] then es
         else if bk_stoploss b = None \<and> bk_target b = None \<and> bk_drawdown b = None
           then [''basket requires stoploss_pct, target_pct, or trailing_drawdown_pct'']
         else if bk_drawdown b \<noteq> None \<and> bk_activate b = None
           then [''basket trailing_drawdown_pct requires trailing_activate_pct'']
         else [])"

definition operations_errors :: "operational_protection \<Rightarrow> string list" where
  "operations_errors ops =
     (let stale = (case ox_stale_sec ops of Some s \<Rightarrow> s | None \<Rightarrow> 0); out = (stale < 30 \<or> 86400 < stale)
      in if ox_exit_on_stale ops \<and> out then [''worker_stale_sec must be between 30 and 86400 when exit_on_worker_stale is true'']
         else if \<not> ox_exit_on_stale ops \<and> ox_stale_sec ops \<noteq> None \<and> out then [''worker_stale_sec must be between 30 and 86400'']
         else (case ox_buffer_sec ops of
             Some b \<Rightarrow> if b < 0 \<or> 3600 < b then [''mis_squareoff_buffer_sec must be between 0 and 3600''] else []
           | None \<Rightarrow> []))"

definition has_rules :: "protection_config \<Rightarrow> bool" where
  "has_rules c = (pc_positions c \<noteq> [] \<or> pc_basket c \<noteq> None \<or> ox_exit_on_stale (pc_operations c) \<or> ox_buffer_sec (pc_operations c) \<noteq> None)"

definition no_operations :: operational_protection where
  "no_operations = \<lparr>ox_exit_on_stale = False, ox_stale_sec = None, ox_buffer_sec = None\<rparr>"

definition disabled_config :: protection_config where
  "disabled_config = \<lparr>pc_enabled = False, pc_mode = ''exposure'', pc_version = 1, pc_positions = [], pc_basket = None, pc_operations = no_operations\<rparr>"

definition error_messages :: "'e list + 'a \<Rightarrow> 'e list" where
  "error_messages r = (case r of Inl es \<Rightarrow> es | Inr _ \<Rightarrow> [])"

definition validated :: "'e + 'a \<Rightarrow> 'a list" where
  "validated r = (case r of Inr x \<Rightarrow> [x] | Inl _ \<Rightarrow> [])"

definition validate_backend_protection_payload :: "protection_config option \<Rightarrow> string list + protection_config" where
  "validate_backend_protection_payload payload =
     (case payload of
        None \<Rightarrow> Inr disabled_config
      | Some raw \<Rightarrow>
          let positions = map validate_position (pc_positions raw);
              es = (if pc_mode raw \<noteq> ''exposure'' then [''Input should be '' @ quoted ''exposure''] else [])
                 @ (if pc_version raw < 1 then [''version must be >= 1''] else [])
                 @ concat (map error_messages positions)
                 @ (case pc_basket raw of Some b \<Rightarrow> basket_errors b | None \<Rightarrow> [])
                 @ operations_errors (pc_operations raw);
              c = raw\<lparr>pc_positions := concat (map validated positions)\<rparr>
          in if es \<noteq> [] then Inl es
             else if pc_enabled c \<and> \<not> has_rules c then Inl [''enabled backend protection requires at least one protection rule'']
             else Inr c)"

definition protected_aliases :: "protected_position \<Rightarrow> string list" where
  "protected_aliases p =
     (case pp_token p of Some t \<Rightarrow> [''token:'' @ int_str t @ '':'' @ pp_product p] | None \<Rightarrow> [])
     @ (if str_truthy (pp_symbol p) then [''symbol:'' @ opt_str (pp_symbol p) @ '':'' @ pp_product p] else [])
     @ (if str_truthy (pp_exchange p) \<and> str_truthy (pp_tradingsymbol p)
        then [''symbol:'' @ opt_str (pp_exchange p) @ '':'' @ opt_str (pp_tradingsymbol p) @ '':'' @ pp_product p] else [])"

definition primary_key :: "protected_position \<Rightarrow> string" where
  "primary_key p = (case protected_aliases p of a # _ \<Rightarrow> a | [] \<Rightarrow> ''unknown:'' @ pp_product p)"

section \<open>Open legs\<close>

record open_leg =
  ol_symbol :: "string option"
  ol_token :: "int option"
  ol_exchange :: "string option"
  ol_tradingsymbol :: "string option"
  ol_product :: "string option"
  ol_side :: "string option"
  ol_net :: "int option"
  ol_quantity :: "int option"
  ol_average :: "rat option"
  ol_entry :: "rat option"
  ol_last :: "rat option"

definition normalize_actual_side :: "string option \<Rightarrow> int \<Rightarrow> string" where
  "normalize_actual_side value quantity =
     (let side = str_upper (str_strip (str_or value [])) in
      if side \<in> {''BUY'', ''LONG''} then ''BUY''
      else if side \<in> {''SELL'', ''SHORT''} then ''SELL''
      else if quantity > 0 then ''BUY'' else if quantity < 0 then ''SELL'' else ''FLAT'')"

definition leg_aliases :: "open_leg \<Rightarrow> string list" where
  "leg_aliases a =
     (let product = (case normalize_upper (ol_product a) of Some p \<Rightarrow> p | None \<Rightarrow> []);
          token = (case ol_token a of Some t \<Rightarrow> t | None \<Rightarrow> 0);
          symbol = normalize_symbol (ol_symbol a);
          exchange = normalize_upper (ol_exchange a);
          tradingsymbol = normalize_upper (ol_tradingsymbol a)
      in (if token \<noteq> 0 \<and> product \<noteq> [] then [''token:'' @ int_str token @ '':'' @ product] else [])
         @ (if str_truthy symbol \<and> product \<noteq> [] then [''symbol:'' @ opt_str symbol @ '':'' @ product] else [])
         @ (if str_truthy exchange \<and> str_truthy tradingsymbol \<and> product \<noteq> []
            then [''symbol:'' @ opt_str exchange @ '':'' @ opt_str tradingsymbol @ '':'' @ product] else []))"

definition leg_basis :: "open_leg \<Rightarrow> rat" where
  "leg_basis a = of_int \<bar>int_or (ol_net a) (ol_quantity a)\<bar> * rat_or (ol_average a) (ol_entry a)"

definition leg_pnl_pct :: "open_leg \<Rightarrow> rat option" where
  "leg_pnl_pct a =
     (let net = int_or (ol_net a) (ol_quantity a); average = rat_or (ol_average a) (ol_entry a); price = to_rat (ol_last a);
          side = normalize_actual_side (ol_side a) net
      in if net = 0 \<or> average \<le> 0 \<or> price \<le> 0 then None
         else if side = ''BUY'' then Some ((price - average) / average * 100)
         else if side = ''SELL'' then Some ((average - price) / average * 100)
         else None)"

definition or_else :: "'a option \<Rightarrow> 'a option \<Rightarrow> 'a option" where
  "or_else x y = (case x of Some v \<Rightarrow> Some v | None \<Rightarrow> y)"

definition normalize_leg :: "open_leg \<Rightarrow> open_leg" where
  "normalize_leg a =
     (let net = int_or (ol_net a) (ol_quantity a)
      in a\<lparr>ol_product := or_else (normalize_upper (ol_product a)) (ol_product a),
           ol_symbol := or_else (normalize_symbol (ol_symbol a)) (ol_symbol a),
           ol_exchange := or_else (normalize_upper (ol_exchange a)) (ol_exchange a),
           ol_tradingsymbol := or_else (normalize_upper (ol_tradingsymbol a)) (ol_tradingsymbol a),
           ol_net := Some net, ol_side := Some (normalize_actual_side (ol_side a) net)\<rparr>)"

text \<open>The lookup table keeps the first leg of each alias; a leg is known by its index, since the legs are updated in place.\<close>

fun alias_index :: "string \<Rightarrow> open_leg list \<Rightarrow> nat option" where
  "alias_index key [] = None"
| "alias_index key (a # rest) = (if key \<in> set (leg_aliases a) then Some 0 else map_option Suc (alias_index key rest))"

fun first_index :: "string list \<Rightarrow> open_leg list \<Rightarrow> nat option" where
  "first_index [] legs = None"
| "first_index (key # keys) legs = (case alias_index key legs of Some i \<Rightarrow> Some i | None \<Rightarrow> first_index keys legs)"

section \<open>Square-off schedule\<close>

definition exchange_offset :: int where
  "exchange_offset = seconds 19800"

definition day_micros :: int where
  "day_micros = seconds 86400"

definition exchange_day_at :: "instant \<Rightarrow> int \<Rightarrow> instant" where
  "exchange_day_at now clock = (now + exchange_offset) div day_micros * day_micros + clock - exchange_offset"

fun split_colons :: "string \<Rightarrow> string list" where
  "split_colons [] = [[]]"
| "split_colons (c # cs) =
     (if c = CHR '':'' then [] # split_colons cs
      else (case split_colons cs of [] \<Rightarrow> [[c]] | w # ws \<Rightarrow> (c # w) # ws))"

text \<open>A clock time outside its ranges is the exception that \<open>datetime.time\<close> raises.\<close>

definition clock_micros :: "int \<Rightarrow> int \<Rightarrow> int \<Rightarrow> string + int" where
  "clock_micros h m s =
     (if h < 0 \<or> 23 < h then Inl ''hour must be in 0..23''
      else if m < 0 \<or> 59 < m then Inl ''minute must be in 0..59''
      else if s < 0 \<or> 59 < s then Inl ''second must be in 0..59''
      else Inr (seconds (h * 3600 + m * 60 + s)))"

text \<open>Day -25567 is the 1st of January 1900, the date of a parsed time without one.\<close>

definition parse_schedule_datetime ::
  "(string \<Rightarrow> (int \<times> bool) option) \<Rightarrow> instant \<Rightarrow> string option \<Rightarrow> string + instant option" where
  "parse_schedule_datetime fromiso now value =
     (case value of
        None \<Rightarrow> Inr None
      | Some raw \<Rightarrow>
          let text = str_strip raw in
          if text = [] then Inr None
          else (case fromiso text of
              Some (t, True) \<Rightarrow> Inr (Some t)
            | Some (t, False) \<Rightarrow>
                if t div day_micros = - 25567 then Inr (Some (exchange_day_at now (t mod day_micros))) else Inr (Some (t - exchange_offset))
            | None \<Rightarrow>
                let parts = split_colons text in
                if length parts \<notin> {2, 3} then Inr None
                else (case (parse_int (parts ! 0), parse_int (parts ! 1), if length parts = 3 then parse_int (parts ! 2) else Some 0) of
                    (Some h, Some m, Some s) \<Rightarrow> map_sum id (\<lambda>clock. Some (exchange_day_at now clock)) (clock_micros h m s)
                  | _ \<Rightarrow> Inr None)))"

definition squareoff_due :: "(string \<Rightarrow> (int \<times> bool) option) \<Rightarrow> open_leg \<Rightarrow> instant \<Rightarrow> string option \<Rightarrow> int \<Rightarrow> string + bool" where
  "squareoff_due fromiso a now schedule buffer =
     (if normalize_upper (ol_product a) \<noteq> Some ''MIS'' then Inr False
      else map_sum id (\<lambda>target. case target of None \<Rightarrow> False | Some t \<Rightarrow> t - seconds buffer \<le> now) (parse_schedule_datetime fromiso now schedule))"

definition schedule_keys :: "open_leg \<Rightarrow> string list" where
  "schedule_keys a =
     (let product = normalize_upper (ol_product a); symbol = normalize_symbol (ol_symbol a);
          exchange = normalize_upper (ol_exchange a); tradingsymbol = normalize_upper (ol_tradingsymbol a);
          both = (\<lambda>k. [k, str_lower k])
      in (case product of Some p \<Rightarrow> both p | None \<Rightarrow> [])
         @ (case symbol of Some s \<Rightarrow> if s = [] then [] else both s | None \<Rightarrow> [])
         @ (case (exchange, product) of (Some e, Some p) \<Rightarrow> both (e @ '':'' @ p) | _ \<Rightarrow> [])
         @ (case (exchange, tradingsymbol) of (Some e, Some t) \<Rightarrow> both (e @ '':'' @ t) | _ \<Rightarrow> [])
         @ [''default'', ''DEFAULT'', ''mis'', ''MIS''])"

definition resolve_squareoff_schedule_value :: "open_leg \<Rightarrow> (string, string) dict \<Rightarrow> string option" where
  "resolve_squareoff_schedule_value a schedule =
     (case filter (dict_has schedule) (schedule_keys a) of
        k # _ \<Rightarrow> dict_get schedule k
      | [] \<Rightarrow> (case schedule of [(_, v)] \<Rightarrow> Some v | _ \<Rightarrow> None))"

section \<open>Evaluation\<close>

record leg_track =
  lt_best :: "rat option"
  lt_current :: "rat option"

record trigger_details =
  td_key :: "string option"
  td_pnl :: "rat option"
  td_best :: "rat option"
  td_heartbeat_age :: "int option"

text \<open>The protection state of a run; a key that is absent is \<open>None\<close>, \<open>False\<close> or empty.\<close>

record protection_state =
  bs_status :: "string option"
  bs_generation :: "int option"
  bs_version :: "int option"
  bs_exit_submitted :: bool
  bs_rule :: "string option"
  bs_triggered_at :: "instant option"
  bs_checked_at :: "instant option"
  bs_action :: "string option"
  bs_details :: "trigger_details option"
  bs_legs :: "(string, leg_track) dict"
  bs_basket :: "rat option"
  bs_best_basket :: "rat option"
  bs_errors :: "string list"
  bs_claim :: "string option"
  bs_claimed_at :: "instant option"
  bs_exit_key :: "string option"
  bs_exit_status :: "string option"
  bs_exit_result :: "jobj option"
  bs_exit_error :: "string option"
  bs_error :: "string option"
  bs_reason :: "string option"
  bs_updated_at :: "instant option"
  bs_reset_trailing :: "bool option"

definition blank_state :: protection_state where
  "blank_state = \<lparr>bs_status = None, bs_generation = None, bs_version = None, bs_exit_submitted = False, bs_rule = None,
     bs_triggered_at = None, bs_checked_at = None, bs_action = None, bs_details = None, bs_legs = [], bs_basket = None,
     bs_best_basket = None, bs_errors = [], bs_claim = None, bs_claimed_at = None, bs_exit_key = None, bs_exit_status = None,
     bs_exit_result = None, bs_exit_error = None, bs_error = None, bs_reason = None, bs_updated_at = None, bs_reset_trailing = None\<rparr>"

definition no_details :: trigger_details where
  "no_details = \<lparr>td_key = None, td_pnl = None, td_best = None, td_heartbeat_age = None\<rparr>"

definition trigger ::
  "string \<Rightarrow> instant \<Rightarrow> trigger_details \<Rightarrow> int option \<Rightarrow> int option \<Rightarrow> (string, leg_track) dict \<Rightarrow> rat option \<Rightarrow> rat option \<Rightarrow> string list
   \<Rightarrow> protection_state" where
  "trigger rule now details generation version legs basket best errors =
     blank_state\<lparr>bs_status := Some ''triggered'', bs_rule := Some rule, bs_triggered_at := Some now, bs_checked_at := Some now,
       bs_action := Some ''exit_strategy'', bs_details := Some details, bs_generation := generation, bs_version := version,
       bs_legs := legs, bs_basket := basket, bs_best_basket := best, bs_errors := errors\<rparr>"

text \<open>What a protected position supplies to its leg: an entry price and a side, when the leg has none.\<close>

definition supply_leg :: "protected_position \<Rightarrow> open_leg \<Rightarrow> open_leg" where
  "supply_leg p a =
     (let a1 = (if to_rat (ol_average a) \<le> 0 \<and> to_rat (ol_entry a) \<le> 0 then a\<lparr>ol_entry := Some (pp_entry p)\<rparr> else a)
      in if \<not> str_truthy (ol_side a1) \<or> str_upper (str_strip (opt_str (ol_side a1))) = ''FLAT'' then a1\<lparr>ol_side := Some (pp_side p)\<rparr> else a1)"

definition side_matches :: "protected_position \<Rightarrow> open_leg \<Rightarrow> bool" where
  "side_matches p a = (normalize_actual_side (ol_side a) (case ol_net a of Some n \<Rightarrow> n | None \<Rightarrow> 0) \<in> {pp_side p, ''FLAT''})"

definition best_of :: "rat option \<Rightarrow> rat \<Rightarrow> rat" where
  "best_of previous current = max (case previous of Some b \<Rightarrow> b | None \<Rightarrow> current) current"

text \<open>The rule of a protected position that its percentages breach, with the details it reports.\<close>

definition position_rule :: "protected_position \<Rightarrow> rat \<Rightarrow> rat \<Rightarrow> (string \<times> trigger_details) option" where
  "position_rule p pct best =
     (let details = no_details\<lparr>td_key := Some (primary_key p), td_pnl := Some pct\<rparr> in
      if (case pp_stoploss p of Some s \<Rightarrow> pct \<le> - \<bar>s\<bar> | None \<Rightarrow> False) then Some (''position_stoploss'', details)
      else if (case pp_target p of Some t \<Rightarrow> t \<le> pct | None \<Rightarrow> False) then Some (''position_target'', details)
      else if (case pp_trailing p of Some d \<Rightarrow> 0 < best \<and> d \<le> best - pct | None \<Rightarrow> False)
        then Some (''position_trailing_stoploss'', details\<lparr>td_best := Some best\<rparr>)
      else None)"

text \<open>The loop over the protected positions: the legs, their tracks and the errors so far, until a rule is breached.\<close>

fun check_positions ::
  "protected_position list \<Rightarrow> open_leg list \<Rightarrow> (string, leg_track) dict \<Rightarrow> string list
   \<Rightarrow> (string \<times> trigger_details) option \<times> open_leg list \<times> (string, leg_track) dict \<times> string list" where
  "check_positions [] legs tracks errors = (None, legs, tracks, errors)"
| "check_positions (p # ps) legs tracks errors =
     (case first_index (protected_aliases p) legs of
        None \<Rightarrow> check_positions ps legs tracks (errors @ [''protected position '' @ primary_key p @ '' is not open''])
      | Some i \<Rightarrow>
          let a = supply_leg p (legs ! i); legs1 = legs[i := a] in
          if \<not> side_matches p a
            then check_positions ps legs1 tracks (errors @ [''protected position '' @ primary_key p @ '' side does not match open leg''])
          else (case leg_pnl_pct a of
              None \<Rightarrow> check_positions ps legs1 tracks (errors @ [''protected position '' @ primary_key p @ '' has no usable price''])
            | Some pct \<Rightarrow>
                let best = best_of (case dict_get tracks (primary_key p) of Some t \<Rightarrow> lt_best t | None \<Rightarrow> None) pct;
                    tracks1 = dict_set (primary_key p) \<lparr>lt_best = Some best, lt_current = Some pct\<rparr> tracks
                in (case position_rule p pct best of
                      Some r \<Rightarrow> (Some r, legs1, tracks1, errors)
                    | None \<Rightarrow> check_positions ps legs1 tracks1 errors)))"

fun check_squareoff ::
  "(string \<Rightarrow> (int \<times> bool) option) \<Rightarrow> instant \<Rightarrow> (string, string) dict \<Rightarrow> int \<Rightarrow> open_leg list \<Rightarrow> string + open_leg option" where
  "check_squareoff fromiso now schedule buffer [] = Inr None"
| "check_squareoff fromiso now schedule buffer (a # rest) =
     (case squareoff_due fromiso a now (resolve_squareoff_schedule_value a schedule) buffer of
        Inl e \<Rightarrow> Inl e
      | Inr True \<Rightarrow> Inr (Some a)
      | Inr False \<Rightarrow> check_squareoff fromiso now schedule buffer rest)"

definition leg_value :: "open_leg \<Rightarrow> rat" where
  "leg_value a = (case leg_pnl_pct a of Some pct \<Rightarrow> leg_basis a * pct / 100 | None \<Rightarrow> 0)"

definition basket_pct :: "open_leg list \<Rightarrow> rat" where
  "basket_pct legs =
     (let basis = sum_list (map leg_basis legs)
      in if basis > 0 then sum_list (map leg_value legs) / basis * 100 else 0)"

definition basket_rule :: "basket_protection \<Rightarrow> rat \<Rightarrow> rat \<Rightarrow> (string \<times> trigger_details) option" where
  "basket_rule b pct best =
     (let details = no_details\<lparr>td_pnl := Some pct\<rparr> in
      if (case bk_stoploss b of Some s \<Rightarrow> pct \<le> - \<bar>s\<bar> | None \<Rightarrow> False) then Some (''basket_stoploss'', details)
      else if (case bk_target b of Some t \<Rightarrow> t \<le> pct | None \<Rightarrow> False) then Some (''basket_target'', details)
      else if (case (bk_activate b, bk_drawdown b) of (Some act, Some d) \<Rightarrow> act \<le> best \<and> d \<le> best - pct | _ \<Rightarrow> False)
        then Some (''basket_trailing_drawdown'', details\<lparr>td_best := Some best\<rparr>)
      else None)"

definition worker_is_stale :: "operational_protection \<Rightarrow> int option \<Rightarrow> bool" where
  "worker_is_stale ops age =
     (ox_exit_on_stale ops \<and> (case age of Some x \<Rightarrow> (case ox_stale_sec ops of Some s \<Rightarrow> s | None \<Rightarrow> 0) \<le> x | None \<Rightarrow> False))"

text \<open>The checks after the positions: staleness, square-off, basket.\<close>

definition finish_evaluation ::
  "(string \<Rightarrow> (int \<times> bool) option) \<Rightarrow> protection_config \<Rightarrow> protection_state \<Rightarrow> int option \<Rightarrow> int option \<Rightarrow> open_leg list \<Rightarrow> (string, leg_track) dict
   \<Rightarrow> string list \<Rightarrow> int option \<Rightarrow> instant \<Rightarrow> (string, string) dict \<Rightarrow> string + protection_state" where
  "finish_evaluation fromiso c state generation version legs tracks errors age now schedule =
     (let ops = pc_operations c;
          due = (case ox_buffer_sec ops of Some b \<Rightarrow> check_squareoff fromiso now schedule b legs | None \<Rightarrow> Inr None)
      in if worker_is_stale ops age
           then Inr (trigger ''worker_stale'' now (no_details\<lparr>td_heartbeat_age := age\<rparr>) generation version tracks None None errors)
         else (case due of
             Inl e \<Rightarrow> Inl e
           | Inr (Some a) \<Rightarrow>
               Inr (trigger ''mis_squareoff_buffer'' now (no_details\<lparr>td_key := (case leg_aliases a of k # _ \<Rightarrow> Some k | [] \<Rightarrow> None)\<rparr>)
                      generation version tracks None None errors)
           | Inr None \<Rightarrow>
               let pct = basket_pct legs; best = best_of (bs_best_basket state) pct in
               (case (case pc_basket c of Some b \<Rightarrow> basket_rule b pct best | None \<Rightarrow> None) of
                  Some (rule, details) \<Rightarrow> Inr (trigger rule now details generation version tracks (Some pct) (Some best) errors)
                | None \<Rightarrow>
                    Inr (blank_state\<lparr>bs_status := Some ''active'', bs_checked_at := Some now, bs_basket := Some pct, bs_best_basket := Some best,
                           bs_legs := tracks, bs_errors := errors, bs_generation := generation, bs_version := version\<rparr>))))"

definition evaluate_backend_protection ::
  "(string \<Rightarrow> (int \<times> bool) option) \<Rightarrow> protection_config \<Rightarrow> protection_state \<Rightarrow> open_leg list \<Rightarrow> int option \<Rightarrow> instant \<Rightarrow> (string, string) dict
   \<Rightarrow> string + protection_state" where
  "evaluate_backend_protection fromiso c state positions age now schedule =
     (let generation = bs_generation state; version = or_else (bs_version state) (Some (pc_version c)) in
      if bs_exit_submitted state then Inr (state\<lparr>bs_checked_at := Some now, bs_version := version\<rparr>)
      else if \<not> pc_enabled c
        then Inr (blank_state\<lparr>bs_status := Some ''disabled'', bs_checked_at := Some now, bs_generation := generation, bs_version := version\<rparr>)
      else (case check_positions (pc_positions c) (map normalize_leg positions) (bs_legs state) [] of
          (Some (rule, details), legs, tracks, errors) \<Rightarrow> Inr (trigger rule now details generation version tracks None None errors)
        | (None, legs, tracks, errors) \<Rightarrow> finish_evaluation fromiso c state generation version legs tracks errors age now schedule))"

end
