(* ===== verification/ProtectionRuntime.thy ===== *)
theory ProtectionRuntime
  imports Protection HostedAttempt
begin

text \<open>
  The runtime around the protection rules: the conditional writes of the run row
  (\<open>api/repositories/algo_worker_repo.py\<close>), the evaluation loop that claims and submits exits
  (\<open>api/services/protection_runtime.py\<close>), the worker's reset of its protection and the safety
  gate of its orders (\<open>api/routers/worker_protection.py\<close>, \<open>api/services/safety.py\<close>).

  A run row is seen through the columns the protection uses. An evaluation reads its row once and
  writes later, so its writes are functions of the row it read and of the store they run
  against. \<open>pw_exits\<close> logs the exits submitted, with whether the answer was final.
\<close>

section \<open>Rows and writes\<close>

record timeline_event =
  te_type :: string
  te_summary :: string
  te_previous_status :: "string option"
  te_status :: string
  te_rule :: "string option"
  te_action :: "string option"
  te_exit_status :: "string option"
  te_exit_result :: "jobj option"
  te_previous_generation :: "int option"
  te_generation :: "int option"
  te_reason :: "string option"

record recovery_note =
  rn_status :: string
  rn_action_required :: bool
  rn_reason :: string
  rn_details :: jobj
  rn_checked_at :: instant

record protected_run =
  pr_account :: string
  pr_mode :: string
  pr_status :: string
  pr_config :: "protection_config option"
  pr_state :: protection_state
  pr_heartbeat :: "instant option"
  pr_nonce :: "string option"
  pr_session :: "instant option"
  pr_recovery :: "recovery_note option"
  pr_timeline :: "timeline_event list"

record protection_world =
  pw_runs :: "(string, protected_run) dict"
  pw_exits :: "(string \<times> bool) list"

definition to_int :: "int option \<Rightarrow> int" where
  "to_int x = (case x of Some i \<Rightarrow> i | None \<Rightarrow> 0)"

definition persist_backend_protection_change ::
  "string \<Rightarrow> protection_config option \<Rightarrow> protection_state \<Rightarrow> int option \<Rightarrow> string option \<Rightarrow> string option \<Rightarrow> timeline_event list
   \<Rightarrow> protection_world \<Rightarrow> bool \<times> protection_world" where
  "persist_backend_protection_change rid config state expected_generation expected_rule expected_claim events w =
     (case dict_get (pw_runs w) rid of
        None \<Rightarrow> (False, w)
      | Some r \<Rightarrow>
          let current = pr_state r in
          if expected_generation \<noteq> None \<and> to_int (bs_generation current) \<noteq> to_int expected_generation then (False, w)
          else if (case expected_rule of Some x \<Rightarrow> str_or (bs_rule current) [] \<noteq> x | None \<Rightarrow> False) then (False, w)
          else if (case expected_claim of Some x \<Rightarrow> str_or (bs_claim current) [] \<noteq> x | None \<Rightarrow> False) then (False, w)
          else (True, w\<lparr>pw_runs := dict_set rid
                 (r\<lparr>pr_config := or_else config (pr_config r), pr_state := state, pr_timeline := pr_timeline r @ events\<rparr>) (pw_runs w)\<rparr>))"

section \<open>The evaluation loop\<close>

record protection_env =
  pe_fromiso :: "string \<Rightarrow> (int \<times> bool) option"
  pe_digest :: "trigger_details option \<Rightarrow> string"
  pe_schedule :: "(string, string) dict"

definition heartbeat_age :: "instant option \<Rightarrow> instant \<Rightarrow> int option" where
  "heartbeat_age beat now = map_option (\<lambda>t. max 0 ((now - t) div 1000000)) beat"

definition has_recent_exit_claim :: "protection_state \<Rightarrow> instant \<Rightarrow> bool" where
  "has_recent_exit_claim state now =
     (\<not> bs_exit_submitted state \<and> str_truthy (bs_claim state)
      \<and> (case bs_claimed_at state of None \<Rightarrow> True | Some t \<Rightarrow> now - t < seconds 60))"

definition is_deferred_exit_result :: "jobj \<Rightarrow> bool" where
  "is_deferred_exit_result result =
     (jtruth (obj_get result ''deferred'')
      \<or> str_lower (if jtruth (obj_get result ''status'') then py_str (obj_get result ''status'') else []) = ''deferred'')"

definition idempotency_key :: "protection_env \<Rightarrow> string \<Rightarrow> protection_state \<Rightarrow> string" where
  "idempotency_key env rid s =
     ''backend-protection:'' @ rid @ '':g'' @ int_str (let g = to_int (bs_generation s) in if g = 0 then 1 else g) @ '':''
     @ str_or (bs_rule s) ''unknown'' @ '':'' @ pe_digest env (bs_details s)"

definition blank_event :: timeline_event where
  "blank_event = \<lparr>te_type = [], te_summary = [], te_previous_status = None, te_status = [], te_rule = None, te_action = None, te_exit_status = None,
     te_exit_result = None, te_previous_generation = None, te_generation = None, te_reason = None\<rparr>"

definition build_timeline_events :: "protection_state \<Rightarrow> protection_state \<Rightarrow> timeline_event list" where
  "build_timeline_events previous state =
     (let before = str_or (bs_status previous) []; after = str_or (bs_status state) []; rule = str_or (bs_rule state) ''unknown_rule''
      in (if after = ''triggered'' \<and> before \<noteq> ''triggered''
          then [blank_event\<lparr>te_type := ''protection.triggered'', te_summary := ''Backend protection triggered: '' @ rule, te_status := after,
                  te_rule := bs_rule state, te_action := bs_action state, te_generation := bs_generation state\<rparr>] else [])
         @ (if bs_exit_submitted state \<and> \<not> bs_exit_submitted previous
          then [blank_event\<lparr>te_type := ''protection.exit_submitted'', te_summary := ''Backend protection exit submitted: '' @ rule, te_status := after,
                  te_rule := bs_rule state, te_exit_status := bs_exit_status state, te_exit_result := bs_exit_result state,
                  te_generation := bs_generation state\<rparr>] else [])
         @ (if before = ''error'' \<and> after = ''active''
          then [blank_event\<lparr>te_type := ''protection.blocking_changed'', te_summary := ''Backend protection recovered from error to active'',
                  te_previous_status := Some before, te_status := after, te_generation := bs_generation state\<rparr>] else []))"

definition persist_state ::
  "string \<Rightarrow> protection_state \<Rightarrow> protection_state \<Rightarrow> int option \<Rightarrow> string option \<Rightarrow> string option \<Rightarrow> protection_world \<Rightarrow> bool \<times> protection_world" where
  "persist_state rid previous state expected_generation expected_rule expected_claim w =
     persist_backend_protection_change rid None state expected_generation expected_rule expected_claim (build_timeline_events previous state) w"

datatype exit_answer = ExitRaised string | ExitAnswered jobj

datatype run_outcome = ClaimPending | NotTriggered | ClaimLost | ExitUnknown | ExitDeferred | ExitDone | EvaluationFailed string

definition claimed_state :: "protection_env \<Rightarrow> string \<Rightarrow> instant \<Rightarrow> string \<Rightarrow> protection_state \<Rightarrow> protection_state" where
  "claimed_state env rid now claim s =
     s\<lparr>bs_claim := Some claim, bs_claimed_at := Some now, bs_exit_key := Some (idempotency_key env rid s)\<rparr>"

text \<open>What is stored of an exit once its answer, or its failure, is known.\<close>

definition answered_state :: "protection_state \<Rightarrow> exit_answer \<Rightarrow> run_outcome \<times> protection_state" where
  "answered_state s answer =
     (case answer of
        ExitRaised e \<Rightarrow>
          (ExitUnknown, s\<lparr>bs_status := Some ''error'', bs_exit_submitted := True, bs_exit_status := Some ''unknown'', bs_exit_error := Some e\<rparr>)
      | ExitAnswered result \<Rightarrow>
          if is_deferred_exit_result result
            then (ExitDeferred, s\<lparr>bs_exit_submitted := False, bs_exit_status := Some ''deferred'', bs_exit_result := Some result\<rparr>)
          else (ExitDone, s\<lparr>bs_exit_submitted := True, bs_exit_result := Some result\<rparr>))"

definition persist_answer :: "string \<Rightarrow> string \<Rightarrow> protection_state \<Rightarrow> protection_state \<Rightarrow> protection_world \<Rightarrow> protection_world" where
  "persist_answer rid claim claimed answered w =
     (case persist_state rid claimed answered (bs_generation answered) None (Some claim) w of
        (True, w1) \<Rightarrow> w1
      | (False, w1) \<Rightarrow> snd (persist_state rid claimed answered None None None w1))"

definition claim_exit :: "protection_env \<Rightarrow> string \<Rightarrow> protected_run \<Rightarrow> instant \<Rightarrow> string \<Rightarrow> protection_state \<Rightarrow> protection_world \<Rightarrow> bool \<times> protection_world" where
  "claim_exit env rid run now claim triggered w =
     persist_state rid (pr_state run) (claimed_state env rid now claim triggered) (bs_generation (pr_state run))
       (Some (str_or (bs_rule (pr_state run)) [])) None w"

definition submit_exit ::
  "string \<Rightarrow> string \<Rightarrow> protection_state \<Rightarrow> exit_answer \<Rightarrow> (protection_world \<Rightarrow> protection_world) \<Rightarrow> protection_world \<Rightarrow> run_outcome \<times> protection_world" where
  "submit_exit rid claim claimed answer during w =
     (let (outcome, answered) = answered_state claimed answer;
          w1 = during w;
          w2 = w1\<lparr>pw_exits := pw_exits w1 @ [(rid, outcome \<noteq> ExitDeferred)]\<rparr>
      in (outcome, persist_answer rid claim claimed answered w2))"

definition evaluate_run ::
  "protection_env \<Rightarrow> string \<Rightarrow> protected_run \<Rightarrow> instant \<Rightarrow> string \<Rightarrow> string + open_leg list \<Rightarrow> exit_answer \<Rightarrow> (protection_world \<Rightarrow> protection_world)
   \<Rightarrow> protection_world \<Rightarrow> run_outcome \<times> protection_world" where
  "evaluate_run env rid run now claim pnl answer during w =
     (let state = pr_state run in
      case validate_backend_protection_payload (pr_config run) of
        Inl es \<Rightarrow> (EvaluationFailed (concat es), w)
      | Inr c \<Rightarrow>
          if has_recent_exit_claim state now then (ClaimPending, w)
          else (case pnl of
              Inl e \<Rightarrow> (EvaluationFailed e, w)
            | Inr legs \<Rightarrow>
                (case evaluate_backend_protection (pe_fromiso env) c state legs (heartbeat_age (pr_heartbeat run) now) now (pe_schedule env) of
                   Inl e \<Rightarrow> (EvaluationFailed e, w)
                 | Inr verdict \<Rightarrow>
                     if bs_status verdict = Some ''triggered'' \<and> \<not> bs_exit_submitted state
                       then (case claim_exit env rid run now claim verdict w of
                           (False, w1) \<Rightarrow> (ClaimLost, w1)
                         | (True, w1) \<Rightarrow> submit_exit rid claim (claimed_state env rid now claim verdict) answer during w1)
                     else (NotTriggered, snd (persist_state rid state verdict (bs_generation state) (Some (str_or (bs_rule state) []))
                             (Some (str_or (bs_claim state) [])) w)))))"

definition persist_run_error :: "string \<Rightarrow> protected_run \<Rightarrow> instant \<Rightarrow> string \<Rightarrow> protection_world \<Rightarrow> protection_world" where
  "persist_run_error rid run now message w =
     (let previous = pr_state run in
      if bs_exit_submitted previous then w
      else snd (persist_state rid previous (previous\<lparr>bs_status := Some ''error'', bs_checked_at := Some now, bs_error := Some message\<rparr>)
             (bs_generation previous) (Some (str_or (bs_rule previous) [])) (Some (str_or (bs_claim previous) [])) w))"

text \<open>One run of a sweep, with the error that is stored when its evaluation fails.\<close>

definition evaluate_entry ::
  "protection_env \<Rightarrow> string \<Rightarrow> protected_run \<Rightarrow> instant \<Rightarrow> string \<Rightarrow> string + open_leg list \<Rightarrow> exit_answer \<Rightarrow> (protection_world \<Rightarrow> protection_world)
   \<Rightarrow> protection_world \<Rightarrow> run_outcome \<times> protection_world" where
  "evaluate_entry env rid run now claim pnl answer during w =
     (case evaluate_run env rid run now claim pnl answer during w of
        (EvaluationFailed e, w1) \<Rightarrow> (EvaluationFailed e, persist_run_error rid run now e w1)
      | other \<Rightarrow> other)"

section \<open>The worker's reset\<close>

definition next_protection_for_patch :: "protection_config \<Rightarrow> protection_config option \<Rightarrow> protection_config" where
  "next_protection_for_patch c previous =
     c\<lparr>pc_version := max (pc_version c) ((case previous of Some p \<Rightarrow> pc_version p | None \<Rightarrow> 0) + 1)\<rparr>"

definition initial_protection_state :: "protection_config \<Rightarrow> int \<Rightarrow> string option \<Rightarrow> instant \<Rightarrow> protection_state" where
  "initial_protection_state c generation reason now =
     blank_state\<lparr>bs_status := Some (if pc_enabled c then ''active'' else ''disabled''), bs_generation := Some generation,
       bs_version := Some (if pc_version c = 0 then 1 else pc_version c), bs_reason := reason, bs_updated_at := Some now\<rparr>"

definition preserve_trailing_state :: "protection_state \<Rightarrow> protection_state \<Rightarrow> protection_state" where
  "preserve_trailing_state state previous = state\<lparr>bs_best_basket := bs_best_basket previous, bs_legs := bs_legs previous\<rparr>"

definition reset_timeline_event :: "protection_state \<Rightarrow> protection_state \<Rightarrow> string option \<Rightarrow> timeline_event list" where
  "reset_timeline_event previous state reason =
     (if str_or (bs_status previous) [] \<notin> {''triggered'', ''error''} \<or> str_or (bs_status state) [] \<noteq> ''active'' then []
      else [blank_event\<lparr>te_type := ''protection.reset'', te_summary := ''Backend protection reset to active generation'',
              te_previous_status := bs_status previous, te_status := str_or (bs_status state) ''active'',
              te_previous_generation := Some (to_int (bs_generation previous)), te_generation := Some (to_int (bs_generation state)),
              te_reason := reason\<rparr>])"

definition patch_worker_run_protection ::
  "instant \<Rightarrow> string \<Rightarrow> protected_run \<Rightarrow> protection_config option \<Rightarrow> string option \<Rightarrow> bool \<Rightarrow> protection_world \<Rightarrow> (worker_error + unit) \<times> protection_world" where
  "patch_worker_run_protection now rid run payload reason reset_trailing w =
     (let previous = pr_state run in
      if pr_status run \<in> {''closed'', ''failed''} then (Inl (HttpError 409 ''Closed strategy runs cannot be protection-edited''), w)
      else if bs_exit_submitted previous
        then (Inl (HttpError 409 ''Backend protection cannot be reset after a terminal protection exit''), w)
      else if str_truthy (bs_claim previous) then (Inl (HttpError 409 ''Backend protection exit is already in progress''), w)
      else if str_or (bs_status previous) [] \<notin> {[], ''active'', ''disabled'', ''triggered'', ''error''}
        then (Inl (HttpError 409 ''Backend protection cannot be reset from current status''), w)
      else (case validate_backend_protection_payload payload of
          Inl es \<Rightarrow> (Inl (HttpError 422 (concat es)), w)
        | Inr c \<Rightarrow>
            let c1 = next_protection_for_patch c (pr_config run);
                fresh = initial_protection_state c1 (to_int (bs_generation previous) + 1) reason now;
                state = (if reset_trailing then fresh else preserve_trailing_state fresh previous)\<lparr>bs_reset_trailing := Some reset_trailing\<rparr>
            in (case persist_backend_protection_change rid (Some c1) state (Some (to_int (bs_generation previous)))
                       (Some (str_or (bs_rule previous) [])) (Some (str_or (bs_claim previous) [])) (reset_timeline_event previous state reason) w of
                  (False, w1) \<Rightarrow> (Inl (HttpError 409 ''Backend protection changed concurrently; reload and retry''), w1)
                | (True, w1) \<Rightarrow> (Inr (), w1))))"

section \<open>The safety gate of orders\<close>

definition options_unavailable :: string where
  "options_unavailable = ''__options_protection_state_unavailable__''"

record option_snapshot =
  os_blocking :: "string option"
  os_status :: "string option"
  os_triggered :: bool

definition option_status :: "option_snapshot \<Rightarrow> string option" where
  "option_status o1 = (if os_blocking o1 = Some ''OPTIONS_PROTECTION_STATE_UNAVAILABLE'' then Some options_unavailable else os_status o1)"

definition build_safety_fingerprint :: "(string \<Rightarrow> string) \<Rightarrow> string \<Rightarrow> string \<Rightarrow> bool \<Rightarrow> string option \<Rightarrow> string" where
  "build_safety_fingerprint sha run_status generic submitted option_run_status =
     sha (join ''|'' [run_status, generic, if submitted then ''1'' else ''0'', str_or option_run_status []])"

definition safety_blocking_reasons :: "string \<Rightarrow> string \<Rightarrow> bool \<Rightarrow> string option \<Rightarrow> string list" where
  "safety_blocking_reasons run_status generic submitted opt =
     (if run_status \<noteq> ''open'' then [''RUN_NOT_OPEN''] else [])
     @ (if generic = ''triggered'' then [''GENERIC_PROTECTION_TRIGGERED''] else [])
     @ (if submitted then [''GENERIC_EXIT_IN_PROGRESS''] else [])
     @ (if opt = Some options_unavailable then [''OPTIONS_PROTECTION_STATE_UNAVAILABLE'']
        else if str_truthy opt \<and> option_run_status_blocks_trading opt then [''OPTIONS_RUN_NOT_ACTIVE'']
        else [])"

record safety_token =
  sy_run :: string
  sy_fingerprint :: string
  sy_expires :: instant
  sy_signature :: string

text \<open>The hash and the keyed signature are those of the standard library; the token is seen without its transport encoding.\<close>

record safety_env =
  sv_sha :: "string \<Rightarrow> string"
  sv_sign :: "string \<times> string \<times> instant \<Rightarrow> string"

definition run_fingerprint :: "safety_env \<Rightarrow> protected_run \<Rightarrow> option_snapshot \<Rightarrow> string" where
  "run_fingerprint sv r o1 =
     build_safety_fingerprint (sv_sha sv) (str_or (Some (pr_status r)) ''open'') (str_or (bs_status (pr_state r)) ''active'')
       (bs_exit_submitted (pr_state r)) (option_status o1)"

definition run_blocking_reasons :: "protected_run \<Rightarrow> option_snapshot \<Rightarrow> string list" where
  "run_blocking_reasons r o1 =
     dedup (safety_blocking_reasons (str_or (Some (pr_status r)) ''open'') (str_or (bs_status (pr_state r)) ''active'')
              (bs_exit_submitted (pr_state r)) (option_status o1)
            @ (if os_triggered o1 then [''OPTIONS_PROTECTION_TRIGGERED''] else []))"

definition build_signed_safety_token :: "safety_env \<Rightarrow> string \<Rightarrow> string \<Rightarrow> instant \<Rightarrow> safety_token" where
  "build_signed_safety_token sv rid fingerprint now =
     (let expires = now + seconds 10
      in \<lparr>sy_run = rid, sy_fingerprint = fingerprint, sy_expires = expires, sy_signature = sv_sign sv (rid, fingerprint, expires)\<rparr>)"

definition verify_signed_safety_token :: "safety_env \<Rightarrow> safety_token \<Rightarrow> string \<Rightarrow> instant \<Rightarrow> string option" where
  "verify_signed_safety_token sv token rid now =
     (if sy_run token \<noteq> rid then None
      else if sy_signature token \<noteq> sv_sign sv (sy_run token, sy_fingerprint token, sy_expires token) then None
      else if sy_expires token \<le> now then None
      else Some (sy_fingerprint token))"

definition get_worker_run_safety_check ::
  "safety_env \<Rightarrow> string \<Rightarrow> protected_run \<Rightarrow> option_snapshot \<Rightarrow> instant \<Rightarrow> string list \<times> safety_token option" where
  "get_worker_run_safety_check sv rid r o1 now =
     (let reasons = run_blocking_reasons r o1
      in (reasons, if reasons = [] then Some (build_signed_safety_token sv rid (run_fingerprint sv r o1) now) else None))"

definition validate_worker_run_safety_token ::
  "safety_env \<Rightarrow> string \<Rightarrow> safety_token \<Rightarrow> protected_run option \<Rightarrow> option_snapshot \<Rightarrow> instant \<Rightarrow> worker_error \<times> string list + unit" where
  "validate_worker_run_safety_token sv rid token run o1 now =
     (case run of
        None \<Rightarrow> Inl (HttpError 404 ''Strategy run not found'', [])
      | Some r \<Rightarrow>
          if verify_signed_safety_token sv token rid now \<noteq> Some (run_fingerprint sv r o1)
            then Inl (HttpError 409 ''SAFETY_TOKEN_EXPIRED'',
                      let reasons = run_blocking_reasons r o1 in if reasons = [] then [''SAFETY_STATE_UNKNOWN''] else reasons)
          else Inr ())"

end
