(* ===== verification/ProtectionTheorems.thy ===== *)
theory ProtectionTheorems
  imports ProtectionRuntime
begin

text \<open>
  What the protection rules promise: a validated configuration validates again to itself; an
  active verdict means that no rule is breached and a triggered one names a breached rule; and
  the basket percentage is profit over cost.
\<close>

section \<open>Configurations\<close>

lemma strip_ends: "str_strip s \<noteq> [] \<Longrightarrow> \<not> is_space (hd (str_strip s)) \<and> \<not> is_space (last (str_strip s))"
proof -
  assume ne: "str_strip s \<noteq> []"
  have "dropWhile is_space (str_strip s) = str_strip s" using strip_strip [of s] ne
    by (metis (no_types, lifting) dropWhile_eq_self_iff dropWhile_idem hd_append2 hd_dropWhile rev_append rev_rev_ident str_strip_def takeWhile_dropWhile_id append_is_Nil_conv)
  then have "\<not> is_space (hd (str_strip s))" using ne by (simp add: dropWhile_eq_self_iff)
  moreover have "\<not> is_space (hd (rev (str_strip s)))"
    using ne hd_dropWhile [of is_space "rev (dropWhile is_space s)"] by (simp add: str_strip_def)
  ultimately show ?thesis using ne by (simp add: hd_rev)
qed

lemma strip_id: "s = [] \<or> \<not> is_space (hd s) \<and> \<not> is_space (last s) \<Longrightarrow> str_strip s = s"
proof -
  assume "s = [] \<or> \<not> is_space (hd s) \<and> \<not> is_space (last s)"
  then have "dropWhile is_space s = s" "dropWhile is_space (rev s) = rev s" by (auto simp: dropWhile_eq_self_iff hd_rev)
  then show ?thesis by (simp add: str_strip_def)
qed

lemma strip_filter:
  assumes "\<And>c. \<not> is_space c \<Longrightarrow> P c"
  shows "str_strip (filter P (str_strip s)) = filter P (str_strip s)"
proof (cases "str_strip s = []")
  case False
  note e = strip_ends [OF False]
  have "filter P (str_strip s) \<noteq> [] \<and> hd (filter P (str_strip s)) = hd (str_strip s)"
    using False e assms by (cases "str_strip s") auto
  moreover have "last (filter P (str_strip s)) = last (str_strip s)"
    using False e assms by (metis append_butlast_last_id filter.simps filter_append last_snoc)
  ultimately show ?thesis using e by (intro strip_id) simp
next
  case True
  then show ?thesis by simp (simp add: str_strip_def)
qed

lemma upper_filter: "(\<And>c. P (char_upper c) = P c) \<Longrightarrow> str_upper (filter P s) = filter P (str_upper s)"
  by (simp add: str_upper_def filter_map comp_def)

lemma char_upper_blank: "char_upper c = CHR '' '' \<longleftrightarrow> c = CHR '' ''"
proof
  assume "char_upper c = CHR '' ''"
  moreover have "is_space (CHR '' '')" by code_simp
  ultimately have "is_space c" using is_space_upper [of c] by simp
  then have "char_upper c = c" by (auto simp: is_space_def char_upper_def Let_def)
  then show "c = CHR '' ''" using \<open>char_upper c = CHR '' ''\<close> by simp
next
  have "char_upper (CHR '' '') = CHR '' ''" by code_simp
  then show "char_upper c = CHR '' ''" if "c = CHR '' ''" using that by simp
qed

lemma normalize_upper_idem: "normalize_upper (normalize_upper x) = normalize_upper x"
  by (auto simp: normalize_upper_def strip_upper strip_strip upper_upper Let_def split: option.splits if_splits)

lemma normalize_symbol_idem: "normalize_symbol (normalize_symbol x) = normalize_symbol x"
proof (cases "normalize_upper x")
  case (Some t)
  then obtain s where t: "t = str_strip (str_upper s)" "t \<noteq> []" by (auto simp: normalize_upper_def strip_upper Let_def split: option.splits if_splits)
  let ?f = "filter (\<lambda>c. c \<noteq> CHR '' '') t"
  have blank: "is_space (CHR '' '')" by code_simp
  have strip: "str_strip ?f = ?f" unfolding t(1) by (rule strip_filter) (use blank in auto)
  have "str_upper t = t" by (simp add: t(1) strip_upper upper_upper)
  then have upper: "str_upper ?f = ?f" by (simp add: upper_filter char_upper_blank)
  have "hd t \<noteq> CHR '' ''" using strip_ends [of "str_upper s"] t blank by auto
  then have "?f \<noteq> []" using t(2) by (cases t) auto
  then show ?thesis using strip upper Some by (simp add: normalize_symbol_def normalize_upper_def Let_def)
qed (simp add: normalize_symbol_def normalize_upper_def)

lemma normalize_position_idem: "normalize_position (normalize_position p) = normalize_position p"
  by (simp add: normalize_position_def normalize_upper_idem normalize_symbol_idem strip_upper strip_strip upper_upper)

lemma validate_position_Inr:
  assumes "validate_position raw = Inr p"
  shows "validate_position p = Inr p" "position_field_errors p = []" "position_rule_errors p = []"
  using assms by (auto simp: validate_position_def normalize_position_idem Let_def split: if_splits)

lemma percent_errors_Nil: "percent_errors field value = [] \<longleftrightarrow> (\<forall>x. value = Some x \<longrightarrow> 0 < x \<and> x \<le> 1000)"
  by (auto simp: percent_errors_def split: option.splits)

lemma validate_position_nonempty: "validate_position raw = Inl es \<Longrightarrow> es \<noteq> []"
  by (auto simp: validate_position_def Let_def split: if_splits)

lemma validated_positions:
  assumes "concat (map error_messages (map validate_position raws)) = []"
  shows "map validate_position (concat (map validated (map validate_position raws))) = map Inr (concat (map validated (map validate_position raws)))"
  using assms
proof (induction raws)
  case (Cons raw raws)
  obtain p where "validate_position raw = Inr p"
    using Cons.prems validate_position_nonempty [of raw] by (cases "validate_position raw") (auto simp: error_messages_def)
  then show ?case using Cons validate_position_Inr(1) by (auto simp: validated_def)
qed simp

lemma validated_again:
  assumes "map validate_position ps = map Inr ps"
  shows "concat (map error_messages (map validate_position ps)) = []" "concat (map validated (map validate_position ps)) = ps"
  unfolding assms by (induction ps) (auto simp: error_messages_def validated_def)

lemma normalize_symbol_nonempty: "normalize_symbol x \<noteq> Some []"
proof
  assume *: "normalize_symbol x = Some []"
  then obtain t where t: "normalize_upper x = Some t" "filter (\<lambda>c. c \<noteq> CHR '' '') t = []" by (auto simp: normalize_symbol_def)
  then obtain s where s: "t = str_strip (str_upper s)" "t \<noteq> []" by (auto simp: normalize_upper_def strip_upper Let_def split: option.splits if_splits)
  have "is_space (CHR '' '')" by code_simp
  then have "hd t \<noteq> CHR '' ''" using strip_ends [of "str_upper s"] s by auto
  then show False using t(2) s(2) by (cases t) auto
qed

lemma validate_position_aliases:
  assumes "validate_position raw = Inr p"
  shows "protected_aliases p \<noteq> []"
proof -
  have "pp_symbol p \<noteq> Some []"
    using assms normalize_symbol_nonempty by (auto simp: validate_position_def normalize_position_def Let_def split: if_splits)
  then have "str_truthy (pp_symbol p)" if "pp_symbol p \<noteq> None" using that by (auto simp: str_truthy_def)
  moreover have "pp_token p \<noteq> None \<or> pp_symbol p \<noteq> None \<or> str_truthy (pp_exchange p) \<and> str_truthy (pp_tradingsymbol p)"
    using validate_position_Inr(3) [OF assms] by (simp add: position_rule_errors_def split: if_splits)
  ultimately show ?thesis by (auto simp: protected_aliases_def)
qed

lemma validate_position_bounds:
  assumes "validate_position raw = Inr p"
  shows "0 < pp_quantity p" "0 < pp_entry p" "\<exists>x. x \<in> {pp_stoploss p, pp_target p, pp_trailing p} \<and> x \<noteq> None"
    "\<forall>x. Some x \<in> {pp_stoploss p, pp_target p, pp_trailing p} \<longrightarrow> 0 < x \<and> x \<le> 1000"
proof -
  note e = validate_position_Inr(2,3) [OF assms]
  show "0 < pp_quantity p" "0 < pp_entry p" using e(1) by (simp_all add: position_field_errors_def split: if_splits)
  show "\<exists>x. x \<in> {pp_stoploss p, pp_target p, pp_trailing p} \<and> x \<noteq> None"
    using e(2) by (auto simp only: position_rule_errors_def insert_iff empty_iff list.distinct split: if_splits)
  have "percent_errors ''stoploss_pct'' (pp_stoploss p) = []" "percent_errors ''target_pct'' (pp_target p) = []"
    "percent_errors ''trailing_stoploss_pct'' (pp_trailing p) = []" using e(1) by (simp_all add: position_field_errors_def)
  then show "\<forall>x. Some x \<in> {pp_stoploss p, pp_target p, pp_trailing p} \<longrightarrow> 0 < x \<and> x \<le> 1000" by (auto simp: percent_errors_Nil)
qed

lemma validated_member: "p \<in> set (concat (map validated (map f raws))) \<Longrightarrow> \<exists>raw. f raw = Inr p"
  by (auto simp: validated_def split: sum.splits)

text \<open>
  C38. A protection configuration of finite numbers that was validated is accepted again unchanged
  by every evaluation, and it is one that can act: an enabled configuration has a rule, every
  protected position names an instrument and a rule, and every percentage lies between 0 and 1000.
\<close>

theorem validated_config_revalidates:
  assumes "validate_backend_protection_payload payload = Inr c"
  shows "validate_backend_protection_payload (Some c) = Inr c \<and> (pc_enabled c \<longrightarrow> has_rules c)
    \<and> (\<forall>p \<in> set (pc_positions c). protected_aliases p \<noteq> [] \<and> 0 < pp_quantity p \<and> 0 < pp_entry p
        \<and> (\<exists>x. x \<in> {pp_stoploss p, pp_target p, pp_trailing p} \<and> x \<noteq> None)
        \<and> (\<forall>x. Some x \<in> {pp_stoploss p, pp_target p, pp_trailing p} \<longrightarrow> 0 < x \<and> x \<le> 1000))"
proof (cases payload)
  case None
  then have "c = disabled_config" using assms by (simp add: validate_backend_protection_payload_def)
  then show ?thesis by (simp add: validate_backend_protection_payload_def disabled_config_def no_operations_def operations_errors_def)
next
  case (Some raw)
  let ?ps = "concat (map validated (map validate_position (pc_positions raw)))"
  have c: "c = raw\<lparr>pc_positions := ?ps\<rparr>" and e: "concat (map error_messages (map validate_position (pc_positions raw))) = []"
    and rest: "pc_mode raw = ''exposure''" "\<not> pc_version raw < 1" "(case pc_basket raw of Some b \<Rightarrow> basket_errors b | None \<Rightarrow> []) = []"
      "operations_errors (pc_operations raw) = []" and rules: "pc_enabled c \<longrightarrow> has_rules c"
    using assms Some by (auto simp: validate_backend_protection_payload_def Let_def split: if_splits simp del: map_map concat_eq_Nil_conv)
  note again = validated_again [OF validated_positions [OF e]]
  have "validate_backend_protection_payload (Some c) = Inr c"
    using again rest rules unfolding validate_backend_protection_payload_def by (simp add: c Let_def del: map_map concat_eq_Nil_conv)
  moreover have "\<exists>raw. validate_position raw = Inr p" if "p \<in> set (pc_positions c)" for p using validated_member that by (simp add: c del: map_map)
  ultimately show ?thesis using rules validate_position_aliases validate_position_bounds by metis
qed

section \<open>Verdicts\<close>

text \<open>A leg the rules read as it is: it has a price of its own and a side.\<close>

definition settled_leg :: "open_leg \<Rightarrow> bool" where
  "settled_leg a \<longleftrightarrow> (0 < to_rat (ol_average a) \<or> 0 < to_rat (ol_entry a)) \<and> ol_side a \<in> {Some ''BUY'', Some ''SELL''}"

definition leg_of :: "protected_position \<Rightarrow> open_leg list \<Rightarrow> open_leg option" where
  "leg_of p legs = map_option ((!) legs) (first_index (protected_aliases p) legs)"

lemma supply_settled: "settled_leg a \<Longrightarrow> supply_leg p a = a"
proof -
  assume s: "settled_leg a"
  have flat: "str_upper (str_strip ''BUY'') \<noteq> ''FLAT''" "str_upper (str_strip ''SELL'') \<noteq> ''FLAT''" by code_simp+
  have "\<not> (to_rat (ol_average a) \<le> 0 \<and> to_rat (ol_entry a) \<le> 0)" using s by (auto simp: settled_leg_def)
  moreover have "str_truthy (ol_side a) \<and> str_upper (str_strip (opt_str (ol_side a))) \<noteq> ''FLAT''"
    using s flat unfolding settled_leg_def insert_iff empty_iff by (elim conjE disjE) (simp_all add: str_truthy_def opt_str_def del: One_nat_def)
  ultimately show ?thesis by (auto simp: supply_leg_def)
qed

lemma aliases_update [simp]: "leg_aliases (a\<lparr>ol_entry := x\<rparr>) = leg_aliases a" "leg_aliases (a\<lparr>ol_side := y\<rparr>) = leg_aliases a"
  by (simp_all add: leg_aliases_def)

lemma supply_aliases [simp]: "leg_aliases (supply_leg p a) = leg_aliases a"
  by (simp add: supply_leg_def Let_def)

lemma alias_index_bound: "alias_index k legs = Some i \<Longrightarrow> i < length legs"
  by (induction k legs arbitrary: i rule: alias_index.induct) (auto split: if_splits)

lemma first_index_bound: "first_index ks legs = Some i \<Longrightarrow> i < length legs"
  by (induction ks legs rule: first_index.induct) (auto split: option.splits dest: alias_index_bound)

lemma alias_index_aliases: "map leg_aliases legs = map leg_aliases legs' \<Longrightarrow> alias_index k legs = alias_index k legs'"
proof (induction k legs arbitrary: legs' rule: alias_index.induct)
  case (2 k a rest)
  then show ?case by (cases legs') auto
qed simp

lemma first_index_aliases: "map leg_aliases legs = map leg_aliases legs' \<Longrightarrow> first_index ks legs = first_index ks legs'"
proof -
  assume "map leg_aliases legs = map leg_aliases legs'"
  then have "alias_index k legs = alias_index k legs'" for k by (rule alias_index_aliases)
  then show ?thesis by (induction ks) (auto split: option.splits)
qed

lemma supply_leg_of:
  assumes "leg_of q legs = Some a" "settled_leg a"
  shows "leg_of q (legs[i := supply_leg p (legs ! i)]) = Some a"
proof -
  have "map leg_aliases (legs[i := supply_leg p (legs ! i)]) = map leg_aliases legs"
    by (cases "i < length legs") (simp_all add: map_update list_update_same_conv list_update_beyond)
  then have f: "first_index ks (legs[i := supply_leg p (legs ! i)]) = first_index ks legs" for ks by (rule first_index_aliases)
  obtain k where k: "first_index (protected_aliases q) legs = Some k" "legs ! k = a" using assms(1) by (auto simp: leg_of_def)
  have "k < length legs" using first_index_bound [OF k(1)] .
  then have "legs[i := supply_leg p (legs ! i)] ! k = a"
    using k(2) supply_settled [OF assms(2)] by (cases "i = k") (auto simp: nth_list_update)
  then show ?thesis using k(1) by (simp add: leg_of_def f)
qed

text \<open>What an unbreached position looks like, given the best percentage recorded before.\<close>

definition within_limits :: "protected_position \<Rightarrow> rat option \<Rightarrow> rat \<Rightarrow> bool" where
  "within_limits p previous pct \<longleftrightarrow>
     (\<forall>s. pp_stoploss p = Some s \<longrightarrow> - \<bar>s\<bar> < pct) \<and> (\<forall>t. pp_target p = Some t \<longrightarrow> pct < t)
     \<and> (\<forall>d b. pp_trailing p = Some d \<longrightarrow> previous = Some b \<longrightarrow> 0 < b \<longrightarrow> b - pct < d)"

definition best_track :: "(string, leg_track) dict \<Rightarrow> string \<Rightarrow> rat option" where
  "best_track tracks k = (case dict_get tracks k of Some t \<Rightarrow> lt_best t | None \<Rightarrow> None)"

lemma best_of_ge: "previous = Some b \<Longrightarrow> b \<le> best_of previous pct" "pct \<le> best_of previous pct"
  by (auto simp: best_of_def)

lemma position_rule_None:
  assumes "position_rule p pct best = None" "\<And>b. previous = Some b \<Longrightarrow> b \<le> best"
  shows "within_limits p previous pct"
proof -
  have "\<not> (case pp_stoploss p of Some s \<Rightarrow> pct \<le> - \<bar>s\<bar> | None \<Rightarrow> False)" "\<not> (case pp_target p of Some t \<Rightarrow> t \<le> pct | None \<Rightarrow> False)"
    "\<not> (case pp_trailing p of Some d \<Rightarrow> 0 < best \<and> d \<le> best - pct | None \<Rightarrow> False)"
    using assms(1) by (simp_all add: position_rule_def Let_def split: if_splits)
  then show ?thesis using assms(2) by (fastforce simp: within_limits_def)
qed

lemma within_limits_mono: "within_limits p y pct \<Longrightarrow> (\<And>b. x = Some b \<Longrightarrow> \<exists>b'. y = Some b' \<and> b \<le> b') \<Longrightarrow> within_limits p x pct"
  by (fastforce simp: within_limits_def)

text \<open>Recording a percentage never lowers the best one.\<close>

definition record_track :: "string \<Rightarrow> rat \<Rightarrow> (string, leg_track) dict \<Rightarrow> (string, leg_track) dict" where
  "record_track k pct tracks = dict_set k \<lparr>lt_best = Some (best_of (best_track tracks k) pct), lt_current = Some pct\<rparr> tracks"

lemma record_track_grows: "best_track tracks k = Some b \<Longrightarrow> \<exists>b'. best_track (record_track k' pct tracks) k = Some b' \<and> b \<le> b'"
  using best_of_ge(1) [of "best_track tracks k'" b pct] by (cases "k = k'") (auto simp: best_track_def record_track_def)

lemma check_positions_Cons:
  "check_positions (p # ps) legs tracks errors =
     (case first_index (protected_aliases p) legs of
        None \<Rightarrow> check_positions ps legs tracks (errors @ [''protected position '' @ primary_key p @ '' is not open''])
      | Some i \<Rightarrow>
          if \<not> side_matches p (supply_leg p (legs ! i))
            then check_positions ps (legs[i := supply_leg p (legs ! i)]) tracks
                   (errors @ [''protected position '' @ primary_key p @ '' side does not match open leg''])
          else (case leg_pnl_pct (supply_leg p (legs ! i)) of
              None \<Rightarrow> check_positions ps (legs[i := supply_leg p (legs ! i)]) tracks
                       (errors @ [''protected position '' @ primary_key p @ '' has no usable price''])
            | Some pct \<Rightarrow>
                (case position_rule p pct (best_of (best_track tracks (primary_key p)) pct) of
                   Some r \<Rightarrow> (Some r, legs[i := supply_leg p (legs ! i)], record_track (primary_key p) pct tracks, errors)
                 | None \<Rightarrow> check_positions ps (legs[i := supply_leg p (legs ! i)]) (record_track (primary_key p) pct tracks) errors)))"
  by (simp add: best_track_def record_track_def Let_def split: option.split)

lemmas [simp del] = check_positions.simps(2)

text \<open>A position that goes unbreached through the loop is within its limits.\<close>

lemma check_positions_None:
  assumes "check_positions ps legs tracks errors = (None, legs', tracks', errors')" "p \<in> set ps"
    and "leg_of p legs = Some a" "settled_leg a" "side_matches p a" "leg_pnl_pct a = Some pct"
  shows "within_limits p (best_track tracks (primary_key p)) pct"
  using assms(1-3)
proof (induction ps arbitrary: legs tracks errors)
  case (Cons q ps)
  show ?case
  proof (cases "p = q")
    case True
    then obtain i where i: "first_index (protected_aliases q) legs = Some i" "legs ! i = a" using Cons.prems(3) by (auto simp: leg_of_def)
    have "position_rule p pct (best_of (best_track tracks (primary_key p)) pct) = None"
      using Cons.prems(1) assms(5,6) supply_settled [OF assms(4)] i True by (simp add: check_positions_Cons split: option.splits)
    then show ?thesis by (rule position_rule_None) (rule best_of_ge)
  next
    case False
    then have p: "p \<in> set ps" using Cons.prems(2) by simp
    note later = Cons.IH [OF _ p]
    show ?thesis
    proof (cases "first_index (protected_aliases q) legs")
      case None
      then show ?thesis using later Cons.prems(1,3) by (simp add: check_positions_Cons)
    next
      case (Some i)
      note here = supply_leg_of [OF Cons.prems(3) assms(4), of i q]
      show ?thesis
        using Cons.prems(1) Some later [OF _ here] record_track_grows within_limits_mono
        by (auto simp: check_positions_Cons split: if_splits option.splits) (metis within_limits_mono record_track_grows)+
    qed
  qed
qed simp

text \<open>What the loop does to the legs: it may supply an entry price and a side, never to a settled leg.\<close>

definition supplied :: "open_leg \<Rightarrow> open_leg \<Rightarrow> bool" where
  "supplied a a' \<longleftrightarrow> (\<exists>x y. a' = a\<lparr>ol_entry := x, ol_side := y\<rparr>) \<and> (settled_leg a \<longrightarrow> a' = a)"

lemma supplied_refl: "supplied a a"
  unfolding supplied_def by (intro conjI exI [of _ "ol_entry a"] exI [of _ "ol_side a"]) simp_all

lemma supplied_trans: "supplied a b \<Longrightarrow> supplied b c \<Longrightarrow> supplied a c"
  unfolding supplied_def by (elim conjE exE) (intro conjI exI, auto)

lemma supplied_supply: "supplied a (supply_leg p a)"
proof -
  have "\<exists>x y. supply_leg p a = a\<lparr>ol_entry := x, ol_side := y\<rparr>"
    by (rule exI [of _ "ol_entry (supply_leg p a)"], rule exI [of _ "ol_side (supply_leg p a)"]) (simp add: supply_leg_def Let_def)
  then show ?thesis using supply_settled by (simp add: supplied_def)
qed

lemma supplied_list_refl: "list_all2 supplied legs legs"
  by (simp add: list_all2_refl supplied_refl)

lemma supplied_list_trans: "list_all2 supplied xs ys \<Longrightarrow> list_all2 supplied ys zs \<Longrightarrow> list_all2 supplied xs zs"
  using list_all2_trans supplied_trans by blast

lemma supplied_update: "list_all2 supplied legs (legs[i := supply_leg p (legs ! i)])"
  by (cases "i < length legs") (auto simp: list_all2_conv_all_nth nth_list_update supplied_refl supplied_supply list_update_beyond)

lemma check_positions_legs: "check_positions ps legs tracks errors = (r, legs', tracks', errors') \<Longrightarrow> list_all2 supplied legs legs'"
proof (induction ps arbitrary: legs tracks errors)
  case (Cons p ps)
  then show ?case
    using supplied_list_refl supplied_update supplied_list_trans
    by (auto simp: check_positions_Cons split: if_splits option.splits) blast+
qed (simp add: supplied_list_refl)

lemma supplied_settled: "list_all2 supplied legs legs' \<Longrightarrow> list_all settled_leg legs \<Longrightarrow> legs' = legs"
  by (induction rule: list_all2_induct) (auto simp: supplied_def)

lemma supplied_schedule:
  assumes "supplied a a'"
  shows "squareoff_due fromiso a' now (resolve_squareoff_schedule_value a' schedule) b
    = squareoff_due fromiso a now (resolve_squareoff_schedule_value a schedule) b"
proof -
  obtain x y where "a' = a\<lparr>ol_entry := x, ol_side := y\<rparr>" using assms by (auto simp: supplied_def)
  then show ?thesis by (simp add: squareoff_due_def resolve_squareoff_schedule_value_def schedule_keys_def)
qed

lemma check_squareoff_None:
  assumes "list_all2 supplied legs legs'" "check_squareoff fromiso now schedule b legs' = Inr None"
  shows "\<forall>a \<in> set legs. squareoff_due fromiso a now (resolve_squareoff_schedule_value a schedule) b = Inr False"
  using assms
proof (induction rule: list_all2_induct)
  case (Cons a legs a' legs')
  then show ?case using supplied_schedule [OF Cons.hyps(1)] by (auto split: sum.splits bool.splits)
qed simp

definition basket_within :: "basket_protection \<Rightarrow> rat option \<Rightarrow> rat \<Rightarrow> bool" where
  "basket_within b previous pct \<longleftrightarrow>
     (\<forall>s. bk_stoploss b = Some s \<longrightarrow> - \<bar>s\<bar> < pct) \<and> (\<forall>t. bk_target b = Some t \<longrightarrow> pct < t)
     \<and> (\<forall>act d peak. bk_activate b = Some act \<longrightarrow> bk_drawdown b = Some d \<longrightarrow> previous = Some peak \<longrightarrow> act \<le> peak \<longrightarrow> peak - pct < d)"

lemma basket_rule_None: "basket_rule b pct (best_of previous pct) = None \<Longrightarrow> basket_within b previous pct"
proof -
  assume n: "basket_rule b pct (best_of previous pct) = None"
  then have s: "\<not> (case bk_stoploss b of Some s \<Rightarrow> pct \<le> - \<bar>s\<bar> | None \<Rightarrow> False)" and t: "\<not> (case bk_target b of Some t \<Rightarrow> t \<le> pct | None \<Rightarrow> False)"
    and d: "\<not> (case (bk_activate b, bk_drawdown b) of (Some act, Some d) \<Rightarrow> act \<le> best_of previous pct \<and> d \<le> best_of previous pct - pct | _ \<Rightarrow> False)"
    by (simp_all add: basket_rule_def Let_def split: if_splits)
  have "peak - pct < dd" if "bk_activate b = Some act" "bk_drawdown b = Some dd" "previous = Some peak" "act \<le> peak" for act dd peak
    using d that best_of_ge(1) [of previous peak pct] by auto
  then show ?thesis using s t by (auto simp: basket_within_def)
qed

lemma trigger_status [simp]: "bs_status (trigger rule now d g v l b best es) = Some ''triggered''" "bs_rule (trigger rule now d g v l b best es) = Some rule"
  "bs_details (trigger rule now d g v l b best es) = Some d"
  by (simp_all add: trigger_def)

lemma finish_active:
  assumes "finish_evaluation fromiso c state g v legs tracks errors age now schedule = Inr verdict" "bs_status verdict = Some ''active''"
  shows "\<not> worker_is_stale (pc_operations c) age" "ox_buffer_sec (pc_operations c) = Some b \<Longrightarrow> check_squareoff fromiso now schedule b legs = Inr None"
    "bs_basket verdict = Some (basket_pct legs)" "pc_basket c = Some k \<Longrightarrow> basket_rule k (basket_pct legs) (best_of (bs_best_basket state) (basket_pct legs)) = None"
  using assms by (auto simp: finish_evaluation_def Let_def split: if_splits sum.splits option.splits)

lemma evaluate_cases:
  assumes "evaluate_backend_protection fromiso c state positions age now schedule = Inr verdict" "\<not> bs_exit_submitted state" "bs_status verdict \<noteq> Some ''disabled''"
  obtains rule d legs tracks errors where "check_positions (pc_positions c) (map normalize_leg positions) (bs_legs state) [] = (Some (rule, d), legs, tracks, errors)"
      "verdict = trigger rule now d (bs_generation state) (or_else (bs_version state) (Some (pc_version c))) tracks None None errors"
  | legs tracks errors where "check_positions (pc_positions c) (map normalize_leg positions) (bs_legs state) [] = (None, legs, tracks, errors)"
      "finish_evaluation fromiso c state (bs_generation state) (or_else (bs_version state) (Some (pc_version c))) legs tracks errors age now schedule = Inr verdict"
  using assms by (auto simp: evaluate_backend_protection_def Let_def split: if_splits prod.splits option.splits)

text \<open>
  C9. An active verdict means that no rule is breached by what the code measures: every protected
  position whose leg carries its own entry price and side, matches its side and has a usable
  price is within its stop, target and trailing limits, also measured against the best percentage
  recorded before; the worker is not stale; no leg is due for square-off; and, when all legs carry
  their own entry price and side, the basket percentage is within the basket's limits. The basket
  percentage is the one of the code, in which a leg without a usable price adds to the cost and
  not to the profit.
\<close>

theorem active_verdict_is_safe:
  assumes "evaluate_backend_protection fromiso c state positions age now schedule = Inr verdict"
    and "bs_status verdict = Some ''active''" "\<not> bs_exit_submitted state"
  shows "(\<forall>p a pct. p \<in> set (pc_positions c) \<longrightarrow> leg_of p (map normalize_leg positions) = Some a \<longrightarrow> settled_leg a \<longrightarrow> side_matches p a
        \<longrightarrow> leg_pnl_pct a = Some pct \<longrightarrow> within_limits p (best_track (bs_legs state) (primary_key p)) pct)
    \<and> \<not> worker_is_stale (pc_operations c) age
    \<and> (\<forall>b. ox_buffer_sec (pc_operations c) = Some b \<longrightarrow> (\<forall>a \<in> set (map normalize_leg positions).
        squareoff_due fromiso a now (resolve_squareoff_schedule_value a schedule) b = Inr False))
    \<and> (list_all settled_leg (map normalize_leg positions) \<longrightarrow> bs_basket verdict = Some (basket_pct (map normalize_leg positions))
        \<and> (\<forall>b. pc_basket c = Some b \<longrightarrow> basket_within b (bs_best_basket state) (basket_pct (map normalize_leg positions))))"
proof -
  obtain legs tracks errors where ch: "check_positions (pc_positions c) (map normalize_leg positions) (bs_legs state) [] = (None, legs, tracks, errors)"
    and f: "finish_evaluation fromiso c state (bs_generation state) (or_else (bs_version state) (Some (pc_version c))) legs tracks errors age now schedule = Inr verdict"
  proof (rule evaluate_cases [OF assms(1,3)])
    show "bs_status verdict \<noteq> Some ''disabled''" using assms(2) by simp
  next
    fix rule d tracks errors assume "verdict = trigger rule now d (bs_generation state) (or_else (bs_version state) (Some (pc_version c))) tracks None None errors"
    then show thesis using assms(2) by simp
  qed
  note active = finish_active [OF f assms(2)] and legs = check_positions_legs [OF ch]
  have "\<forall>a \<in> set (map normalize_leg positions). squareoff_due fromiso a now (resolve_squareoff_schedule_value a schedule) b = Inr False"
    if "ox_buffer_sec (pc_operations c) = Some b" for b
    by (rule check_squareoff_None [OF legs active(2) [OF that]])
  moreover have "bs_basket verdict = Some (basket_pct (map normalize_leg positions))
      \<and> (\<forall>b. pc_basket c = Some b \<longrightarrow> basket_within b (bs_best_basket state) (basket_pct (map normalize_leg positions)))"
    if "list_all settled_leg (map normalize_leg positions)"
    using active(3) basket_rule_None [OF active(4)] unfolding supplied_settled [OF legs that] by blast
  ultimately show ?thesis using check_positions_None [OF ch] active(1) by blast
qed

text \<open>The rules as conditions on the percentages they report.\<close>

definition breach_of :: "protected_position \<Rightarrow> string \<Rightarrow> rat \<Rightarrow> rat \<Rightarrow> bool" where
  "breach_of p rule pct best \<longleftrightarrow>
     rule = ''position_stoploss'' \<and> (\<exists>s. pp_stoploss p = Some s \<and> pct \<le> - \<bar>s\<bar>)
     \<or> rule = ''position_target'' \<and> (\<exists>t. pp_target p = Some t \<and> t \<le> pct)
     \<or> rule = ''position_trailing_stoploss'' \<and> (\<exists>d. pp_trailing p = Some d \<and> 0 < best \<and> d \<le> best - pct)"

definition basket_breach_of :: "basket_protection \<Rightarrow> string \<Rightarrow> rat \<Rightarrow> rat \<Rightarrow> bool" where
  "basket_breach_of b rule pct best \<longleftrightarrow>
     rule = ''basket_stoploss'' \<and> (\<exists>s. bk_stoploss b = Some s \<and> pct \<le> - \<bar>s\<bar>)
     \<or> rule = ''basket_target'' \<and> (\<exists>t. bk_target b = Some t \<and> t \<le> pct)
     \<or> rule = ''basket_trailing_drawdown'' \<and> (\<exists>act d. bk_activate b = Some act \<and> bk_drawdown b = Some d \<and> act \<le> best \<and> d \<le> best - pct)"

lemma position_rule_Some:
  assumes "position_rule p pct best = Some (rule, d)"
  shows "td_key d = Some (primary_key p)" "td_pnl d = Some pct" "breach_of p rule pct best" "rule = ''position_trailing_stoploss'' \<Longrightarrow> td_best d = Some best"
  using assms by (auto simp: position_rule_def breach_of_def Let_def split: if_splits option.splits)

lemma basket_rule_Some: "basket_rule b pct best = Some (rule, d) \<Longrightarrow> td_pnl d = Some pct \<and> basket_breach_of b rule pct best"
  by (auto simp: basket_rule_def basket_breach_of_def Let_def split: if_splits option.splits)

lemma leg_of_update:
  assumes "leg_of p (legs[i := supply_leg q (legs ! i)]) = Some a'"
  shows "\<exists>a. leg_of p legs = Some a \<and> (a' = a \<or> a' = supply_leg q a)"
proof -
  let ?legs = "legs[i := supply_leg q (legs ! i)]"
  have "map leg_aliases ?legs = map leg_aliases legs"
    by (cases "i < length legs") (simp_all add: map_update list_update_same_conv list_update_beyond)
  then have f: "first_index ks ?legs = first_index ks legs" for ks by (rule first_index_aliases)
  obtain k where k: "first_index (protected_aliases p) legs = Some k" "?legs ! k = a'" using assms by (auto simp: leg_of_def f)
  have "k < length legs" using first_index_bound [OF k(1)] .
  then show ?thesis using k by (cases "i = k") (auto simp: leg_of_def nth_list_update)
qed

text \<open>
  The percentage of a protected position: that of its leg, with the entry price and the side
  which the positions that name the leg supply where it has none.
\<close>

definition measured :: "protected_position list \<Rightarrow> protected_position \<Rightarrow> open_leg \<Rightarrow> rat \<Rightarrow> bool" where
  "measured ps p a pct \<longleftrightarrow> (\<exists>qs. set qs \<subseteq> set ps \<and> leg_pnl_pct (supply_leg p (fold supply_leg qs a)) = Some pct)"

lemma fold_supply_settled: "settled_leg a \<Longrightarrow> fold supply_leg qs a = a"
  by (induction qs) (simp_all add: supply_settled)

lemma measured_settled: "measured ps p a pct \<Longrightarrow> settled_leg a \<Longrightarrow> leg_pnl_pct a = Some pct"
  by (auto simp: measured_def fold_supply_settled supply_settled)

lemma measured_Cons: "measured ps p a' pct \<Longrightarrow> a' = a \<or> a' = supply_leg q a \<Longrightarrow> measured (q # ps) p a pct"
  unfolding measured_def
proof (elim exE conjE disjE)
  fix qs assume q: "set qs \<subseteq> set ps" "leg_pnl_pct (supply_leg p (fold supply_leg qs a')) = Some pct"
  show "\<exists>qs. set qs \<subseteq> set (q # ps) \<and> leg_pnl_pct (supply_leg p (fold supply_leg qs a)) = Some pct" if "a' = a"
    using q that by (intro exI [of _ qs]) auto
  show "\<exists>qs. set qs \<subseteq> set (q # ps) \<and> leg_pnl_pct (supply_leg p (fold supply_leg qs a)) = Some pct" if "a' = supply_leg q a"
    using q that by (intro exI [of _ "q # qs"]) auto
qed

text \<open>
  The best percentage a rule compares with: it is recorded with the verdict, is not below the
  current one nor the one recorded before, and is the greater of these two where no two protected
  positions share a key.
\<close>

definition best_seen :: "protected_position list \<Rightarrow> string \<Rightarrow> rat option \<Rightarrow> rat \<Rightarrow> rat \<Rightarrow> bool" where
  "best_seen ps k previous pct best \<longleftrightarrow> pct \<le> best \<and> (\<forall>b. previous = Some b \<longrightarrow> b \<le> best)
     \<and> (distinct (map primary_key ps) \<longrightarrow> best = best_of previous pct)"

lemma best_seen_here: "best_seen ps k previous pct (best_of previous pct)"
  by (simp add: best_seen_def best_of_ge)

lemma best_seen_later:
  assumes "best_seen ps k (best_track tracks' k) pct best" "k \<in> primary_key ` set ps"
    and "tracks' = tracks \<or> tracks' = record_track (primary_key q) x tracks"
  shows "best_seen (q # ps) k (best_track tracks k) pct best"
proof -
  have g: "\<exists>b'. best_track tracks' k = Some b' \<and> b \<le> b'" if "best_track tracks k = Some b" for b
    using assms(3) that record_track_grows by blast
  have k: "best_track tracks' k = best_track tracks k" if "k \<noteq> primary_key q"
    using assms(3) that by (auto simp: best_track_def record_track_def)
  show ?thesis
    unfolding best_seen_def
  proof (intro conjI allI impI)
    show "pct \<le> best" using assms(1) by (simp add: best_seen_def)
    show "b \<le> best" if "best_track tracks k = Some b" for b using g [OF that] assms(1) by (auto simp: best_seen_def)
    show "best = best_of (best_track tracks k) pct" if "distinct (map primary_key (q # ps))"
    proof -
      have "k \<noteq> primary_key q" "distinct (map primary_key ps)" using that assms(2) by (simp_all, blast)
      then show ?thesis using assms(1) k by (simp add: best_seen_def)
    qed
  qed
qed

lemma check_positions_Some:
  assumes "check_positions ps legs tracks errors = (Some (rule, d), legs', tracks', errors')"
  shows "\<exists>p \<in> set ps. \<exists>a pct best. leg_of p legs = Some a \<and> measured ps p a pct
    \<and> best_seen ps (primary_key p) (best_track tracks (primary_key p)) pct best \<and> best_track tracks' (primary_key p) = Some best
    \<and> td_key d = Some (primary_key p) \<and> td_pnl d = Some pct \<and> breach_of p rule pct best"
  using assms
proof (induction ps arbitrary: legs tracks errors)
  case (Cons q ps)
  show ?case
  proof (cases "first_index (protected_aliases q) legs")
    case None
    then have "check_positions ps legs tracks (errors @ [''protected position '' @ primary_key q @ '' is not open'']) = (Some (rule, d), legs', tracks', errors')"
      using Cons.prems by (simp add: check_positions_Cons)
    from Cons.IH [OF this] show ?thesis using measured_Cons best_seen_later by (metis imageI list.set_intros(2))
  next
    case (Some i)
    let ?legs = "legs[i := supply_leg q (legs ! i)]"
    have later: ?thesis
      if asm: "check_positions ps ?legs tr es = (Some (rule, d), legs', tracks', errors')" "tr = tracks \<or> tr = record_track (primary_key q) x tracks" for tr es x
    proof -
      obtain p a' pct best where p: "p \<in> set ps" "leg_of p ?legs = Some a'" "measured ps p a' pct"
        "best_seen ps (primary_key p) (best_track tr (primary_key p)) pct best" "best_track tracks' (primary_key p) = Some best"
        "td_key d = Some (primary_key p)" "td_pnl d = Some pct" "breach_of p rule pct best"
        using Cons.IH [OF asm(1)] by blast
      obtain a where a: "leg_of p legs = Some a" "a' = a \<or> a' = supply_leg q a" using leg_of_update [OF p(2)] by blast
      show ?thesis
        using p(1,5-8) a(1) measured_Cons [OF p(3) a(2)] best_seen_later [OF p(4) _ asm(2)] by (intro bexI [of _ p] exI [of _ a]) auto
    qed
    have here: ?thesis
      if "leg_pnl_pct (supply_leg q (legs ! i)) = Some pct" "position_rule q pct (best_of (best_track tracks (primary_key q)) pct) = Some (rule, d)"
        "tracks' = record_track (primary_key q) pct tracks" for pct
    proof -
      have "leg_of q legs = Some (legs ! i)" using Some by (simp add: leg_of_def)
      moreover have "measured (q # ps) q (legs ! i) pct" using that(1) unfolding measured_def by (intro exI [of _ "[]"]) simp
      moreover have "best_track tracks' (primary_key q) = Some (best_of (best_track tracks (primary_key q)) pct)"
        by (simp add: that(3) best_track_def record_track_def)
      ultimately show ?thesis using position_rule_Some(1-3) [OF that(2)] best_seen_here by (intro bexI [of _ q]) auto
    qed
    show ?thesis
    proof (cases "leg_pnl_pct (supply_leg q (legs ! i))")
      case None
      then show ?thesis using Cons.prems Some later [of tracks] by (auto simp: check_positions_Cons simp del: fun_upd_apply split: if_splits)
    next
      case pct: (Some pct)
      show ?thesis
      proof (cases "side_matches q (supply_leg q (legs ! i))")
        case False
        then show ?thesis using Cons.prems Some later [of tracks] by (simp add: check_positions_Cons)
      next
        case True
        show ?thesis
        proof (cases "position_rule q pct (best_of (best_track tracks (primary_key q)) pct)")
          case None
          then show ?thesis using Cons.prems Some pct True later [of "record_track (primary_key q) pct tracks" errors pct] by (simp add: check_positions_Cons)
        next
          case (Some rd)
          then show ?thesis using Cons.prems \<open>first_index (protected_aliases q) legs = Some i\<close> pct True here [OF pct] by (simp add: check_positions_Cons)
        qed
      qed
    qed
  qed
qed simp

lemma check_squareoff_Some:
  "check_squareoff fromiso now schedule b legs = Inr (Some a) \<Longrightarrow> a \<in> set legs \<and> squareoff_due fromiso a now (resolve_squareoff_schedule_value a schedule) b = Inr True"
  by (induction fromiso now schedule b legs rule: check_squareoff.induct) (auto split: sum.splits bool.splits)

lemma supplied_due:
  assumes "list_all2 supplied legs legs'" "a' \<in> set legs'" "squareoff_due fromiso a' now (resolve_squareoff_schedule_value a' schedule) b = Inr True"
  shows "\<exists>a \<in> set legs. squareoff_due fromiso a now (resolve_squareoff_schedule_value a schedule) b = Inr True"
  using assms supplied_schedule by (fastforce simp: list_all2_conv_all_nth in_set_conv_nth)

lemma finish_triggered:
  assumes "finish_evaluation fromiso c state g v legs tracks errors age now schedule = Inr verdict" "bs_status verdict = Some ''triggered''"
  defines "best \<equiv> best_of (bs_best_basket state) (basket_pct legs)"
  shows "(\<exists>d. worker_is_stale (pc_operations c) age \<and> bs_rule verdict = Some ''worker_stale'' \<and> bs_details verdict = Some d \<and> td_heartbeat_age d = age)
    \<or> (\<exists>b a d. ox_buffer_sec (pc_operations c) = Some b \<and> check_squareoff fromiso now schedule b legs = Inr (Some a)
        \<and> bs_rule verdict = Some ''mis_squareoff_buffer'' \<and> bs_details verdict = Some d)
    \<or> (\<exists>b rule d. pc_basket c = Some b \<and> basket_rule b (basket_pct legs) best = Some (rule, d) \<and> bs_rule verdict = Some rule
        \<and> bs_details verdict = Some d \<and> bs_basket verdict = Some (basket_pct legs) \<and> bs_best_basket verdict = Some best)"
proof (cases "worker_is_stale (pc_operations c) age")
  case True
  then show ?thesis using assms(1) by (auto simp: finish_evaluation_def trigger_def Let_def)
next
  case False
  define due where "due = (case ox_buffer_sec (pc_operations c) of Some b \<Rightarrow> check_squareoff fromiso now schedule b legs | None \<Rightarrow> Inr None)"
  show ?thesis
  proof (cases "due = Inr None")
    case True
    then show ?thesis
      using assms(1,2) False unfolding finish_evaluation_def Let_def due_def [symmetric] best_def
      by (cases "pc_basket c") (auto simp: trigger_def split: option.splits)
  next
    case other: False
    then obtain b a where a: "due = Inr (Some a)" "ox_buffer_sec (pc_operations c) = Some b"
      using assms(1) False unfolding finish_evaluation_def Let_def due_def [symmetric]
      by (cases due; cases "ox_buffer_sec (pc_operations c)") (auto simp: due_def split: option.splits)
    then have "check_squareoff fromiso now schedule b legs = Inr (Some a)" by (simp add: due_def)
    moreover have "bs_rule verdict = Some ''mis_squareoff_buffer'' \<and> bs_details verdict \<noteq> None"
      using assms(1) False a(1) unfolding finish_evaluation_def Let_def due_def [symmetric] by (auto simp: trigger_def)
    ultimately show ?thesis using a(2) by blast
  qed
qed

text \<open>
  C16. A triggered verdict names a rule that is breached, in terms of what was observed: a
  protected position whose percentage, the one reported and measured on its leg, is beyond the
  limit the rule names, for a trailing stop against the best percentage seen, which is the
  recorded one where keys are distinct; a worker whose reported heartbeat is older than allowed;
  an intraday leg due for square-off; or the percentage of the basket of these legs beyond its
  limits, for a drawdown against the greater of it and the recorded best.
\<close>

theorem trigger_names_breached_rule:
  assumes "evaluate_backend_protection fromiso c state positions age now schedule = Inr verdict"
    and "bs_status verdict = Some ''triggered''" "\<not> bs_exit_submitted state"
  shows "\<exists>rule d. bs_rule verdict = Some rule \<and> bs_details verdict = Some d \<and>
    ((\<exists>p \<in> set (pc_positions c). \<exists>a pct best. leg_of p (map normalize_leg positions) = Some a \<and> measured (pc_positions c) p a pct
        \<and> (settled_leg a \<longrightarrow> leg_pnl_pct a = Some pct)
        \<and> best_seen (pc_positions c) (primary_key p) (best_track (bs_legs state) (primary_key p)) pct best
        \<and> best_track (bs_legs verdict) (primary_key p) = Some best
        \<and> td_key d = Some (primary_key p) \<and> td_pnl d = Some pct \<and> breach_of p rule pct best)
     \<or> rule = ''worker_stale'' \<and> worker_is_stale (pc_operations c) age \<and> td_heartbeat_age d = age
     \<or> rule = ''mis_squareoff_buffer'' \<and> (\<exists>b. ox_buffer_sec (pc_operations c) = Some b \<and> (\<exists>a \<in> set (map normalize_leg positions).
          squareoff_due fromiso a now (resolve_squareoff_schedule_value a schedule) b = Inr True))
     \<or> (\<exists>b legs. pc_basket c = Some b \<and> list_all2 supplied (map normalize_leg positions) legs \<and> td_pnl d = Some (basket_pct legs)
          \<and> bs_basket verdict = Some (basket_pct legs) \<and> bs_best_basket verdict = Some (best_of (bs_best_basket state) (basket_pct legs))
          \<and> basket_breach_of b rule (basket_pct legs) (best_of (bs_best_basket state) (basket_pct legs))))"
proof (rule evaluate_cases [OF assms(1,3)])
  show "bs_status verdict \<noteq> Some ''disabled''" using assms(2) by simp
next
  fix rule d legs tracks errors
  assume ch: "check_positions (pc_positions c) (map normalize_leg positions) (bs_legs state) [] = (Some (rule, d), legs, tracks, errors)"
    and v: "verdict = trigger rule now d (bs_generation state) (or_else (bs_version state) (Some (pc_version c))) tracks None None errors"
  have "bs_legs verdict = tracks" by (simp add: v trigger_def)
  then show ?thesis using check_positions_Some [OF ch] measured_settled v
    by (intro exI [of _ rule] exI [of _ d]) (simp only: trigger_status, blast)
next
  fix legs tracks errors
  assume ch: "check_positions (pc_positions c) (map normalize_leg positions) (bs_legs state) [] = (None, legs, tracks, errors)"
    and f: "finish_evaluation fromiso c state (bs_generation state) (or_else (bs_version state) (Some (pc_version c))) legs tracks errors age now schedule = Inr verdict"
  note legs = check_positions_legs [OF ch]
  let ?best = "best_of (bs_best_basket state) (basket_pct legs)"
  consider d where "worker_is_stale (pc_operations c) age" "bs_rule verdict = Some ''worker_stale''" "bs_details verdict = Some d" "td_heartbeat_age d = age"
    | b a d where "ox_buffer_sec (pc_operations c) = Some b" "check_squareoff fromiso now schedule b legs = Inr (Some a)"
        "bs_rule verdict = Some ''mis_squareoff_buffer''" "bs_details verdict = Some d"
    | b rule d where "pc_basket c = Some b" "basket_rule b (basket_pct legs) ?best = Some (rule, d)" "bs_rule verdict = Some rule"
        "bs_details verdict = Some d" "bs_basket verdict = Some (basket_pct legs)" "bs_best_basket verdict = Some ?best"
    using finish_triggered [OF f assms(2)] by blast
  then show ?thesis
  proof cases
    case (1 d)
    then show ?thesis by blast
  next
    case (2 b a d)
    have due: "\<exists>a \<in> set (map normalize_leg positions). squareoff_due fromiso a now (resolve_squareoff_schedule_value a schedule) b = Inr True"
      using check_squareoff_Some [OF 2(2)] supplied_due [OF legs] by blast
    show ?thesis
      by (rule exI [of _ "''mis_squareoff_buffer''"], rule exI [of _ d], intro conjI 2(3,4), rule disjI2, rule disjI2, rule disjI1)
        (intro conjI refl exI [of _ b] 2(1) due)
  next
    case (3 b rule d)
    then show ?thesis using basket_rule_Some [OF 3(2)] legs
      by (intro exI [of _ rule] exI [of _ d] conjI, simp_all only: simp_thms, intro disjI2 exI [of _ b] exI [of _ legs] conjI) simp_all
  qed
qed

section \<open>The basket percentage\<close>

text \<open>A leg with a usable price whose side agrees with the sign of its quantity.\<close>

definition priced_leg :: "open_leg \<Rightarrow> bool" where
  "priced_leg a \<longleftrightarrow> (let net = int_or (ol_net a) (ol_quantity a) in
     net \<noteq> 0 \<and> 0 < rat_or (ol_average a) (ol_entry a) \<and> 0 < to_rat (ol_last a)
     \<and> normalize_actual_side (ol_side a) net = (if net > 0 then ''BUY'' else ''SELL''))"

lemma priced_value:
  assumes "priced_leg a"
  shows "leg_value a = of_int (int_or (ol_net a) (ol_quantity a)) * (to_rat (ol_last a) - rat_or (ol_average a) (ol_entry a))" "0 < leg_basis a"
proof -
  let ?net = "int_or (ol_net a) (ol_quantity a)" and ?avg = "rat_or (ol_average a) (ol_entry a)"
  have p: "?net \<noteq> 0" "0 < ?avg" "0 < to_rat (ol_last a)" "normalize_actual_side (ol_side a) ?net = (if ?net > 0 then ''BUY'' else ''SELL'')"
    using assms by (auto simp: priced_leg_def Let_def)
  then show "leg_value a = of_int ?net * (to_rat (ol_last a) - ?avg)"
    by (cases "?net > 0") (auto simp: leg_value_def leg_pnl_pct_def leg_basis_def Let_def field_simps)
  show "0 < leg_basis a" using p by (simp add: leg_basis_def)
qed

lemma priced_sum_pos: "list_all priced_leg legs \<Longrightarrow> 0 \<le> sum_list (map leg_basis legs) \<and> (legs \<noteq> [] \<longrightarrow> 0 < sum_list (map leg_basis legs))"
  using priced_value(2) by (induction legs) (auto intro: add_pos_nonneg less_imp_le)

text \<open>
  The basket percentage is the money gained over the money invested: over priced legs it is the
  sum of quantity times price change, divided by the sum of absolute quantity times average
  price, in percent.
\<close>

theorem basket_pct_is_profit_over_cost:
  assumes "list_all priced_leg legs" "legs \<noteq> []"
  shows "basket_pct legs =
    100 * (\<Sum>a\<leftarrow>legs. of_int (int_or (ol_net a) (ol_quantity a)) * (to_rat (ol_last a) - rat_or (ol_average a) (ol_entry a)))
      / (\<Sum>a\<leftarrow>legs. of_int \<bar>int_or (ol_net a) (ol_quantity a)\<bar> * rat_or (ol_average a) (ol_entry a))"
proof -
  have "0 < sum_list (map leg_basis legs)" using priced_sum_pos assms by blast
  moreover have "map leg_value legs = map (\<lambda>a. of_int (int_or (ol_net a) (ol_quantity a)) * (to_rat (ol_last a) - rat_or (ol_average a) (ol_entry a))) legs"
    using assms(1) priced_value(1) by (simp add: list_all_iff)
  moreover have "map leg_basis legs = map (\<lambda>a. of_int \<bar>int_or (ol_net a) (ol_quantity a)\<bar> * rat_or (ol_average a) (ol_entry a)) legs"
    by (simp add: leg_basis_def)
  ultimately show ?thesis unfolding basket_pct_def Let_def by (simp only: if_True) (simp add: mult.commute)
qed

section \<open>An example\<close>

definition demo_position :: protected_position where
  "demo_position = \<lparr>pp_symbol = Some '' nse:sbin '', pp_token = None, pp_exchange = None, pp_tradingsymbol = None, pp_product = ''mis'',
     pp_side = ''buy'', pp_quantity = 10, pp_entry = 100, pp_stoploss = Some 2, pp_target = None, pp_trailing = Some 1\<rparr>"

definition demo_payload :: protection_config where
  "demo_payload = \<lparr>pc_enabled = True, pc_mode = ''exposure'', pc_version = 1, pc_positions = [demo_position], pc_basket = None,
     pc_operations = no_operations\<rparr>"

definition demo_config :: protection_config where
  "demo_config = demo_payload\<lparr>pc_positions := [normalize_position demo_position]\<rparr>"

definition demo_leg :: "rat \<Rightarrow> open_leg" where
  "demo_leg price = \<lparr>ol_symbol = Some ''NSE:SBIN'', ol_token = None, ol_exchange = None, ol_tradingsymbol = None, ol_product = Some ''MIS'',
     ol_side = Some ''BUY'', ol_net = Some 10, ol_quantity = Some 10, ol_average = Some 100, ol_entry = None, ol_last = Some price\<rparr>"

definition demo_verdict :: "rat \<Rightarrow> string + protection_state" where
  "demo_verdict price = evaluate_backend_protection (\<lambda>_. None) demo_config blank_state [demo_leg price] None 1000 []"

lemma demo_validates: "validate_backend_protection_payload (Some demo_payload) = Inr demo_config"
  by code_simp

lemma demo_leg_normalized: "normalize_leg (demo_leg price) = demo_leg price"
  by (rule open_leg.equality) code_simp+

theorem validated_config_revalidates_witness: "validate_backend_protection_payload (Some demo_config) = Inr demo_config \<and> has_rules demo_config"
proof -
  have "pc_enabled demo_config" by code_simp
  then show ?thesis using validated_config_revalidates [OF demo_validates] by blast
qed

theorem active_verdict_is_safe_witness: "within_limits (normalize_position demo_position) None 1"
proof -
  have "(case demo_verdict 101 of Inr v \<Rightarrow> bs_status v = Some ''active'' | Inl _ \<Rightarrow> False)" by code_simp
  then obtain v where v: "demo_verdict 101 = Inr v" "bs_status v = Some ''active''" by (auto split: sum.splits)
  have s: "\<not> bs_exit_submitted blank_state" "bs_legs blank_state = []" by (simp_all add: blank_state_def)
  have l: "leg_of (normalize_position demo_position) [demo_leg 101] = Some (demo_leg 101)" "settled_leg (demo_leg 101)"
    "leg_pnl_pct (demo_leg 101) = Some 1" "side_matches (normalize_position demo_position) (demo_leg 101)"
    "normalize_position demo_position \<in> set (pc_positions demo_config)" by code_simp+
  show ?thesis using active_verdict_is_safe [OF v(1) [unfolded demo_verdict_def] v(2) s(1)] l s(2)
    by (simp add: demo_leg_normalized best_track_def)
qed

theorem trigger_names_breached_rule_witness:
  "(case demo_verdict 97 of Inr v \<Rightarrow> bs_rule v = Some ''position_stoploss'' | Inl _ \<Rightarrow> False)
    \<and> (\<exists>a pct. leg_of (normalize_position demo_position) [demo_leg 97] = Some a \<and> measured [normalize_position demo_position] (normalize_position demo_position) a pct
        \<and> breach_of (normalize_position demo_position) ''position_stoploss'' pct (best_of None pct))"
proof -
  have x: "(case demo_verdict 97 of Inr v \<Rightarrow> bs_status v = Some ''triggered'' \<and> bs_rule v = Some ''position_stoploss'' | Inl _ \<Rightarrow> False)" by code_simp
  then obtain v where v: "demo_verdict 97 = Inr v" "bs_status v = Some ''triggered''" "bs_rule v = Some ''position_stoploss''" by (auto split: sum.splits)
  have s: "\<not> bs_exit_submitted blank_state" by (simp add: blank_state_def)
  have c: "pc_positions demo_config = [normalize_position demo_position]" "pc_basket demo_config = None" by (simp_all add: demo_config_def demo_payload_def)
  have t: "best_track (bs_legs blank_state) k = None" for k by (simp add: blank_state_def best_track_def)
  have "\<exists>a pct. leg_of (normalize_position demo_position) (map normalize_leg [demo_leg 97]) = Some a \<and> measured [normalize_position demo_position] (normalize_position demo_position) a pct
      \<and> breach_of (normalize_position demo_position) ''position_stoploss'' pct (best_of None pct)"
    using trigger_names_breached_rule [OF v(1) [unfolded demo_verdict_def] v(2) s] c v(3) by (auto simp: t best_seen_def)
  then show ?thesis using v by (simp add: demo_leg_normalized)
qed

theorem basket_pct_is_profit_over_cost_witness: "basket_pct [demo_leg 103, demo_leg 104] = 100 * (10 * 3 + 10 * 4) / (10 * 100 + 10 * 100)"
proof -
  have p: "list_all priced_leg [demo_leg 103, demo_leg 104]" by code_simp
  show ?thesis using basket_pct_is_profit_over_cost [OF p] by (simp add: demo_leg_def int_or_def rat_or_def to_rat_def)
qed

text \<open>
  A leg without a price counts in the cost of the basket and not in its profit: a basket at minus
  ten percent that could not price one of two equal legs reads as minus five.
\<close>

lemma unpriced_leg_dilutes_basket:
  "basket_pct [demo_leg 90] = -10" "basket_pct [demo_leg 90, (demo_leg 90)\<lparr>ol_last := None\<rparr>] = -5"
  by code_simp+

end
