(* ===== verification/RuntimeRecovery.thy ===== *)
theory RuntimeRecovery
  imports ProtectionRuntime
begin

text \<open>
  The recovery of worker runs whose worker went away or whose exit is under way
  (\<open>api/services/runtime_recovery.py\<close>), over the run rows of \<open>ProtectionRuntime\<close>.

  The sweeps read their rows at once and write each of them back later; the calls a sweep awaits
  (a paper exit, the broker's positions) are functions on the world, so that the world may change
  while they run. A row has a protection state exactly when it has a configuration. The reads and
  writes of rows are those of \<open>WorkerStore\<close>, seen through the columns of a protected run.
\<close>

section \<open>Reads and writes of the run rows\<close>

definition stale_owned :: "protected_run \<Rightarrow> bool" where
  "stale_owned r = (case pr_config r of Some c \<Rightarrow> pc_enabled c \<and> ox_exit_on_stale (pc_operations c) | None \<Rightarrow> False)"

definition stale_recovery_rows :: "int \<Rightarrow> int \<Rightarrow> instant \<Rightarrow> protection_world \<Rightarrow> (string \<times> protected_run) list" where
  "stale_recovery_rows stale_seconds claimed_seconds now w =
     filter (\<lambda>(rid, r). pr_status r \<in> {''open'', ''paused''} \<and> \<not> (pr_nonce r = None \<and> pr_heartbeat r = None) \<and> \<not> stale_owned r
       \<and> (case pr_heartbeat r of
            Some t \<Rightarrow> t < now - seconds (max 1 stale_seconds)
          | None \<Rightarrow> (case pr_session r of Some t \<Rightarrow> t < now - seconds (max 1 claimed_seconds) | None \<Rightarrow> False))) (pw_runs w)"

definition exiting_recovery_rows :: "protection_world \<Rightarrow> (string \<times> protected_run) list" where
  "exiting_recovery_rows w = filter (\<lambda>(rid, r). pr_status r = ''exiting'') (pw_runs w)"

text \<open>The patch is the runtime state of the row that was read, with the note of the recovery.\<close>

definition runtime_recovery_patch :: "protected_run \<Rightarrow> string \<Rightarrow> bool \<Rightarrow> string \<Rightarrow> jobj \<Rightarrow> instant \<Rightarrow> protected_run" where
  "runtime_recovery_patch run status action_required reason details now =
     run\<lparr>pr_recovery := Some \<lparr>rn_status = status, rn_action_required = action_required, rn_reason = reason, rn_details = details, rn_checked_at = now\<rparr>\<rparr>"

definition write_runtime_state :: "string \<Rightarrow> protected_run \<Rightarrow> protection_world \<Rightarrow> protection_world" where
  "write_runtime_state rid patch w =
     (case dict_get (pw_runs w) rid of
        None \<Rightarrow> w
      | Some r \<Rightarrow> w\<lparr>pw_runs := dict_set rid
          (r\<lparr>pr_config := pr_config patch, pr_state := pr_state patch, pr_recovery := pr_recovery patch\<rparr>) (pw_runs w)\<rparr>)"

definition write_run_status :: "string \<Rightarrow> string \<Rightarrow> protected_run \<Rightarrow> protection_world \<Rightarrow> protection_world" where
  "write_run_status rid status patch w =
     (case dict_get (pw_runs w) rid of
        None \<Rightarrow> w
      | Some r \<Rightarrow> w\<lparr>pw_runs := dict_set rid
          (r\<lparr>pr_status := status, pr_config := or_else (pr_config patch) (pr_config r),
             pr_state := (if pr_config patch = None then pr_state r else pr_state patch), pr_recovery := pr_recovery patch\<rparr>) (pw_runs w)\<rparr>)"

section \<open>Settlement\<close>

text \<open>
  What the settlement reads: the execution store, the bracket and link tables, and the broker. A
  broker call may raise.
\<close>

record settlement_env =
  se_active_basket :: "string \<Rightarrow> bool"
  se_active_bracket :: "string \<Rightarrow> bool"
  se_pending_action :: "string \<Rightarrow> bool"
  se_links :: "string \<Rightarrow> string \<Rightarrow> bool"
  se_unresolved :: "string \<Rightarrow> string \<Rightarrow> bool"
  se_open_legs :: "string \<Rightarrow> string \<Rightarrow> jval list"
  se_broker_positions :: "string \<Rightarrow> string \<Rightarrow> jval list"
  se_attributed :: "string \<Rightarrow> string \<Rightarrow> string + jval list"
  se_refresh :: "string \<Rightarrow> string + jobj"

record flatness =
  fl_is_flat :: bool
  fl_legs :: "jval list"
  fl_positions :: "jval list"
  fl_refresh :: jobj
  fl_reason :: string

definition load_live_run_flatness :: "settlement_env \<Rightarrow> string \<Rightarrow> protected_run \<Rightarrow> string + flatness" where
  "load_live_run_flatness env rid run =
     (let account = pr_account run in
      if rid = [] \<or> account = []
        then Inr \<lparr>fl_is_flat = False, fl_legs = [], fl_positions = [], fl_refresh = [], fl_reason = ''missing run identity''\<rparr>
      else
        let legs = se_open_legs env rid account; positions = se_broker_positions env rid account;
            answer = (\<lambda>positions refresh. let flat = legs = [] \<and> positions = [] in
              \<lparr>fl_is_flat = flat, fl_legs = legs, fl_positions = positions, fl_refresh = refresh,
               fl_reason = if flat then ''flat'' else ''broker exposure remains''\<rparr>)
        in if legs = [] \<and> positions \<noteq> []
           then (case se_attributed env rid account of
               Inl e \<Rightarrow> Inl e
             | Inr attributed \<Rightarrow>
                 let positions1 = (if attributed \<noteq> [] then attributed else positions)
                 in (case se_refresh env account of Inl e \<Rightarrow> Inl e | Inr refresh \<Rightarrow> Inr (answer positions1 refresh)))
           else Inr (answer positions []))"

definition flatness_details :: "flatness \<Rightarrow> jobj" where
  "flatness_details f =
     [(''is_flat'', JBool (fl_is_flat f)), (''remaining_legs'', JList (fl_legs f)), (''broker_positions'', JList (fl_positions f)),
      (''refresh'', JObj (fl_refresh f)), (''reason'', JStr (fl_reason f))]"

record run_settlement =
  st_closable :: bool
  st_reason :: string
  st_details :: jobj

definition evaluate_worker_run_settlement_status :: "settlement_env \<Rightarrow> string \<Rightarrow> protected_run \<Rightarrow> string + run_settlement" where
  "evaluate_worker_run_settlement_status env rid run =
     (let account = pr_account run; have_identity = rid \<noteq> [] \<and> account \<noteq> [];
          blocked = (\<lambda>reason details. Inr \<lparr>st_closable = False, st_reason = reason, st_details = details\<rparr>)
      in if have_identity \<and> se_active_basket env rid
           then blocked ''active_basket_execution'' [(''active_basket_execution'', JBool True)]
         else if have_identity \<and> se_active_bracket env rid
           then blocked ''active_bracket_intent'' [(''active_bracket_intent'', JBool True)]
         else if have_identity \<and> se_pending_action env rid
           then blocked ''pending_bracket_action'' [(''pending_bracket_action'', JBool True)]
         else if have_identity \<and> se_links env rid account \<and> se_unresolved env rid account
           then blocked ''unresolved_execution_links'' [(''unresolved_execution_links'', JBool True), (''exact_mode'', JBool True)]
         else (case load_live_run_flatness env rid run of
             Inl e \<Rightarrow> Inl e
           | Inr f \<Rightarrow> Inr \<lparr>st_closable = fl_is_flat f,
               st_reason = (if fl_is_flat f then ''flat'' else str_or (Some (fl_reason f)) ''live_exposure_not_flat''),
               st_details = flatness_details f\<rparr>))"

section \<open>The sweeps\<close>

record stale_result =
  sr_scanned :: nat
  sr_detected :: nat
  sr_closed :: nat
  sr_action_required :: nat
  sr_errored :: nat

record recovery_config =
  rc_stale_seconds :: int
  rc_claimed_seconds :: int

definition run_mode :: "protected_run \<Rightarrow> string" where
  "run_mode run = str_lower (str_or (Some (pr_mode run)) ''paper'')"

definition run_is_stale :: "recovery_config \<Rightarrow> instant \<Rightarrow> protected_run \<Rightarrow> bool" where
  "run_is_stale rc now run =
     (case pr_heartbeat run of
        Some t \<Rightarrow> seconds (max 1 (rc_stale_seconds rc)) \<le> now - t
      | None \<Rightarrow> (case pr_session run of Some t \<Rightarrow> seconds (max 1 (rc_claimed_seconds rc)) \<le> now - t | None \<Rightarrow> False))"

definition exit_closed :: "jobj \<Rightarrow> bool" where
  "exit_closed result =
     (str_lower (if jtruth (obj_get result ''status'') then py_str (obj_get result ''status'') else []) \<in> {''success'', ''closed'', ''noop''})"

definition recover_stale_run ::
  "recovery_config \<Rightarrow> (string \<Rightarrow> protected_run \<Rightarrow> protection_world \<Rightarrow> (string + jobj) \<times> protection_world) \<Rightarrow> instant \<Rightarrow> string \<Rightarrow> protected_run
   \<Rightarrow> stale_result \<Rightarrow> protection_world \<Rightarrow> stale_result \<times> protection_world" where
  "recover_stale_run rc paper_exit now rid run result w =
     (if \<not> run_is_stale rc now run then (result, w)
      else
        let result1 = result\<lparr>sr_detected := sr_detected result + 1\<rparr>; mode = run_mode run in
        if mode = ''dry_run''
          then (result1\<lparr>sr_closed := sr_closed result1 + 1\<rparr>,
                write_run_status rid ''closed'' (runtime_recovery_patch run ''closed'' False ''dry_run_stale_auto_closed'' [] now) w)
        else if mode = ''paper''
          then (case paper_exit rid run w of
              (Inl e, w1) \<Rightarrow>
                (result1\<lparr>sr_errored := sr_errored result1 + 1\<rparr>,
                 write_runtime_state rid (runtime_recovery_patch run ''error'' True ''recovery_exception'' [(''error'', JStr e)] now) w1)
            | (Inr answer, w1) \<Rightarrow>
                if exit_closed answer
                  then (result1\<lparr>sr_closed := sr_closed result1 + 1\<rparr>,
                        write_run_status rid ''closed''
                          (runtime_recovery_patch run ''closed'' False ''paper_stale_exit_closed'' [(''paper_exit'', JObj answer)] now) w1)
                else (result1\<lparr>sr_action_required := sr_action_required result1 + 1\<rparr>,
                      write_runtime_state rid
                        (runtime_recovery_patch run ''stalled'' True ''paper_stale_exit_blocked'' [(''paper_exit'', JObj answer)] now) w1))
        else if mode = ''live''
          then (if stale_owned run
                  then (result1, write_runtime_state rid
                          (runtime_recovery_patch run ''classified'' False ''live_stale_owned_by_protection_runtime'' [] now) w)
                else (result1\<lparr>sr_action_required := sr_action_required result1 + 1\<rparr>,
                      write_runtime_state rid (runtime_recovery_patch run ''action_required'' True ''live_stale_unprotected'' [] now) w))
        else (result1, w))"

fun recover_stale_rows ::
  "recovery_config \<Rightarrow> (string \<Rightarrow> protected_run \<Rightarrow> protection_world \<Rightarrow> (string + jobj) \<times> protection_world) \<Rightarrow> instant \<Rightarrow> (string \<times> protected_run) list
   \<Rightarrow> stale_result \<Rightarrow> protection_world \<Rightarrow> stale_result \<times> protection_world" where
  "recover_stale_rows rc paper_exit now [] result w = (result, w)"
| "recover_stale_rows rc paper_exit now ((rid, run) # rows) result w =
     (case recover_stale_run rc paper_exit now rid run result w of (result1, w1) \<Rightarrow> recover_stale_rows rc paper_exit now rows result1 w1)"

definition recover_stale_runs_once ::
  "recovery_config \<Rightarrow> (string \<Rightarrow> protected_run \<Rightarrow> protection_world \<Rightarrow> (string + jobj) \<times> protection_world) \<Rightarrow> instant \<Rightarrow> (string \<times> protected_run) list
   \<Rightarrow> protection_world \<Rightarrow> stale_result \<times> protection_world" where
  "recover_stale_runs_once rc paper_exit now rows w =
     recover_stale_rows rc paper_exit now rows
       \<lparr>sr_scanned = length rows, sr_detected = 0, sr_closed = 0, sr_action_required = 0, sr_errored = 0\<rparr> w"

record exiting_result =
  er_scanned :: nat
  er_closed :: nat
  er_stalled :: nat
  er_errored :: nat

definition recover_exiting_run ::
  "settlement_env \<Rightarrow> instant \<Rightarrow> string \<Rightarrow> protected_run \<Rightarrow> exiting_result \<Rightarrow> protection_world \<Rightarrow> exiting_result \<times> protection_world" where
  "recover_exiting_run env now rid run result w =
     (if run_mode run \<in> {''dry_run'', ''paper''}
        then (result\<lparr>er_closed := er_closed result + 1\<rparr>,
              write_run_status rid ''closed'' (runtime_recovery_patch run ''closed'' False ''exiting_non_live_auto_closed'' [] now) w)
      else (case evaluate_worker_run_settlement_status env rid run of
          Inl e \<Rightarrow>
            (result\<lparr>er_errored := er_errored result + 1\<rparr>,
             write_runtime_state rid (runtime_recovery_patch run ''error'' True ''exiting_recovery_exception'' [(''error'', JStr e)] now) w)
        | Inr s \<Rightarrow>
            if st_closable s
              then (result\<lparr>er_closed := er_closed result + 1\<rparr>,
                    write_run_status rid ''closed'' (runtime_recovery_patch run ''closed'' False ''exiting_live_flat_confirmed'' (st_details s) now) w)
            else (result\<lparr>er_stalled := er_stalled result + 1\<rparr>,
                  write_run_status rid ''exiting''
                    (runtime_recovery_patch run ''stalled'' True (str_or (Some (st_reason s)) ''live_exposure_not_flat'') (st_details s) now) w)))"

fun recover_exiting_rows ::
  "settlement_env \<Rightarrow> instant \<Rightarrow> (string \<times> protected_run) list \<Rightarrow> exiting_result \<Rightarrow> protection_world \<Rightarrow> exiting_result \<times> protection_world" where
  "recover_exiting_rows env now [] result w = (result, w)"
| "recover_exiting_rows env now ((rid, run) # rows) result w =
     (case recover_exiting_run env now rid run result w of (result1, w1) \<Rightarrow> recover_exiting_rows env now rows result1 w1)"

definition recover_exiting_runs_once ::
  "settlement_env \<Rightarrow> instant \<Rightarrow> (string \<times> protected_run) list \<Rightarrow> protection_world \<Rightarrow> exiting_result \<times> protection_world" where
  "recover_exiting_runs_once env now rows w =
     recover_exiting_rows env now rows \<lparr>er_scanned = length rows, er_closed = 0, er_stalled = 0, er_errored = 0\<rparr> w"

end
