(* ===== verification/ProtectionExits.thy ===== *)
theory ProtectionExits
  imports ProtectionTheorems RuntimeRecovery
begin

text \<open>
  What the protection runtime promises of the exits it submits and of the orders it lets through:
  over any history of evaluations and resets a run's exit is submitted finally at most once; an
  order that passes the safety gate finds the run's protection as it was when trading was allowed;
  and recovery closes a live run only when it is settled.
\<close>

section \<open>Exits are submitted finally at most once\<close>

definition exits_of :: "string \<Rightarrow> protection_world \<Rightarrow> bool list" where
  "exits_of rid w = map snd (filter (\<lambda>e. fst e = rid) (pw_exits w))"

abbreviation run_row :: "protection_world \<Rightarrow> string \<Rightarrow> protected_run option" where
  "run_row w rid \<equiv> dict_get (pw_runs w) rid"

abbreviation claimed_row :: "protected_run \<Rightarrow> bool" where
  "claimed_row r \<equiv> str_truthy (bs_claim (pr_state r))"

abbreviation submitted_row :: "protected_run \<Rightarrow> bool" where
  "submitted_row r \<equiv> bs_exit_submitted (pr_state r)"

text \<open>
  What the rest of the system may do to a run around its evaluation: it submits no exit of the
  run, leaves its protection state alone once an exit is claimed and never marks an exit as
  submitted.
\<close>

definition resets :: "string \<Rightarrow> protection_world \<Rightarrow> protection_world \<Rightarrow> bool" where
  "resets rid w w' \<longleftrightarrow> exits_of rid w' = exits_of rid w
     \<and> (run_row w rid = None \<longrightarrow> (\<forall>r'. run_row w' rid = Some r' \<longrightarrow> \<not> submitted_row r'))
     \<and> (\<forall>r. run_row w rid = Some r \<longrightarrow> (\<exists>r'. run_row w' rid = Some r' \<and> (claimed_row r \<longrightarrow> pr_state r' = pr_state r)
          \<and> (\<not> submitted_row r \<longrightarrow> \<not> submitted_row r')))"

definition exits_inv :: "string \<Rightarrow> protection_world \<Rightarrow> bool" where
  "exits_inv rid w \<longleftrightarrow> (\<forall>r. run_row w rid = Some r \<longrightarrow> submitted_row r \<longrightarrow> claimed_row r)
     \<and> (True \<in> set (exits_of rid w) \<longrightarrow> (\<exists>r. run_row w rid = Some r \<and> submitted_row r))
     \<and> True \<notin> set (butlast (exits_of rid w))"

lemma resets_refl [simp]: "resets rid w w"
  by (simp add: resets_def)

lemma resets_trans:
  assumes "resets rid a b" "resets rid b c"
  shows "resets rid a c"
proof (cases "run_row a rid")
  case None
  then show ?thesis using assms by (cases "run_row b rid") (auto simp: resets_def)
next
  case (Some r)
  then obtain r' where "run_row b rid = Some r'" using assms(1) by (auto simp: resets_def)
  then show ?thesis using assms Some unfolding resets_def by auto
qed

lemma resets_untouched: "run_row w' rid = run_row w rid \<Longrightarrow> exits_of rid w' = exits_of rid w \<Longrightarrow> resets rid w w'"
  by (simp add: resets_def)

locale reset_action =
  fixes rid :: string and act :: "protection_world \<Rightarrow> protection_world"
  assumes act_resets: "resets rid w (act w)"
begin

lemma keeps_exits_inv: "exits_inv rid w \<Longrightarrow> exits_inv rid (act w)"
proof (cases "run_row w rid")
  case None
  then show "exits_inv rid w \<Longrightarrow> ?thesis" using act_resets [of w] by (auto simp: exits_inv_def resets_def)
next
  case (Some r)
  assume inv: "exits_inv rid w"
  obtain r' where r': "run_row (act w) rid = Some r'" "claimed_row r \<longrightarrow> pr_state r' = pr_state r" "\<not> submitted_row r \<longrightarrow> \<not> submitted_row r'"
    using act_resets [of w] Some by (auto simp: resets_def)
  have x: "exits_of rid (act w) = exits_of rid w" using act_resets [of w] by (simp add: resets_def)
  show ?thesis using inv Some r' unfolding exits_inv_def x by (cases "submitted_row r") auto
qed

end

lemma persist_rows:
  assumes "persist_backend_protection_change rid config state g rule claim events w = (b, w')"
  shows "pw_exits w' = pw_exits w" "\<not> b \<Longrightarrow> w' = w" "rid' \<noteq> rid \<Longrightarrow> run_row w' rid' = run_row w rid'"
    "b \<Longrightarrow> \<exists>r r'. run_row w rid = Some r \<and> run_row w' rid = Some r' \<and> pr_state r' = state
      \<and> (\<forall>x. rule = Some x \<longrightarrow> str_or (bs_rule (pr_state r)) [] = x) \<and> (\<forall>x. claim = Some x \<longrightarrow> str_or (bs_claim (pr_state r)) [] = x)"
  using assms by (auto simp: persist_backend_protection_change_def Let_def split: option.splits if_splits)

lemma persist_others: "persist_backend_protection_change rid config state g rule claim events w = (b, w') \<Longrightarrow> rid' \<noteq> rid \<Longrightarrow> resets rid' w w'"
  using persist_rows(1,3) by (intro resets_untouched) (simp_all add: exits_of_def)

lemma str_or_Nil: "str_or x [] = [] \<longleftrightarrow> \<not> str_truthy x"
  by (auto simp: str_or_def str_truthy_def split: option.splits)

text \<open>A write of a state that is neither submitted nor expected over a claim is such an action.\<close>

lemma persist_resets:
  assumes p: "persist_backend_protection_change rid config state g rule (Some []) events w = (b, w')" and s: "\<not> bs_exit_submitted state"
  shows "resets k w w'"
proof (cases "k = rid \<and> b")
  case True
  then obtain r r' where "run_row w rid = Some r" "run_row w' rid = Some r'" "pr_state r' = state" "str_or (bs_claim (pr_state r)) [] = []"
    using persist_rows(4) [OF p] by auto
  moreover have "exits_of k w' = exits_of k w" using persist_rows(1) [OF p] by (simp add: exits_of_def)
  ultimately show ?thesis using True s str_or_Nil by (auto simp: resets_def)
next
  case False
  then show ?thesis using persist_others [OF p] persist_rows(2) [OF p] by (cases "k = rid") auto
qed

lemma patch_resets: "resets k w (snd (patch_worker_run_protection now rid run payload reason reset_trailing w))"
proof (cases "patch_worker_run_protection now rid run payload reason reset_trailing w")
  case (Pair res w')
  show ?thesis
  proof (cases "res = Inr ()")
    case False
    then have "w' = w"
      using Pair persist_rows(2) by (auto simp: patch_worker_run_protection_def Let_def split: if_splits sum.splits prod.splits bool.splits)
    then show ?thesis using Pair by simp
  next
    case True
    then obtain c state g rule events where p: "persist_backend_protection_change rid c state g rule (Some (str_or (bs_claim (pr_state run)) [])) events w = (True, w')"
      and s: "\<not> bs_exit_submitted state" and n: "\<not> str_truthy (bs_claim (pr_state run))"
      using Pair
      by (fastforce simp: patch_worker_run_protection_def Let_def initial_protection_state_def blank_state_def preserve_trailing_state_def
          split: if_splits sum.splits prod.splits bool.splits)
    have "str_or (bs_claim (pr_state run)) [] = []" using n by (simp add: str_or_Nil)
    then show ?thesis using persist_resets [OF _ s] p Pair by auto
  qed
qed

text \<open>The routes that write other columns of the row, and the creation of a run.\<close>

definition touch_run :: "string \<Rightarrow> string \<Rightarrow> instant option \<Rightarrow> protection_world \<Rightarrow> protection_world" where
  "touch_run rid status beat w =
     (case run_row w rid of
        None \<Rightarrow> w
      | Some r \<Rightarrow> w\<lparr>pw_runs := dict_set rid (r\<lparr>pr_status := status, pr_heartbeat := beat\<rparr>) (pw_runs w)\<rparr>)"

definition open_run :: "string \<Rightarrow> protected_run \<Rightarrow> protection_config \<Rightarrow> instant \<Rightarrow> protection_world \<Rightarrow> protection_world" where
  "open_run rid row c now w =
     (if run_row w rid \<noteq> None then w
      else w\<lparr>pw_runs := dict_set rid
        (row\<lparr>pr_config := Some c, pr_state := initial_protection_state c 1 (Some ''run_create'') now\<rparr>) (pw_runs w)\<rparr>)"

lemma touch_resets: "resets k w (touch_run rid status beat w)"
  by (cases "k = rid") (auto simp: resets_def touch_run_def exits_of_def split: option.splits)

lemma open_resets: "resets k w (open_run rid row c now w)"
  by (cases "k = rid") (auto simp: resets_def open_run_def exits_of_def initial_protection_state_def blank_state_def)

interpretation patch_reset: reset_action k "\<lambda>w. snd (patch_worker_run_protection now rid run payload reason reset_trailing w)"
  for k now rid run payload reason reset_trailing
  by unfold_locales (rule patch_resets)

interpretation touch_reset: reset_action k "touch_run rid status beat" for k rid status beat
  by unfold_locales (rule touch_resets)

interpretation open_reset: reset_action k "open_run rid row c now" for k rid row c now
  by unfold_locales (rule open_resets)

section \<open>Histories\<close>

text \<open>
  Everything that may happen to a run besides its own evaluation: resets with whatever row the
  route had read, writes of other columns, new runs, and evaluations of other runs, with such
  actions again while their exits are under way.
\<close>

inductive around :: "string \<Rightarrow> protection_world \<Rightarrow> protection_world \<Rightarrow> bool" for rid where
  patch: "around rid w (snd (patch_worker_run_protection now k run payload reason reset_trailing w))"
| touch: "around rid w (touch_run k status beat w)"
| new_run: "around rid w (open_run k row c now w)"
| other: "k \<noteq> rid \<Longrightarrow> (\<And>v. (around rid)\<^sup>*\<^sup>* v (during v))
    \<Longrightarrow> around rid w (snd (evaluate_entry env k run now claim pnl answer during w))"

lemma persist_state_others: "k \<noteq> rid \<Longrightarrow> resets rid w (snd (persist_state k previous state g rule claim w))"
  unfolding persist_state_def by (metis persist_others prod.collapse)

lemma persist_answer_others: "k \<noteq> rid \<Longrightarrow> resets rid w (persist_answer k claim claimed answered w)"
  using persist_state_others resets_trans unfolding persist_answer_def
  by (smt (verit) case_prod_conv prod.case_eq_if snd_conv)

lemma submit_exit_others:
  assumes "k \<noteq> rid" "\<And>v. resets rid v (during v)"
  shows "resets rid w (snd (submit_exit k claim claimed answer during w))"
proof -
  obtain outcome answered where a: "answered_state claimed answer = (outcome, answered)" by fastforce
  let ?w2 = "(during w)\<lparr>pw_exits := pw_exits (during w) @ [(k, outcome \<noteq> ExitDeferred)]\<rparr>"
  have "resets rid (during w) ?w2" using assms(1) by (intro resets_untouched) (simp_all add: exits_of_def)
  then show ?thesis
    using assms(2) [of w] persist_answer_others [OF assms(1)] resets_trans by (simp add: submit_exit_def a Let_def)
qed

lemma evaluate_run_others:
  assumes "k \<noteq> rid" "\<And>v. resets rid v (during v)"
  shows "resets rid w (snd (evaluate_run env k run now claim pnl answer during w))"
proof -
  have c: "resets rid w (snd (claim_exit env k run now claim s w))" for s using persist_state_others [OF assms(1)] by (simp add: claim_exit_def)
  have "resets rid w (snd (case claim_exit env k run now claim s w of (False, w1) \<Rightarrow> (ClaimLost, w1)
      | (True, w1) \<Rightarrow> submit_exit k claim (claimed_state env k now claim s) answer during w1))" for s
  proof (cases "claim_exit env k run now claim s w")
    case (Pair b w1)
    then have r: "resets rid w w1" using c [of s] by simp
    then show ?thesis using resets_trans [OF r submit_exit_others [OF assms]] Pair by (cases b) simp_all
  qed
  then show ?thesis using persist_state_others [OF assms(1)] by (auto simp: evaluate_run_def Let_def split: sum.splits)
qed

lemma persist_run_error_others: "k \<noteq> rid \<Longrightarrow> resets rid w (persist_run_error k run now e w)"
  using persist_state_others by (simp add: persist_run_error_def Let_def)

lemma evaluate_entry_others:
  assumes "k \<noteq> rid" "\<And>v. resets rid v (during v)"
  shows "resets rid w (snd (evaluate_entry env k run now claim pnl answer during w))"
proof (cases "evaluate_run env k run now claim pnl answer during w")
  case (Pair out w1)
  then have "resets rid w w1" using evaluate_run_others [OF assms] by (metis snd_conv)
  then show ?thesis
    using Pair persist_run_error_others [OF assms(1)] resets_trans by (cases out) (auto simp: evaluate_entry_def)
qed

lemma resets_star: "(\<And>u v. R u v \<Longrightarrow> resets rid u v) \<Longrightarrow> R\<^sup>*\<^sup>* a b \<Longrightarrow> resets rid a b"
  by (rotate_tac, induction rule: rtranclp_induct) (auto intro: resets_trans)

lemma around_resets: "around rid w w' \<Longrightarrow> resets rid w w'"
proof (induction rule: around.induct)
  case (other k during w env run now claim pnl answer)
  have "resets rid v (during v)" for v using resets_star other(2) by (metis (no_types, lifting) rtranclp_mono predicate2I)
  then show ?case by (rule evaluate_entry_others [OF other(1)])
qed (rule patch_resets touch_resets open_resets)+

lemma around_star_resets: "(around rid)\<^sup>*\<^sup>* w w' \<Longrightarrow> resets rid w w'"
  using resets_star around_resets by metis

text \<open>A run none of whose exits is final yet.\<close>

definition unexited :: "string \<Rightarrow> protection_world \<Rightarrow> bool" where
  "unexited rid w \<longleftrightarrow> True \<notin> set (exits_of rid w) \<and> (\<forall>r. run_row w rid = Some r \<longrightarrow> \<not> submitted_row r)"

lemma unexited_inv: "unexited rid w \<Longrightarrow> exits_inv rid w"
  by (auto simp: unexited_def exits_inv_def dest: in_set_butlastD)

lemma unexited_resets: "unexited rid w \<Longrightarrow> resets rid w w' \<Longrightarrow> unexited rid w'"
  by (cases "run_row w rid") (auto simp: unexited_def resets_def)

lemma unexited_persist:
  assumes "unexited rid w" "\<not> bs_exit_submitted state"
  shows "unexited rid (snd (persist_state rid previous state g rule claim w))"
proof (cases "persist_state rid previous state g rule claim w")
  case (Pair b w')
  note p = Pair [unfolded persist_state_def]
  have "exits_of rid w' = exits_of rid w" using persist_rows(1) [OF p] by (simp add: exits_of_def)
  then show ?thesis using Pair assms persist_rows(2,4) [OF p] by (cases b) (auto simp: unexited_def)
qed

lemma verdict_keeps_submitted:
  assumes "evaluate_backend_protection fromiso c state positions age now schedule = Inr verdict"
  shows "bs_exit_submitted verdict = bs_exit_submitted state" "bs_exit_submitted state \<Longrightarrow> bs_claim verdict = bs_claim state"
  using assms
  by (auto simp: evaluate_backend_protection_def finish_evaluation_def trigger_def blank_state_def Let_def split: if_splits sum.splits option.splits prod.splits)

text \<open>The answer of an exit finds the row as the claim left it.\<close>

lemma persist_answer_row:
  assumes "run_row w rid = Some r" "pr_state r = s" "bs_claim s = Some claim" "claim \<noteq> []" "bs_generation answered = bs_generation s"
  shows "\<exists>r'. run_row (persist_answer rid claim s answered w) rid = Some r' \<and> pr_state r' = answered"
    "pw_exits (persist_answer rid claim s answered w) = pw_exits w"
  using assms by (auto simp: persist_answer_def persist_state_def persist_backend_protection_change_def Let_def)

lemma answered_state_final:
  assumes "answered_state s answer = (outcome, answered)"
  shows "bs_exit_submitted answered = (outcome \<noteq> ExitDeferred)" "bs_claim answered = bs_claim s" "bs_generation answered = bs_generation s"
  using assms by (auto simp: answered_state_def split: exit_answer.splits if_splits)

lemma submit_exit_inv:
  assumes q: "unexited rid w" and row: "run_row w rid = Some r" "pr_state r = s" "bs_claim s = Some claim" "claim \<noteq> []"
    and d: "\<And>v. resets rid v (during v)"
  shows "exits_inv rid (snd (submit_exit rid claim s answer during w))"
proof -
  obtain outcome answered where a: "answered_state s answer = (outcome, answered)" by fastforce
  note final = answered_state_final [OF a]
  let ?b = "outcome \<noteq> ExitDeferred"
  let ?w2 = "(during w)\<lparr>pw_exits := pw_exits (during w) @ [(rid, ?b)]\<rparr>"
  let ?w3 = "persist_answer rid claim s answered ?w2"
  have "unexited rid (during w)" using unexited_resets [OF q d] .
  then have x: "True \<notin> set (exits_of rid (during w))" by (simp add: unexited_def)
  have "str_truthy (bs_claim (pr_state r))" using row by (simp add: str_truthy_def)
  then obtain r' where "run_row (during w) rid = Some r'" "pr_state r' = s" using d [of w] row unfolding resets_def by auto
  then have r2: "run_row ?w2 rid = Some r'" "pr_state r' = s" by simp_all
  note p = persist_answer_row [OF r2 row(3,4) final(3)]
  obtain r3 where r3: "run_row ?w3 rid = Some r3" "pr_state r3 = answered" using p(1) by blast
  have "exits_of rid ?w3 = exits_of rid (during w) @ [?b]" using p(2) by (simp add: exits_of_def)
  moreover have "submitted_row r3 = ?b" "claimed_row r3" using r3(2) final row(3,4) by (simp_all add: str_truthy_def)
  ultimately have "exits_inv rid ?w3" using r3(1) x unfolding exits_inv_def by auto
  then show ?thesis by (simp add: submit_exit_def a Let_def)
qed

lemma submit_not_failed: "fst (submit_exit rid claim s answer during w) \<noteq> EvaluationFailed e"
  by (auto simp: submit_exit_def answered_state_def Let_def split: exit_answer.splits)

lemma evaluate_failed:
  assumes "evaluate_run env rid run now claim pnl answer during w = (EvaluationFailed e, w')"
  shows "w' = w"
proof -
  have "fst (case claim_exit env rid run now claim v w of (False, w1) \<Rightarrow> (ClaimLost, w1)
      | (True, w1) \<Rightarrow> submit_exit rid claim (claimed_state env rid now claim v) answer during w1) \<noteq> EvaluationFailed e" for v
    using submit_not_failed by (auto split: prod.splits bool.splits)
  then show ?thesis using assms unfolding evaluate_run_def Let_def by (auto split: sum.splits if_splits simp: prod_eq_iff)
qed

lemma evaluate_entry_inv:
  assumes "exits_inv rid (snd (evaluate_run env rid run now claim pnl answer during w))" "\<And>e. exits_inv rid (persist_run_error rid run now e w)"
  shows "exits_inv rid (snd (evaluate_entry env rid run now claim pnl answer during w))"
proof (cases "evaluate_run env rid run now claim pnl answer during w")
  case (Pair out w')
  then show ?thesis using assms by (cases out) (auto simp: evaluate_entry_def dest: evaluate_failed)
qed

lemma evaluate_unexited_inv:
  assumes q: "unexited rid w" and s: "\<not> submitted_row run" and c: "claim \<noteq> []" and d: "\<And>v. resets rid v (during v)"
  shows "exits_inv rid (snd (evaluate_entry env rid run now claim pnl answer during w))"
proof -
  have err: "unexited rid (persist_run_error rid run now e w)" for e
    using unexited_persist [OF q] s by (simp add: persist_run_error_def Let_def)
  have claimed: "exits_inv rid (snd (case claim_exit env rid run now claim v w of (False, w1) \<Rightarrow> (ClaimLost, w1)
      | (True, w1) \<Rightarrow> submit_exit rid claim (claimed_state env rid now claim v) answer during w1))" if v: "\<not> bs_exit_submitted v" for v
  proof (cases "claim_exit env rid run now claim v w")
    case (Pair b w1)
    let ?s = "claimed_state env rid now claim v"
    have us: "\<not> bs_exit_submitted ?s" using v by (simp add: claimed_state_def)
    have q1: "unexited rid w1" using unexited_persist [OF q us] Pair by (metis claim_exit_def snd_conv)
    show ?thesis
    proof (cases b)
      case True
      then obtain r where r: "run_row w1 rid = Some r" "pr_state r = ?s"
        using persist_rows(4) [OF Pair [unfolded claim_exit_def persist_state_def]] by auto
      have "bs_claim ?s = Some claim" by (simp add: claimed_state_def)
      then show ?thesis using submit_exit_inv [OF q1 r _ c d] True Pair by simp
    next
      case False
      then show ?thesis using Pair unexited_inv [OF q1] by simp
    qed
  qed
  have "exits_inv rid (snd (evaluate_run env rid run now claim pnl answer during w))"
    using unexited_inv [OF q] unexited_inv [OF unexited_persist [OF q]] claimed s
    by (auto simp: evaluate_run_def Let_def verdict_keeps_submitted(1) split: sum.splits)
  then show ?thesis using evaluate_entry_inv unexited_inv [OF err] by blast
qed

lemma evaluate_submitted_inv:
  assumes inv: "exits_inv rid w" and row: "run_row w rid = Some r" "pr_state r = pr_state run" and s: "submitted_row run"
  shows "exits_inv rid (snd (evaluate_entry env rid run now claim pnl answer during w))"
proof -
  have cl: "claimed_row run" using inv row s by (auto simp: exits_inv_def)
  have kept: "exits_inv rid (snd (persist_state rid p v g rule x w))" if v: "bs_exit_submitted v" "bs_claim v = bs_claim (pr_state run)" for p v g rule x
  proof (cases "persist_state rid p v g rule x w")
    case (Pair b w')
    note p = Pair [unfolded persist_state_def]
    have e: "exits_of rid w' = exits_of rid w" using persist_rows(1) [OF p] by (simp add: exits_of_def)
    show ?thesis
    proof (cases b)
      case True
      then obtain r' where "run_row w' rid = Some r'" "pr_state r' = v" using persist_rows(4) [OF p] by auto
      then show ?thesis using inv v cl e Pair by (auto simp: exits_inv_def)
    next
      case False
      then show ?thesis using persist_rows(2) [OF p] Pair inv by simp
    qed
  qed
  have "exits_inv rid (snd (evaluate_run env rid run now claim pnl answer during w))"
    using inv s kept by (auto simp: evaluate_run_def has_recent_exit_claim_def Let_def verdict_keeps_submitted split: sum.splits)
  moreover have "exits_inv rid (persist_run_error rid run now e w)" for e using inv s by (simp add: persist_run_error_def)
  ultimately show ?thesis by (rule evaluate_entry_inv)
qed

text \<open>
  The histories of a run: anything around it, and its evaluations, one at a time. An evaluation
  writes with the row it read, whatever happened around the run since, and again while its
  exit was under way.
\<close>

inductive history :: "string \<Rightarrow> protection_world \<Rightarrow> bool" for rid where
  start: "unexited rid w \<Longrightarrow> history rid w"
| elsewhere: "history rid w \<Longrightarrow> around rid w w' \<Longrightarrow> history rid w'"
| evaluation: "history rid w0 \<Longrightarrow> run_row w0 rid = Some run \<Longrightarrow> (around rid)\<^sup>*\<^sup>* w0 w \<Longrightarrow> claim \<noteq> []
    \<Longrightarrow> (\<And>v. (around rid)\<^sup>*\<^sup>* v (during v)) \<Longrightarrow> history rid (snd (evaluate_entry env rid run now claim pnl answer during w))"

lemma resets_inv: "exits_inv rid w \<Longrightarrow> resets rid w w' \<Longrightarrow> exits_inv rid w'"
proof -
  assume "exits_inv rid w" "resets rid w w'"
  then show ?thesis
    using reset_action.keeps_exits_inv [of rid "\<lambda>v. if v = w then w' else v" w] by (auto simp: reset_action_def)
qed

lemma history_inv: "history rid w \<Longrightarrow> exits_inv rid w"
proof (induction rule: history.induct)
  case (start w)
  then show ?case by (rule unexited_inv)
next
  case (elsewhere w w')
  then show ?case using resets_inv around_resets by blast
next
  case (evaluation w0 run w claim during env now pnl answer)
  have r: "resets rid w0 w" using around_star_resets evaluation(3) .
  have d: "resets rid v (during v)" for v using around_star_resets evaluation(5) .
  show ?case
  proof (cases "submitted_row run")
    case True
    then have "claimed_row run" using evaluation by (auto simp: exits_inv_def)
    then obtain r' where "run_row w rid = Some r'" "pr_state r' = pr_state run" using r evaluation(2) by (auto simp: resets_def)
    then show ?thesis using evaluate_submitted_inv resets_inv [OF evaluation.IH r] True by blast
  next
    case False
    then have "unexited rid w0" using evaluation(2) evaluation.IH by (auto simp: exits_inv_def unexited_def)
    then show ?thesis using evaluate_unexited_inv [OF unexited_resets [OF _ r] False evaluation(4) d] by blast
  qed
qed

text \<open>
  C8. A run is exited at most once as long as its own evaluations follow one another, each to its end
  with its writes succeeding, and nothing else writes its protection state but the worker's reset:
  over any such history, interleaved with resets, heartbeats, changes of other columns, new runs
  and evaluations of other runs, with any answers of the broker and any of these actions while an
  exit is under way, only the last exit submitted for the run can be final; after a final or
  unknown answer no further exit of the run is submitted.
\<close>

theorem at_most_one_final_exit:
  assumes "history rid w"
  shows "True \<notin> set (butlast (exits_of rid w))"
  using history_inv [OF assms] by (simp add: exits_inv_def)

section \<open>The safety gate\<close>

lemma field_split: "a @ c # s = b @ c # t \<Longrightarrow> c \<notin> set a \<Longrightarrow> c \<notin> set b \<Longrightarrow> a = b \<and> s = t"
  by (induction a arbitrary: b) (auto simp: Cons_eq_append_conv append_eq_Cons_conv)

text \<open>A fingerprint determines the statuses it is computed from, as long as the hash does not collide.\<close>

lemma fingerprint_inj:
  assumes "inj sha" "build_safety_fingerprint sha a b s x = build_safety_fingerprint sha a' b' s' x'"
    and "\<forall>t \<in> {a, b, a', b'}. CHR ''|'' \<notin> set t"
  shows "a = a' \<and> b = b' \<and> s = s' \<and> str_or x [] = str_or x' []"
proof -
  have "a @ CHR ''|'' # b @ CHR ''|'' # (if s then ''1'' else ''0'') @ CHR ''|'' # str_or x []
    = a' @ CHR ''|'' # b' @ CHR ''|'' # (if s' then ''1'' else ''0'') @ CHR ''|'' # str_or x' []"
    using injD [OF assms(1) assms(2) [unfolded build_safety_fingerprint_def]] by (simp only: join.simps append.simps)
  then have 1: "a = a' \<and> b @ CHR ''|'' # (if s then ''1'' else ''0'') @ CHR ''|'' # str_or x []
    = b' @ CHR ''|'' # (if s' then ''1'' else ''0'') @ CHR ''|'' # str_or x' []" by (rule field_split) (use assms(3) in auto)
  then have "b @ CHR ''|'' # (if s then ''1'' else ''0'') @ CHR ''|'' # str_or x []
    = b' @ CHR ''|'' # (if s' then ''1'' else ''0'') @ CHR ''|'' # str_or x' []" by blast
  then have 2: "b = b' \<and> (if s then ''1'' else ''0'') @ CHR ''|'' # str_or x [] = (if s' then ''1'' else ''0'') @ CHR ''|'' # str_or x' []"
    by (rule field_split) (use assms(3) in auto)
  then show ?thesis using 1 by (auto split: if_splits)
qed

lemma blocking_same:
  assumes "str_or x [] = str_or y []"
  shows "safety_blocking_reasons a b s x = safety_blocking_reasons a b s y"
proof -
  have "x = y \<or> \<not> str_truthy x \<and> \<not> str_truthy y" using assms by (auto simp: str_or_def str_truthy_def split: option.splits if_splits)
  moreover have "safety_blocking_reasons a b s z = safety_blocking_reasons a b s None" if "\<not> str_truthy z" for z
    using that by (cases z) (simp_all add: safety_blocking_reasons_def options_unavailable_def str_truthy_def)
  ultimately show ?thesis by metis
qed

text \<open>
  C15. An order that passes the safety gate is one the run may place, up to one exception: when a
  token issued for a run is accepted later, within its ten seconds, the run is still open, its
  backend protection has not triggered or submitted an exit, and its options run has no blocking
  status. The exception is an options rule that triggered without a change of that status: it
  would block a new token and goes unseen here.
\<close>

theorem accepted_token_means_tradable:
  assumes "get_worker_run_safety_check sv rid r0 o0 now0 = (reasons, Some token)"
    and "validate_worker_run_safety_token sv rid token (Some r1) o1 now1 = Inr ()" and "inj (sv_sha sv)"
    and "\<forall>r \<in> {r0, r1}. CHR ''|'' \<notin> set (pr_status r) \<union> set (opt_str (bs_status (pr_state r)))"
  shows "set (run_blocking_reasons r1 o1) \<subseteq> {''OPTIONS_PROTECTION_TRIGGERED''} \<and> pr_status r1 \<in> {[], ''open''} \<and> now1 < now0 + seconds 10"
proof -
  let ?st = "\<lambda>r. str_or (Some (pr_status r)) ''open''" and ?ge = "\<lambda>r. str_or (bs_status (pr_state r)) ''active''"
  let ?reasons = "\<lambda>r oo. safety_blocking_reasons (?st r) (?ge r) (bs_exit_submitted (pr_state r)) (option_status oo)"
  have t: "token = build_signed_safety_token sv rid (run_fingerprint sv r0 o0) now0" "run_blocking_reasons r0 o0 = []"
    using assms(1) by (auto simp: get_worker_run_safety_check_def Let_def split: if_splits)
  have v: "run_fingerprint sv r0 o0 = run_fingerprint sv r1 o1" "now1 < now0 + seconds 10"
    using assms(2) by (auto simp: validate_worker_run_safety_token_def verify_signed_safety_token_def t(1) build_signed_safety_token_def Let_def split: if_splits)
  have plain: "CHR ''|'' \<notin> set (?st r)" "CHR ''|'' \<notin> set (?ge r)" if "r \<in> {r0, r1}" for r
    using assms(4) that by (auto simp: str_or_def opt_str_def split: option.splits)
  have same: "?st r1 = ?st r0" "?ge r1 = ?ge r0" "bs_exit_submitted (pr_state r1) = bs_exit_submitted (pr_state r0)"
    "str_or (option_status o1) [] = str_or (option_status o0) []"
    using fingerprint_inj [OF assms(3) v(1) [unfolded run_fingerprint_def]] plain by simp_all
  have "?reasons r0 o0 = []" using t(2) by (simp add: run_blocking_reasons_def)
  moreover have "?reasons r1 o1 = ?reasons r0 o0" unfolding same(1-3) by (rule blocking_same) (rule same(4))
  ultimately have none: "?reasons r1 o1 = []" by (simp only:)
  then have "?st r1 = ''open''" by (simp add: safety_blocking_reasons_def split: if_splits)
  then have "pr_status r1 \<in> {[], ''open''}" by (auto simp: str_or_def split: if_splits)
  then show ?thesis using none v(2) by (auto simp: run_blocking_reasons_def)
qed

section \<open>Recovery\<close>

text \<open>A live run is settled when nothing of it is under way and the broker holds nothing of it.\<close>

definition settled_run :: "settlement_env \<Rightarrow> string \<Rightarrow> protected_run \<Rightarrow> bool" where
  "settled_run env rid run \<longleftrightarrow> rid \<noteq> [] \<and> pr_account run \<noteq> [] \<and> \<not> se_active_basket env rid \<and> \<not> se_active_bracket env rid
     \<and> \<not> se_pending_action env rid \<and> \<not> (se_links env rid (pr_account run) \<and> se_unresolved env rid (pr_account run))
     \<and> se_open_legs env rid (pr_account run) = [] \<and> se_broker_positions env rid (pr_account run) = []"

lemma flat_run:
  assumes "load_live_run_flatness env rid run = Inr f" "fl_is_flat f"
  shows "rid \<noteq> []" "pr_account run \<noteq> []" "se_open_legs env rid (pr_account run) = []" "se_broker_positions env rid (pr_account run) = []"
proof -
  show id: "rid \<noteq> []" "pr_account run \<noteq> []" using assms by (auto simp: load_live_run_flatness_def)
  have "fl_is_flat f \<longrightarrow> se_open_legs env rid (pr_account run) = [] \<and> se_broker_positions env rid (pr_account run) = []"
    using assms(1) id by (simp add: load_live_run_flatness_def Let_def split: if_split_asm sum.split_asm) auto
  then show "se_open_legs env rid (pr_account run) = []" "se_broker_positions env rid (pr_account run) = []" using assms(2) by auto
qed

lemma closable_settled:
  assumes "evaluate_worker_run_settlement_status env rid run = Inr s" "st_closable s"
  shows "settled_run env rid run"
proof -
  note e = assms(1) [unfolded evaluate_worker_run_settlement_status_def Let_def]
  have free: "\<not> ((rid \<noteq> [] \<and> pr_account run \<noteq> []) \<and> se_active_basket env rid)" using e assms(2) by (rule_tac notI) (simp, force)
  moreover have "\<not> ((rid \<noteq> [] \<and> pr_account run \<noteq> []) \<and> se_active_bracket env rid)" using e free assms(2) by (rule_tac notI) (simp, force)
  moreover have "\<not> ((rid \<noteq> [] \<and> pr_account run \<noteq> []) \<and> se_pending_action env rid)" using e calculation assms(2) by (rule_tac notI) (simp, force)
  moreover have "\<not> ((rid \<noteq> [] \<and> pr_account run \<noteq> []) \<and> se_links env rid (pr_account run) \<and> se_unresolved env rid (pr_account run))"
    using e calculation assms(2) by (rule_tac notI) (simp, force)
  moreover obtain f where "load_live_run_flatness env rid run = Inr f" "fl_is_flat f"
    using e calculation assms(2) by (auto split: sum.split_asm)
  ultimately show ?thesis using flat_run unfolding settled_run_def by blast
qed

lemma update_status_row:
  "run_row (write_run_status rid status patch w) k = map_option (\<lambda>r. if k = rid then r\<lparr>pr_status := status, pr_config := or_else (pr_config patch) (pr_config r),
     pr_state := (if pr_config patch = None then pr_state r else pr_state patch), pr_recovery := pr_recovery patch\<rparr> else r) (run_row w k)"
  by (cases "k = rid"; cases "run_row w k"; cases "run_row w rid") (simp_all add: write_run_status_def)

lemma update_state_row:
  "run_row (write_runtime_state rid patch w) k =
     map_option (\<lambda>r. if k = rid then r\<lparr>pr_config := pr_config patch, pr_state := pr_state patch, pr_recovery := pr_recovery patch\<rparr> else r) (run_row w k)"
  by (cases "k = rid"; cases "run_row w k"; cases "run_row w rid") (simp_all add: write_runtime_state_def)

lemmas recovery_rows = update_status_row update_state_row

lemma recover_exiting_rows_closes:
  assumes "run_row w k = Some r" "pr_status r \<noteq> ''closed''"
    and "run_row (snd (recover_exiting_rows env now rows result w)) k = Some r'" "pr_status r' = ''closed''"
  shows "\<exists>run. (k, run) \<in> set rows \<and> (run_mode run \<in> {''dry_run'', ''paper''} \<or> settled_run env k run)"
  using assms
proof (induction rows arbitrary: result w r)
  case (Cons row rows)
  obtain rid run where row: "row = (rid, run)" by fastforce
  obtain result1 w1 where step: "recover_exiting_run env now rid run result w = (result1, w1)" by fastforce
  obtain r1 where r1: "run_row w1 k = Some r1"
    and c: "pr_status r1 = ''closed'' \<longrightarrow> k = rid \<and> (run_mode run \<in> {''dry_run'', ''paper''} \<or> settled_run env k run)"
    using step Cons.prems(1,2) closable_settled
    by (auto simp: recover_exiting_run_def recovery_rows split: if_splits sum.splits)
  show ?case
  proof (cases "pr_status r1 = ''closed''")
    case True
    then show ?thesis using c row by auto
  next
    case False
    then show ?thesis using Cons.IH [OF r1 False] Cons.prems(3,4) row step by auto
  qed
qed simp

text \<open>
  C17. Recovery of exiting runs closes a live run only when it is settled: it has an identity, no
  basket, bracket or order of it is under way, and neither the ledger nor the broker holds a
  position of it.
\<close>

theorem recovery_closes_settled_runs:
  assumes "run_row w k = Some r" "pr_status r \<noteq> ''closed''"
    and "run_row (snd (recover_exiting_runs_once env now rows w)) k = Some r'" "pr_status r' = ''closed''"
  shows "\<exists>run. (k, run) \<in> set rows \<and> (run_mode run \<in> {''dry_run'', ''paper''} \<or> settled_run env k run)"
  using recover_exiting_rows_closes [OF assms(1,2)] assms(3,4) unfolding recover_exiting_runs_once_def by blast

section \<open>An example\<close>

definition demo_env :: protection_env where
  "demo_env = \<lparr>pe_fromiso = (\<lambda>_. None), pe_digest = (\<lambda>d. case d of Some t \<Rightarrow> str_or (td_key t) [] | None \<Rightarrow> []), pe_schedule = []\<rparr>"

definition demo_run :: protected_run where
  "demo_run = \<lparr>pr_account = ''kite:A1'', pr_mode = ''live'', pr_status = ''open'', pr_config = Some demo_config,
     pr_state = initial_protection_state demo_config 1 (Some ''run_create'') 0, pr_heartbeat = Some 0, pr_nonce = None, pr_session = None,
     pr_recovery = None, pr_timeline = []\<rparr>"

definition demo_world :: protection_world where
  "demo_world = \<lparr>pw_runs = [(''r1'', demo_run)], pw_exits = []\<rparr>"

definition demo_evaluation :: "instant \<Rightarrow> string \<Rightarrow> protected_run \<Rightarrow> (protection_world \<Rightarrow> protection_world) \<Rightarrow> protection_world \<Rightarrow> protection_world" where
  "demo_evaluation now claim run during w =
     snd (evaluate_entry demo_env ''r1'' run now claim (Inr [demo_leg 97]) (ExitAnswered [(''status'', JStr ''submitted'')]) during w)"

text \<open>The run moves to exiting while its exit is being submitted.\<close>

definition demo_exiting :: "protection_world \<Rightarrow> protection_world" where
  "demo_exiting = touch_run ''r1'' ''exiting'' (Some 0)"

lemma demo_around: "(around rid)\<^sup>*\<^sup>* v (demo_exiting v)"
  unfolding demo_exiting_def using around.touch by (rule r_into_rtranclp)

lemma demo_start: "history ''r1'' demo_world"
proof (rule history.start)
  have "exits_of ''r1'' demo_world = []" "run_row demo_world ''r1'' = Some demo_run" "\<not> submitted_row demo_run" by code_simp+
  then show "unexited ''r1'' demo_world" unfolding unexited_def by simp
qed

text \<open>Two evaluations: the first submits the exit while the run moves to exiting, the second finds it submitted.\<close>

definition demo_exited :: protection_world where
  "demo_exited = demo_evaluation 1000000 ''c1'' demo_run demo_exiting demo_world"

definition demo_exited_run :: protected_run where
  "demo_exited_run = (case run_row demo_exited ''r1'' of Some r \<Rightarrow> r | None \<Rightarrow> demo_run)"

theorem at_most_one_final_exit_witness:
  "exits_of ''r1'' (demo_evaluation 90000000 ''c2'' demo_exited_run demo_exiting demo_exited) = [True]
    \<and> True \<notin> set (butlast (exits_of ''r1'' (demo_evaluation 90000000 ''c2'' demo_exited_run demo_exiting demo_exited)))"
proof -
  have r: "run_row demo_world ''r1'' = Some demo_run" "run_row demo_exited ''r1'' = Some demo_exited_run" by code_simp+
  have 1: "history ''r1'' demo_exited"
    unfolding demo_exited_def demo_evaluation_def by (rule history.evaluation [OF demo_start r(1) rtranclp.rtrancl_refl _ demo_around]) simp
  have "history ''r1'' (demo_evaluation 90000000 ''c2'' demo_exited_run demo_exiting demo_exited)"
    unfolding demo_evaluation_def by (rule history.evaluation [OF 1 r(2) rtranclp.rtrancl_refl _ demo_around]) simp
  moreover have "exits_of ''r1'' (demo_evaluation 90000000 ''c2'' demo_exited_run demo_exiting demo_exited) = [True]" by code_simp
  ultimately show ?thesis using at_most_one_final_exit by blast
qed

definition demo_safety :: safety_env where
  "demo_safety = \<lparr>sv_sha = (\<lambda>s. s), sv_sign = (\<lambda>(r, f, t). r @ f)\<rparr>"

definition demo_options :: "bool \<Rightarrow> option_snapshot" where
  "demo_options triggered = \<lparr>os_blocking = None, os_status = None, os_triggered = triggered\<rparr>"

definition demo_token :: safety_token where
  "demo_token = build_signed_safety_token demo_safety ''r1'' (run_fingerprint demo_safety demo_run (demo_options False)) 0"

theorem accepted_token_means_tradable_witness: "set (run_blocking_reasons demo_run (demo_options True)) \<subseteq> {''OPTIONS_PROTECTION_TRIGGERED''}"
proof -
  have c: "get_worker_run_safety_check demo_safety ''r1'' demo_run (demo_options False) 0 = ([], Some demo_token)" by code_simp
  have v: "validate_worker_run_safety_token demo_safety ''r1'' demo_token (Some demo_run) (demo_options True) 9000000 = Inr ()" by code_simp
  have i: "inj (sv_sha demo_safety)" by (simp add: demo_safety_def inj_def)
  have "CHR ''|'' \<notin> set (pr_status demo_run) \<union> set (opt_str (bs_status (pr_state demo_run)))" by code_simp
  then show ?thesis using accepted_token_means_tradable [OF c v i] by simp
qed

text \<open>The triggered options rule blocks a new token, and yet the token issued before passes.\<close>

lemma triggered_options_rule_passes_gate:
  "run_blocking_reasons demo_run (demo_options True) = [''OPTIONS_PROTECTION_TRIGGERED'']"
  "validate_worker_run_safety_token demo_safety ''r1'' demo_token (Some demo_run) (demo_options True) 9000000 = Inr ()"
  by code_simp+

definition demo_settlement :: "bool \<Rightarrow> settlement_env" where
  "demo_settlement exposed = \<lparr>se_active_basket = (\<lambda>_. False), se_active_bracket = (\<lambda>_. False), se_pending_action = (\<lambda>_. False), se_links = (\<lambda>_ _. True),
     se_unresolved = (\<lambda>_ _. False), se_open_legs = (\<lambda>_ _. if exposed then [JStr ''SBIN''] else []), se_broker_positions = (\<lambda>_ _. []),
     se_attributed = (\<lambda>_ _. Inr []), se_refresh = (\<lambda>_. Inr [])\<rparr>"

theorem recovery_closes_settled_runs_witness: "settled_run (demo_settlement False) ''r1'' demo_exited_run"
proof -
  let ?w = "snd (recover_exiting_runs_once (demo_settlement False) 2000000 [(''r1'', demo_exited_run)] demo_exited)"
  have r: "run_row demo_exited ''r1'' = Some demo_exited_run" "pr_status demo_exited_run \<noteq> ''closed''" by code_simp+
  have "(case run_row ?w ''r1'' of Some r \<Rightarrow> pr_status r = ''closed'' | None \<Rightarrow> False)" by code_simp
  then obtain r' where r': "run_row ?w ''r1'' = Some r'" "pr_status r' = ''closed''" by (auto split: option.splits)
  have m: "run_mode demo_exited_run \<notin> {''dry_run'', ''paper''}" by code_simp
  show ?thesis using recovery_closes_settled_runs [OF r r'] m by auto
qed

text \<open>
  The recovery of exiting runs reads the row while the protection exit is under way and writes the
  protection state of that row back after the exit was recorded.
\<close>

definition race_snapshot :: "(string \<times> protected_run) list" where
  "race_snapshot =
     (case demo_verdict 97 of
        Inr verdict \<Rightarrow> exiting_recovery_rows (demo_exiting (snd (claim_exit demo_env ''r1'' demo_run 1000000 ''c1'' verdict demo_world)))
      | Inl _ \<Rightarrow> [])"

definition race_recovered :: protection_world where
  "race_recovered = snd (recover_exiting_runs_once (demo_settlement True) 2000000 race_snapshot demo_exited)"

definition race_run :: protected_run where
  "race_run = (case run_row race_recovered ''r1'' of Some r \<Rightarrow> r | None \<Rightarrow> demo_run)"

text \<open>
  Recovery undoes a recorded exit: it writes back the whole runtime state it read before the exit
  was recorded, so that the run is no longer marked as exited, and the next evaluation after
  the claim's minute submits a second final exit.
\<close>

lemma recovery_reopens_submitted_exit:
  "map_option submitted_row (run_row demo_exited ''r1'') = Some True \<and> map_option submitted_row (run_row race_recovered ''r1'') = Some False
    \<and> exits_of ''r1'' (demo_evaluation 62000000 ''c2'' race_run demo_exiting race_recovered) = [True, True]"
  by (intro conjI) code_simp+

text \<open>
  A retry does not expect the claim it replaces: two evaluators that read the same row after a
  deferred answer both claim the exit.
\<close>

definition deferred_world :: protection_world where
  "deferred_world = snd (evaluate_entry demo_env ''r1'' demo_run 1000000 ''c1'' (Inr [demo_leg 97]) (ExitAnswered [(''status'', JStr ''deferred'')]) (\<lambda>v. v) demo_world)"

lemma retry_claims_are_not_exclusive:
  "(case run_row deferred_world ''r1'' of
      Some r \<Rightarrow> exits_of ''r1'' (demo_evaluation 70000000 ''c3'' r (\<lambda>v. v) (demo_evaluation 70000000 ''c2'' r (\<lambda>v. v) deferred_world)) = [False, True, True]
    | None \<Rightarrow> False)"
  by code_simp

end
