(* ===== verification/Messages.thy ===== *)
theory Messages
  imports Json
begin

text \<open>
  The text of a notification and its delivery to a provider: the message builders of
  \<open>notifications/message.py\<close> and the adapters of \<open>notifications/adapters\<close>, with the environment and
  the HTTP exchange as arguments. The horizontal ellipsis of the truncation marker is the one
  character of code 133.
\<close>

section \<open>Rendering of values and instants\<close>

definition py_quote :: "string \<Rightarrow> char" where
  "py_quote s = (if char_of (39::nat) \<in> set s \<and> char_of (34::nat) \<notin> set s then char_of (34::nat) else char_of (39::nat))"

definition repr_char :: "char \<Rightarrow> char \<Rightarrow> string" where
  "repr_char q c =
     (let n = (of_char c :: nat); bs = char_of (92::nat) in
      if c = q \<or> c = bs then [bs, c]
      else if n = 10 then [bs, CHR ''n''] else if n = 13 then [bs, CHR ''r''] else if n = 9 then [bs, CHR ''t'']
      else if n < 32 \<or> 127 \<le> n \<and> n \<le> 160 \<or> n = 173 then [bs, CHR ''x'', hex_digit (n div 16), hex_digit (n mod 16)]
      else [c])"

text \<open>\<open>repr(v)\<close>, which \<open>str\<close> uses for the members of a container.\<close>

fun py_repr :: "jval \<Rightarrow> string" where
  "py_repr JNull = ''None''"
| "py_repr (JBool b) = (if b then ''True'' else ''False'')"
| "py_repr (JInt i) = int_str i"
| "py_repr (JNum r) = flt_str r"
| "py_repr (JStr s) = [py_quote s] @ concat (map (repr_char (py_quote s)) s) @ [py_quote s]"
| "py_repr (JTime t) = [char_of (39::nat)] @ int_str t @ [char_of (39::nat)]"
| "py_repr (JList xs) = ''['' @ join '', '' (map py_repr xs) @ '']''"
| "py_repr (JObj kvs) =
     ''{'' @ join '', '' (map (\<lambda>(k, r). [py_quote k] @ concat (map (repr_char (py_quote k)) k) @ [py_quote k] @ '': '' @ r) (map (\<lambda>(k, v). (k, py_repr v)) kvs)) @ ''}''"

definition text_of :: "jval \<Rightarrow> string" where
  "text_of v = (case v of JStr s \<Rightarrow> s | JTime t \<Rightarrow> int_str t | _ \<Rightarrow> py_repr v)"

text \<open>The proleptic Gregorian date of a day counted from 1 January 1970.\<close>

definition civil_date :: "int \<Rightarrow> int \<times> int \<times> int" where
  "civil_date days =
     (let z = days + 719468; era = z div 146097; doe = z mod 146097;
          yoe = (doe - doe div 1460 + doe div 36524 - doe div 146096) div 365;
          doy = doe - (365 * yoe + yoe div 4 - yoe div 100);
          mp = (5 * doy + 2) div 153;
          d = doy - (153 * mp + 2) div 5 + 1; m = (if mp < 10 then mp + 3 else mp - 9)
      in (yoe + era * 400 + (if m \<le> 2 then 1 else 0), m, d))"

definition two_digits :: "int \<Rightarrow> string" where
  "two_digits n = (if n < 10 then ''0'' else []) @ int_str n"

definition strftime :: "int \<Rightarrow> string" where
  "strftime t =
     (let s = t div 1000000; day = s div 86400; r = s mod 86400; (y, m, d) = civil_date day
      in int_str y @ ''-'' @ two_digits m @ ''-'' @ two_digits d @ '' '' @ two_digits (r div 3600) @ '':'' @ two_digits (r div 60 mod 60)
         @ '':'' @ two_digits (r mod 60))"

definition format_event_time :: "instant \<Rightarrow> string \<times> string" where
  "format_event_time moment = (strftime (moment + seconds 19800) @ '' IST'', strftime moment @ '' UTC'')"

section \<open>Messages\<close>

definition subject_max :: nat where
  "subject_max = 120"

definition body_max :: nat where
  "body_max = 3800"

definition truncation_marker :: string where
  "truncation_marker = char_of (133::nat) # ''[truncated]''"

fun contains :: "string \<Rightarrow> string \<Rightarrow> bool" where
  "contains [] t = (t = [])"
| "contains (c # cs) t = (starts_with (c # cs) t \<or> contains cs t)"

definition newline :: string where
  "newline = [char_of (10::nat)]"

definition cap_subject :: "string \<Rightarrow> string" where
  "cap_subject s = take subject_max s"

definition cap_body :: "string \<Rightarrow> string option \<Rightarrow> string" where
  "cap_body body eid =
     (if length body \<le> body_max then body
      else
        let suffix = (case eid of Some e \<Rightarrow> newline @ ''event_id: '' @ e | None \<Rightarrow> []);
            room = body_max - length truncation_marker
        in if room < length suffix
             then truncation_marker @ drop (length suffix - room) suffix
           else take (room - length suffix) body @ truncation_marker @ suffix)"

definition id_line :: "string option \<Rightarrow> string" where
  "id_line eid = ''event_id: '' @ (case eid of Some e \<Rightarrow> e | None \<Rightarrow> ''-'')"

definition time_line :: "string \<Rightarrow> string \<Rightarrow> string" where
  "time_line ist utc = ''time: '' @ ist @ '' ('' @ utc @ '')''"

definition default_body :: "string \<Rightarrow> string \<Rightarrow> jobj \<Rightarrow> string option \<Rightarrow> string \<Rightarrow> string \<Rightarrow> string" where
  "default_body rule_name instrument_key evidence eid ist utc =
     join newline
       ([''rule: '' @ rule_name, ''symbol: '' @ instrument_key,
         ''values: '' @ join '' '' (map (\<lambda>k. k @ ''='' @ text_of (obj_get evidence k)) (sort (map fst evidence)))]
        @ (if dict_has evidence ''condition'' then [''condition: '' @ text_of (obj_get evidence ''condition'')] else [])
        @ (if dict_has evidence ''timeframe'' then [''timeframe: '' @ text_of (obj_get evidence ''timeframe'')] else [])
        @ [time_line ist utc, id_line eid])"

text \<open>The values an evidence gives a placeholder; it is usable when they agree.\<close>

definition evidence_values :: "jobj \<Rightarrow> string \<Rightarrow> string list" where
  "evidence_values evidence key =
     concat (map (\<lambda>(k, v). case v of
         JObj inner \<Rightarrow> if obj_get inner key \<noteq> JNull then [text_of (obj_get inner key)] else []
       | _ \<Rightarrow> if k = key \<and> v \<noteq> JNull then [text_of v] else []) evidence)"

definition flatten_condition_evidence :: "jobj \<Rightarrow> (string, string) dict" where
  "flatten_condition_evidence evidence =
     concat (map (\<lambda>key. case dedup (evidence_values evidence key) of [x] \<Rightarrow> [(key, x)] | _ \<Rightarrow> []) [''ltp'', ''level''])"

definition is_word :: "char \<Rightarrow> bool" where
  "is_word c =
     (let n = (of_char c :: nat) in
      48 \<le> n \<and> n \<le> 57 \<or> 65 \<le> n \<and> n \<le> 90 \<or> n = 95 \<or> 97 \<le> n \<and> n \<le> 122
      \<or> n \<in> {170, 178, 179, 181, 185, 186, 188, 189, 190} \<or> 192 \<le> n \<and> n \<noteq> 215 \<and> n \<noteq> 247)"

function substitute :: "(string \<Rightarrow> string) \<Rightarrow> string \<Rightarrow> string" where
  "substitute f s =
     (case s of
        [] \<Rightarrow> []
      | c # cs \<Rightarrow>
          if c = CHR ''$'' \<and> starts_with cs ''{'' \<and> takeWhile is_word (tl cs) \<noteq> [] \<and> starts_with (dropWhile is_word (tl cs)) ''}''
            then f (takeWhile is_word (tl cs)) @ substitute f (tl (dropWhile is_word (tl cs)))
          else c # substitute f cs)"
  by auto
termination
proof (relation "measure (\<lambda>(f, s). length s)", goal_cases)
  case (2 f s c cs)
  have "length (dropWhile is_word (tl cs)) \<le> length cs" using length_dropWhile_le [of is_word "tl cs"] by simp
  then show ?case using 2 by simp
qed auto

declare substitute.simps [simp del]

definition render_template :: "string \<Rightarrow> string \<Rightarrow> string \<Rightarrow> jobj \<Rightarrow> string option \<Rightarrow> string \<Rightarrow> string" where
  "render_template template rule_name instrument_key evidence eid ist =
     (let flat = flatten_condition_evidence evidence; get = (\<lambda>k. case dict_get flat k of Some v \<Rightarrow> v | None \<Rightarrow> ''-'');
          values = [(''symbol'', instrument_key), (''rule'', rule_name), (''time'', ist), (''event_id'', case eid of Some e \<Rightarrow> e | None \<Rightarrow> ''-''),
                    (''level'', get ''level''), (''ltp'', get ''ltp'')]
      in substitute (\<lambda>name. case dict_get values name of Some v \<Rightarrow> v | None \<Rightarrow> ''-'') template)"

definition build_message :: "string \<Rightarrow> string \<Rightarrow> jobj \<Rightarrow> instant \<Rightarrow> string option \<Rightarrow> string option \<Rightarrow> string \<times> string" where
  "build_message rule_name instrument_key evidence fired_at template eid =
     (let (ist, utc) = format_event_time fired_at;
          body = (if str_truthy template then render_template (opt_str template) rule_name instrument_key evidence eid ist
                  else default_body rule_name instrument_key evidence eid ist utc);
          body1 = (case eid of Some e \<Rightarrow> if contains body e then body else body @ newline @ ''event_id: '' @ e | None \<Rightarrow> body)
      in (cap_subject (''[Alert] '' @ rule_name @ '': '' @ instrument_key), cap_body body1 eid))"

definition get_or_dash :: "jobj \<Rightarrow> string \<Rightarrow> string" where
  "get_or_dash evidence k = (case dict_get evidence k of Some v \<Rightarrow> text_of v | None \<Rightarrow> ''-'')"

definition rank_line :: "jobj \<Rightarrow> string list" where
  "rank_line evidence =
     (if obj_get evidence ''rank'' = JNull then []
      else [''rank: '' @ text_of (obj_get evidence ''rank'')
        @ (if obj_get evidence ''prev_rank'' = JNull then []
           else '' (prev '' @ text_of (obj_get evidence ''prev_rank'')
             @ (if obj_get evidence ''rank_delta'' = JNull then [] else '', delta '' @ text_of (obj_get evidence ''rank_delta'')) @ '')'')])"

definition values_line :: "jobj \<Rightarrow> string list" where
  "values_line evidence =
     (case obj_get evidence ''values'' of
        JObj (v # vs) \<Rightarrow> [''values: '' @ join '', '' (map (\<lambda>k. k @ ''='' @ text_of (obj_get (v # vs) k)) (sort (map fst (v # vs))))]
      | _ \<Rightarrow> [])"

definition build_screener_message :: "string \<Rightarrow> jobj \<Rightarrow> string option \<Rightarrow> string \<Rightarrow> string \<Rightarrow> string \<Rightarrow> string \<times> string" where
  "build_screener_message screener_name evidence eid ist utc instrument_key =
     (cap_subject (''[Screener] '' @ screener_name @ '': '' @ instrument_key),
      cap_body (join newline
        ([''screener: '' @ screener_name,
          ''trigger: '' @ get_or_dash evidence ''trigger'' @ '' ('' @ get_or_dash evidence ''action'' @ '')'',
          ''symbol: '' @ instrument_key]
         @ rank_line evidence @ values_line evidence
         @ (if jtruth (obj_get evidence ''scheduled_for'') then [''run_as_of: '' @ text_of (obj_get evidence ''scheduled_for'')] else [])
         @ [time_line ist utc, id_line eid])) eid)"

text \<open>What iterating over the contributors yields; a number or a true boolean raises.\<close>

definition contributors :: "jval \<Rightarrow> string + string list" where
  "contributors v =
     (if \<not> jtruth v then Inr []
      else (case v of
          JList xs \<Rightarrow> Inr (map text_of xs)
        | JObj kvs \<Rightarrow> Inr (map fst kvs)
        | JStr s \<Rightarrow> Inr (map (\<lambda>c. [c]) s)
        | JTime t \<Rightarrow> Inr (map (\<lambda>c. [c]) (int_str t))
        | _ \<Rightarrow> Inl ''TypeError''))"

definition build_breadth_message :: "string \<Rightarrow> string \<Rightarrow> jobj \<Rightarrow> string option \<Rightarrow> string \<Rightarrow> string \<Rightarrow> string + string \<times> string" where
  "build_breadth_message workflow_name stage_id evidence eid ist utc =
     (let threshold = text_of (obj_get evidence ''threshold''); count = text_of (obj_get evidence ''count'') in
      case contributors (obj_get evidence ''instruments'') of
        Inl e \<Rightarrow> Inl e
      | Inr names \<Rightarrow> Inr
          (cap_subject (''[Breadth] '' @ workflow_name @ '': '' @ count @ ''/'' @ threshold @ '' instruments''),
           cap_body (join newline
             ([''workflow: '' @ workflow_name, ''stage: '' @ stage_id, ''mode: '' @ get_or_dash evidence ''mode'',
               ''trigger: '' @ get_or_dash evidence ''trigger'' @ '' ('' @ get_or_dash evidence ''action'' @ '')'',
               ''count: '' @ count @ '' of '' @ threshold @ '' distinct instruments'']
              @ (if names \<noteq> [] then [''instruments: '' @ join '', '' names] else [])
              @ (if jtruth (obj_get evidence ''window_start'') then [''window_start: '' @ text_of (obj_get evidence ''window_start'')] else [])
              @ (if obj_get evidence ''members'' \<noteq> JNull then [''members_evaluated: '' @ text_of (obj_get evidence ''members'')] else [])
              @ (if obj_get evidence ''universe_revision'' \<noteq> JNull
                 then [''universe_revision: '' @ text_of (obj_get evidence ''universe_revision'')] else [])
              @ [time_line ist utc, id_line eid])) eid))"

definition build_run_message :: "string \<Rightarrow> string \<Rightarrow> instant \<Rightarrow> string option \<Rightarrow> string option \<Rightarrow> string \<times> string" where
  "build_run_message run_id text1 fired_at subject eid =
     (let (ist, utc) = format_event_time fired_at
      in (cap_subject (str_or subject (''[Strategy] '' @ run_id)),
          cap_body (join newline [''run: '' @ run_id, ''message: '' @ str_strip text1, time_line ist utc, id_line eid]) eid))"

section \<open>Adapters\<close>

record delivery_outcome =
  oc_status :: string
  oc_provider_id :: "string option"
  oc_retry_after :: "int option"
  oc_detail :: string

definition outcome :: "string \<Rightarrow> string \<Rightarrow> delivery_outcome" where
  "outcome status detail = \<lparr>oc_status = status, oc_provider_id = None, oc_retry_after = None, oc_detail = detail\<rparr>"

definition truncate_text :: "string \<Rightarrow> nat \<Rightarrow> string \<Rightarrow> string" where
  "truncate_text s limit marker =
     (if length s \<le> limit then s
      else if limit \<le> length marker then take limit s
      else take (limit - length marker) s @ marker)"

definition secret_env_destination_key :: "(string, string) dict" where
  "secret_env_destination_key = [(''telegram'', ''token_env''), (''ntfy'', ''url_env'')]"

definition merge_secret_env :: "string \<Rightarrow> jobj \<Rightarrow> string option \<Rightarrow> jobj" where
  "merge_secret_env provider destination secret_env =
     (case dict_get secret_env_destination_key (str_lower (str_strip provider)) of
        Some key \<Rightarrow> if str_truthy secret_env then dict_set key (JStr (opt_str secret_env)) destination else destination
      | None \<Rightarrow> destination)"

text \<open>The registry of adapter factories; an adapter is known by what it sends.\<close>

definition register_adapter :: "string \<Rightarrow> 'f option \<Rightarrow> (string, 'f) dict \<Rightarrow> 'f option \<times> (string, 'f) dict" where
  "register_adapter provider factory factories =
     (dict_get factories provider,
      case factory of None \<Rightarrow> dict_pop provider factories | Some f \<Rightarrow> dict_set provider f factories)"

definition get_adapter :: "(string, 'f) dict \<Rightarrow> string \<Rightarrow> string + 'f" where
  "get_adapter factories provider =
     (case dict_get factories provider of
        None \<Rightarrow> Inl (''unknown notification provider: '' @ py_repr (JStr provider))
      | Some f \<Rightarrow> Inr f)"

record http_response =
  hr_code :: int
  hr_json :: "jval option"
  hr_headers :: "(string, string) dict"

datatype http_answer = NetworkError string | UnexpectedError string | Response http_response

record http_request =
  hq_url :: string
  hq_title :: "string option"
  hq_chat :: jval
  hq_text :: string

definition json_field :: "http_response \<Rightarrow> string \<Rightarrow> jval" where
  "json_field r k = (case hr_json r of Some (JObj d) \<Rightarrow> obj_get d k | _ \<Rightarrow> JNull)"

definition header_retry_after :: "http_response \<Rightarrow> int" where
  "header_retry_after r =
     (case dict_get (hr_headers r) ''Retry-After'' of
        Some h \<Rightarrow> if h = [] then 5 else (case parse_int h of Some n \<Rightarrow> max 1 n | None \<Rightarrow> 5)
      | None \<Rightarrow> 5)"

definition telegram_retry_after :: "http_response \<Rightarrow> int" where
  "telegram_retry_after r =
     (case json_field r ''parameters'' of
        JObj d \<Rightarrow> if obj_get d ''retry_after'' = JNull then header_retry_after r
                  else (case py_int (obj_get d ''retry_after'') of Some n \<Rightarrow> max 1 n | None \<Rightarrow> header_retry_after r)
      | _ \<Rightarrow> header_retry_after r)"

definition message_id :: "http_response \<Rightarrow> string option" where
  "message_id r =
     (case json_field r ''result'' of
        JObj d \<Rightarrow> if obj_get d ''message_id'' = JNull then None else Some (text_of (obj_get d ''message_id''))
      | _ \<Rightarrow> None)"

definition error_description :: "http_response \<Rightarrow> string" where
  "error_description r =
     (let d = json_field r ''description''
      in if jtruth d then '': '' @ truncate_text (text_of d) 200 [char_of (133::nat)] else [])"

definition classify_code :: "int \<Rightarrow> string option \<Rightarrow> int \<Rightarrow> string \<Rightarrow> delivery_outcome" where
  "classify_code code provider_id retry_after description =
     (if 200 \<le> code \<and> code < 300 then (outcome ''accepted'' ''accepted'')\<lparr>oc_provider_id := provider_id\<rparr>
      else if code = 429 then (outcome ''retryable'' (''rate limited (HTTP 429)'' @ description))\<lparr>oc_retry_after := Some retry_after\<rparr>
      else if 500 \<le> code \<and> code < 600 then outcome ''retryable'' (''server error (HTTP '' @ int_str code @ '')'' @ description)
      else outcome ''permanent'' (''rejected (HTTP '' @ int_str code @ '')'' @ description))"

definition classify_answer :: "(http_response \<Rightarrow> delivery_outcome) \<Rightarrow> http_answer \<Rightarrow> delivery_outcome" where
  "classify_answer classify answer =
     (case answer of
        NetworkError e \<Rightarrow> outcome ''unknown'' (''network error: '' @ e)
      | UnexpectedError e \<Rightarrow> outcome ''unknown'' (''unexpected error: '' @ e)
      | Response r \<Rightarrow> classify r)"

definition telegram_classify :: "http_response \<Rightarrow> delivery_outcome" where
  "telegram_classify r = classify_code (hr_code r) (message_id r) (telegram_retry_after r) (error_description r)"

definition ntfy_classify :: "http_response \<Rightarrow> delivery_outcome" where
  "ntfy_classify r =
     classify_code (hr_code r) (case dict_get (hr_headers r) ''X-Ntfy-Id'' of Some i \<Rightarrow> if i = [] then None else Some i | None \<Rightarrow> None)
       (header_retry_after r) []"

text \<open>The environment variable a destination names, or the provider's default.\<close>

definition env_name :: "jobj \<Rightarrow> string \<Rightarrow> string \<Rightarrow> string" where
  "env_name destination key fallback =
     (if jtruth (obj_get destination key) then text_of (obj_get destination key) else fallback)"

definition telegram_send ::
  "(string \<Rightarrow> string option) \<Rightarrow> (http_request \<Rightarrow> http_answer) \<Rightarrow> jobj \<Rightarrow> string \<Rightarrow> string \<Rightarrow> delivery_outcome \<times> http_request option" where
  "telegram_send environ post destination subject body =
     (let token_env = env_name destination ''token_env'' ''TELEGRAM_BOT_TOKEN''; chat = obj_get destination ''chat_id'' in
      if \<not> jtruth chat then (outcome ''permanent'' ''missing chat_id in destination'', None)
      else (case environ token_env of
          Some (t # ts) \<Rightarrow>
            let request = \<lparr>hq_url = ''https://api.telegram.org/bot'' @ (t # ts) @ ''/sendMessage'', hq_title = None, hq_chat = chat,
                  hq_text = truncate_text (if subject \<noteq> [] then subject @ newline @ body else body) 4096 truncation_marker\<rparr>
            in (classify_answer telegram_classify (post request), Some request)
        | _ \<Rightarrow> (outcome ''permanent'' (''missing env var '' @ token_env), None)))"

definition ntfy_send ::
  "(string \<Rightarrow> string option) \<Rightarrow> (http_request \<Rightarrow> http_answer) \<Rightarrow> jobj \<Rightarrow> string \<Rightarrow> string \<Rightarrow> delivery_outcome \<times> http_request option" where
  "ntfy_send environ post destination subject body =
     (let url_env = env_name destination ''url_env'' ''NTFY_PRIMARY_URL'' in
      case environ url_env of
        Some (u # us) \<Rightarrow>
          let request = \<lparr>hq_url = u # us, hq_title = Some (truncate_text subject 512 truncation_marker), hq_chat = JNull,
                hq_text = truncate_text body 4096 truncation_marker\<rparr>
          in (classify_answer ntfy_classify (post request), Some request)
      | _ \<Rightarrow> (outcome ''permanent'' (''missing env var '' @ url_env), None))"

end
