(* ===== verification/Outbox.thy ===== *)
theory Outbox
  imports Messages
begin

text \<open>
  The notification outbox: channels, signal events, deliveries and their attempts
  (\<open>notifications/repository.py\<close>, and the writers of events in \<open>workflows\<close>), and the worker that
  claims, sends and records them (\<open>notifications/worker.py\<close>).

  A repository operation is one transaction. The unique identifiers are drawn from a generator,
  \<open>ob_ids\<close> counting how many were drawn; the unique occurrence key of the schema is a guard, and
  its foreign keys are checked where rows are deleted, the one place that can break them. The worker's steps
  that other processes may interleave with are separate: it claims, checks its claim before it
  sends, and records, each against the store of that moment.
\<close>

section \<open>Tables\<close>

record channel_reference =
  ch_id :: string
  ch_owner :: string
  ch_name :: string
  ch_provider :: string
  ch_destination :: jobj
  ch_secret_env :: "string option"
  ch_enabled :: bool
  ch_created_at :: instant

record signal_event =
  sg_id :: string
  sg_subscription :: "string option"
  sg_workflow :: "string option"
  sg_occurrence :: string
  sg_fired_at :: instant
  sg_evidence :: jobj
  sg_source_kind :: string
  sg_owner :: "string option"
  sg_run :: "string option"
  sg_created_at :: instant

record delivery =
  de_id :: string
  de_event :: string
  de_channel :: string
  de_status :: string
  de_attempts :: nat
  de_next_attempt_at :: "instant option"
  de_lease_until :: "instant option"
  de_last_error :: "string option"
  de_delivered_at :: "instant option"
  de_created_at :: instant
  de_updated_at :: instant

record delivery_attempt =
  da_delivery :: string
  da_no :: nat
  da_outcome :: string
  da_detail :: string
  da_provider_id :: "string option"
  da_created_at :: instant

record outbox =
  ob_channels :: "(string, channel_reference) dict"
  ob_events :: "(string, signal_event) dict"
  ob_deliveries :: "(string, delivery) dict"
  ob_attempts :: "delivery_attempt list"
  ob_ids :: nat

datatype outbox_error = LeaseConflict | MissingRow string | BadArgument string | Raised string | RunNotificationError int string string | IntegrityError

definition delivery_statuses :: "string list" where
  "delivery_statuses = [''pending'', ''delivering'', ''delivered'', ''retrying'', ''failed'', ''expired'']"

section \<open>Channels\<close>

definition channel_by_name :: "string \<Rightarrow> string \<Rightarrow> outbox \<Rightarrow> channel_reference option" where
  "channel_by_name owner name ob = find (\<lambda>c. ch_owner c = owner \<and> ch_name c = name) (map snd (ob_channels ob))"

definition upsert_channel ::
  "(nat \<Rightarrow> string) \<Rightarrow> string \<Rightarrow> string \<Rightarrow> string \<Rightarrow> jobj \<Rightarrow> string option \<Rightarrow> bool \<Rightarrow> instant \<Rightarrow> outbox \<Rightarrow> channel_reference \<times> outbox" where
  "upsert_channel gen owner name provider destination secret_env enabled now ob =
     (case channel_by_name owner name ob of
        Some c \<Rightarrow>
          let c1 = c\<lparr>ch_provider := provider, ch_destination := destination, ch_secret_env := secret_env, ch_enabled := enabled\<rparr>
          in (c1, ob\<lparr>ob_channels := dict_set (ch_id c) c1 (ob_channels ob)\<rparr>)
      | None \<Rightarrow>
          let i = gen (ob_ids ob);
              c1 = \<lparr>ch_id = i, ch_owner = owner, ch_name = name, ch_provider = provider, ch_destination = destination, ch_secret_env = secret_env,
                    ch_enabled = enabled, ch_created_at = now\<rparr>
          in (c1, ob\<lparr>ob_channels := dict_set i c1 (ob_channels ob), ob_ids := ob_ids ob + 1\<rparr>))"

definition list_channels :: "string \<Rightarrow> outbox \<Rightarrow> channel_reference list" where
  "list_channels owner ob = sort_key ch_created_at (sort_key ch_id (filter (\<lambda>c. ch_owner c = owner) (map snd (ob_channels ob))))"

definition get_channel :: "string \<Rightarrow> outbox \<Rightarrow> channel_reference option" where
  "get_channel i ob = dict_get (ob_channels ob) i"

definition get_delivery :: "string \<Rightarrow> outbox \<Rightarrow> delivery option" where
  "get_delivery i ob = dict_get (ob_deliveries ob) i"

section \<open>Events and their deliveries\<close>

definition event_by_occurrence :: "string \<Rightarrow> outbox \<Rightarrow> signal_event option" where
  "event_by_occurrence key ob = find (\<lambda>e. sg_occurrence e = key) (map snd (ob_events ob))"

definition pending_delivery :: "string \<Rightarrow> string \<Rightarrow> string \<Rightarrow> instant \<Rightarrow> delivery" where
  "pending_delivery i event channel timestamp =
     \<lparr>de_id = i, de_event = event, de_channel = channel, de_status = ''pending'', de_attempts = 0, de_next_attempt_at = Some timestamp,
      de_lease_until = None, de_last_error = None, de_delivered_at = None, de_created_at = timestamp, de_updated_at = timestamp\<rparr>"

fun add_deliveries :: "(nat \<Rightarrow> string) \<Rightarrow> string \<Rightarrow> instant \<Rightarrow> string list \<Rightarrow> outbox \<Rightarrow> outbox" where
  "add_deliveries gen event timestamp [] ob = ob"
| "add_deliveries gen event timestamp (c # cs) ob =
     (let i = gen (ob_ids ob)
      in add_deliveries gen event timestamp cs
           (ob\<lparr>ob_deliveries := dict_set i (pending_delivery i event c timestamp) (ob_deliveries ob), ob_ids := ob_ids ob + 1\<rparr>))"

text \<open>An event with one pending delivery per channel; a used occurrence key is the integrity error.\<close>

definition insert_event ::
  "(nat \<Rightarrow> string) \<Rightarrow> (string \<Rightarrow> signal_event) \<Rightarrow> string list \<Rightarrow> instant \<Rightarrow> outbox \<Rightarrow> (signal_event \<times> outbox) option" where
  "insert_event gen mk channels timestamp ob =
     (let i = gen (ob_ids ob); e = mk i in
      if event_by_occurrence (sg_occurrence e) ob \<noteq> None then None
      else Some (e, add_deliveries gen i timestamp (dedup channels)
                      (ob\<lparr>ob_events := dict_set i e (ob_events ob), ob_ids := ob_ids ob + 1\<rparr>)))"

definition insert_signal ::
  "(nat \<Rightarrow> string) \<Rightarrow> string option \<Rightarrow> string \<Rightarrow> instant \<Rightarrow> jobj \<Rightarrow> string list \<Rightarrow> string option \<Rightarrow> instant \<Rightarrow> outbox \<Rightarrow> signal_event option \<times> outbox" where
  "insert_signal gen subscription key fired_at evidence channels workflow now ob =
     (case insert_event gen (\<lambda>i. \<lparr>sg_id = i, sg_subscription = subscription, sg_workflow = workflow,
              sg_occurrence = key, sg_fired_at = fired_at, sg_evidence = evidence, sg_source_kind = ''workflow'', sg_owner = None, sg_run = None,
              sg_created_at = now\<rparr>) channels now ob of
        None \<Rightarrow> (None, ob)
      | Some (e, ob1) \<Rightarrow> (Some e, ob1))"

definition record_signal ::
  "(nat \<Rightarrow> string) \<Rightarrow> string option \<Rightarrow> string \<Rightarrow> instant \<Rightarrow> jobj \<Rightarrow> string list \<Rightarrow> string option \<Rightarrow> instant \<Rightarrow> outbox \<Rightarrow> signal_event option \<times> outbox" where
  "record_signal gen subscription key fired_at evidence channels workflow now ob =
     insert_signal gen subscription key fired_at evidence channels (if str_truthy workflow then workflow else None) now ob"

record attachment_event =
  at_occurrence :: string
  at_fired_at :: instant
  at_evidence :: jobj
  at_channels :: "string list"

fun insert_attachment_events ::
  "(nat \<Rightarrow> string) \<Rightarrow> string \<Rightarrow> attachment_event list \<Rightarrow> instant \<Rightarrow> nat \<Rightarrow> outbox \<Rightarrow> nat \<times> outbox" where
  "insert_attachment_events gen workflow [] timestamp published ob = (published, ob)"
| "insert_attachment_events gen workflow (a # events) timestamp published ob =
     (case insert_signal gen None (at_occurrence a) (at_fired_at a) (at_evidence a) (at_channels a) (Some workflow) timestamp ob of
        (None, ob1) \<Rightarrow> insert_attachment_events gen workflow events timestamp published ob1
      | (Some e, ob1) \<Rightarrow> insert_attachment_events gen workflow events timestamp (published + 1) ob1)"

section \<open>Notifications of a run\<close>

fun resolve_channel_names :: "string \<Rightarrow> string list \<Rightarrow> outbox \<Rightarrow> outbox_error + channel_reference list" where
  "resolve_channel_names owner [] ob = Inr []"
| "resolve_channel_names owner (name # names) ob =
     (let rows = filter (\<lambda>c. ch_name c = name) (map snd (ob_channels ob)); owned = filter (\<lambda>c. ch_owner c = owner) rows in
      case owned of
        c # _ \<Rightarrow>
          if \<not> ch_enabled c then Inl (RunNotificationError 422 ''channel_disabled'' (''channel '' @ py_repr (JStr name) @ '' is disabled''))
          else map_sum id (\<lambda>cs. c # cs) (resolve_channel_names owner names ob)
      | [] \<Rightarrow>
          if rows \<noteq> [] then Inl (RunNotificationError 403 ''channel_not_authorized'' (''channel '' @ py_repr (JStr name) @ '' is not authorized''))
          else Inl (RunNotificationError 422 ''unknown_channel'' (''unknown channel '' @ py_repr (JStr name))))"

definition resolve_run_channels :: "string \<Rightarrow> string list \<Rightarrow> outbox \<Rightarrow> outbox_error + channel_reference list" where
  "resolve_run_channels owner channel_names ob =
     (let names = dedup (filter (\<lambda>n. n \<noteq> []) (map str_strip channel_names)) in
      if names = [] then Inl (RunNotificationError 422 ''channel_required'' ''at least one channel is required'')
      else resolve_channel_names owner names ob)"

definition run_content_hash :: "(string \<Rightarrow> string) \<Rightarrow> string list \<Rightarrow> string \<Rightarrow> string option \<Rightarrow> string" where
  "run_content_hash sha channel_ids body subject =
     sha (json_dumps (JObj [(''channels'', JList (map JStr (sort channel_ids))), (''text'', JStr body),
            (''subject'', case subject of Some s \<Rightarrow> JStr s | None \<Rightarrow> JNull)]))"

record run_notification_result =
  rr_status :: string
  rr_event :: string
  rr_run :: string
  rr_deliveries :: nat
  rr_hash :: string

definition run_event :: "string \<Rightarrow> string \<Rightarrow> string list \<Rightarrow> string \<Rightarrow> string option \<Rightarrow> string \<Rightarrow> instant \<Rightarrow> string \<Rightarrow> string \<Rightarrow> signal_event" where
  "run_event owner run names body subject key fired_at hash i =
     \<lparr>sg_id = i, sg_subscription = None, sg_workflow = None, sg_occurrence = key, sg_fired_at = fired_at,
      sg_evidence = [(''message_kind'', JStr ''strategy_run''), (''run_id'', JStr run), (''text'', JStr body),
        (''subject'', case subject of Some s \<Rightarrow> JStr s | None \<Rightarrow> JNull), (''content_sha256'', JStr hash),
        (''channels'', JList (map JStr names))],
      sg_source_kind = ''strategy_run'', sg_owner = Some owner, sg_run = Some run, sg_created_at = fired_at\<rparr>"

definition replay_run_notification ::
  "(string \<Rightarrow> string) \<Rightarrow> string \<Rightarrow> string \<Rightarrow> string list \<Rightarrow> string \<Rightarrow> string option \<Rightarrow> string \<Rightarrow> outbox \<Rightarrow> outbox_error + run_notification_result" where
  "replay_run_notification sha owner run channel_names body subject key ob =
     (case event_by_occurrence key ob of
        None \<Rightarrow> Inl (RunNotificationError 409 ''idempotency_conflict'' ''idempotency key already used'')
      | Some e \<Rightarrow>
          if str_or (sg_owner e) [] \<noteq> owner then Inl (RunNotificationError 409 ''idempotency_conflict'' ''idempotency key already used'')
          else (case resolve_run_channels owner channel_names ob of
              Inl err \<Rightarrow> Inl err
            | Inr channels \<Rightarrow>
                let v = obj_get (sg_evidence e) ''content_sha256''; existing = (if jtruth v then text_of v else []) in
                if existing \<noteq> run_content_hash sha (map ch_id channels) body subject
                  then Inl (RunNotificationError 409 ''idempotency_conflict'' ''idempotency key reused with different content'')
                else Inr \<lparr>rr_status = ''deduped'', rr_event = sg_id e, rr_run = run,
                       rr_deliveries = length (filter (\<lambda>d. de_event d = sg_id e) (map snd (ob_deliveries ob))), rr_hash = existing\<rparr>))"

definition enqueue_run_notification ::
  "(nat \<Rightarrow> string) \<Rightarrow> (string \<Rightarrow> string) \<Rightarrow> string \<Rightarrow> string \<Rightarrow> string list \<Rightarrow> string \<Rightarrow> string \<Rightarrow> string option \<Rightarrow> instant \<Rightarrow> outbox
   \<Rightarrow> (outbox_error + run_notification_result) \<times> outbox" where
  "enqueue_run_notification gen sha owner run_id channel_names message idempotency_key subject fired_at ob =
     (let run = str_strip run_id; key = str_strip idempotency_key; body = str_strip message in
      if run = [] then (Inl (RunNotificationError 422 ''run_required'' ''run_id is required''), ob)
      else if key = [] then (Inl (RunNotificationError 422 ''idempotency_key_required'' ''idempotency_key is required''), ob)
      else if body = [] then (Inl (RunNotificationError 422 ''text_required'' ''text is required''), ob)
      else
        let occurrence = ''hosted-run:'' @ run @ '':'' @ key in
        case resolve_run_channels owner channel_names ob of
          Inl err \<Rightarrow> (Inl err, ob)
        | Inr channels \<Rightarrow>
            let ids = map ch_id channels; hash = run_content_hash sha ids body subject in
            (case insert_event gen (run_event owner run (map ch_name channels) body subject occurrence fired_at hash) ids fired_at ob of
               None \<Rightarrow> (replay_run_notification sha owner run channel_names body subject occurrence ob, ob)
             | Some (e, ob1) \<Rightarrow>
                 (Inr \<lparr>rr_status = ''accepted'', rr_event = sg_id e, rr_run = run, rr_deliveries = length ids, rr_hash = hash\<rparr>, ob1)))"

definition list_run_notifications :: "string \<Rightarrow> string \<Rightarrow> int \<Rightarrow> outbox \<Rightarrow> signal_event list" where
  "list_run_notifications owner run limit ob =
     take (nat (max 1 (min limit 200)))
       (rev (sort_key sg_fired_at (sort_key sg_id
          (filter (\<lambda>e. sg_source_kind e = ''strategy_run'' \<and> sg_owner e = Some owner \<and> sg_run e = Some run) (map snd (ob_events ob))))))"

definition list_deliveries_for_events :: "string list \<Rightarrow> outbox \<Rightarrow> delivery list" where
  "list_deliveries_for_events event_ids ob =
     sort_key de_created_at (sort_key de_id (filter (\<lambda>d. de_event d \<in> set event_ids) (map snd (ob_deliveries ob))))"

definition list_attempts_for_deliveries :: "string list \<Rightarrow> outbox \<Rightarrow> delivery_attempt list" where
  "list_attempts_for_deliveries delivery_ids ob = sort_key da_created_at (filter (\<lambda>a. da_delivery a \<in> set delivery_ids) (ob_attempts ob))"

definition get_channels_by_ids :: "string list \<Rightarrow> outbox \<Rightarrow> (string, channel_reference) dict" where
  "get_channels_by_ids channel_ids ob = map (\<lambda>c. (ch_id c, c)) (filter (\<lambda>c. ch_id c \<in> set channel_ids) (map snd (ob_channels ob)))"

section \<open>Claims and attempts\<close>

definition delivery_due :: "instant \<Rightarrow> delivery \<Rightarrow> bool" where
  "delivery_due now d =
     (de_status d \<in> {''pending'', ''retrying''} \<and> (case de_next_attempt_at d of Some t \<Rightarrow> t \<le> now | None \<Rightarrow> True)
      \<and> (case de_lease_until d of Some t \<Rightarrow> t \<le> now | None \<Rightarrow> True))"

definition stale :: "instant \<Rightarrow> delivery \<Rightarrow> bool" where
  "stale now d = (de_status d = ''delivering'' \<and> (case de_lease_until d of Some t \<Rightarrow> t \<le> now | None \<Rightarrow> False))"

definition claimable :: "instant \<Rightarrow> delivery \<Rightarrow> bool" where
  "claimable now d = (delivery_due now d \<or> stale now d)"

definition in_order :: "delivery list \<Rightarrow> delivery list" where
  "in_order ds = sort_key de_created_at (sort_key de_id ds)"

definition get_due_and_stale :: "instant \<Rightarrow> outbox \<Rightarrow> delivery list \<times> delivery list" where
  "get_due_and_stale now ob =
     (let rows = map snd (ob_deliveries ob) in (in_order (filter (delivery_due now) rows), in_order (filter (stale now) rows)))"

definition claim_row :: "instant \<Rightarrow> int \<Rightarrow> delivery \<Rightarrow> delivery" where
  "claim_row now lease_seconds d =
     d\<lparr>de_status := ''delivering'', de_lease_until := Some (now + seconds (max 1 lease_seconds)), de_updated_at := now\<rparr>"

definition store_delivery :: "delivery \<Rightarrow> outbox \<Rightarrow> outbox" where
  "store_delivery d ob = ob\<lparr>ob_deliveries := dict_set (de_id d) d (ob_deliveries ob)\<rparr>"

definition claim_deliveries :: "instant \<Rightarrow> nat \<Rightarrow> int \<Rightarrow> outbox \<Rightarrow> (outbox_error + delivery list) \<times> outbox" where
  "claim_deliveries now limit lease_seconds ob =
     (if limit < 1 then (Inl (BadArgument ''limit must be >= 1''), ob)
      else
        let claimed = map (claim_row now lease_seconds) (take limit (in_order (filter (claimable now) (map snd (ob_deliveries ob)))))
        in (Inr claimed, fold store_delivery claimed ob))"

record attempt =
  ap_no :: nat
  ap_outcome :: string
  ap_detail :: string
  ap_status :: string
  ap_next :: "instant option"
  ap_delivered :: "instant option"
  ap_error :: "string option"
  ap_provider_id :: "string option"

definition owned_by :: "instant option \<Rightarrow> instant \<Rightarrow> delivery \<Rightarrow> bool" where
  "owned_by lease now d =
     (de_status d = ''delivering'' \<and> (case de_lease_until d of Some t \<Rightarrow> now < t | None \<Rightarrow> True)
      \<and> (lease \<noteq> None \<longrightarrow> de_lease_until d = lease))"

definition attempted_row :: "attempt \<Rightarrow> instant \<Rightarrow> delivery \<Rightarrow> delivery" where
  "attempted_row a now d =
     (let d1 = d\<lparr>de_status := ap_status a, de_attempts := max (de_attempts d) (ap_no a), de_next_attempt_at := ap_next a, de_updated_at := now\<rparr>;
          d2 = (if ap_delivered a \<noteq> None then d1\<lparr>de_delivered_at := ap_delivered a\<rparr> else d1);
          d3 = (if ap_error a \<noteq> None then d2\<lparr>de_last_error := ap_error a\<rparr> else d2)
      in if ap_status a \<noteq> ''delivering'' then d3\<lparr>de_lease_until := None\<rparr> else d3)"

definition record_attempt :: "string \<Rightarrow> attempt \<Rightarrow> instant option \<Rightarrow> instant \<Rightarrow> outbox \<Rightarrow> (outbox_error + delivery) \<times> outbox" where
  "record_attempt i a lease now ob =
     (if ap_status a \<notin> set delivery_statuses then (Inl (BadArgument (''unknown delivery status '' @ ap_status a)), ob)
      else (case get_delivery i ob of
          None \<Rightarrow> (Inl (MissingRow i), ob)
        | Some d \<Rightarrow>
            if \<not> owned_by lease now d then (Inl LeaseConflict, ob)
            else
              let d1 = attempted_row a now d;
                  row = \<lparr>da_delivery = i, da_no = ap_no a, da_outcome = ap_outcome a, da_detail = ap_detail a,
                         da_provider_id = (case ap_provider_id a of Some p \<Rightarrow> if p = [] then None else Some (take 128 p) | None \<Rightarrow> None),
                         da_created_at = now\<rparr>
              in (Inr d1, ob\<lparr>ob_deliveries := dict_set i d1 (ob_deliveries ob), ob_attempts := ob_attempts ob @ [row]\<rparr>)))"

definition attempts_of :: "string \<Rightarrow> outbox \<Rightarrow> delivery_attempt list" where
  "attempts_of i ob = filter (\<lambda>a. da_delivery a = i) (ob_attempts ob)"

definition count_attempts :: "string \<Rightarrow> string option \<Rightarrow> outbox \<Rightarrow> nat" where
  "count_attempts i outcome1 ob =
     length (filter (\<lambda>a. case outcome1 of Some x \<Rightarrow> da_outcome a = x | None \<Rightarrow> True) (attempts_of i ob))"

section \<open>Deleting a workflow's history\<close>

text \<open>
  What the operator's deletion of a workflow does to the outbox: it detaches the kept events from
  the subscriptions, or deletes the deliveries of the workflow's events and then the events. The
  foreign keys of \<open>delivery_attempts\<close> and \<open>deliveries\<close> have no cascade: a delivery with an attempt,
  and an event with a delivery, cannot be deleted, and the transaction is rolled back. The numbers
  are the events kept, the events deleted and the deliveries deleted.
\<close>

definition events_of_workflow :: "string \<Rightarrow> outbox \<Rightarrow> string list" where
  "events_of_workflow workflow_id ob = map fst (filter (\<lambda>(i, e). sg_workflow e = Some workflow_id) (ob_events ob))"

definition detach_event :: "string list \<Rightarrow> signal_event \<Rightarrow> signal_event" where
  "detach_event subscription_ids e =
     (case sg_subscription e of Some sid \<Rightarrow> if sid \<in> set subscription_ids then e\<lparr>sg_subscription := None\<rparr> else e | None \<Rightarrow> e)"

definition delete_workflow_history :: "string list \<Rightarrow> string \<Rightarrow> bool \<Rightarrow> outbox \<Rightarrow> (outbox_error + nat \<times> nat \<times> nat) \<times> outbox" where
  "delete_workflow_history subscription_ids workflow_id keep_history ob =
     (if keep_history
        then (Inr (length (filter (\<lambda>(i, e). detach_event subscription_ids e \<noteq> e) (ob_events ob)), 0, 0),
              ob\<lparr>ob_events := map (\<lambda>(i, e). (i, detach_event subscription_ids e)) (ob_events ob)\<rparr>)
      else
        let events = events_of_workflow workflow_id ob;
            doomed = (\<lambda>d. subscription_ids \<noteq> [] \<and> de_event d \<in> set events);
            gone = filter (\<lambda>(i, d). doomed d) (ob_deliveries ob);
            rest = filter (\<lambda>(i, d). \<not> doomed d) (ob_deliveries ob)
        in if \<exists>a \<in> set (ob_attempts ob). da_delivery a \<in> fst ` set gone then (Inl IntegrityError, ob)
           else if \<exists>(i, d) \<in> set rest. de_event d \<in> set events then (Inl IntegrityError, ob)
           else (Inr (0, length events, length gone),
                 ob\<lparr>ob_events := filter (\<lambda>(i, e). sg_workflow e \<noteq> Some workflow_id) (ob_events ob), ob_deliveries := rest\<rparr>))"

section \<open>The worker\<close>

record worker_config =
  wc_max_attempts :: nat
  wc_max_unknown_retries :: nat
  wc_default_backoff :: rat
  wc_jitter_fraction :: rat

text \<open>A duration in seconds as a \<open>timedelta\<close>: microseconds, rounded half to even.\<close>

definition timedelta_micros :: "rat \<Rightarrow> int" where
  "timedelta_micros r =
     (let x = r * 1000000; f = \<lfloor>x\<rfloor> in
      if x - of_int f < 1 / 2 then f else if x - of_int f > 1 / 2 then f + 1 else if even f then f else f + 1)"

definition max_backoff :: rat where
  "max_backoff = 900"

definition status_for_outcome :: "string \<Rightarrow> string" where
  "status_for_outcome s = (if s = ''accepted'' then ''delivered'' else if s = ''permanent'' then ''failed'' else ''retrying'')"

definition backoff_delay :: "worker_config \<Rightarrow> nat \<Rightarrow> int option \<Rightarrow> rat" where
  "backoff_delay cfg attempt_no hint =
     (case hint of
        Some h \<Rightarrow> max 0 (of_int h)
      | None \<Rightarrow> min (max 0 (wc_default_backoff cfg) * 2 ^ (attempt_no - 1)) max_backoff)"

definition outcome_attempt :: "worker_config \<Rightarrow> rat \<Rightarrow> delivery \<Rightarrow> delivery_outcome \<Rightarrow> instant \<Rightarrow> outbox \<Rightarrow> attempt" where
  "outcome_attempt cfg random d oc now ob =
     (let no = de_attempts d + 1; status = (if oc_status oc = [] then ''unknown'' else oc_status oc);
          detail = truncate_text (oc_detail oc) 500 truncation_marker; new_status = status_for_outcome status;
          a = \<lparr>ap_no = no, ap_outcome = status, ap_detail = detail, ap_status = new_status, ap_next = None, ap_delivered = None,
               ap_error = Some detail, ap_provider_id = oc_provider_id oc\<rparr>
      in if new_status = ''delivered'' then a\<lparr>ap_delivered := Some now, ap_error := None\<rparr>
         else if new_status \<noteq> ''retrying'' then a
         else if status = ''unknown'' \<and> wc_max_unknown_retries cfg \<le> count_attempts (de_id d) (Some ''unknown'') ob
           then a\<lparr>ap_status := ''failed'', ap_detail := ''unknown retry limit reached'', ap_error := Some ''unknown retry limit reached''\<rparr>
         else if max 1 (wc_max_attempts cfg) \<le> no
           then a\<lparr>ap_status := ''failed'', ap_error := Some ''max attempts exceeded'',
                  ap_detail := truncate_text (''max attempts exceeded; '' @ detail) 500 truncation_marker\<rparr>
         else
           let delay = backoff_delay cfg no (oc_retry_after oc)
           in a\<lparr>ap_next := Some (now + timedelta_micros (delay + random * max 0 (wc_jitter_fraction cfg) * delay))\<rparr>)"

definition record_outcome :: "worker_config \<Rightarrow> rat \<Rightarrow> delivery \<Rightarrow> delivery_outcome \<Rightarrow> instant \<Rightarrow> outbox \<Rightarrow> (outbox_error + string) \<times> outbox" where
  "record_outcome cfg random d oc now ob =
     (let a = outcome_attempt cfg random d oc now ob in
      case record_attempt (de_id d) a (de_lease_until d) now ob of
        (Inl e, ob1) \<Rightarrow> (Inl e, ob1)
      | (Inr d1, ob1) \<Rightarrow> (Inr (ap_status a), ob1))"

definition terminal_attempt :: "delivery \<Rightarrow> string \<Rightarrow> string \<Rightarrow> string \<Rightarrow> attempt" where
  "terminal_attempt d outcome1 detail status =
     \<lparr>ap_no = de_attempts d + 1, ap_outcome = outcome1, ap_detail = detail, ap_status = status, ap_next = None, ap_delivered = None,
      ap_error = Some detail, ap_provider_id = None\<rparr>"

definition record_terminal :: "delivery \<Rightarrow> string \<Rightarrow> string \<Rightarrow> string \<Rightarrow> instant \<Rightarrow> outbox \<Rightarrow> (outbox_error + string) \<times> outbox" where
  "record_terminal d outcome1 detail status now ob =
     (case record_attempt (de_id d) (terminal_attempt d outcome1 detail status) (de_lease_until d) now ob of
        (Inl e, ob1) \<Rightarrow> (Inl e, ob1)
      | (Inr d1, ob1) \<Rightarrow> (Inr status, ob1))"

record send_context =
  cx_provider :: "string option"
  cx_destination :: "jobj option"
  cx_subject :: "string option"
  cx_body :: "string option"
  cx_expires_at :: "instant option"
  cx_rule_name :: "string option"
  cx_instrument_key :: "string option"
  cx_evidence :: jobj
  cx_fired_at :: "instant option"
  cx_template :: "string option"

definition claim_is_current :: "delivery \<Rightarrow> instant \<Rightarrow> outbox \<Rightarrow> bool" where
  "claim_is_current d now ob =
     (case get_delivery (de_id d) ob of
        None \<Rightarrow> False
      | Some current \<Rightarrow>
          de_status current = ''delivering'' \<and> (de_lease_until d \<noteq> None \<longrightarrow> de_lease_until current = de_lease_until d)
          \<and> (case de_lease_until current of Some t \<Rightarrow> now < t | None \<Rightarrow> True))"

definition render :: "delivery \<Rightarrow> send_context \<Rightarrow> instant \<Rightarrow> string \<times> string" where
  "render d cx now =
     (case (cx_subject cx, cx_body cx) of
        (Some s, Some b) \<Rightarrow> (s, b)
      | _ \<Rightarrow> build_message (str_or (cx_rule_name cx) ''alert'') (str_or (cx_instrument_key cx) ''-'') (cx_evidence cx)
               (case cx_fired_at cx of Some t \<Rightarrow> t | None \<Rightarrow> now) (cx_template cx) (Some (de_event d)))"

definition send_destination :: "send_context \<Rightarrow> channel_reference \<Rightarrow> string \<times> jobj" where
  "send_destination cx c =
     (let provider = str_or (cx_provider cx) (ch_provider c);
          destination = (case cx_destination cx of Some o1 \<Rightarrow> dict_update (ch_destination c) o1 | None \<Rightarrow> ch_destination c)
      in (provider, merge_secret_env provider destination (ch_secret_env c)))"

text \<open>
  What a worker meets while it handles one delivery: the answers of the resolver and of the
  adapter, which may raise, the readings of its clock, and what others do to the store before
  the claim is checked and while the provider is called.
\<close>

record item_input =
  ii_resolved :: "outbox \<Rightarrow> string + send_context option"
  ii_send :: "string \<Rightarrow> jobj \<Rightarrow> string \<Rightarrow> string \<Rightarrow> string + delivery_outcome"
  ii_item_now :: instant
  ii_send_now :: instant
  ii_done_now :: instant
  ii_random :: rat
  ii_before_send :: "outbox \<Rightarrow> outbox"
  ii_during_send :: "outbox \<Rightarrow> outbox"

definition context_expired :: "send_context \<Rightarrow> instant \<Rightarrow> bool" where
  "context_expired cx now = (case cx_expires_at cx of Some t \<Rightarrow> t \<le> now | None \<Rightarrow> False)"

definition record_expired :: "delivery \<Rightarrow> send_context \<Rightarrow> instant \<Rightarrow> outbox \<Rightarrow> (outbox_error + string) \<times> outbox" where
  "record_expired d cx now ob =
     record_terminal d ''expired'' (''event expired at '' @ (case cx_expires_at cx of Some t \<Rightarrow> int_str t | None \<Rightarrow> [])) ''expired'' now ob"

definition process_one :: "worker_config \<Rightarrow> item_input \<Rightarrow> delivery \<Rightarrow> outbox \<Rightarrow> (outbox_error + string) \<times> outbox" where
  "process_one cfg ii d ob =
     (case ii_resolved ii ob of
        Inl e \<Rightarrow> (Inl (Raised e), ob)
      | Inr None \<Rightarrow> record_terminal d ''permanent'' ''unresolvable_context'' ''failed'' (ii_item_now ii) ob
      | Inr (Some cx) \<Rightarrow>
          if context_expired cx (ii_item_now ii) then record_expired d cx (ii_item_now ii) ob
          else (case get_channel (de_channel d) ob of
              None \<Rightarrow> record_outcome cfg (ii_random ii) d (outcome ''permanent'' (''channel '' @ de_channel d @ '' not found'')) (ii_done_now ii) ob
            | Some c \<Rightarrow>
                let ob1 = ii_before_send ii ob in
                if \<not> claim_is_current d (ii_send_now ii) ob1 then (Inl LeaseConflict, ob1)
                else if context_expired cx (ii_send_now ii) then record_expired d cx (ii_send_now ii) ob1
                else
                  let (subject, body) = render d cx (ii_send_now ii); (provider, destination) = send_destination cx c in
                  (case ii_send ii provider destination subject body of
                     Inl e \<Rightarrow> (Inl (Raised e), ii_during_send ii ob1)
                   | Inr oc \<Rightarrow> record_outcome cfg (ii_random ii) d oc (ii_done_now ii) (ii_during_send ii ob1))))"

definition error_text :: "outbox_error \<Rightarrow> string" where
  "error_text e = (case e of LeaseConflict \<Rightarrow> ''LeaseConflict'' | MissingRow i \<Rightarrow> i | BadArgument m \<Rightarrow> m | Raised m \<Rightarrow> m | RunNotificationError _ code _ \<Rightarrow> code | IntegrityError \<Rightarrow> ''IntegrityError'')"

definition record_unexpected :: "worker_config \<Rightarrow> rat \<Rightarrow> delivery \<Rightarrow> outbox_error \<Rightarrow> instant \<Rightarrow> outbox \<Rightarrow> (outbox_error + string) \<times> outbox" where
  "record_unexpected cfg random d e now ob =
     (case record_outcome cfg random d (outcome ''unknown'' (error_text e)) now ob of
        (Inl LeaseConflict, ob1) \<Rightarrow> (Inl LeaseConflict, ob1)
      | (Inl _, ob1) \<Rightarrow> (Inr ''retrying'', ob1)
      | r \<Rightarrow> r)"

text \<open>One delivery of a batch: a failure other than a lost lease is recorded as an unknown outcome.\<close>

definition process_item :: "worker_config \<Rightarrow> item_input \<Rightarrow> delivery \<Rightarrow> outbox \<Rightarrow> (outbox_error + string) \<times> outbox" where
  "process_item cfg ii d ob =
     (case process_one cfg ii d ob of
        (Inl LeaseConflict, ob1) \<Rightarrow> (Inl LeaseConflict, ob1)
      | (Inl e, ob1) \<Rightarrow> record_unexpected cfg (ii_random ii) d e (ii_done_now ii) ob1
      | r \<Rightarrow> r)"

record worker_summary =
  su_claimed :: nat
  su_delivered :: nat
  su_retrying :: nat
  su_failed :: nat
  su_expired :: nat
  su_fenced :: nat

definition count_status :: "outbox_error + string \<Rightarrow> worker_summary \<Rightarrow> worker_summary" where
  "count_status r su =
     (case r of
        Inl _ \<Rightarrow> su\<lparr>su_fenced := su_fenced su + 1\<rparr>
      | Inr s \<Rightarrow>
          if s = ''delivered'' then su\<lparr>su_delivered := su_delivered su + 1\<rparr>
          else if s = ''retrying'' then su\<lparr>su_retrying := su_retrying su + 1\<rparr>
          else if s = ''failed'' then su\<lparr>su_failed := su_failed su + 1\<rparr>
          else if s = ''expired'' then su\<lparr>su_expired := su_expired su + 1\<rparr>
          else su)"

fun process_claimed :: "worker_config \<Rightarrow> (delivery \<Rightarrow> item_input) \<Rightarrow> delivery list \<Rightarrow> worker_summary \<Rightarrow> outbox \<Rightarrow> worker_summary \<times> outbox" where
  "process_claimed cfg inputs [] su ob = (su, ob)"
| "process_claimed cfg inputs (d # ds) su ob =
     (case process_item cfg (inputs d) d ob of (r, ob1) \<Rightarrow> process_claimed cfg inputs ds (count_status r su) ob1)"

definition run_once :: "worker_config \<Rightarrow> (delivery \<Rightarrow> item_input) \<Rightarrow> instant \<Rightarrow> nat \<Rightarrow> outbox \<Rightarrow> (outbox_error + worker_summary) \<times> outbox" where
  "run_once cfg inputs now limit ob =
     (case claim_deliveries now limit 120 ob of
        (Inl e, ob1) \<Rightarrow> (Inl e, ob1)
      | (Inr claimed, ob1) \<Rightarrow>
          (case process_claimed cfg inputs claimed
                  \<lparr>su_claimed = length claimed, su_delivered = 0, su_retrying = 0, su_failed = 0, su_expired = 0, su_fenced = 0\<rparr> ob1 of
             (su, ob2) \<Rightarrow> (Inr su, ob2)))"

section \<open>The resolver\<close>

record subscription_context =
  sb_instrument_key :: "string option"
  sb_alert_id :: "string option"
  sb_message :: "string option"
  sb_expires_at :: "instant option"
  sb_workflow_name :: "string option"

definition resolved_context :: "channel_reference \<Rightarrow> instant option \<Rightarrow> string \<times> string \<Rightarrow> send_context" where
  "resolved_context c expires_at message =
     \<lparr>cx_provider = Some (ch_provider c), cx_destination = Some (merge_secret_env (ch_provider c) (ch_destination c) (ch_secret_env c)),
      cx_subject = Some (fst message), cx_body = Some (snd message), cx_expires_at = expires_at, cx_rule_name = None, cx_instrument_key = None,
      cx_evidence = [], cx_fired_at = None, cx_template = None\<rparr>"

definition field_or :: "jobj \<Rightarrow> string \<Rightarrow> string \<Rightarrow> string" where
  "field_or evidence k fallback = (if jtruth (obj_get evidence k) then text_of (obj_get evidence k) else fallback)"

definition workflow_message :: "signal_event \<Rightarrow> string + (string \<times> string) option" where
  "workflow_message e =
     (let evidence = sg_evidence e; kind = obj_get evidence ''message_kind''; (ist, utc) = format_event_time (sg_fired_at e) in
      if kind = JStr ''strategy_run''
        then Inr (Some (build_run_message (field_or evidence ''run_id'' ''-'') (field_or evidence ''text'' []) (sg_fired_at e)
               (case obj_get evidence ''subject'' of JNull \<Rightarrow> None | v \<Rightarrow> Some (text_of v)) (Some (sg_id e))))
      else if kind = JStr ''breadth''
        then map_sum id Some (build_breadth_message (field_or evidence ''workflow_name'' (field_or evidence ''screener'' ''workflow''))
               (field_or evidence ''stage_id'' ''-'') evidence (Some (sg_id e)) ist utc)
      else if kind = JStr ''screener_attachment''
        then Inr (Some (build_screener_message (field_or evidence ''screener'' ''screener'') evidence (Some (sg_id e)) ist utc
               (field_or evidence ''instrument_key'' ''-'')))
      else Inr None)"

definition resolve :: "(string \<Rightarrow> string + subscription_context option) \<Rightarrow> string \<Rightarrow> outbox \<Rightarrow> string + send_context option" where
  "resolve subscription_loader i ob =
     (case get_delivery i ob of
        None \<Rightarrow> Inr None
      | Some d \<Rightarrow>
          (case get_channel (de_channel d) ob of
             None \<Rightarrow> Inr None
           | Some c \<Rightarrow>
               (case dict_get (ob_events ob) (de_event d) of
                  None \<Rightarrow> Inr None
                | Some e \<Rightarrow>
                    (case sg_subscription e of
                       Some sid \<Rightarrow>
                         (case subscription_loader sid of
                            Inl err \<Rightarrow> Inl err
                          | Inr None \<Rightarrow> Inr None
                          | Inr (Some sb) \<Rightarrow>
                              let rule_name = (if str_truthy (sb_workflow_name sb) then opt_str (sb_workflow_name sb) @ '':'' @ (case sb_alert_id sb of Some a \<Rightarrow> a | None \<Rightarrow> ''None'')
                                               else str_or (sb_alert_id sb) ''alert'')
                              in Inr (Some (resolved_context c (sb_expires_at sb)
                                   (build_message rule_name (str_or (sb_instrument_key sb) ''-'') (sg_evidence e) (sg_fired_at e) (sb_message sb) (Some (sg_id e))))))
                     | None \<Rightarrow> map_sum id (map_option (resolved_context c None)) (workflow_message e)))))"

end
