(* ===== verification/MessageTheorems.thy ===== *)
theory MessageTheorems
  imports Outbox
begin

text \<open>
  What a notification carries: the messages of the resolver stay within the limits of their
  builders, name their event, and reach the providers as they were written.
\<close>

section \<open>Substrings and limits\<close>

lemma starts_with_iff: "starts_with s t \<longleftrightarrow> (\<exists>b. s = t @ b)"
  by (induction s t rule: starts_with.induct) auto

lemma contains_iff: "contains s t \<longleftrightarrow> (\<exists>a b. s = a @ t @ b)"
proof (induction s)
  case (Cons c s)
  show ?case unfolding contains.simps Cons.IH starts_with_iff by (auto simp: Cons_eq_append_conv)
qed simp

lemma containsI: "contains (a @ t @ b) t"
  unfolding contains_iff by blast

lemma contains_append: "contains s t \<Longrightarrow> contains (a @ s) t"
  unfolding contains_iff by (metis append.assoc)

lemma cap_subject_length: "length (cap_subject s) \<le> subject_max"
  by (simp add: cap_subject_def)

lemma cap_body_length: "length (cap_body body eid) \<le> body_max"
  by (auto simp: cap_body_def Let_def body_max_def truncation_marker_def)

lemma cap_body_names_event:
  assumes "contains body e" "length e \<le> 3777"
  shows "contains (cap_body body (Some e)) e"
proof (cases "length body \<le> body_max")
  case False
  then have "cap_body body (Some e) = (take (3777 - length e) body @ truncation_marker @ newline @ ''event_id: '') @ e @ []"
    using assms(2) by (simp add: cap_body_def Let_def body_max_def truncation_marker_def newline_def)
  then show ?thesis using containsI by metis
qed (use assms in \<open>simp add: cap_body_def\<close>)

text \<open>The last line of every body names the event.\<close>

lemma join_last: "xs \<noteq> [] \<Longrightarrow> \<exists>a. join sep xs = a @ last xs"
  by (induction sep xs rule: join.induct) fastforce+

lemma id_line_contains: "xs \<noteq> [] \<Longrightarrow> last xs = id_line (Some e) \<Longrightarrow> contains (join newline xs) e"
  using join_last [of xs newline] contains_append [of "id_line (Some e)" e] containsI [of "''event_id: ''" e "[]"]
  by (auto simp: id_line_def)

section \<open>Every builder\<close>

definition message_ok :: "string \<Rightarrow> string \<times> string \<Rightarrow> bool" where
  "message_ok e m \<longleftrightarrow> length (fst m) \<le> subject_max \<and> length (snd m) \<le> body_max \<and> (length e \<le> 3777 \<longrightarrow> contains (snd m) e)"

lemma message_okI: "contains body e \<Longrightarrow> message_ok e (cap_subject subject, cap_body body (Some e))"
  by (simp add: message_ok_def cap_subject_length cap_body_length cap_body_names_event)

lemma message_ok_lines: "xs \<noteq> [] \<Longrightarrow> last xs = id_line (Some e) \<Longrightarrow> message_ok e (cap_subject subject, cap_body (join newline xs) (Some e))"
  by (simp add: message_okI id_line_contains)

lemma build_message_ok: "message_ok e (build_message rule_name instrument_key evidence fired_at template (Some e))"
proof -
  have "contains (if contains body e then body else body @ newline @ ''event_id: '' @ e) e" for body
    using containsI [of "body @ newline @ ''event_id: ''" e "[]"] by simp
  then show ?thesis unfolding build_message_def Let_def option.case split_beta by (rule message_okI)
qed

lemma build_screener_message_ok: "message_ok e (build_screener_message name evidence (Some e) ist utc instrument_key)"
  unfolding build_screener_message_def by (rule message_ok_lines) simp_all

lemma build_breadth_message_ok: "build_breadth_message name stage evidence (Some e) ist utc = Inr m \<Longrightarrow> message_ok e m"
  by (cases "contributors (obj_get evidence ''instruments'')")
    (simp_all only: build_breadth_message_def Let_def sum.case sum.inject sum.distinct, erule subst, rule message_ok_lines, simp_all)

lemma build_run_message_ok: "message_ok e (build_run_message run text1 fired_at subject (Some e))"
  unfolding build_run_message_def Let_def split_beta by (rule message_ok_lines) simp_all

lemma workflow_message_ok: "workflow_message e = Inr (Some m) \<Longrightarrow> message_ok (sg_id e) m"
  by (auto simp: workflow_message_def Let_def split_beta build_run_message_ok build_screener_message_ok map_sum_def
    split: if_splits sum.splits dest: build_breadth_message_ok)

lemma resolve_message:
  assumes "resolve loader i ob = Inr (Some cx)" "get_delivery i ob = Some d" "dict_get (ob_events ob) (de_event d) = Some e"
  obtains c x m where "cx = resolved_context c x m" "message_ok (sg_id e) m"
  using assms
  by (auto simp: resolve_def Let_def map_sum_def build_message_ok workflow_message_ok split: option.splits sum.splits intro: that)

section \<open>On the way to the provider\<close>

lemma truncate_fits: "length s \<le> limit \<Longrightarrow> truncate_text s limit marker = s"
  by (simp add: truncate_text_def)

lemma telegram_text:
  assumes "snd (telegram_send environ post destination subject body) = Some rq" "length subject + length body < 4096"
  shows "hq_text rq = (if subject \<noteq> [] then subject @ newline @ body else body)"
  using assms by (auto simp: telegram_send_def Let_def newline_def truncate_fits split: if_splits option.splits list.splits)

lemma ntfy_text:
  assumes "snd (ntfy_send environ post destination subject body) = Some rq" "length subject \<le> 512" "length body \<le> 4096"
  shows "hq_title rq = Some subject" "hq_text rq = body"
  using assms by (auto simp: ntfy_send_def Let_def truncate_fits split: if_splits option.splits list.splits)

text \<open>
  C40. The message the worker renders for a delivery has a subject of at most 120 and a body of
  at most 3800 characters, whose text names the event unless its identifier is longer than 3777
  characters, and whichever provider is called is sent the whole of it: neither adapter
  truncates it again.
\<close>

theorem message_reaches_provider_whole:
  assumes "resolve loader i ob = Inr (Some cx)" "get_delivery i ob = Some d" "dict_get (ob_events ob) (de_event d) = Some e"
  shows "case render d cx now of (subject, body) \<Rightarrow>
      length subject \<le> 120 \<and> length body \<le> 3800 \<and> (length (sg_id e) \<le> 3777 \<longrightarrow> contains body (sg_id e))
    \<and> (\<forall>environ post destination rq. snd (telegram_send environ post destination subject body) = Some rq
        \<longrightarrow> hq_text rq = (if subject \<noteq> [] then subject @ newline @ body else body))
    \<and> (\<forall>environ post destination rq. snd (ntfy_send environ post destination subject body) = Some rq
        \<longrightarrow> hq_title rq = Some subject \<and> hq_text rq = body)"
proof -
  obtain c x m where cx: "cx = resolved_context c x m" and m: "message_ok (sg_id e) m" using resolve_message [OF assms] .
  obtain subject body where sb: "m = (subject, body)" by fastforce
  have r: "render d cx now = (subject, body)" by (simp add: render_def cx sb resolved_context_def)
  have len: "length subject \<le> 120" "length body \<le> 3800" "length (sg_id e) \<le> 3777 \<longrightarrow> contains body (sg_id e)"
    using m by (simp_all add: message_ok_def sb subject_max_def body_max_def)
  show ?thesis unfolding r prod.case using len telegram_text ntfy_text by (intro conjI allI impI) auto
qed

text \<open>A store with one channel and one notification of a run, pending.\<close>

definition demo_ids :: "nat \<Rightarrow> string" where
  "demo_ids n = replicate n (CHR ''x'')"

definition demo_channels :: outbox where
  "demo_channels = snd (upsert_channel demo_ids ''owner'' ''phone'' ''ntfy'' [] None True 0
     \<lparr>ob_channels = [], ob_events = [], ob_deliveries = [], ob_attempts = [], ob_ids = 0\<rparr>)"

definition demo_outbox :: outbox where
  "demo_outbox = snd (enqueue_run_notification demo_ids id ''owner'' ''r1'' [''phone''] ''filled'' ''k1'' None 0 demo_channels)"

definition demo_delivery :: delivery where
  "demo_delivery = pending_delivery ''xx'' ''x'' [] 0"

lemma demo_ids_inj: "inj demo_ids"
  by (auto simp: inj_def demo_ids_def)

lemma demo_outbox_rows:
  "get_delivery ''xx'' demo_outbox = Some demo_delivery"
  "map_option (\<lambda>e. (sg_id e, sg_subscription e, obj_get (sg_evidence e) ''message_kind'')) (dict_get (ob_events demo_outbox) (de_event demo_delivery))
     = Some (''x'', None, JStr ''strategy_run'')"
  "map_option ch_name (get_channel (de_channel demo_delivery) demo_outbox) = Some ''phone''"
  by code_simp+

theorem message_reaches_provider_whole_witness:
  "\<exists>cx e. resolve (\<lambda>_. Inr None) ''xx'' demo_outbox = Inr (Some cx) \<and> dict_get (ob_events demo_outbox) (de_event demo_delivery) = Some e
     \<and> (case render demo_delivery cx 0 of (subject, body) \<Rightarrow> length subject \<le> 120 \<and> length body \<le> 3800 \<and> contains body ''x'')"
proof -
  obtain e c where e: "dict_get (ob_events demo_outbox) (de_event demo_delivery) = Some e" "sg_id e = ''x''" "sg_subscription e = None"
      "obj_get (sg_evidence e) ''message_kind'' = JStr ''strategy_run''"
    and c: "get_channel (de_channel demo_delivery) demo_outbox = Some c" using demo_outbox_rows(2,3) by auto
  obtain m where "workflow_message e = Inr (Some m)" using e(4) by (simp add: workflow_message_def Let_def split_beta)
  then obtain cx where cx: "resolve (\<lambda>_. Inr None) ''xx'' demo_outbox = Inr (Some cx)"
    using e(1,3) c by (simp add: resolve_def demo_outbox_rows(1))
  have "case render demo_delivery cx 0 of (subject, body) \<Rightarrow> length subject \<le> 120 \<and> length body \<le> 3800 \<and> contains body ''x''"
    using message_reaches_provider_whole [OF cx demo_outbox_rows(1) e(1), of 0] e(2) by (auto split: prod.splits)
  then show ?thesis using cx e(1) by (intro exI conjI)
qed

end
