(* ===== verification/OutboxTheorems.thy ===== *)
theory OutboxTheorems
  imports MessageTheorems
begin

text \<open>
  What the outbox promises: over any interleaving of writers and workers a delivery is attempted
  a bounded number of times and accepted at most once, a finished delivery stays as it is, a
  worker that lost its lease writes nothing, a notification is enqueued once per key, and a
  message fits its provider and carries its event.
\<close>

section \<open>Rows\<close>

definition live :: "delivery \<Rightarrow> bool" where
  "live d \<longleftrightarrow> de_status d \<in> {''pending'', ''retrying'', ''delivering''}"

lemma live_cases: "live d \<Longrightarrow> de_status d \<noteq> ''delivered''" "de_status d = ''delivering'' \<Longrightarrow> live d" "de_status d = ''pending'' \<Longrightarrow> live d"
  by (auto simp: live_def)

definition outcomes :: "string \<Rightarrow> string \<Rightarrow> outbox \<Rightarrow> nat" where
  "outcomes i x ob = count_attempts i (Some x) ob"

text \<open>The bookkeeping of one delivery: its counter against its audit log, and the worker's limits.\<close>

definition row_ok :: "worker_config \<Rightarrow> outbox \<Rightarrow> delivery \<Rightarrow> bool" where
  "row_ok cfg ob d \<longleftrightarrow>
     length (attempts_of (de_id d) ob) = de_attempts d
     \<and> de_attempts d \<le> max 1 (wc_max_attempts cfg) \<and> (live d \<longrightarrow> de_attempts d < max 1 (wc_max_attempts cfg))
     \<and> (\<not> live d \<longrightarrow> 0 < de_attempts d)
     \<and> outcomes (de_id d) ''unknown'' ob \<le> wc_max_unknown_retries cfg + 1 \<and> (live d \<longrightarrow> outcomes (de_id d) ''unknown'' ob \<le> wc_max_unknown_retries cfg)
     \<and> outcomes (de_id d) ''accepted'' ob = (if de_status d = ''delivered'' then 1 else 0)"

definition rows_ok :: "(nat \<Rightarrow> string) \<Rightarrow> worker_config \<Rightarrow> outbox \<Rightarrow> bool" where
  "rows_ok gen cfg ob \<longleftrightarrow> distinct (map fst (ob_deliveries ob))
     \<and> (\<forall>i d. get_delivery i ob = Some d \<longrightarrow> de_id d = i \<and> i \<in> gen ` {..<ob_ids ob} \<and> row_ok cfg ob d)
     \<and> (\<forall>a \<in> set (ob_attempts ob). get_delivery (da_delivery a) ob \<noteq> None)"

text \<open>
  A claim a worker holds: the row may have been deleted meanwhile; while it is there, it carries
  the lease and the counter of the claim unless the lease has expired.
\<close>

definition held :: "instant \<Rightarrow> outbox \<Rightarrow> delivery \<Rightarrow> bool" where
  "held now ob c \<longleftrightarrow> (\<exists>t. de_lease_until c = Some t \<and> t \<le> now + seconds 120
     \<and> (\<forall>d. get_delivery (de_id c) ob = Some d \<longrightarrow> de_status d = ''delivering'' \<and> de_lease_until d = Some t \<and> de_attempts d = de_attempts c \<or> t \<le> now))"

definition claims_ok :: "(nat \<Rightarrow> string) \<Rightarrow> instant \<Rightarrow> delivery list \<Rightarrow> outbox \<Rightarrow> bool" where
  "claims_ok gen now claims ob \<longleftrightarrow> distinct (map (\<lambda>c. (de_id c, de_lease_until c)) claims)
     \<and> (\<forall>c \<in> set claims. de_id c \<in> gen ` {..<ob_ids ob} \<and> held now ob c)"

lemma held_intro:
  assumes "de_lease_until c = Some t" "t \<le> now + seconds 120"
    and "\<And>d. get_delivery (de_id c) ob = Some d \<Longrightarrow> de_status d = ''delivering'' \<and> de_lease_until d = Some t \<and> de_attempts d = de_attempts c \<or> t \<le> now"
  shows "held now ob c"
  unfolding held_def using assms by blast

lemma held_elim:
  assumes "held now ob c"
  obtains t where "de_lease_until c = Some t" "t \<le> now + seconds 120"
    "\<And>d. get_delivery (de_id c) ob = Some d \<Longrightarrow> de_status d = ''delivering'' \<and> de_lease_until d = Some t \<and> de_attempts d = de_attempts c \<or> t \<le> now"
  using assms unfolding held_def by blast

lemma claim_held: "claims_ok gen now claims ob \<Longrightarrow> c \<in> set claims \<Longrightarrow> held now ob c"
  by (simp add: claims_ok_def)

lemma held_mono: "held now ob c \<Longrightarrow> (\<And>d. get_delivery (de_id c) ob' = Some d \<Longrightarrow> get_delivery (de_id c) ob = Some d) \<Longrightarrow> held now ob' c"
  unfolding held_def by blast

text \<open>The clock of the system, the deliveries that workers hold, and the store.\<close>

record outbox_sys =
  oy_now :: instant
  oy_claims :: "delivery list"
  oy_store :: outbox

definition sys_ok :: "(nat \<Rightarrow> string) \<Rightarrow> worker_config \<Rightarrow> outbox_sys \<Rightarrow> bool" where
  "sys_ok gen cfg s \<longleftrightarrow> rows_ok gen cfg (oy_store s) \<and> claims_ok gen (oy_now s) (oy_claims s) (oy_store s)"

text \<open>A write that adds deliveries and leaves the others and the audit log alone.\<close>

definition adds_deliveries :: "(nat \<Rightarrow> string) \<Rightarrow> outbox \<Rightarrow> outbox \<Rightarrow> bool" where
  "adds_deliveries gen ob ob' \<longleftrightarrow> ob_attempts ob' = ob_attempts ob \<and> ob_ids ob \<le> ob_ids ob'
     \<and> (distinct (map fst (ob_deliveries ob)) \<longrightarrow> distinct (map fst (ob_deliveries ob')))
     \<and> (\<forall>i d. get_delivery i ob = Some d \<longrightarrow> i \<in> gen ` {..<ob_ids ob} \<longrightarrow> get_delivery i ob' = Some d)
     \<and> (\<forall>i d. get_delivery i ob' = Some d \<longrightarrow> get_delivery i ob = Some d
         \<or> de_id d = i \<and> i \<in> gen ` {ob_ids ob..<ob_ids ob'} \<and> de_status d = ''pending'' \<and> de_attempts d = 0)"

lemma adds_refl [simp]: "adds_deliveries gen ob ob"
  by (simp add: adds_deliveries_def)

lemma adds_same: "ob_deliveries ob' = ob_deliveries ob \<Longrightarrow> ob_attempts ob' = ob_attempts ob \<Longrightarrow> ob_ids ob \<le> ob_ids ob' \<Longrightarrow> adds_deliveries gen ob ob'"
  by (simp add: adds_deliveries_def get_delivery_def)

lemma adds_cases:
  assumes "adds_deliveries gen ob ob'" "get_delivery i ob' = Some d"
  obtains "get_delivery i ob = Some d" | "de_id d = i" "i \<in> gen ` {ob_ids ob..<ob_ids ob'}" "de_status d = ''pending''" "de_attempts d = 0"
proof -
  have "\<forall>i d. get_delivery i ob' = Some d \<longrightarrow> get_delivery i ob = Some d
      \<or> de_id d = i \<and> i \<in> gen ` {ob_ids ob..<ob_ids ob'} \<and> de_status d = ''pending'' \<and> de_attempts d = 0"
    using assms(1) unfolding adds_deliveries_def by (elim conjE) assumption
  from this [rule_format, OF assms(2)] show thesis by (elim disjE conjE) (fact that)+
qed

lemma adds_trans:
  assumes "adds_deliveries gen a b" "adds_deliveries gen b c"
  shows "adds_deliveries gen a c"
proof -
  have le: "ob_ids a \<le> ob_ids b" "ob_ids b \<le> ob_ids c" using assms by (auto simp: adds_deliveries_def)
  have keep: "get_delivery i c = Some d" if "get_delivery i a = Some d" "i \<in> gen ` {..<ob_ids a}" for i d
  proof -
    have "get_delivery i b = Some d" using assms(1) that by (simp add: adds_deliveries_def)
    moreover have "i \<in> gen ` {..<ob_ids b}" using that(2) le by auto
    ultimately show ?thesis using assms(2) by (simp add: adds_deliveries_def)
  qed
  have new: "get_delivery i a = Some d \<or> de_id d = i \<and> i \<in> gen ` {ob_ids a..<ob_ids c} \<and> de_status d = ''pending'' \<and> de_attempts d = 0"
    if "get_delivery i c = Some d" for i d
  proof -
    have sub: "gen ` {ob_ids b..<ob_ids c} \<subseteq> gen ` {ob_ids a..<ob_ids c}" "gen ` {ob_ids a..<ob_ids b} \<subseteq> gen ` {ob_ids a..<ob_ids c}"
      using le by (simp_all add: image_mono)
    from assms(2) that show ?thesis
    proof (cases rule: adds_cases)
      case 1
      from assms(1) 1 show ?thesis by (cases rule: adds_cases) (use sub in blast)+
    qed (use sub in blast)
  qed
  show ?thesis using assms keep new le unfolding adds_deliveries_def by (auto intro: le_trans)
qed

lemma adds_ok:
  assumes g: "inj gen" and add: "adds_deliveries gen ob ob'" and ok: "rows_ok gen cfg ob"
  shows "rows_ok gen cfg ob'" "claims_ok gen now claims ob \<Longrightarrow> claims_ok gen now claims ob'"
proof -
  have keep: "get_delivery i ob' = Some d" if "get_delivery i ob = Some d" for i d
    using add ok that by (auto simp: adds_deliveries_def rows_ok_def)
  have att: "attempts_of i ob' = attempts_of i ob" "outcomes i x ob' = outcomes i x ob" for i x
    using add by (simp_all add: adds_deliveries_def attempts_of_def outcomes_def count_attempts_def)
  have fresh: "get_delivery i ob = None" if "i \<in> gen ` {ob_ids ob..<n}" for i n
  proof (rule ccontr)
    assume "get_delivery i ob \<noteq> None"
    then have "i \<in> gen ` {..<ob_ids ob}" using ok by (auto simp: rows_ok_def)
    then show False using that g by (auto simp: inj_eq)
  qed
  have none: "attempts_of i ob = []" if "get_delivery i ob = None" for i
    using ok that by (auto simp: rows_ok_def attempts_of_def filter_empty_conv)
  show "rows_ok gen cfg ob'"
    unfolding rows_ok_def
  proof (intro conjI allI impI ballI)
    show "distinct (map fst (ob_deliveries ob'))" using add ok by (simp add: adds_deliveries_def rows_ok_def)
    fix i d assume "get_delivery i ob' = Some d"
    with add have "de_id d = i \<and> i \<in> gen ` {..<ob_ids ob'} \<and> row_ok cfg ob' d"
    proof (cases rule: adds_cases)
      case 1
      moreover have "ob_ids ob \<le> ob_ids ob'" using add by (simp add: adds_deliveries_def)
      ultimately show ?thesis using ok unfolding rows_ok_def row_ok_def att by fastforce
    next
      case 2
      then show ?thesis using none [OF fresh [OF 2(2)]] using live_cases(3) by (auto simp: row_ok_def att outcomes_def count_attempts_def)
    qed
    then show "de_id d = i" "i \<in> gen ` {..<ob_ids ob'}" "row_ok cfg ob' d" by auto
  next
    fix a assume "a \<in> set (ob_attempts ob')"
    then show "get_delivery (da_delivery a) ob' \<noteq> None" using add ok keep by (fastforce simp: adds_deliveries_def rows_ok_def)
  qed
  show "claims_ok gen now claims ob'" if asm: "claims_ok gen now claims ob"
  proof -
    have "get_delivery (de_id c) ob = Some d" if "get_delivery (de_id c) ob' = Some d" "de_id c \<in> gen ` {..<ob_ids ob}" for c d
      using add that(1) by (cases rule: adds_cases) (use that(2) g in \<open>auto simp: inj_eq\<close>)
    moreover have "gen ` {..<ob_ids ob} \<subseteq> gen ` {..<ob_ids ob'}" using add by (auto simp: adds_deliveries_def)
    ultimately show ?thesis using asm held_mono [of now ob _ ob'] unfolding claims_ok_def by (metis subsetD)
  qed
qed

lemma store_new_adds:
  assumes "i = gen (ob_ids ob)" "de_id d = i" "de_status d = ''pending''" "de_attempts d = 0" "inj gen"
  shows "adds_deliveries gen ob (ob\<lparr>ob_deliveries := dict_set i d (ob_deliveries ob), ob_ids := ob_ids ob + 1\<rparr>)"
  using assms by (auto simp: adds_deliveries_def get_delivery_def inj_eq image_iff intro: distinct_update)

lemma add_deliveries_adds: "inj gen \<Longrightarrow> adds_deliveries gen ob (add_deliveries gen event timestamp cs ob)"
proof (induction cs arbitrary: ob)
  case (Cons c cs)
  let ?ob = "ob\<lparr>ob_deliveries := dict_set (gen (ob_ids ob)) (pending_delivery (gen (ob_ids ob)) event c timestamp) (ob_deliveries ob), ob_ids := ob_ids ob + 1\<rparr>"
  have "adds_deliveries gen ob ?ob" by (rule store_new_adds) (simp_all add: pending_delivery_def Cons.prems)
  then show ?case using adds_trans [OF _ Cons.IH [of ?ob]] Cons.prems by (simp add: Let_def)
qed simp

lemma insert_event_adds: "inj gen \<Longrightarrow> insert_event gen mk channels timestamp ob = Some (e, ob') \<Longrightarrow> adds_deliveries gen ob ob'"
  by (auto simp: insert_event_def Let_def split: if_splits intro!: adds_trans [OF adds_same add_deliveries_adds])

text \<open>The contract of a writer of events and channels, and what it keeps of the deliveries.\<close>

locale outbox_writer =
  fixes gen :: "nat \<Rightarrow> string" and action :: "outbox \<Rightarrow> outbox"
  assumes gen_inj: "inj gen \<Longrightarrow> adds_deliveries gen ob (action ob)"
begin

lemma keeps_rows: "inj gen \<Longrightarrow> rows_ok gen cfg ob \<Longrightarrow> rows_ok gen cfg (action ob)"
  using adds_ok(1) gen_inj by blast

lemma keeps_sys: "inj gen \<Longrightarrow> sys_ok gen cfg s \<Longrightarrow> sys_ok gen cfg (s\<lparr>oy_store := action (oy_store s)\<rparr>)"
  unfolding sys_ok_def using adds_ok [OF _ gen_inj] by (simp, blast)

end

lemma insert_signal_adds: "inj gen \<Longrightarrow> adds_deliveries gen ob (snd (insert_signal gen sub key fired_at evidence channels workflow now ob))"
  by (auto simp: insert_signal_def split: option.splits dest: insert_event_adds)

lemma record_signal_adds: "inj gen \<Longrightarrow> adds_deliveries gen ob (snd (record_signal gen sub key fired_at evidence channels workflow now ob))"
  by (simp add: record_signal_def insert_signal_adds)

lemma attachment_adds: "inj gen \<Longrightarrow> adds_deliveries gen ob (snd (insert_attachment_events gen workflow events timestamp n ob))"
proof (induction events arbitrary: n ob)
  case (Cons a events)
  obtain r ob1 where r: "insert_signal gen None (at_occurrence a) (at_fired_at a) (at_evidence a) (at_channels a) (Some workflow) timestamp ob = (r, ob1)" by fastforce
  have "adds_deliveries gen ob ob1" using insert_signal_adds [OF Cons.prems] r by (metis snd_conv)
  then show ?case using Cons r by (cases r) (auto intro: adds_trans)
qed simp

lemma enqueue_adds: "inj gen \<Longrightarrow> adds_deliveries gen ob (snd (enqueue_run_notification gen sha owner run names message key subject fired_at ob))"
  by (auto simp: enqueue_run_notification_def Let_def split: sum.splits option.splits dest: insert_event_adds)

lemma upsert_adds: "adds_deliveries gen ob (snd (upsert_channel gen owner name provider destination secret enabled now ob))"
  by (auto simp: upsert_channel_def Let_def split: option.splits intro!: adds_same)

interpretation signal_writer: outbox_writer gen "\<lambda>ob. snd (record_signal gen sub key fired_at evidence channels workflow now ob)"
  for gen sub key fired_at evidence channels workflow now
  by unfold_locales (rule record_signal_adds)

interpretation attachment_writer: outbox_writer gen "\<lambda>ob. snd (insert_attachment_events gen workflow events timestamp n ob)"
  for gen workflow events timestamp n
  by unfold_locales (rule attachment_adds)

interpretation run_writer: outbox_writer gen "\<lambda>ob. snd (enqueue_run_notification gen sha owner run names message key subject fired_at ob)"
  for gen sha owner run names message key subject fired_at
  by unfold_locales (rule enqueue_adds)

interpretation channel_writer: outbox_writer gen "\<lambda>ob. snd (upsert_channel gen owner name provider destination secret enabled now ob)"
  for gen owner name provider destination secret enabled now
  by unfold_locales (rule upsert_adds)

section \<open>Claims\<close>

lemma get_store: "get_delivery i (store_delivery d ob) = (if i = de_id d then Some d else get_delivery i ob)"
  by (simp add: get_delivery_def store_delivery_def)

lemma fold_store_frame:
  "ob_attempts (fold store_delivery ds ob) = ob_attempts ob" "ob_ids (fold store_delivery ds ob) = ob_ids ob"
  "distinct (map fst (ob_deliveries ob)) \<Longrightarrow> distinct (map fst (ob_deliveries (fold store_delivery ds ob)))"
  by (induction ds arbitrary: ob) (simp_all add: store_delivery_def distinct_update)

lemma fold_store_other: "i \<notin> de_id ` set ds \<Longrightarrow> get_delivery i (fold store_delivery ds ob) = get_delivery i ob"
  by (induction ds arbitrary: ob) (auto simp: get_store)

lemma fold_store_member: "distinct (map de_id ds) \<Longrightarrow> d \<in> set ds \<Longrightarrow> get_delivery (de_id d) (fold store_delivery ds ob) = Some d"
proof (induction ds arbitrary: ob)
  case (Cons e ds)
  then show ?case by (cases "d = e") (auto simp: fold_store_other get_store)
qed simp

lemma row_keys: "rows_ok gen cfg ob \<Longrightarrow> map de_id (map snd (ob_deliveries ob)) = map fst (ob_deliveries ob)"
  by (auto simp: rows_ok_def get_delivery_def intro!: map_cong)

lemma row_get: "rows_ok gen cfg ob \<Longrightarrow> d \<in> set (map snd (ob_deliveries ob)) \<Longrightarrow> get_delivery (de_id d) ob = Some d"
  by (auto simp: rows_ok_def get_delivery_def)

lemma claim_row_sel [simp]:
  "de_id (claim_row now n d) = de_id d" "de_attempts (claim_row now n d) = de_attempts d" "de_status (claim_row now n d) = ''delivering''"
  "de_lease_until (claim_row now n d) = Some (now + seconds (max 1 n))"
  by (simp_all add: claim_row_def)

lemma claimed_rows:
  assumes ok: "rows_ok gen cfg ob" and cl: "claim_deliveries now limit n ob = (Inr ds, ob')"
  shows "distinct (map de_id ds)" "ob' = fold store_delivery ds ob"
    "\<And>d. d \<in> set ds \<Longrightarrow> \<exists>r. get_delivery (de_id d) ob = Some r \<and> claimable now r \<and> d = claim_row now n r"
proof -
  let ?rows = "map snd (ob_deliveries ob)" and ?pick = "take limit (in_order (filter (claimable now) (map snd (ob_deliveries ob))))"
  have ds: "ds = map (claim_row now n) ?pick" and "ob' = fold store_delivery ds ob"
    using cl by (auto simp: claim_deliveries_def Let_def split: if_splits)
  then show "ob' = fold store_delivery ds ob" by simp
  have d: "distinct (map de_id ?rows)" unfolding row_keys [OF ok] using ok by (simp add: rows_ok_def)
  have sub: "set ?pick \<subseteq> {r \<in> set ?rows. claimable now r}" using set_take_subset [of limit] by (fastforce simp: in_order_def)
  have "distinct ?pick" using distinct_map [THEN iffD1, OF d] by (simp add: in_order_def)
  moreover have "inj_on de_id (set ?pick)" by (rule inj_on_subset [OF distinct_map [THEN iffD1, THEN conjunct2, OF d]]) (use sub in blast)
  moreover have e: "map de_id ds = map de_id ?pick" by (simp add: ds)
  ultimately show "distinct (map de_id ds)" unfolding e distinct_map by blast
  show "\<exists>r. get_delivery (de_id d) ob = Some r \<and> claimable now r \<and> d = claim_row now n r" if m: "d \<in> set ds" for d
  proof -
    obtain r where r: "r \<in> set ?pick" "d = claim_row now n r" using m by (auto simp: ds)
    then have "r \<in> set ?rows" "claimable now r" using sub by auto
    then show ?thesis using row_get [OF ok] r(2) by auto
  qed
qed

lemma claimable_live: "claimable now r \<Longrightarrow> live r" "claimable now r \<Longrightarrow> de_status r = ''delivering'' \<Longrightarrow> de_lease_until r = Some t \<Longrightarrow> t \<le> now"
  by (auto simp: live_def claimable_def delivery_due_def stale_def split: option.splits)

lemma row_ok_claim: "row_ok cfg ob r \<Longrightarrow> live r \<Longrightarrow> row_ok cfg ob (claim_row now n r)"
  using live_cases by (simp add: row_ok_def)

lemma row_ok_cong: "ob_attempts ob' = ob_attempts ob \<Longrightarrow> row_ok cfg ob' d = row_ok cfg ob d"
  by (simp add: row_ok_def attempts_of_def outcomes_def count_attempts_def)

lemma claim_rows_ok:
  assumes ok: "rows_ok gen cfg ob" and cl: "claim_deliveries now limit n ob = (Inr ds, ob')"
  shows "rows_ok gen cfg ob'"
proof -
  note c = claimed_rows [OF assms]
  have f: "ob_attempts ob' = ob_attempts ob" "ob_ids ob' = ob_ids ob" "distinct (map fst (ob_deliveries ob'))"
    using fold_store_frame ok by (auto simp: c(2) rows_ok_def)
  have row: "de_id d = i \<and> i \<in> gen ` {..<ob_ids ob'} \<and> row_ok cfg ob' d" if g: "get_delivery i ob' = Some d" for i d
  proof (cases "i \<in> de_id ` set ds")
    case True
    then obtain e where e: "e \<in> set ds" "de_id e = i" by auto
    then have "d = e" using g fold_store_member [OF c(1) e(1), of ob] by (simp add: c(2))
    moreover obtain r where r: "get_delivery (de_id e) ob = Some r" "claimable now r" "e = claim_row now n r" using c(3) [OF e(1)] by blast
    moreover have "row_ok cfg ob r" "i \<in> gen ` {..<ob_ids ob}" using ok r(1) e(2) by (auto simp: rows_ok_def)
    ultimately show ?thesis using e(2) row_ok_claim [OF _ claimable_live(1)] by (simp add: f row_ok_cong [OF f(1)])
  next
    case False
    then have "get_delivery i ob = Some d" using g by (simp add: c(2) fold_store_other)
    then show ?thesis using ok by (simp add: rows_ok_def f row_ok_cong [OF f(1)])
  qed
  have "get_delivery (da_delivery a) ob' \<noteq> None" if "a \<in> set (ob_attempts ob')" for a
  proof (cases "da_delivery a \<in> de_id ` set ds")
    case True
    then show ?thesis using fold_store_member [OF c(1)] by (auto simp: c(2))
  next
    case False
    moreover have "get_delivery (da_delivery a) ob \<noteq> None" using that ok by (simp add: f(1) rows_ok_def)
    ultimately show ?thesis by (simp add: c(2) fold_store_other)
  qed
  then show ?thesis using row f(3) unfolding rows_ok_def by blast
qed

lemma claim_claims_ok:
  assumes ok: "rows_ok gen cfg ob" "claims_ok gen now claims ob" and cl: "claim_deliveries now limit 120 ob = (Inr ds, ob')"
  shows "claims_ok gen now (claims @ ds) ob'"
proof -
  note c = claimed_rows [OF ok(1) cl]
  have ids: "ob_ids ob' = ob_ids ob" using fold_store_frame(2) by (simp add: c(2))
  have old: "held now ob' k" "de_id k \<in> de_id ` set ds \<Longrightarrow> de_lease_until k = Some t \<Longrightarrow> t \<le> now" if k: "k \<in> set claims" for k t
  proof -
    obtain u where u: "de_lease_until k = Some u" "u \<le> now + seconds 120"
      "\<And>d. get_delivery (de_id k) ob = Some d \<Longrightarrow> de_status d = ''delivering'' \<and> de_lease_until d = Some u \<and> de_attempts d = de_attempts k \<or> u \<le> now"
      by (rule held_elim [OF claim_held [OF ok(2) k]]) (rule that)
    have late: "u \<le> now" if m: "de_id k \<in> de_id ` set ds"
    proof -
      obtain e where e: "e \<in> set ds" "de_id e = de_id k" using m by auto
      then obtain r where "get_delivery (de_id k) ob = Some r" "claimable now r" using c(3) [OF e(1)] by auto
      then show ?thesis using u(3) claimable_live(2) by blast
    qed
    then show "t \<le> now" if "de_id k \<in> de_id ` set ds" "de_lease_until k = Some t" using that u(1) by simp
    show "held now ob' k"
    proof (rule held_intro [OF u(1,2)])
      fix d assume "get_delivery (de_id k) ob' = Some d"
      then show "de_status d = ''delivering'' \<and> de_lease_until d = Some u \<and> de_attempts d = de_attempts k \<or> u \<le> now"
        using late u(3) by (cases "de_id k \<in> de_id ` set ds") (simp_all add: c(2) fold_store_other)
    qed
  qed
  have new: "de_lease_until d = Some (now + seconds 120)" "held now ob' d" "de_id d \<in> gen ` {..<ob_ids ob}" if d: "d \<in> set ds" for d
  proof -
    obtain r where r: "get_delivery (de_id d) ob = Some r" "d = claim_row now 120 r" using c(3) [OF d] by blast
    then show l: "de_lease_until d = Some (now + seconds 120)" by simp
    have "get_delivery (de_id d) ob' = Some d" "de_status d = ''delivering''" using fold_store_member [OF c(1) d] r(2) by (simp_all add: c(2))
    then show "held now ob' d" using l by (intro held_intro [OF l]) simp_all
    show "de_id d \<in> gen ` {..<ob_ids ob}" using ok(1) r(1) by (simp add: rows_ok_def)
  qed
  let ?key = "\<lambda>c. (de_id c, de_lease_until c)"
  have "set (map ?key claims) \<inter> set (map ?key ds) = {}"
  proof (rule equals0I)
    fix x assume "x \<in> set (map ?key claims) \<inter> set (map ?key ds)"
    then obtain k d where k: "k \<in> set claims" "d \<in> set ds" "?key k = ?key d" by auto
    then have "de_id k \<in> de_id ` set ds" "de_lease_until k = Some (now + seconds 120)" using new(1) by auto
    then show False using old(2) [OF k(1)] by (fastforce simp: seconds_def)
  qed
  moreover have "distinct (map ?key ds)" using c(1) by (auto simp: distinct_map inj_on_def)
  moreover have "distinct (map ?key claims)" using ok(2) by (simp add: claims_ok_def)
  ultimately have "distinct (map ?key (claims @ ds))" by (simp only: map_append distinct_append)
  moreover have "de_id k \<in> gen ` {..<ob_ids ob'} \<and> held now ob' k" if "k \<in> set (claims @ ds)" for k
    using that old(1) new(2,3) ok(2) by (auto simp: ids claims_ok_def)
  ultimately show ?thesis unfolding claims_ok_def by blast
qed

section \<open>Attempts\<close>

text \<open>An attempt a worker may record for a claim.\<close>

definition fair_attempt :: "worker_config \<Rightarrow> outbox \<Rightarrow> delivery \<Rightarrow> attempt \<Rightarrow> bool" where
  "fair_attempt cfg ob c a \<longleftrightarrow> ap_no a = de_attempts c + 1 \<and> ap_status a \<in> {''delivered'', ''failed'', ''expired'', ''retrying''}
     \<and> (ap_status a = ''retrying'' \<longrightarrow> ap_no a < max 1 (wc_max_attempts cfg)
         \<and> (ap_outcome a = ''unknown'' \<longrightarrow> outcomes (de_id c) ''unknown'' ob < wc_max_unknown_retries cfg))
     \<and> (ap_status a = ''delivered'' \<longleftrightarrow> ap_outcome a = ''accepted'')"

lemma status_for_outcome_cases:
  "status_for_outcome x = ''delivered'' \<longleftrightarrow> x = ''accepted''" "status_for_outcome x \<in> {''delivered'', ''failed'', ''retrying''}"
  "status_for_outcome x = ''retrying'' \<Longrightarrow> x \<noteq> ''accepted''"
  by (auto simp: status_for_outcome_def)

lemma outcome_attempt_fair: "fair_attempt cfg ob d (outcome_attempt cfg random d oc now ob)"
proof -
  define status where "status = (if oc_status oc = [] then ''unknown'' else oc_status oc)"
  define s where "s = status_for_outcome status"
  note cases = status_for_outcome_cases [of status, folded s_def]
  consider "s = ''delivered''" | "s = ''failed''" | "s = ''retrying''" using cases(2) by auto
  then show ?thesis
  proof cases
    case 1
    then show ?thesis using cases(1) unfolding fair_attempt_def outcome_attempt_def status_def [symmetric] Let_def s_def [symmetric] by simp
  next
    case 2
    then show ?thesis using cases(1) unfolding fair_attempt_def outcome_attempt_def status_def [symmetric] Let_def s_def [symmetric] by simp
  next
    case 3
    have "ap_no (outcome_attempt cfg random d oc now ob) = de_attempts d + 1" "ap_outcome (outcome_attempt cfg random d oc now ob) = status"
      unfolding outcome_attempt_def status_def [symmetric] Let_def s_def [symmetric] by simp_all
    moreover have "ap_status (outcome_attempt cfg random d oc now ob) =
        (if status = ''unknown'' \<and> wc_max_unknown_retries cfg \<le> count_attempts (de_id d) (Some ''unknown'') ob \<or> max 1 (wc_max_attempts cfg) \<le> de_attempts d + 1
         then ''failed'' else ''retrying'')"
      using 3 unfolding outcome_attempt_def status_def [symmetric] Let_def s_def [symmetric] by simp
    ultimately show ?thesis using cases(3) [OF 3] unfolding fair_attempt_def outcomes_def by auto
  qed
qed

lemma terminal_attempt_fair: "status \<in> {''failed'', ''expired''} \<Longrightarrow> x \<noteq> ''accepted'' \<Longrightarrow> fair_attempt cfg ob d (terminal_attempt d x detail status)"
  by (auto simp: fair_attempt_def terminal_attempt_def)

lemma attempted_row_sel [simp]:
  "de_id (attempted_row a now d) = de_id d" "de_status (attempted_row a now d) = ap_status a"
  "de_attempts (attempted_row a now d) = max (de_attempts d) (ap_no a)"
  by (simp_all add: attempted_row_def Let_def)

lemma record_attempt_cases:
  assumes "record_attempt i a lease now ob = (r, ob')"
  obtains e where "r = Inl e" "ob' = ob"
  | d row where "r = Inr (attempted_row a now d)" "get_delivery i ob = Some d" "owned_by lease now d" "da_delivery row = i" "da_outcome row = ap_outcome a"
      "ob' = ob\<lparr>ob_deliveries := dict_set i (attempted_row a now d) (ob_deliveries ob), ob_attempts := ob_attempts ob @ [row]\<rparr>"
proof (cases "get_delivery i ob")
  case None
  then show ?thesis using assms that(1) by (auto simp: record_attempt_def split: if_splits)
next
  case (Some d)
  show ?thesis
  proof (cases "ap_status a \<in> set delivery_statuses \<and> owned_by lease now d")
    case True
    let ?row = "\<lparr>da_delivery = i, da_no = ap_no a, da_outcome = ap_outcome a, da_detail = ap_detail a,
        da_provider_id = (case ap_provider_id a of Some p \<Rightarrow> if p = [] then None else Some (take 128 p) | None \<Rightarrow> None), da_created_at = now\<rparr>"
    have "r = Inr (attempted_row a now d)" "ob' = ob\<lparr>ob_deliveries := dict_set i (attempted_row a now d) (ob_deliveries ob), ob_attempts := ob_attempts ob @ [?row]\<rparr>"
      using assms Some True by (auto simp: record_attempt_def Let_def)
    then show ?thesis using that(2) [of d ?row] Some True by simp
  next
    case False
    then show ?thesis using assms Some that(1) by (auto simp: record_attempt_def split: if_splits)
  qed
qed

lemma attempts_append:
  assumes "ob_attempts ob' = ob_attempts ob @ [row]"
  shows "attempts_of i ob' = attempts_of i ob @ (if da_delivery row = i then [row] else [])"
    "outcomes i x ob' = outcomes i x ob + (if da_delivery row = i \<and> da_outcome row = x then 1 else 0)"
  using assms by (simp_all add: attempts_of_def outcomes_def count_attempts_def)

lemma claims_remove: "claims_ok gen now claims ob \<Longrightarrow> claims_ok gen now (remove1 c claims) ob"
  unfolding claims_ok_def by (auto simp: distinct_map dest: notin_set_remove1 intro: inj_on_subset distinct_remove1 set_remove1_subset)

lemma row_ok_attempt:
  assumes "row_ok cfg ob d" "de_status d = ''delivering''" "de_attempts d = de_attempts c" "de_id d = de_id c" "fair_attempt cfg ob c a"
    and "ob_attempts ob' = ob_attempts ob @ [row]" "da_delivery row = de_id d" "da_outcome row = ap_outcome a"
  shows "row_ok cfg ob' (attempted_row a now d)"
proof -
  note app = attempts_append [OF assms(6)]
  have l: "live d" "de_status d \<noteq> ''delivered''" using live_cases assms(2) by auto
  note r = assms(1) [unfolded row_ok_def] and f = assms(5) [unfolded fair_attempt_def]
  have no: "max (de_attempts d) (ap_no a) = de_attempts d + 1" using f assms(3) by simp
  have retry: "ap_status a = ''retrying''" if "live (attempted_row a now d)" using that f by (auto simp: live_def)
  have u: "outcomes (de_id d) ''unknown'' ob \<le> wc_max_unknown_retries cfg" using r l by blast
  show ?thesis
    unfolding row_ok_def attempted_row_sel no
  proof (intro conjI impI)
    show "length (attempts_of (de_id d) ob') = de_attempts d + 1" using r assms(7) by (simp add: app)
    show "de_attempts d + 1 \<le> max 1 (wc_max_attempts cfg)" using r l by auto
    show "0 < de_attempts d + 1" by simp
    show "de_attempts d + 1 < max 1 (wc_max_attempts cfg)" if "live (attempted_row a now d)" using retry [OF that] f assms(3) by simp
    show "outcomes (de_id d) ''unknown'' ob' \<le> wc_max_unknown_retries cfg + 1" using u by (simp add: app)
    show "outcomes (de_id d) ''unknown'' ob' \<le> wc_max_unknown_retries cfg" if "live (attempted_row a now d)"
      using retry [OF that] f u assms(4,8) by (auto simp: app)
    show "outcomes (de_id d) ''accepted'' ob' = (if ap_status a = ''delivered'' then 1 else 0)" using r l(2) f assms(7,8) by (simp add: app)
  qed
qed

lemma record_sys_ok:
  assumes ok: "rows_ok gen cfg ob" "claims_ok gen now claims ob" and c: "c \<in> set claims" and fair: "fair_attempt cfg ob c a"
    and rec: "record_attempt (de_id c) a (de_lease_until c) now ob = (r, ob')"
  shows "rows_ok gen cfg ob' \<and> claims_ok gen now (remove1 c claims) ob'"
  using rec
proof (cases rule: record_attempt_cases)
  case (1 e)
  then show ?thesis using ok claims_remove by simp
next
  case (2 d row)
  let ?new = "attempted_row a now d"
  obtain t where t: "de_lease_until c = Some t" "de_status d = ''delivering'' \<and> de_lease_until d = Some t \<and> de_attempts d = de_attempts c \<or> t \<le> now"
    using held_elim [OF claim_held [OF ok(2) c]] 2(2) by metis
  have d: "de_status d = ''delivering''" "de_lease_until d = Some t" "now < t" using 2(3) t(1) by (auto simp: owned_by_def)
  then have n: "de_attempts d = de_attempts c" using t(2) by auto
  have id: "de_id d = de_id c" using ok(1) 2(2) by (simp add: rows_ok_def)
  have att: "ob_attempts ob' = ob_attempts ob @ [row]" and ids: "ob_ids ob' = ob_ids ob"
    and get: "get_delivery i ob' = (if i = de_id c then Some ?new else get_delivery i ob)" for i
    using 2(6) by (simp_all add: get_delivery_def)
  have new: "row_ok cfg ob' ?new"
    using row_ok_attempt [OF _ d(1) n id fair att] 2(2,4,5) ok(1) id by (simp add: rows_ok_def)
  have other: "row_ok cfg ob' e" if "get_delivery i ob = Some e" "i \<noteq> de_id c" for i e
  proof -
    have e: "de_id e = i" "row_ok cfg ob e" using that(1) ok(1) by (auto simp: rows_ok_def)
    then have "attempts_of (de_id e) ob' = attempts_of (de_id e) ob" "outcomes (de_id e) x ob' = outcomes (de_id e) x ob" for x
      using attempts_append [OF att] that(2) 2(4) by simp_all
    then show ?thesis using e(2) unfolding row_ok_def by simp
  qed
  have rows: "rows_ok gen cfg ob'"
    unfolding rows_ok_def
  proof (intro conjI allI impI ballI)
    show "distinct (map fst (ob_deliveries ob'))" using ok(1) 2(6) by (simp add: rows_ok_def distinct_update)
    show "de_id e = i" "i \<in> gen ` {..<ob_ids ob'}" "row_ok cfg ob' e" if "get_delivery i ob' = Some e" for i e
      using that ok(1) new id other [of i e] 2(2) by (auto simp: get ids rows_ok_def split: if_splits)
    show "get_delivery (da_delivery x) ob' \<noteq> None" if "x \<in> set (ob_attempts ob')" for x
      using that ok(1) 2(4) by (auto simp: att get rows_ok_def)
  qed
  have "held now ob' k" if k: "k \<in> set (remove1 c claims)" for k
  proof -
    have k': "k \<in> set claims" using k notin_set_remove1 by metis
    obtain u where u: "de_lease_until k = Some u" "u \<le> now + seconds 120"
      "\<And>e. get_delivery (de_id k) ob = Some e \<Longrightarrow> de_status e = ''delivering'' \<and> de_lease_until e = Some u \<and> de_attempts e = de_attempts k \<or> u \<le> now"
      by (rule held_elim [OF claim_held [OF ok(2) k']]) (rule that)
    show ?thesis
    proof (cases "de_id k = de_id c")
      case True
      have inj: "inj_on (\<lambda>c. (de_id c, de_lease_until c)) (set claims)" "distinct claims" using ok(2) by (auto simp: claims_ok_def distinct_map)
      have "k \<noteq> c" using k inj(2) by auto
      then have "de_lease_until k \<noteq> de_lease_until c" using inj(1) k' c True by (auto simp: inj_on_def)
      then have "u \<noteq> t" using u(1) t(1) by simp
      then have "u \<le> now" using u(3) [of d] True 2(2) d(2) by auto
      then show ?thesis by (intro held_intro [OF u(1,2)]) simp
    next
      case False
      then show ?thesis using u(3) by (intro held_intro [OF u(1,2)]) (simp add: get)
    qed
  qed
  then have "claims_ok gen now (remove1 c claims) ob'" using claims_remove [OF ok(2), of c] unfolding claims_ok_def ids by blast
  then show ?thesis using rows by blast
qed

lemma record_outcome_sys_ok:
  assumes "rows_ok gen cfg ob" "claims_ok gen now claims ob" "c \<in> set claims"
  shows "rows_ok gen cfg (snd (record_outcome cfg random c oc now ob)) \<and> claims_ok gen now (remove1 c claims) (snd (record_outcome cfg random c oc now ob))"
  using record_sys_ok [OF assms outcome_attempt_fair] by (auto simp: record_outcome_def Let_def split: prod.splits sum.splits)

lemma record_terminal_sys_ok:
  assumes "rows_ok gen cfg ob" "claims_ok gen now claims ob" "c \<in> set claims" "status \<in> {''failed'', ''expired''}" "x \<noteq> ''accepted''"
  shows "rows_ok gen cfg (snd (record_terminal c x detail status now ob)) \<and> claims_ok gen now (remove1 c claims) (snd (record_terminal c x detail status now ob))"
  using record_sys_ok [OF assms(1-3) terminal_attempt_fair [OF assms(4,5)]] by (auto simp: record_terminal_def split: prod.splits sum.splits)

section \<open>Deleting history\<close>

lemma get_filter:
  assumes "distinct (map fst xs)"
  shows "dict_get (filter (\<lambda>(i, d). P d) xs) i = (case dict_get xs i of Some d \<Rightarrow> if P d then Some d else None | None \<Rightarrow> None)"
  using assms
proof (induction xs)
  case (Cons x xs)
  have "dict_get (filter (\<lambda>(i, d). P d) xs) (fst x) = None" using Cons.prems by (force simp: map_of_eq_None_iff)
  then show ?case using Cons by (cases x) auto
qed simp

text \<open>What a deletion leaves: rows are only removed, and none that has an attempt.\<close>

definition deletes_untried :: "outbox \<Rightarrow> outbox \<Rightarrow> bool" where
  "deletes_untried ob ob' \<longleftrightarrow> ob_attempts ob' = ob_attempts ob \<and> ob_ids ob' = ob_ids ob
     \<and> (distinct (map fst (ob_deliveries ob)) \<longrightarrow> distinct (map fst (ob_deliveries ob'))
         \<and> (\<forall>i d. get_delivery i ob' = Some d \<longrightarrow> get_delivery i ob = Some d)
         \<and> (\<forall>i d. get_delivery i ob = Some d \<longrightarrow> attempts_of i ob \<noteq> [] \<longrightarrow> get_delivery i ob' = Some d))"

lemma delete_history_cases:
  obtains (refused) "delete_workflow_history subs wid keep ob = (Inl IntegrityError, ob)"
  | (kept) "snd (delete_workflow_history subs wid keep ob) = ob\<lparr>ob_events := map (\<lambda>(i, e). (i, detach_event subs e)) (ob_events ob)\<rparr>"
  | (removed) doomed where "snd (delete_workflow_history subs wid keep ob) =
        ob\<lparr>ob_events := filter (\<lambda>(i, e). sg_workflow e \<noteq> Some wid) (ob_events ob), ob_deliveries := filter (\<lambda>(i, d). \<not> doomed d) (ob_deliveries ob)\<rparr>"
      "\<And>a d. a \<in> set (ob_attempts ob) \<Longrightarrow> (da_delivery a, d) \<in> set (ob_deliveries ob) \<Longrightarrow> \<not> doomed d"
proof (cases keep)
  case True
  then show ?thesis by (intro kept) (simp add: delete_workflow_history_def)
next
  case False
  define doomed where "doomed = (\<lambda>d :: delivery. subs \<noteq> [] \<and> de_event d \<in> set (events_of_workflow wid ob))"
  define bad where "bad \<longleftrightarrow> (\<exists>(i, d) \<in> set (filter (\<lambda>(i, d). \<not> doomed d) (ob_deliveries ob)). de_event d \<in> set (events_of_workflow wid ob))"
  define tried where "tried \<longleftrightarrow> (\<exists>a \<in> set (ob_attempts ob). da_delivery a \<in> fst ` set (filter (\<lambda>(i, d). doomed d) (ob_deliveries ob)))"
  have eq: "delete_workflow_history subs wid keep ob = (if tried then (Inl IntegrityError, ob) else if bad then (Inl IntegrityError, ob)
      else (Inr (0, length (events_of_workflow wid ob), length (filter (\<lambda>(i, d). doomed d) (ob_deliveries ob))),
        ob\<lparr>ob_events := filter (\<lambda>(i, e). sg_workflow e \<noteq> Some wid) (ob_events ob), ob_deliveries := filter (\<lambda>(i, d). \<not> doomed d) (ob_deliveries ob)\<rparr>))"
    unfolding delete_workflow_history_def Let_def if_not_P [OF False] doomed_def bad_def tried_def by (rule refl)
  show ?thesis
  proof (cases "tried \<or> bad")
    case True
    then show ?thesis by (intro refused) (auto simp only: eq if_True if_False split: if_split)
  next
    case no: False
    show ?thesis
    proof (rule removed [of doomed])
      show "snd (delete_workflow_history subs wid keep ob) = ob\<lparr>ob_events := filter (\<lambda>(i, e). sg_workflow e \<noteq> Some wid) (ob_events ob),
          ob_deliveries := filter (\<lambda>(i, d). \<not> doomed d) (ob_deliveries ob)\<rparr>"
        using no by (simp add: eq)
      show "\<not> doomed d" if "a \<in> set (ob_attempts ob)" "(da_delivery a, d) \<in> set (ob_deliveries ob)" for a d
        using no that unfolding tried_def by force
    qed
  qed
qed

lemma delete_history_untried: "deletes_untried ob (snd (delete_workflow_history subs wid keep ob))"
proof (cases rule: delete_history_cases [of subs wid keep ob])
  case (removed doomed)
  show ?thesis
    unfolding deletes_untried_def removed(1)
  proof (intro conjI impI allI)
    let ?ob = "ob\<lparr>ob_events := filter (\<lambda>(i, e). sg_workflow e \<noteq> Some wid) (ob_events ob), ob_deliveries := filter (\<lambda>(i, d). \<not> doomed d) (ob_deliveries ob)\<rparr>"
    assume dis: "distinct (map fst (ob_deliveries ob))"
    then show "distinct (map fst (ob_deliveries ?ob))" using distinct_map_filter [OF dis] by simp
    have get: "get_delivery i ?ob = (case get_delivery i ob of Some d \<Rightarrow> if \<not> doomed d then Some d else None | None \<Rightarrow> None)" for i
      using get_filter [OF dis, of "\<lambda>d. \<not> doomed d"] by (simp add: get_delivery_def)
    show "get_delivery i ob = Some d" if "get_delivery i ?ob = Some d" for i d
      using that unfolding get by (auto split: option.splits if_splits)
    show "get_delivery i ?ob = Some d" if asm: "get_delivery i ob = Some d" "attempts_of i ob \<noteq> []" for i d
    proof -
      obtain a where "a \<in> set (ob_attempts ob)" "da_delivery a = i" using asm(2) by (auto simp: attempts_of_def filter_empty_conv)
      moreover have "(i, d) \<in> set (ob_deliveries ob)" using asm(1) by (simp add: get_delivery_def map_of_SomeD)
      ultimately show ?thesis unfolding get using removed(2) asm(1) by auto
    qed
  qed simp_all
qed (simp_all add: deletes_untried_def get_delivery_def)

lemma untried_ok:
  assumes "deletes_untried ob ob'" "rows_ok gen cfg ob"
  shows "rows_ok gen cfg ob'" "claims_ok gen now claims ob \<Longrightarrow> claims_ok gen now claims ob'"
proof -
  have dis: "distinct (map fst (ob_deliveries ob))" using assms(2) by (simp add: rows_ok_def)
  have att: "ob_attempts ob' = ob_attempts ob" "ob_ids ob' = ob_ids ob" and dis': "distinct (map fst (ob_deliveries ob'))"
    and sub: "\<And>i d. get_delivery i ob' = Some d \<Longrightarrow> get_delivery i ob = Some d"
    and keep: "\<And>i d. get_delivery i ob = Some d \<Longrightarrow> attempts_of i ob \<noteq> [] \<Longrightarrow> get_delivery i ob' = Some d"
    using assms(1) dis unfolding deletes_untried_def by blast+
  have "get_delivery (da_delivery a) ob' \<noteq> None" if "a \<in> set (ob_attempts ob)" for a
  proof -
    obtain d where d: "get_delivery (da_delivery a) ob = Some d" using assms(2) \<open>a \<in> _\<close> by (auto simp: rows_ok_def)
    have "a \<in> set (attempts_of (da_delivery a) ob)" using \<open>a \<in> _\<close> by (simp add: attempts_of_def)
    then have "attempts_of (da_delivery a) ob \<noteq> []" by auto
    then show ?thesis using keep [OF d] by simp
  qed
  then show "rows_ok gen cfg ob'" using assms(2) dis' sub unfolding rows_ok_def att row_ok_cong [OF att(1)] by blast
  show "claims_ok gen now claims ob'" if "claims_ok gen now claims ob"
    using that held_mono [OF _ sub] unfolding claims_ok_def att by blast
qed

text \<open>With a delivery that was tried once, the history of its workflow cannot be deleted.\<close>

lemma tried_history_is_not_deleted:
  assumes "(i, d) \<in> set (ob_deliveries ob)" "de_event d \<in> set (events_of_workflow wid ob)" "a \<in> set (ob_attempts ob)" "da_delivery a = i"
  shows "delete_workflow_history subs wid False ob = (Inl IntegrityError, ob)"
  using assms unfolding delete_workflow_history_def Let_def by (cases "subs = []") force+

section \<open>Histories\<close>

text \<open>
  The outbox as its processes see it: time passes, events and channels are written, workers claim
  deliveries, record the outcome of what they hold, close it without sending, or crash, and the
  operator deletes workflows, with or without their history.
\<close>

inductive outbox_step :: "(nat \<Rightarrow> string) \<Rightarrow> (string \<Rightarrow> string) \<Rightarrow> worker_config \<Rightarrow> outbox_sys \<Rightarrow> outbox_sys \<Rightarrow> bool" for gen sha cfg where
  wait: "oy_now s \<le> t \<Longrightarrow> outbox_step gen sha cfg s (s\<lparr>oy_now := t\<rparr>)"
| signal: "outbox_step gen sha cfg s (s\<lparr>oy_store := snd (record_signal gen sub key fired_at evidence channels workflow t (oy_store s))\<rparr>)"
| attachment: "outbox_step gen sha cfg s (s\<lparr>oy_store := snd (insert_attachment_events gen workflow_id events t n (oy_store s))\<rparr>)"
| notify: "outbox_step gen sha cfg s (s\<lparr>oy_store := snd (enqueue_run_notification gen sha owner run names message key subject t (oy_store s))\<rparr>)"
| channel: "outbox_step gen sha cfg s (s\<lparr>oy_store := snd (upsert_channel gen owner name provider destination secret enabled t (oy_store s))\<rparr>)"
| claim: "claim_deliveries (oy_now s) limit 120 (oy_store s) = (Inr ds, ob) \<Longrightarrow> outbox_step gen sha cfg s (s\<lparr>oy_claims := oy_claims s @ ds, oy_store := ob\<rparr>)"
| sent: "c \<in> set (oy_claims s) \<Longrightarrow>
    outbox_step gen sha cfg s (s\<lparr>oy_claims := remove1 c (oy_claims s), oy_store := snd (record_outcome cfg random c oc (oy_now s) (oy_store s))\<rparr>)"
| closed: "c \<in> set (oy_claims s) \<Longrightarrow> (x, status) \<in> {(''permanent'', ''failed''), (''expired'', ''expired'')} \<Longrightarrow>
    outbox_step gen sha cfg s (s\<lparr>oy_claims := remove1 c (oy_claims s), oy_store := snd (record_terminal c x detail status (oy_now s) (oy_store s))\<rparr>)"
| crash: "outbox_step gen sha cfg s (s\<lparr>oy_claims := remove1 c (oy_claims s)\<rparr>)"
| purge: "outbox_step gen sha cfg s (s\<lparr>oy_store := snd (delete_workflow_history subscription_ids workflow_id keep_history (oy_store s))\<rparr>)"

definition empty_outbox :: outbox where
  "empty_outbox = \<lparr>ob_channels = [], ob_events = [], ob_deliveries = [], ob_attempts = [], ob_ids = 0\<rparr>"

abbreviation outbox_reachable :: "(nat \<Rightarrow> string) \<Rightarrow> (string \<Rightarrow> string) \<Rightarrow> worker_config \<Rightarrow> outbox_sys \<Rightarrow> bool" where
  "outbox_reachable gen sha cfg s \<equiv> \<exists>t. (outbox_step gen sha cfg)\<^sup>*\<^sup>* \<lparr>oy_now = t, oy_claims = [], oy_store = empty_outbox\<rparr> s"

lemma claims_later:
  assumes "claims_ok gen now claims ob" "now \<le> t"
  shows "claims_ok gen t claims ob"
proof -
  have "held t ob c" if "held now ob c" for c
    using that assms(2) by (elim held_elim, intro held_intro) fastforce+
  then show ?thesis using assms(1) unfolding claims_ok_def by blast
qed

lemma step_ok: "outbox_step gen sha cfg s s' \<Longrightarrow> inj gen \<Longrightarrow> sys_ok gen cfg s \<Longrightarrow> sys_ok gen cfg s'"
proof (induction rule: outbox_step.induct)
  case (wait s t)
  then show ?case using claims_later by (auto simp: sys_ok_def)
next
  case (signal s sub key fired_at evidence channels workflow t)
  then show ?case by (intro signal_writer.keeps_sys)
next
  case (attachment s workflow_id events t n)
  then show ?case by (intro attachment_writer.keeps_sys)
next
  case (notify s owner run names message key subject t)
  then show ?case by (intro run_writer.keeps_sys)
next
  case (channel s owner name provider destination secret enabled t)
  then show ?case by (intro channel_writer.keeps_sys)
next
  case (claim s limit ds ob)
  then show ?case using claim_rows_ok [OF _ claim.hyps] claim_claims_ok [OF _ _ claim.hyps] unfolding sys_ok_def by (simp, blast)
next
  case (sent c s random oc)
  then show ?case using record_outcome_sys_ok [of gen cfg "oy_store s" "oy_now s" "oy_claims s" c random oc] unfolding sys_ok_def by simp
next
  case (closed c s x status detail)
  then have "status \<in> {''failed'', ''expired''}" "x \<noteq> ''accepted''" by auto
  then show ?case using record_terminal_sys_ok [of gen cfg "oy_store s" "oy_now s" "oy_claims s" c status x detail] closed unfolding sys_ok_def by simp
next
  case (crash s c)
  then show ?case using claims_remove unfolding sys_ok_def by simp
next
  case (purge s subscription_ids workflow_id keep_history)
  then have ok: "rows_ok gen cfg (oy_store s)" "claims_ok gen (oy_now s) (oy_claims s) (oy_store s)" by (simp_all add: sys_ok_def)
  show ?case using untried_ok(1) [OF delete_history_untried ok(1)] untried_ok(2) [OF delete_history_untried ok] by (simp add: sys_ok_def)
qed

lemma steps_ok: "(outbox_step gen sha cfg)\<^sup>*\<^sup>* s s' \<Longrightarrow> inj gen \<Longrightarrow> sys_ok gen cfg s \<Longrightarrow> sys_ok gen cfg s'"
  by (induction rule: rtranclp_induct) (auto intro: step_ok)

lemma empty_ok: "sys_ok gen cfg \<lparr>oy_now = t, oy_claims = [], oy_store = empty_outbox\<rparr>"
  by (simp add: sys_ok_def rows_ok_def claims_ok_def empty_outbox_def get_delivery_def)

lemma reachable_ok: "outbox_reachable gen sha cfg s \<Longrightarrow> inj gen \<Longrightarrow> sys_ok gen cfg s"
  using steps_ok [OF _ _ empty_ok] by blast

text \<open>
  C18. No delivery is retried for ever: over any history of writers, workers, lost leases and crashes,
  every attempt of a delivery is in the audit log and counted once, there are at most as many as
  the worker's limit, at most one more of unknown outcome than its limit allows to be retried,
  and a delivery has been accepted by its provider at most once on record, exactly when it is
  marked as delivered.
\<close>

theorem attempts_are_bounded:
  assumes "outbox_reachable gen sha cfg s" "inj gen" "get_delivery i (oy_store s) = Some d"
  shows "length (attempts_of i (oy_store s)) = de_attempts d \<and> de_attempts d \<le> max 1 (wc_max_attempts cfg)
    \<and> count_attempts i (Some ''unknown'') (oy_store s) \<le> wc_max_unknown_retries cfg + 1
    \<and> count_attempts i (Some ''accepted'') (oy_store s) = (if de_status d = ''delivered'' then 1 else 0)"
  using reachable_ok [OF assms(1,2)] assms(3) unfolding sys_ok_def rows_ok_def row_ok_def outcomes_def by blast

section \<open>Finished deliveries\<close>




lemma record_outcome_store: "\<exists>a r. record_attempt (de_id c) a (de_lease_until c) now ob = (r, snd (record_outcome cfg random c oc now ob))"
  by (auto simp: record_outcome_def Let_def split: prod.splits sum.splits)

lemma record_terminal_store: "\<exists>a r. record_attempt (de_id c) a (de_lease_until c) now ob = (r, snd (record_terminal c x detail status now ob))"
  by (auto simp: record_terminal_def split: prod.splits sum.splits)



section \<open>Leases\<close>

lemma reachable_claim:
  assumes "outbox_reachable gen sha cfg s" "inj gen" "c \<in> set (oy_claims s)"
  obtains t where "de_lease_until c = Some t"
    "\<And>d. get_delivery (de_id c) (oy_store s) = Some d \<Longrightarrow>
       de_status d = ''delivering'' \<and> de_lease_until d = Some t \<and> de_attempts d = de_attempts c \<or> t \<le> oy_now s"
proof (rule held_elim [OF claim_held [OF _ assms(3)]])
  show "claims_ok gen (oy_now s) (oy_claims s) (oy_store s)" using reachable_ok [OF assms(1,2)] by (simp add: sys_ok_def)
qed (rule that)

lemma record_outcome_owned:
  assumes "record_outcome cfg random c oc now ob = (Inr status, ob')"
  shows "\<exists>d. get_delivery (de_id c) ob = Some d \<and> owned_by (de_lease_until c) now d"
proof -
  obtain r where "record_attempt (de_id c) (outcome_attempt cfg random c oc now ob) (de_lease_until c) now ob = (Inr r, ob')"
    using assms by (auto simp: record_outcome_def Let_def split: prod.splits sum.splits)
  then show ?thesis by (cases rule: record_attempt_cases) auto
qed

lemma outcome_status_known: "ap_status (outcome_attempt cfg random d oc now ob) \<in> set delivery_statuses"
  using outcome_attempt_fair [of cfg ob d random oc now] by (auto simp: fair_attempt_def delivery_statuses_def)

text \<open>
  C19. A delivery has one owner at a time: no claim hands out a delivery whose lease has not expired,
  and of two workers that hold the same delivery, because the lease of one expired, at most one
  can record an outcome; the other is refused and changes nothing.
\<close>

theorem claims_are_exclusive:
  assumes "outbox_reachable gen sha cfg s" "inj gen" "c \<in> set (oy_claims s)" "de_lease_until c = Some t"
  shows "(oy_now s < t \<longrightarrow> claim_deliveries (oy_now s) limit 120 (oy_store s) = (Inr ds, ob) \<longrightarrow> de_id c \<notin> de_id ` set ds)
    \<and> (\<forall>k status ob'. k \<in> set (oy_claims s) \<longrightarrow> k \<noteq> c \<longrightarrow> de_id k = de_id c
        \<longrightarrow> record_outcome cfg random k oc (oy_now s) (oy_store s) = (Inr status, ob')
        \<longrightarrow> record_outcome cfg random' c oc' (oy_now s) (oy_store s) = (Inl LeaseConflict, oy_store s))"
proof (intro conjI allI impI)
  have ok: "rows_ok gen cfg (oy_store s)" "claims_ok gen (oy_now s) (oy_claims s) (oy_store s)"
    using reachable_ok [OF assms(1,2)] by (auto simp: sys_ok_def)
  have row: "de_status d = ''delivering'' \<and> de_lease_until d = Some t \<and> de_attempts d = de_attempts c \<or> t \<le> oy_now s"
    if "get_delivery (de_id c) (oy_store s) = Some d" for d
    using reachable_claim [OF assms(1-3)] assms(4) that by (metis option.inject)
  show "de_id c \<notin> de_id ` set ds" if asm: "oy_now s < t" "claim_deliveries (oy_now s) limit 120 (oy_store s) = (Inr ds, ob)"
  proof
    assume "de_id c \<in> de_id ` set ds"
    then obtain e where "e \<in> set ds" "de_id e = de_id c" by auto
    then obtain r where "get_delivery (de_id c) (oy_store s) = Some r" "claimable (oy_now s) r" using claimed_rows(3) [OF ok(1) asm(2)] by metis
    then show False using row asm(1) claimable_live(2) by force
  qed
  fix k status ob'
  assume k: "k \<in> set (oy_claims s)" "k \<noteq> c" "de_id k = de_id c" "record_outcome cfg random k oc (oy_now s) (oy_store s) = (Inr status, ob')"
  have "inj_on (\<lambda>c. (de_id c, de_lease_until c)) (set (oy_claims s))" using ok(2) by (simp add: claims_ok_def distinct_map)
  then have ne: "de_lease_until k \<noteq> de_lease_until c" using k(1-3) assms(3) unfolding inj_on_def by blast
  obtain u where "de_lease_until k = Some u" using reachable_claim [OF assms(1,2) k(1)] by blast
  then obtain d where d: "get_delivery (de_id c) (oy_store s) = Some d" "de_lease_until d = de_lease_until k"
    using record_outcome_owned [OF k(4)] k(3) by (auto simp: owned_by_def)
  then have "\<not> owned_by (de_lease_until c) (oy_now s) d" using ne assms(4) by (auto simp: owned_by_def)
  then show "record_outcome cfg random' c oc' (oy_now s) (oy_store s) = (Inl LeaseConflict, oy_store s)"
    using d(1) outcome_status_known by (simp add: record_outcome_def Let_def record_attempt_def)
qed

section \<open>The worker's code as a history\<close>

text \<open>What others do while a worker holds a claim: anything that leaves it the claim.\<close>

definition others :: "(nat \<Rightarrow> string) \<Rightarrow> (string \<Rightarrow> string) \<Rightarrow> worker_config \<Rightarrow> delivery \<Rightarrow> outbox_sys \<Rightarrow> outbox_sys \<Rightarrow> bool" where
  "others gen sha cfg d s s' \<longleftrightarrow> outbox_step gen sha cfg s s' \<and> d \<in> set (oy_claims s')"

lemma others_star: "(others gen sha cfg d)\<^sup>*\<^sup>* s s' \<Longrightarrow> d \<in> set (oy_claims s) \<Longrightarrow> (outbox_step gen sha cfg)\<^sup>*\<^sup>* s s' \<and> d \<in> set (oy_claims s') \<and> oy_now s \<le> oy_now s'"
proof (induction rule: rtranclp_induct)
  case (step y z)
  then have "outbox_step gen sha cfg y z" "d \<in> set (oy_claims z)" by (auto simp: others_def)
  moreover from this(1) have "oy_now y \<le> oy_now z" by cases auto
  ultimately show ?case using step by auto
qed simp

abbreviation leads_to :: "(nat \<Rightarrow> string) \<Rightarrow> (string \<Rightarrow> string) \<Rightarrow> worker_config \<Rightarrow> outbox_sys \<Rightarrow> outbox \<Rightarrow> bool" where
  "leads_to gen sha cfg s ob \<equiv> \<exists>s'. (outbox_step gen sha cfg)\<^sup>*\<^sup>* s s' \<and> oy_store s' = ob"

lemma leads_trans: "(outbox_step gen sha cfg)\<^sup>*\<^sup>* s s1 \<Longrightarrow> leads_to gen sha cfg s1 ob \<Longrightarrow> leads_to gen sha cfg s ob"
proof -
  assume a: "(outbox_step gen sha cfg)\<^sup>*\<^sup>* s s1" "leads_to gen sha cfg s1 ob"
  then obtain s' where "(outbox_step gen sha cfg)\<^sup>*\<^sup>* s1 s'" "oy_store s' = ob" by blast
  then show ?thesis using rtranclp_trans [OF a(1)] by blast
qed

lemma record_leads:
  assumes "d \<in> set (oy_claims s)" "oy_now s \<le> t"
  shows "leads_to gen sha cfg s (snd (record_outcome cfg random d oc t (oy_store s)))"
    "(x, status) \<in> {(''permanent'', ''failed''), (''expired'', ''expired'')} \<Longrightarrow> leads_to gen sha cfg s (snd (record_terminal d x detail status t (oy_store s)))"
proof -
  have w: "(outbox_step gen sha cfg)\<^sup>*\<^sup>* s (s\<lparr>oy_now := t\<rparr>)" using assms(2) by (intro r_into_rtranclp outbox_step.wait)
  have "outbox_step gen sha cfg (s\<lparr>oy_now := t\<rparr>) (s\<lparr>oy_now := t, oy_claims := remove1 d (oy_claims s), oy_store := snd (record_outcome cfg random d oc t (oy_store s))\<rparr>)"
    using outbox_step.sent [of d "s\<lparr>oy_now := t\<rparr>" gen sha cfg random oc] assms(1) by simp
  then show "leads_to gen sha cfg s (snd (record_outcome cfg random d oc t (oy_store s)))"
    using w by (intro exI conjI) (erule rtranclp.rtrancl_into_rtrancl, assumption, simp)
  assume "(x, status) \<in> {(''permanent'', ''failed''), (''expired'', ''expired'')}"
  then have "outbox_step gen sha cfg (s\<lparr>oy_now := t\<rparr>) (s\<lparr>oy_now := t, oy_claims := remove1 d (oy_claims s), oy_store := snd (record_terminal d x detail status t (oy_store s))\<rparr>)"
    using outbox_step.closed [of d "s\<lparr>oy_now := t\<rparr>" x status gen sha cfg detail] assms(1) by simp
  then show "leads_to gen sha cfg s (snd (record_terminal d x detail status t (oy_store s)))"
    using w by (intro exI conjI) (erule rtranclp.rtrancl_into_rtrancl, assumption, simp)
qed

lemma record_unexpected_store: "snd (record_unexpected cfg random d e t ob) = snd (record_outcome cfg random d (outcome ''unknown'' (error_text e)) t ob)"
  by (auto simp: record_unexpected_def split: prod.splits sum.splits outbox_error.splits)

lemma record_error_store:
  "record_outcome cfg random d oc t ob = (Inl e, ob') \<Longrightarrow> ob' = ob" "record_terminal d x detail status t ob = (Inl e, ob') \<Longrightarrow> ob' = ob"
  by (auto simp: record_outcome_def record_terminal_def Let_def split: prod.splits sum.splits elim: record_attempt_cases)

text \<open>What the handling of a delivery ends with: a record against some store, or a failure that leaves it alone.\<close>

definition recorded :: "worker_config \<Rightarrow> delivery \<Rightarrow> instant \<Rightarrow> outbox \<Rightarrow> (outbox_error + string) \<times> outbox \<Rightarrow> bool" where
  "recorded cfg d t ob p \<longleftrightarrow> (\<exists>random oc. p = record_outcome cfg random d oc t ob)
     \<or> (\<exists>x status detail. (x, status) \<in> {(''permanent'', ''failed''), (''expired'', ''expired'')} \<and> p = record_terminal d x detail status t ob)
     \<or> (\<exists>e. p = (Inl e, ob))"

lemma recorded_intros:
  "recorded cfg d t ob (record_outcome cfg random d oc t ob)" "recorded cfg d t ob (record_terminal d ''permanent'' detail ''failed'' t ob)"
  "recorded cfg d t ob (record_expired d cx t ob)" "recorded cfg d t ob (Inl e, ob)"
  unfolding recorded_def record_expired_def by blast+

lemma process_one_stages:
  "recorded cfg d (ii_item_now ii) ob (process_one cfg ii d ob) \<or> recorded cfg d (ii_done_now ii) ob (process_one cfg ii d ob)
   \<or> recorded cfg d (ii_send_now ii) (ii_before_send ii ob) (process_one cfg ii d ob)
   \<or> recorded cfg d (ii_done_now ii) (ii_during_send ii (ii_before_send ii ob)) (process_one cfg ii d ob)"
proof (cases "ii_resolved ii ob")
  case (Inr res)
  show ?thesis
  proof (cases res)
    case (Some cx)
    consider "context_expired cx (ii_item_now ii)" | "\<not> context_expired cx (ii_item_now ii)" "get_channel (de_channel d) ob = None"
      | c where "\<not> context_expired cx (ii_item_now ii)" "get_channel (de_channel d) ob = Some c" by fastforce
    then show ?thesis
    proof cases
      case (3 c)
      let ?ob = "ii_before_send ii ob"
      obtain subject body where m: "render d cx (ii_send_now ii) = (subject, body)" by fastforce
      obtain provider destination where t: "send_destination cx c = (provider, destination)" by fastforce
      have "process_one cfg ii d ob = (if \<not> claim_is_current d (ii_send_now ii) ?ob then (Inl LeaseConflict, ?ob)
          else if context_expired cx (ii_send_now ii) then record_expired d cx (ii_send_now ii) ?ob
          else (case ii_send ii provider destination subject body of Inl e \<Rightarrow> (Inl (Raised e), ii_during_send ii ?ob)
            | Inr oc \<Rightarrow> record_outcome cfg (ii_random ii) d oc (ii_done_now ii) (ii_during_send ii ?ob)))"
        using Inr Some 3 m t by (simp add: process_one_def Let_def)
      then show ?thesis using recorded_intros by (simp split: sum.split if_split)
    qed (simp_all add: Inr Some process_one_def recorded_intros)
  qed (simp add: Inr process_one_def recorded_intros)
qed (simp add: process_one_def recorded_intros)

lemma recorded_leads:
  assumes "recorded cfg d t (oy_store s) (r, ob1)" "d \<in> set (oy_claims s)" "oy_now s \<le> t"
  shows "leads_to gen sha cfg s ob1" "r = Inl e \<Longrightarrow> oy_store s = ob1"
proof -
  consider random oc where "(r, ob1) = record_outcome cfg random d oc t (oy_store s)"
    | x status detail where "(x, status) \<in> {(''permanent'', ''failed''), (''expired'', ''expired'')}" "(r, ob1) = record_terminal d x detail status t (oy_store s)"
    | e where "r = Inl e" "ob1 = oy_store s"
    using assms(1) unfolding recorded_def by blast
  then show "leads_to gen sha cfg s ob1"
  proof cases
    case 1
    then show ?thesis using record_leads(1) [OF assms(2,3)] by (metis snd_conv)
  next
    case 2
    then show ?thesis using record_leads(2) [OF assms(2,3)] by (metis snd_conv)
  qed blast
  show "r = Inl e \<Longrightarrow> oy_store s = ob1"
    using assms(1) unfolding recorded_def by (auto dest: record_error_store [OF sym])
qed

lemma item_leads:
  assumes p: "process_one cfg ii d ob = (r, ob1)" and rec: "recorded cfg d t (oy_store s) (r, ob1)"
    and s: "d \<in> set (oy_claims s)" "oy_now s \<le> t" "t \<le> ii_done_now ii"
  shows "leads_to gen sha cfg s (snd (process_item cfg ii d ob))"
proof (cases "\<exists>e. r = Inl e \<and> e \<noteq> LeaseConflict")
  case True
  then obtain e where e: "r = Inl e" "e \<noteq> LeaseConflict" by blast
  then have "process_item cfg ii d ob = record_unexpected cfg (ii_random ii) d e (ii_done_now ii) (oy_store s)"
    using p recorded_leads(2) [OF rec s(1,2)] by (cases e) (simp_all add: process_item_def)
  then show ?thesis using record_leads(1) [OF s(1)] s(2,3) by (simp add: record_unexpected_store)
next
  case False
  then have "process_item cfg ii d ob = (r, ob1)" using p by (cases r) (auto simp: process_item_def split: outbox_error.split)
  then show ?thesis using recorded_leads(1) [OF rec s(1,2)] by simp
qed

text \<open>
  C21. The worker's code implements these histories: handling one claimed delivery, with every early
  return, failing resolver and raising adapter, and with anything done by others before the
  claim is checked and while the provider is called, leaves the store as some history of single
  steps leaves it.
\<close>

theorem process_item_is_history:
  assumes d: "d \<in> set (oy_claims s)" and start: "oy_now s \<le> ii_item_now ii"
    and before: "(others gen sha cfg d)\<^sup>*\<^sup>* (s\<lparr>oy_now := ii_item_now ii\<rparr>) s1" "oy_store s1 = ii_before_send ii (oy_store s)" "oy_now s1 = ii_send_now ii"
    and during: "(others gen sha cfg d)\<^sup>*\<^sup>* s1 s2" "oy_store s2 = ii_during_send ii (oy_store s1)" "oy_now s2 = ii_done_now ii"
  shows "\<exists>s'. (outbox_step gen sha cfg)\<^sup>*\<^sup>* s s' \<and> oy_store s' = snd (process_item cfg ii d (oy_store s))"
proof -
  let ?s0 = "s\<lparr>oy_now := ii_item_now ii\<rparr>"
  have w0: "(outbox_step gen sha cfg)\<^sup>*\<^sup>* s ?s0" using start by (intro r_into_rtranclp outbox_step.wait)
  have 1: "(outbox_step gen sha cfg)\<^sup>*\<^sup>* ?s0 s1" "d \<in> set (oy_claims s1)" "ii_item_now ii \<le> ii_send_now ii"
    using others_star [OF before(1)] d before(3) by auto
  have 2: "(outbox_step gen sha cfg)\<^sup>*\<^sup>* s1 s2" "d \<in> set (oy_claims s2)" "ii_send_now ii \<le> ii_done_now ii"
    using others_star [OF during(1) 1(2)] before(3) during(3) by auto
  have w1: "(outbox_step gen sha cfg)\<^sup>*\<^sup>* s s1" using rtranclp_trans [OF w0 1(1)] .
  have w2: "(outbox_step gen sha cfg)\<^sup>*\<^sup>* s s2" using rtranclp_trans [OF w1 2(1)] .
  obtain r ob1 where p: "process_one cfg ii d (oy_store s) = (r, ob1)" by fastforce
  note lead = item_leads [OF p, where gen = gen and sha = sha]
  consider t where "recorded cfg d t (oy_store s) (r, ob1)" "oy_now s \<le> t" "t \<le> ii_done_now ii"
    | "recorded cfg d (ii_send_now ii) (oy_store s1) (r, ob1)" | "recorded cfg d (ii_done_now ii) (oy_store s2) (r, ob1)"
    using process_one_stages [of cfg d ii "oy_store s"] p before(2) during(2) start 1(3) 2(3) by (auto intro: order_trans)
  then show ?thesis
  proof cases
    case (1 t)
    then show ?thesis using lead d by blast
  next
    case A: 2
    then show ?thesis using leads_trans [OF w1 lead [OF A 1(2)]] before(3) 2(3) by simp
  next
    case A: 3
    then show ?thesis using leads_trans [OF w2 lead [OF A 2(2)]] during(3) by simp
  qed
qed

section \<open>Enqueuing once\<close>

text \<open>The event rows carry their keys, drawn from the generator.\<close>

definition events_ok :: "(nat \<Rightarrow> string) \<Rightarrow> outbox \<Rightarrow> bool" where
  "events_ok gen ob \<longleftrightarrow> fst ` set (ob_events ob) \<subseteq> gen ` {..<ob_ids ob}"

text \<open>
  A write that may add events and keeps what an occurrence key stands for, where that is an event of
  no workflow: the others can be deleted with their workflow.
\<close>

definition keeps_events :: "(nat \<Rightarrow> string) \<Rightarrow> outbox \<Rightarrow> outbox \<Rightarrow> bool" where
  "keeps_events gen ob ob' \<longleftrightarrow> (events_ok gen ob \<longrightarrow> events_ok gen ob'
     \<and> (\<forall>key e. event_by_occurrence key ob = Some e \<longrightarrow> sg_workflow e = None \<longrightarrow> sg_subscription e = None
         \<longrightarrow> event_by_occurrence key ob' = Some e))"

lemma keeps_events_refl [simp]: "keeps_events gen ob ob"
  by (simp add: keeps_events_def)

lemma keeps_events_trans: "keeps_events gen a b \<Longrightarrow> keeps_events gen b c \<Longrightarrow> keeps_events gen a c"
  by (simp add: keeps_events_def)

lemma keeps_events_same: "ob_events ob' = ob_events ob \<Longrightarrow> ob_ids ob \<le> ob_ids ob' \<Longrightarrow> keeps_events gen ob ob'"
  by (auto simp: keeps_events_def events_ok_def event_by_occurrence_def intro!: order_trans [OF _ image_mono])

lemma add_deliveries_events: "ob_events (add_deliveries gen e t cs ob) = ob_events ob" "ob_ids ob \<le> ob_ids (add_deliveries gen e t cs ob)"
proof (induction cs arbitrary: ob)
  case (Cons a cs)
  { case 1 show ?case by (simp add: Let_def Cons) }
  { case 2 show ?case by (simp add: Let_def, rule Suc_leD, rule order_trans [OF _ Cons(2)], simp) }
qed simp_all

lemma update_fresh: "k \<notin> fst ` set xs \<Longrightarrow> AList.update k v xs = xs @ [(k, v)]"
  by (induction xs) auto

lemma find_append: "find P (xs @ ys) = (case find P xs of Some x \<Rightarrow> Some x | None \<Rightarrow> find P ys)"
  by (induction xs) auto

lemma insert_event_keeps:
  assumes "inj gen" "insert_event gen mk channels timestamp ob = Some (e, ob')"
  shows "keeps_events gen ob ob'" "events_ok gen ob \<Longrightarrow> event_by_occurrence (sg_occurrence e) ob' = Some e" "e = mk (gen (ob_ids ob))"
proof -
  let ?i = "gen (ob_ids ob)"
  let ?ob = "ob\<lparr>ob_events := dict_set ?i e (ob_events ob), ob_ids := ob_ids ob + 1\<rparr>"
  have ob': "ob' = add_deliveries gen ?i timestamp (dedup channels) ?ob" and none: "event_by_occurrence (sg_occurrence e) ob = None"
    and e: "e = mk ?i"
    using assms(2) by (auto simp: insert_event_def Let_def split: if_splits)
  then show "e = mk ?i" by simp
  have ev: "ob_events ob' = dict_set ?i e (ob_events ob)" "ob_ids ob < ob_ids ob'"
    using add_deliveries_events(2) [of ?ob gen ?i timestamp "dedup channels"] unfolding ob' by (simp_all add: add_deliveries_events(1))
  have app: "ob_events ob' = ob_events ob @ [(?i, e)]" if "events_ok gen ob"
  proof -
    have "?i \<notin> gen ` {..<ob_ids ob}" using assms(1) by (auto simp: inj_eq)
    then show ?thesis using that update_fresh ev(1) unfolding events_ok_def by (metis subsetD)
  qed
  show "keeps_events gen ob ob'"
    unfolding keeps_events_def
  proof (intro impI conjI allI)
    assume ok: "events_ok gen ob"
    show "events_ok gen ob'" using ok ev(2) unfolding events_ok_def app [OF ok] by auto
    show "event_by_occurrence key ob' = Some x" if "event_by_occurrence key ob = Some x" for key x
      using that unfolding event_by_occurrence_def app [OF ok] map_append find_append by simp
  qed
  show "event_by_occurrence (sg_occurrence e) ob' = Some e" if "events_ok gen ob"
    using none unfolding event_by_occurrence_def app [OF that] map_append find_append by simp
qed

lemma insert_signal_keeps: "inj gen \<Longrightarrow> keeps_events gen ob (snd (insert_signal gen sub key fired_at evidence channels workflow now ob))"
  by (auto simp: insert_signal_def split: option.splits dest: insert_event_keeps(1))

lemma record_signal_keeps: "inj gen \<Longrightarrow> keeps_events gen ob (snd (record_signal gen sub key fired_at evidence channels workflow now ob))"
  by (simp add: record_signal_def insert_signal_keeps)

lemma attachment_keeps: "inj gen \<Longrightarrow> keeps_events gen ob (snd (insert_attachment_events gen workflow events timestamp n ob))"
proof (induction events arbitrary: n ob)
  case (Cons a events)
  obtain r ob1 where r: "insert_signal gen None (at_occurrence a) (at_fired_at a) (at_evidence a) (at_channels a) (Some workflow) timestamp ob = (r, ob1)" by fastforce
  have "keeps_events gen ob ob1" using insert_signal_keeps [OF Cons.prems] r by (metis snd_conv)
  then show ?case using Cons r by (cases r) (auto intro: keeps_events_trans)
qed simp

lemma enqueue_keeps: "inj gen \<Longrightarrow> keeps_events gen ob (snd (enqueue_run_notification gen sha owner run names message key subject fired_at ob))"
  by (auto simp: enqueue_run_notification_def Let_def split: sum.splits option.splits dest: insert_event_keeps(1))

lemma upsert_keeps: "keeps_events gen ob (snd (upsert_channel gen owner name provider destination secret enabled now ob))"
  by (auto simp: upsert_channel_def Let_def split: option.splits intro!: keeps_events_same)

lemma record_keeps: "record_attempt i a lease now ob = (r, ob') \<Longrightarrow> keeps_events gen ob ob'"
  by (cases rule: record_attempt_cases) (auto intro: keeps_events_same)

lemma store_events: "ob_events (fold store_delivery ds ob) = ob_events ob"
  by (induction ds arbitrary: ob) (simp_all add: store_delivery_def)

lemma find_filter_map:
  "find P (map snd xs) = Some e \<Longrightarrow> Q e \<Longrightarrow> find P (map snd (filter (\<lambda>(i, x). Q x) xs)) = Some e"
  "find (\<lambda>x. g x = k) (map snd xs) = Some e \<Longrightarrow> h e = e \<Longrightarrow> (\<And>x. g (h x) = g x) \<Longrightarrow> find (\<lambda>x. g x = k) (map snd (map (\<lambda>(i, x). (i, h x)) xs)) = Some e"
  by (induction xs) (auto split: if_splits)

lemma delete_history_keeps: "keeps_events gen ob (snd (delete_workflow_history subs wid keep ob))"
proof (cases rule: delete_history_cases [of subs wid keep ob])
  case kept
  have d: "sg_occurrence (detach_event subs x) = sg_occurrence x" "sg_subscription x = None \<Longrightarrow> detach_event subs x = x" for x
    by (simp_all add: detach_event_def split: option.split)
  have "event_by_occurrence key (ob\<lparr>ob_events := map (\<lambda>(i, e). (i, detach_event subs e)) (ob_events ob)\<rparr>) = Some e"
    if "event_by_occurrence key ob = Some e" "sg_subscription e = None" for key e
    using find_filter_map(2) [of sg_occurrence key "ob_events ob" e "detach_event subs"] that d
    by (simp add: event_by_occurrence_def)
  moreover have "fst ` set (map (\<lambda>(i, e). (i, detach_event subs e)) (ob_events ob)) = fst ` set (ob_events ob)" by force
  ultimately show ?thesis unfolding keeps_events_def kept events_ok_def by simp
next
  case (removed doomed)
  have "event_by_occurrence key (ob\<lparr>ob_events := filter (\<lambda>(i, e). sg_workflow e \<noteq> Some wid) (ob_events ob), ob_deliveries := ds\<rparr>) = Some e"
    if "event_by_occurrence key ob = Some e" "sg_workflow e = None" for key e ds
    using find_filter_map(1) [of "\<lambda>e. sg_occurrence e = key" "ob_events ob" e "\<lambda>e. sg_workflow e \<noteq> Some wid"] that by (simp add: event_by_occurrence_def)
  then show ?thesis unfolding keeps_events_def removed(1) events_ok_def by auto
qed simp

lemma step_keeps_events: "outbox_step gen sha cfg s s' \<Longrightarrow> inj gen \<Longrightarrow> keeps_events gen (oy_store s) (oy_store s')"
proof (induction rule: outbox_step.induct)
  case (claim s limit ds ob)
  then have "ob = fold store_delivery ds (oy_store s)" by (auto simp: claim_deliveries_def Let_def split: if_splits)
  then show ?case by (auto intro: keeps_events_same simp: store_events fold_store_frame)
next
  case (sent c s random oc)
  then show ?case using record_keeps record_outcome_store [of c "oy_now s" "oy_store s" cfg random oc] by auto
next
  case (closed c s x status detail)
  then show ?case using record_keeps record_terminal_store [of c "oy_now s" "oy_store s" x detail status] by auto
qed (simp_all add: record_signal_keeps attachment_keeps enqueue_keeps upsert_keeps delete_history_keeps)

lemma steps_keep_events: "(outbox_step gen sha cfg)\<^sup>*\<^sup>* s s' \<Longrightarrow> inj gen \<Longrightarrow> keeps_events gen (oy_store s) (oy_store s')"
  by (induction rule: rtranclp_induct) (auto intro: keeps_events_trans step_keeps_events)

lemma reachable_events: "outbox_reachable gen sha cfg s \<Longrightarrow> inj gen \<Longrightarrow> events_ok gen (oy_store s)"
  using steps_keep_events by (fastforce simp: keeps_events_def events_ok_def empty_outbox_def)

lemma enqueue_accepted:
  assumes "enqueue_run_notification gen sha owner run names message key subject t ob = (Inr r, ob1)" "rr_status r = ''accepted''"
  obtains channels e where "resolve_run_channels owner names ob = Inr channels"
    "insert_event gen (run_event owner (str_strip run) (map ch_name channels) (str_strip message) subject (''hosted-run:'' @ str_strip run @ '':'' @ str_strip key) t (rr_hash r))
       (map ch_id channels) t ob = Some (e, ob1)"
    "rr_event r = sg_id e" "rr_hash r = run_content_hash sha (map ch_id channels) (str_strip message) subject"
    "str_strip run \<noteq> []" "str_strip key \<noteq> []" "str_strip message \<noteq> []"
proof -
  have "rr_status x = ''deduped''" if "replay_run_notification sha a b c d f g ob = Inr x" for a b c d f g x
    using that by (auto simp: replay_run_notification_def Let_def split: option.splits if_splits sum.splits)
  then have no: "replay_run_notification sha a b c d f g ob \<noteq> Inr r" for a b c d f g using assms(2) by fastforce
  show thesis
    using assms(1) no by (auto simp: enqueue_run_notification_def Let_def split: if_splits sum.splits option.splits intro!: that)
qed

lemma run_event_sel [simp]:
  "sg_owner (run_event owner run names body subject key t hash i) = Some owner" "sg_id (run_event owner run names body subject key t hash i) = i"
  "sg_occurrence (run_event owner run names body subject key t hash i) = key" "sg_workflow (run_event owner run names body subject key t hash i) = None"
  "sg_subscription (run_event owner run names body subject key t hash i) = None"
  "obj_get (sg_evidence (run_event owner run names body subject key t hash i)) ''content_sha256'' = JStr hash"
  by (simp_all add: run_event_def obj_get_def)

text \<open>
  C20. A notification of a run is enqueued once per key of the run: after one was accepted, whatever
  writers, workers and operators do in between, any later call with the same owner, run and key
  writes nothing, and the event of the key is still the accepted one. If the text of the call is
  blank, or its channel names no longer resolve (a channel was disabled, say), the answer is that
  error; if they resolve and the hash over channel ids, text and subject is the accepted one, the
  answer is the accepted event; if the hash differs, it is the conflict 409. Content is compared by
  that hash only.
\<close>

theorem run_notification_enqueued_once:
  assumes "outbox_reachable gen sha cfg s" "inj gen"
    and "enqueue_run_notification gen sha owner run names message key subject t (oy_store s) = (Inr r, ob1)" "rr_status r = ''accepted''"
    and "(outbox_step gen sha cfg)\<^sup>*\<^sup>* (s\<lparr>oy_store := ob1\<rparr>) s'"
  shows "let again = enqueue_run_notification gen sha owner run names' message' key subject' t' (oy_store s')
    in snd again = oy_store s'
       \<and> map_option sg_id (event_by_occurrence (''hosted-run:'' @ str_strip run @ '':'' @ str_strip key) (oy_store s')) = Some (rr_event r)
       \<and> (if str_strip message' = [] then fst again = Inl (RunNotificationError 422 ''text_required'' ''text is required'')
          else case resolve_run_channels owner names' (oy_store s') of
              Inl err \<Rightarrow> fst again = Inl err
            | Inr channels \<Rightarrow>
                if run_content_hash sha (map ch_id channels) (str_strip message') subject' = rr_hash r
                then \<exists>r'. fst again = Inr r' \<and> rr_status r' = ''deduped'' \<and> rr_event r' = rr_event r \<and> rr_hash r' = rr_hash r
                else fst again = Inl (RunNotificationError 409 ''idempotency_conflict'' ''idempotency key reused with different content''))"
proof -
  let ?occ = "''hosted-run:'' @ str_strip run @ '':'' @ str_strip key"
  obtain cs e where "resolve_run_channels owner names (oy_store s) = Inr cs"
    and a: "insert_event gen (run_event owner (str_strip run) (map ch_name cs) (str_strip message) subject ?occ t (rr_hash r)) (map ch_id cs) t (oy_store s) = Some (e, ob1)"
    "rr_event r = sg_id e" "rr_hash r = run_content_hash sha (map ch_id cs) (str_strip message) subject"
    "str_strip run \<noteq> []" "str_strip key \<noteq> []" "str_strip message \<noteq> []"
    by (rule enqueue_accepted [OF assms(3,4)])
  note k = insert_event_keeps [OF assms(2) a(1)]
  have ok: "events_ok gen (oy_store s)" using reachable_events [OF assms(1,2)] .
  have e: "sg_owner e = Some owner" "sg_occurrence e = ?occ" "sg_workflow e = None" "sg_subscription e = None" "obj_get (sg_evidence e) ''content_sha256'' = JStr (rr_hash r)" using k(3) by simp_all
  have "event_by_occurrence ?occ ob1 = Some e" "events_ok gen ob1" using k(1,2) ok e(2) by (auto simp: keeps_events_def)
  then have here: "event_by_occurrence ?occ (oy_store s') = Some e"
    using steps_keep_events [OF assms(5,2)] e by (simp add: keeps_events_def)
  have own: "str_or (Some owner) [] = owner" by (cases owner) (simp_all add: str_or_def)
  have hash: "(if jtruth (JStr (rr_hash r)) then text_of (JStr (rr_hash r)) else []) = rr_hash r" by (simp add: text_of_def)
  have none: "insert_event gen (run_event owner (str_strip run) ns body sub ?occ t'' h) ids t'' (oy_store s') = None" for ns body sub t'' h ids
    using here by (simp add: insert_event_def Let_def)
  show ?thesis
    using a(2,4,5) none here e own hash
    by (cases "resolve_run_channels owner names' (oy_store s')") (simp_all add: enqueue_run_notification_def replay_run_notification_def Let_def)
qed

section \<open>A history\<close>

text \<open>A channel is set, a run notifies it, a worker claims the delivery and the provider accepts it.\<close>

definition demo_worker :: worker_config where
  "demo_worker = \<lparr>wc_max_attempts = 5, wc_max_unknown_retries = 1, wc_default_backoff = 30, wc_jitter_fraction = 0\<rparr>"

definition demo_sys :: "delivery list \<Rightarrow> outbox \<Rightarrow> outbox_sys" where
  "demo_sys claims ob = \<lparr>oy_now = 0, oy_claims = claims, oy_store = ob\<rparr>"

definition demo_claim :: delivery where
  "demo_claim = claim_row 0 120 demo_delivery"

definition demo_claimed :: outbox where
  "demo_claimed = store_delivery demo_claim demo_outbox"

definition demo_sent :: outbox where
  "demo_sent = snd (record_outcome demo_worker 0 demo_claim (outcome ''accepted'' ''accepted'') 0 demo_claimed)"

lemma demo_sys_sel [simp]: "oy_now (demo_sys cs ob) = 0" "oy_claims (demo_sys cs ob) = cs" "oy_store (demo_sys cs ob) = ob"
    "(demo_sys cs ob)\<lparr>oy_store := ob'\<rparr> = demo_sys cs ob'" "(demo_sys cs ob)\<lparr>oy_claims := cs', oy_store := ob'\<rparr> = demo_sys cs' ob'"
    "(demo_sys cs ob)\<lparr>oy_now := 0\<rparr> = demo_sys cs ob"
  by (simp_all add: demo_sys_def)

lemma demo_claiming: "claim_deliveries 0 5 120 demo_outbox = (Inr [demo_claim], demo_claimed)"
  by code_simp

lemma demo_steps:
  "outbox_step demo_ids id demo_worker (demo_sys [] empty_outbox) (demo_sys [] demo_channels)"
  "outbox_step demo_ids id demo_worker (demo_sys [] demo_channels) (demo_sys [] demo_outbox)"
  "outbox_step demo_ids id demo_worker (demo_sys [] demo_outbox) (demo_sys [demo_claim] demo_claimed)"
  "outbox_step demo_ids id demo_worker (demo_sys [demo_claim] demo_claimed) (demo_sys [] demo_sent)"
proof -
  note step = outbox_step.intros [where gen = demo_ids and sha = id and cfg = demo_worker]
  show "outbox_step demo_ids id demo_worker (demo_sys [] empty_outbox) (demo_sys [] demo_channels)"
    using step(5) [of "demo_sys [] empty_outbox"] by (simp add: demo_channels_def empty_outbox_def)
  show "outbox_step demo_ids id demo_worker (demo_sys [] demo_channels) (demo_sys [] demo_outbox)"
    using step(4) [of "demo_sys [] demo_channels"] by (simp add: demo_outbox_def)
  show "outbox_step demo_ids id demo_worker (demo_sys [] demo_outbox) (demo_sys [demo_claim] demo_claimed)"
    using step(6) [of "demo_sys [] demo_outbox"] demo_claiming by simp
  show "outbox_step demo_ids id demo_worker (demo_sys [demo_claim] demo_claimed) (demo_sys [] demo_sent)"
    using step(7) [of demo_claim "demo_sys [demo_claim] demo_claimed"] by (simp add: demo_sent_def)
qed

lemma demo_reachable:
  "outbox_reachable demo_ids id demo_worker (demo_sys [] demo_channels)"
  "outbox_reachable demo_ids id demo_worker (demo_sys [demo_claim] demo_claimed)"
  "outbox_reachable demo_ids id demo_worker (demo_sys [] demo_sent)"
proof -
  have 0: "(outbox_step demo_ids id demo_worker)\<^sup>*\<^sup>* \<lparr>oy_now = 0, oy_claims = [], oy_store = empty_outbox\<rparr> (demo_sys [] empty_outbox)"
    by (simp add: demo_sys_def)
  note 1 = rtranclp.rtrancl_into_rtrancl [OF 0 demo_steps(1)]
  note 3 = rtranclp.rtrancl_into_rtrancl [OF rtranclp.rtrancl_into_rtrancl [OF 1 demo_steps(2)] demo_steps(3)]
  show "outbox_reachable demo_ids id demo_worker (demo_sys [] demo_channels)" using 1 by blast
  show "outbox_reachable demo_ids id demo_worker (demo_sys [demo_claim] demo_claimed)" using 3 by blast
  show "outbox_reachable demo_ids id demo_worker (demo_sys [] demo_sent)" using rtranclp.rtrancl_into_rtrancl [OF 3 demo_steps(4)] by blast
qed

lemma demo_sent_row: "map_option (\<lambda>d. (de_status d, de_attempts d)) (get_delivery ''xx'' demo_sent) = Some (''delivered'', 1)"
  by code_simp

theorem attempts_are_bounded_witness:
  "\<exists>d. get_delivery ''xx'' demo_sent = Some d \<and> length (attempts_of ''xx'' demo_sent) = 1 \<and> count_attempts ''xx'' (Some ''accepted'') demo_sent = 1"
proof -
  obtain d where d: "get_delivery ''xx'' demo_sent = Some d" "de_status d = ''delivered''" "de_attempts d = 1" using demo_sent_row by auto
  then show ?thesis using attempts_are_bounded [OF demo_reachable(3) demo_ids_inj, of "''xx''" d] by simp
qed


theorem claims_are_exclusive_witness:
  "case claim_deliveries 0 5 120 demo_claimed of (Inr ds, _) \<Rightarrow> de_id demo_claim \<notin> de_id ` set ds | _ \<Rightarrow> True"
proof -
  have c: "demo_claim \<in> set (oy_claims (demo_sys [demo_claim] demo_claimed))" "de_lease_until demo_claim = Some (seconds 120)"
    by (simp_all add: demo_claim_def claim_row_def)
  note claims_are_exclusive [OF demo_reachable(2) demo_ids_inj c, where limit = 5]
  then have "claim_deliveries 0 5 120 demo_claimed = (Inr ds, ob) \<Longrightarrow> de_id demo_claim \<notin> de_id ` set ds" for ds ob
    by (simp add: seconds_def)
  then show ?thesis by (auto split: prod.splits sum.splits)
qed

definition demo_item :: item_input where
  "demo_item = \<lparr>ii_resolved = resolve (\<lambda>_. Inr None) ''xx'', ii_send = (\<lambda>_ _ _ _. Inr (outcome ''accepted'' ''accepted'')), ii_item_now = 0,
     ii_send_now = 0, ii_done_now = 0, ii_random = 0, ii_before_send = id, ii_during_send = id\<rparr>"

theorem process_item_is_history_witness:
  "\<exists>s'. (outbox_step demo_ids id demo_worker)\<^sup>*\<^sup>* (demo_sys [demo_claim] demo_claimed) s'
     \<and> oy_store s' = snd (process_item demo_worker demo_item demo_claim demo_claimed)"
  using process_item_is_history [of demo_claim "demo_sys [demo_claim] demo_claimed" demo_item demo_ids id demo_worker
      "demo_sys [demo_claim] demo_claimed" "demo_sys [demo_claim] demo_claimed"]
  by (simp add: demo_item_def)

lemma demo_enqueue:
  obtains r cs where "enqueue_run_notification demo_ids id ''owner'' ''r1'' [''phone''] ''filled'' ''k1'' None 0 demo_channels = (Inr r, demo_outbox)"
    "rr_status r = ''accepted''" "rr_hash r = run_content_hash id [[]] (str_strip ''filled'') None"
    "resolve_run_channels ''owner'' [''phone''] demo_outbox = Inr cs" "map ch_id cs = [[]]"
proof -
  let ?e = "enqueue_run_notification demo_ids id ''owner'' ''r1'' [''phone''] ''filled'' ''k1'' None 0 demo_channels"
  have "case fst ?e of Inr r \<Rightarrow> rr_status r = ''accepted'' \<and> rr_hash r = run_content_hash id [[]] (str_strip ''filled'') None | _ \<Rightarrow> False" by code_simp
  then obtain r where "fst ?e = Inr r" "rr_status r = ''accepted''" "rr_hash r = run_content_hash id [[]] (str_strip ''filled'') None"
    by (auto split: sum.splits)
  moreover have "case resolve_run_channels ''owner'' [''phone''] demo_outbox of Inr cs \<Rightarrow> map ch_id cs = [[]] | _ \<Rightarrow> False" by code_simp
  then obtain cs where "resolve_run_channels ''owner'' [''phone''] demo_outbox = Inr cs" "map ch_id cs = [[]]" by (auto split: sum.splits)
  moreover have "snd ?e = demo_outbox" by (simp only: demo_outbox_def)
  ultimately show thesis by (intro that [of r cs]) (simp_all add: prod_eq_iff)
qed

theorem run_notification_enqueued_once_witness:
  "\<exists>r r'. enqueue_run_notification demo_ids id ''owner'' ''r1'' [''phone''] ''filled'' ''k1'' None 0 demo_channels = (Inr r, demo_outbox)
     \<and> enqueue_run_notification demo_ids id ''owner'' ''r1'' [''phone''] ''filled'' ''k1'' None 9 demo_outbox = (Inr r', demo_outbox)
     \<and> rr_status r' = ''deduped'' \<and> rr_event r' = rr_event r"
proof -
  obtain r cs where r: "enqueue_run_notification demo_ids id ''owner'' ''r1'' [''phone''] ''filled'' ''k1'' None 0 demo_channels = (Inr r, demo_outbox)"
    "rr_status r = ''accepted''" "rr_hash r = run_content_hash id [[]] (str_strip ''filled'') None"
    "resolve_run_channels ''owner'' [''phone''] demo_outbox = Inr cs" "map ch_id cs = [[]]"
    by (rule demo_enqueue)
  have ne: "str_strip ''filled'' \<noteq> []" by code_simp
  let ?e = "enqueue_run_notification demo_ids id ''owner'' ''r1'' [''phone''] ''filled'' ''k1'' None 9 demo_outbox"
  have "snd ?e = demo_outbox \<and> (\<exists>r'. fst ?e = Inr r' \<and> rr_status r' = ''deduped'' \<and> rr_event r' = rr_event r \<and> rr_hash r' = rr_hash r)"
    using run_notification_enqueued_once [OF demo_reachable(1) demo_ids_inj, unfolded demo_sys_sel, OF r(1,2), of "demo_sys [] demo_outbox", unfolded demo_sys_sel,
        OF rtranclp.rtrancl_refl, of "[''phone'']" "''filled''" None 9] r(3-5) ne
    unfolding Let_def by (simp only: sum.case if_True if_False)
  then obtain r' where "snd ?e = demo_outbox" "fst ?e = Inr r'" "rr_status r' = ''deduped''" "rr_event r' = rr_event r" by blast
  then show ?thesis using r(1) by (intro exI [of _ r] exI [of _ r'] conjI) (simp_all only: prod_eq_iff fst_conv snd_conv)
qed

end
