(* ===== verification/Spec2Isabelle.thy ===== *)
theory Spec2Isabelle
  imports Reconciliation StageTheorems AlertEngine PaperExit LifecycleTheorems ProtectionExits OutboxTheorems
begin

text \<open>
  A verification development for the trading platform under \<open>src/backend\<close>: a FastAPI service that
  evaluates alert conditions over a market stream, executes paper orders, and runs hosted
  strategies as supervised child processes that reach it through a worker API.

  \<^bold>\<open>The parts and how they interact.\<close> An alert workflow's conditions are evaluated on every event
  (\<open>alerts/predicates.py\<close>) and an evaluation that fires passes the trigger gate
  (\<open>alerts/engine.py\<close>). Orders of paper runs go through the paper service
  (\<open>paper_runtime/service.py\<close>) to the paper repository (\<open>paper_runtime/repository.py\<close>); the state
  of a run is the replay of its trades (\<open>paper_runtime/run_state.py\<close>). An operator configures
  hosted strategies and starts and stops jobs through \<open>api/routers/strategies.py\<close>; jobs live in a
  ledger (\<open>strategies/repository.py\<close>); a supervisor claims a job, prepares its launch and ends it
  through \<open>api/services/hosted_lifecycle.py\<close>; the child it starts authenticates with a token of the
  worker store (\<open>api/repositories/algo_worker_repo.py\<close>) and each of its requests is checked against
  the job row (\<open>api/services/hosted_attempt.py\<close>). An attempt that may have traded blocks its
  strategy until the operator's reconciliation (\<open>strategies/reconciliation.py\<close>), whose evidence
  includes the settlement of the run that the paper service reports. A worker run may carry a
  backend protection (\<open>api/services/protection.py\<close>), which a loop evaluates against the run's open
  legs and which exits the run when a rule is breached (\<open>protection_runtime.py\<close>); orders of a run
  pass a safety gate that looks at its protection (\<open>safety.py\<close>, \<open>api/routers/worker_protection.py\<close>);
  runs whose worker went away are recovered by two sweeps (\<open>runtime_recovery.py\<close>). Emitted alerts,
  screener events and the notifications of a run become rows of an outbox
  (\<open>notifications/repository.py\<close>), which a worker claims, renders (\<open>message.py\<close>), sends through an
  adapter and records (\<open>worker.py\<close>).

  \<^bold>\<open>Theories.\<close>
  \<^item> \<open>Prelude\<close>: Python strings, dicts in insertion order, optional values, sums of rationals, and the
    collections of simplification rules the components share. \<open>Json\<close>: JSON values, their
    canonical text and truth values.
  \<^item> \<open>Reconciliation\<close>: evidence, its assessment and digest, and the collector with its
    fail-closed readers (\<open>strategies/reconciliation.py\<close>, \<open>reconciliation_service.py\<close>). When a block
    may be cleared, and that a trading attempt never is.
  \<^item> \<open>AlertModel\<close> (document types and operand parser of \<open>workflows\<close>), \<open>Predicates\<close> (the operators
    and stages of \<open>alerts/predicates.py\<close>), \<open>PredicateTheorems\<close> and \<open>StageTheorems\<close> (each operator
    against a declarative reading of its observations, groups against Kleene logic, sequences and
    consecutive bars), \<open>AlertEngine\<close> (triggers, sessions and cooldowns of \<open>alerts/engine.py\<close>; how
    often and how close together an alert is emitted).
  \<^item> \<open>PaperModels\<close>, \<open>PaperStore\<close>, \<open>PaperService\<close>, \<open>PaperHandlers\<close>: orders, costs and margin, the
    repository and the order, basket, tick and reset handlers. The order path exists twice in the
    code, plain and inside a unit of work; both are modelled from their own bodies, helpers
    included, and \<open>uow_copies\<close> shows where they agree. \<open>PaperInvariant\<close>, \<open>PaperFunds\<close>,
    \<open>PaperTheorems\<close>: the books balance after every handler, a tick settles every due order, the
    atomic basket is all or nothing, its orders agree with orders placed alone. \<open>PaperPositions\<close>: fills, lots, admission. \<open>PaperRuns\<close>,
    \<open>PaperRunTheorems\<close>, \<open>PaperExit\<close>: run state, settlement and strategy exits.
  \<^item> \<open>StrategyModel\<close> (\<open>strategies/service.py\<close>, \<open>algo_runtime/account_scope.py\<close>): validation and
    snapshots. \<open>StrategyStore\<close>: the rows and every operation of \<open>strategies/repository.py\<close>.
    \<open>StrategyTheorems\<close>: the row invariant and the order in which a job advances; the contract of a
    fenced update is the locale \<open>fenced_update\<close>, interpreted on each transition. \<open>StrategyLedger\<close>:
    the ledger as a step relation; one blocking job per strategy, jobs only advance, the
    status of a job changes at most five times, creation replays.
  \<^item> \<open>WorkerStore\<close> and \<open>WorkerTheorems\<close>: tokens, runs, sessions and intents, their authorization,
    and what they keep over any history.
  \<^item> \<open>HostedAttempt\<close>: the authority of a child; it is exclusive and never regained. \<open>OperatorRoutes\<close>:
    the operator's routes; reconciliation clears a block only on evidence, stop ends authority.
  \<^item> \<open>HostedLifecycle\<close> and \<open>LifecycleTheorems\<close>: preparation, heartbeat, release, expiry, fencing,
    cleanup and log reports, over both stores, with interference before every call and any call
    raising. A prepared launch is bound to its attempt, a failed one fails closed, an attempt is
    prepared at most once, an ended one stays blocked, only redacted output is stored.
  \<^item> \<open>Protection\<close>: configuration, normalization of open legs, rules and evaluation.
    \<open>ProtectionRuntime\<close>: the conditional writes of a run row, the evaluation loop with its claims
    and answers, the worker's reset, and the safety gate. \<open>RuntimeRecovery\<close>: settlement and the
    recovery sweeps. \<open>ProtectionTheorems\<close>: an active verdict means that no rule is breached by
    what the code measures, and a trigger names a breached one. \<open>ProtectionExits\<close>: over any history
    of complete, successive evaluations of a run it is exited finally at most once (what surrounds
    an evaluation is the locale \<open>reset_action\<close>, interpreted on each route); an accepted token means
    a tradable run but for a triggered options rule; recovery closes only settled runs. Lemmas on
    concrete rows show how concurrent claims and recovery lead to a second exit.
  \<^item> \<open>Messages\<close>: the message builders and the adapters. \<open>Outbox\<close>: channels, events, deliveries and
    attempts, the deletion of a workflow's history (\<open>api/routers/alerts_operator.py\<close>), and the
    delivery worker. \<open>MessageTheorems\<close>: messages keep their limits, name their
    event and reach the provider whole. \<open>OutboxTheorems\<close>: the outbox as a step relation of its
    writers, of any number of workers, which may crash, and of the operator's deletions (what a writer keeps is the locale
    \<open>outbox_writer\<close>, interpreted on each); attempts are bounded, claims are exclusive, a finished
    delivery is final, the worker's code is a history of these steps, and a notification of a run
    is enqueued once.

  \<^bold>\<open>How the code is represented.\<close> A class or row is a record, a table a dict in insertion order, an
  exception a value of a sum type. A repository operation is one transaction: a function from the
  store to its result and the store it commits; an \<open>UPDATE ... WHERE\<close> is a guard and a new row.
  Operations that make several calls are functions of what happens between the calls: two stores
  for a route, \<open>surroundings\<close> for the lifecycle. The loops of the code run over lists and are total
  functions; no fuel is used. Amounts and prices are exact rationals, rounded where the code
  quantizes (\<open>NUMERIC(18,6)\<close>, charges); instants are integer microseconds, with one clock reading
  per operation; strings are lists of 8-bit characters, those above 127 being two bytes of UTF-8.
  Floats and 28-digit decimals are taken as the rationals they stand for, without their rounding,
  and NaN and infinities are outside the model. A call that raises has committed nothing; one that
  commits and then raises is not modelled, nor is a failing write of the protection loop. Generated
  identifiers are taken as distinct where a lemma needs it, also where the code shortens them to 12
  hexadecimal digits. Length limits of the request schemas are not
  checked. Unique keys are guards of the inserts; the foreign keys are checked where
  outbox rows are deleted.
  The hash, the identifier generator, the JSON-schema library, the clock, the broker, the HTTP
  exchange of the adapters and the journal and redaction services are parameters of the operations
  that call them.

  \<^bold>\<open>Not modelled.\<close> The workflow compiler, runtime and repositories, universes, screeners and
  external signals (\<open>workflows\<close>, \<open>screeners\<close>), except the document types, the operand parser and
  the writes of signal events; the
  market stream and feature computation (\<open>alerts/market_stream.py\<close>, \<open>alerts/features.py\<close>), whose
  output enters as the values of operands; the live broker (\<open>broker_api\<close>), journal (\<open>journaling\<close>),
  and options (\<open>options\<close>) subsystems, which the modelled parts only call; the views and streams of \<open>api/routers/worker_protection.py\<close>; the supervisor process
  (\<open>strategies/supervisor*.py\<close>), the client of the lifecycle modelled here; FastAPI glue, database
  migrations, the frontend and the other services. Log messages and journal calls are left out
  throughout: nothing modelled reads them.
\<close>

end
